(* ===== verification/Prelude.thy ===== *)
theory Prelude
  imports Main "HOL-Library.Word"
begin

text \<open>
  Shared vocabulary of the development: the machine types of the source, buffers written at an
  offset, and the wrap-around deadline test that every component of the library repeats.
  A buffer is a list of bytes; \<open>poke\<close> is a \<open>memcpy\<close> into it. A write that leaves the
  buffer makes the list longer, so the fact that a buffer keeps its length is the fact that
  every write into it was in bounds.
\<close>

type_synonym byte = "8 word"
type_synonym u16 = "16 word"
type_synonym u32 = "32 word"
type_synonym u64 = "64 word"

text \<open>\<open>size_t\<close> is 32 bits wide on the ESP32; a C string is its bytes before the terminator.\<close>

type_synonym size_t = "32 word"
type_synonym cstring = "byte list"

named_theorems buf_simps

definition poke :: "nat \<Rightarrow> 'a list \<Rightarrow> 'a list \<Rightarrow> 'a list" where
  "poke off bs buf = take off buf @ bs @ drop (off + length bs) buf"

definition subbuf :: "nat \<Rightarrow> nat \<Rightarrow> 'a list \<Rightarrow> 'a list" where
  "subbuf off n buf = take n (drop off buf)"

text \<open>The deadline test of every \<open>poll()\<close>: \<open>(int32_t)(millis() - deadline_) >= 0\<close>.\<close>

definition expired :: "u32 \<Rightarrow> u32 \<Rightarrow> bool" where
  "expired now deadline \<longleftrightarrow> 0 \<le> sint (now - deadline)"

subsection \<open>Buffers\<close>

lemma length_poke [simp, buf_simps]:
  "off + length bs \<le> length buf \<Longrightarrow> length (poke off bs buf) = length buf"
  by (simp add: poke_def)

lemma length_poke_grows:
  "off \<le> length buf \<Longrightarrow> length (poke off bs buf) = max (length buf) (off + length bs)"
  by (simp add: poke_def max_def)

lemma take_poke_prefix [buf_simps]:
  "n \<le> off \<Longrightarrow> off \<le> length buf \<Longrightarrow> take n (poke off bs buf) = take n buf"
  by (simp add: poke_def min_def)

lemma take_poke_extend [buf_simps]:
  "n = off + length bs \<Longrightarrow> off \<le> length buf \<Longrightarrow>
    take n (poke off bs buf) = take off buf @ bs"
  by (simp add: poke_def)

lemma drop_poke [buf_simps]:
  "off + length bs \<le> length buf \<Longrightarrow> drop off (poke off bs buf) = bs @ drop (off + length bs) buf"
  by (simp add: poke_def)

lemma drop_poke_after:
  "off + length bs \<le> n \<Longrightarrow> off \<le> length buf \<Longrightarrow> drop n (poke off bs buf) = drop n buf"
  by (simp add: poke_def)

lemma poke_poke_adjacent:
  assumes "off2 = off + length xs" and "off2 + length ys \<le> length buf"
  shows "poke off2 ys (poke off xs buf) = poke off (xs @ ys) buf"
  using assms by (cases xs) (auto simp: poke_def min_def ac_simps)

lemma poke_Nil [simp]: "poke off [] buf = buf"
  by (simp add: poke_def)

lemma subbuf_alt: "subbuf off n buf = drop off (take (off + n) buf)"
  by (simp add: subbuf_def take_drop add.commute)

lemma length_subbuf [simp]: "off + n \<le> length buf \<Longrightarrow> length (subbuf off n buf) = n"
  by (simp add: subbuf_def)

lemma length_subbuf_le: "length (subbuf off n buf) \<le> n"
  by (simp add: subbuf_def)

lemma subbuf_poke_same [simp]:
  "n = length bs \<Longrightarrow> off + n \<le> length buf \<Longrightarrow> subbuf off n (poke off bs buf) = bs"
  by (simp add: subbuf_def drop_poke)

lemma subbuf_poke_before:
  assumes "o2 + n \<le> off" and "off \<le> length buf"
  shows "subbuf o2 n (poke off bs buf) = subbuf o2 n buf"
  using assms by (simp add: subbuf_alt take_poke_prefix)

lemma subbuf_poke_after:
  assumes "off + length bs \<le> o2" and "off \<le> length buf"
  shows "subbuf o2 n (poke off bs buf) = subbuf o2 n buf"
  using assms by (simp add: subbuf_def drop_poke_after)

lemma subbuf_poke_disjoint:
  assumes "o2 + n \<le> off \<or> off + length bs \<le> o2" and "off \<le> length buf"
  shows "subbuf o2 n (poke off bs buf) = subbuf o2 n buf"
  using assms subbuf_poke_before subbuf_poke_after by blast

lemma take_subbuf_append: "n \<le> m \<Longrightarrow> take n buf @ subbuf n (m - n) buf = take m buf"
  by (simp add: subbuf_def take_add [symmetric])

lemma take_split_subbuf:
  "k \<le> m \<Longrightarrow> take n buf @ take k (subbuf n m buf) = take (n + k) buf"
  by (simp add: subbuf_def take_add)

subsection \<open>C strings\<close>

text \<open>\<open>strncpy\<close> of at most 63 bytes into a slot of 64, which pads with zeros, and the terminator.\<close>

definition name_slot :: "cstring \<Rightarrow> byte list" where
  "name_slot name =
     take (63) (name @ replicate (63) 0) @ [0]"

definition c_string :: "byte list \<Rightarrow> cstring" where
  "c_string bs = takeWhile (\<lambda>b. b \<noteq> 0) bs"

lemma length_name_slot [simp]: "length (name_slot nm) = 64"
  by (simp add: name_slot_def)

lemma c_string_slot: "0 \<notin> set nm \<Longrightarrow> length nm < 64 \<Longrightarrow> c_string (name_slot nm) = nm"
proof -
  assume nm: "0 \<notin> set nm" "length nm < 64"
  then have "takeWhile (\<lambda>b. b \<noteq> 0) (nm @ replicate (63 - length nm) 0 @ [0]) = nm"
    by (subst takeWhile_append2) (auto simp: takeWhile_eq_Nil_iff hd_append)
  moreover have "name_slot nm = nm @ replicate (63 - length nm) 0 @ [0]"
    using nm by (simp add: name_slot_def)
  ultimately show ?thesis
    by (simp add: c_string_def)
qed

subsection \<open>Deadlines\<close>

lemma sint_nonneg_iff: "0 \<le> sint (w :: u32) \<longleftrightarrow> unat w < 2 ^ 31"
proof -
  have "0 \<le> sint w \<longleftrightarrow> \<not> bit w 31"
    by (simp add: not_less [symmetric] sint_uint bit_uint_iff)
  also have "\<dots> \<longleftrightarrow> unat w < 2 ^ 31"
  proof -
    have lt: "unat w < 2 ^ 32"
      using unsigned_less [of w] by simp
    have "bit w 31 \<longleftrightarrow> bit (unat w) 31"
      by (simp add: bit_unsigned_iff)
    also have "\<dots> \<longleftrightarrow> odd (unat w div 2 ^ 31)"
      by (rule bit_iff_odd)
    also have "\<dots> \<longleftrightarrow> 2 ^ 31 \<le> unat w"
    proof -
      have "unat w div 2 ^ 31 < 2"
        using lt by (simp add: less_mult_imp_div_less)
      then have "odd (unat w div 2 ^ 31) \<longleftrightarrow> unat w div 2 ^ 31 \<noteq> 0"
        by (cases "unat w div 2 ^ 31 = 0") (auto simp: less_2_cases_iff)
      then show ?thesis
        by (simp add: div_eq_0_iff not_less)
    qed
    finally show ?thesis by auto
  qed
  finally show ?thesis .
qed

lemma expired_elapsed: "expired (start + e) (start + t) \<longleftrightarrow> unat (e - t) < 2 ^ 31"
  by (simp add: expired_def sint_nonneg_iff)

lemma expired_within_half:
  assumes "unat t < 2 ^ 31" and "unat e < 2 ^ 31"
  shows "expired (start + e) (start + t) \<longleftrightarrow> t \<le> e"
proof (cases "t \<le> e")
  case True
  then have "unat (e - t) = unat e - unat t"
    by (simp add: unat_sub)
  with True assms show ?thesis
    by (simp add: expired_elapsed)
next
  case False
  then have lt: "unat e < unat t"
    by (simp add: word_le_nat_alt)
  have "unat (e - t) = 2 ^ 32 + unat e - unat t"
    using lt by (simp add: unat_sub_if')
  with False lt assms show ?thesis
    by (simp add: expired_elapsed)
qed

lemma expired_at_start:
  assumes "2 ^ 31 < unat t"
  shows "expired start (start + t)"
proof -
  have "unat (0 - t) = 2 ^ 32 - unat t"
    using assms unat_sub_if' [of 0 t] by simp
  moreover have "unat t < 2 ^ 32"
    using unsigned_less [of t] by simp
  ultimately show ?thesis
    using assms expired_elapsed [of start 0 t] by simp
qed

end
