(* ===== verification/Status.thy ===== *)
theory Status
  imports Prelude
begin

text \<open>
  The result codes of \<open>src/src/transport/Status.h\<close>. The enumeration has the underlying type
  \<open>int8_t\<close>, so a \<open>static_cast\<close> of an arbitrary integer can produce a value with no
  enumerator: that value is \<open>Unnamed\<close>. The order on statuses is the order of their codes,
  which is the one the header relies on when it calls every negative value a failure.
\<close>

datatype Status =
    Pending | Ok | Busy | WouldBlock | Closed | Timeout | NotReady | NoMemory | InvalidArg | Error
  | Unnamed int

fun Status_code :: "Status \<Rightarrow> int" where
  "Status_code Pending = 0"
| "Status_code Ok = 1"
| "Status_code Busy = 2"
| "Status_code WouldBlock = 3"
| "Status_code Closed = -1"
| "Status_code Timeout = -2"
| "Status_code NotReady = -3"
| "Status_code NoMemory = -4"
| "Status_code InvalidArg = -5"
| "Status_code Error = -6"
| "Status_code (Unnamed n) = n"

definition int8_of :: "int \<Rightarrow> int" where
  "int8_of n = (n + 128) mod 256 - 128"

definition Status_cast :: "int \<Rightarrow> Status" where
  "Status_cast m =
     (let n = int8_of m in
      if n = 0 then Pending else if n = 1 then Ok else if n = 2 then Busy
      else if n = 3 then WouldBlock else if n = -1 then Closed else if n = -2 then Timeout
      else if n = -3 then NotReady else if n = -4 then NoMemory else if n = -5 then InvalidArg
      else if n = -6 then Error else Unnamed n)"

fun statusString :: "Status \<Rightarrow> string" where
  "statusString Pending = ''pending''"
| "statusString Ok = ''ok''"
| "statusString Busy = ''busy''"
| "statusString WouldBlock = ''would-block''"
| "statusString Closed = ''closed''"
| "statusString Timeout = ''timeout''"
| "statusString NotReady = ''not-ready''"
| "statusString NoMemory = ''no-memory''"
| "statusString InvalidArg = ''invalid-argument''"
| "statusString Error = ''error''"
| "statusString (Unnamed n) = ''unknown''"

subsection \<open>Order by code\<close>

text \<open>
  Two statuses are compared by their codes; an unnamed value with the code of an enumerator
  (which a cast never produces) comes after it, so that the order is antisymmetric.
\<close>

definition Status_key :: "Status \<Rightarrow> int \<times> bool" where
  "Status_key s = (Status_code s, (case s of Unnamed _ \<Rightarrow> True | _ \<Rightarrow> False))"

lemma Status_key_inject: "Status_key s = Status_key t \<Longrightarrow> s = t"
  by (cases s; cases t) (simp_all add: Status_key_def)

instantiation Status :: linorder
begin

definition less_eq_Status :: "Status \<Rightarrow> Status \<Rightarrow> bool" where
  "less_eq_Status s t \<longleftrightarrow>
     fst (Status_key s) < fst (Status_key t) \<or>
     fst (Status_key s) = fst (Status_key t) \<and> (snd (Status_key s) \<le> snd (Status_key t))"

definition less_Status :: "Status \<Rightarrow> Status \<Rightarrow> bool" where
  "less_Status s t \<longleftrightarrow> s \<le> t \<and> \<not> t \<le> (s :: Status)"

instance
proof
  fix s t u :: Status
  show "s < t \<longleftrightarrow> s \<le> t \<and> \<not> t \<le> s"
    by (rule less_Status_def)
  show "s \<le> s"
    by (simp add: less_eq_Status_def)
  show "s \<le> t \<Longrightarrow> t \<le> u \<Longrightarrow> s \<le> u"
    by (auto simp: less_eq_Status_def)
  show "s \<le> t \<Longrightarrow> t \<le> s \<Longrightarrow> s = t"
    by (rule Status_key_inject) (auto simp: less_eq_Status_def prod_eq_iff)
  show "s \<le> t \<or> t \<le> s"
    by (auto simp: less_eq_Status_def)
qed

end

text \<open>A failure is a status below \<open>Pending\<close>: a negative code.\<close>

definition failure :: "Status \<Rightarrow> bool" where
  "failure s \<longleftrightarrow> s < Pending"

lemma failure_iff_negative: "failure s \<longleftrightarrow> Status_code s < 0"
  by (cases s) (auto simp: failure_def less_Status_def less_eq_Status_def Status_key_def)

lemma failure_simps [simp]:
  "failure Closed" "failure Timeout" "failure NotReady" "failure NoMemory"
  "failure InvalidArg" "failure Error"
  "\<not> failure Pending" "\<not> failure Ok" "\<not> failure Busy" "\<not> failure WouldBlock"
  by (simp_all add: failure_iff_negative)

lemma Status_cast_code:
  assumes "\<And>n. s \<noteq> Unnamed n"
  shows "Status_cast (Status_code s) = s"
  using assms by (cases s) (auto simp: Status_cast_def int8_of_def)

lemma Status_cast_named [simp]:
  "Status_cast (-1) = Closed" "Status_cast (-5) = InvalidArg" "Status_cast (-6) = Error"
  by (simp_all add: Status_cast_def int8_of_def)

lemma Status_cast_error:
  assumes "-128 \<le> n" and "n < 0"
  shows "failure (Status_cast n)" and "Status_code (Status_cast n) = n"
proof -
  have "int8_of n = n"
    using assms by (simp add: int8_of_def)
  then show "Status_code (Status_cast n) = n"
    by (simp add: Status_cast_def)
  then show "failure (Status_cast n)"
    using assms by (simp add: failure_iff_negative)
qed

end
