(* ===== verification/Encapsulation.thy ===== *)
theory Encapsulation
  imports Status
begin

unbundle bit_operations_syntax

text \<open>
  The EtherNet/IP encapsulation layer, \<open>src/src/eip/Encapsulation.h\<close> and
  \<open>Encapsulation.cpp\<close>: little-endian field access and the 24-byte header. A pointer \<open>p\<close>
  that is read is the list of the bytes from \<open>p\<close> on; a pointer that is written is a buffer and
  an offset. The interface the rest of the library relies on is the locale \<open>le_codec\<close>.
\<close>

subsection \<open>Command codes\<close>

datatype Command =
    Nop | ListServices | ListIdentity | ListInterfaces | RegisterSession | UnregisterSession
  | SendRRData | SendUnitData | IndicateStatus | Cancel

fun Command_code :: "Command \<Rightarrow> u16" where
  "Command_code Nop = 0x0000"
| "Command_code ListServices = 0x0004"
| "Command_code ListIdentity = 0x0063"
| "Command_code ListInterfaces = 0x0064"
| "Command_code RegisterSession = 0x0065"
| "Command_code UnregisterSession = 0x0066"
| "Command_code SendRRData = 0x006F"
| "Command_code SendUnitData = 0x0070"
| "Command_code IndicateStatus = 0x0072"
| "Command_code Cancel = 0x0073"

definition kEncapsulationHeaderSize :: nat where
  "kEncapsulationHeaderSize = 24"

lemma header_size [simp]: "kEncapsulationHeaderSize = 24"
  by (simp add: kEncapsulationHeaderSize_def)

subsection \<open>Little-endian fields\<close>

definition leU16 :: "u16 \<Rightarrow> byte list" where
  "leU16 v = [ucast v, ucast (drop_bit 8 v)]"

definition leU32 :: "u32 \<Rightarrow> byte list" where
  "leU32 v = [ucast v, ucast (drop_bit 8 v), ucast (drop_bit 16 v), ucast (drop_bit 24 v)]"

definition leU64 :: "u64 \<Rightarrow> byte list" where
  "leU64 v = map (\<lambda>i. ucast (drop_bit (8 * i) v)) [0..<8]"

definition putU16 :: "nat \<Rightarrow> u16 \<Rightarrow> byte list \<Rightarrow> byte list" where
  "putU16 p v buf = poke p (leU16 v) buf"

definition putU32 :: "nat \<Rightarrow> u32 \<Rightarrow> byte list \<Rightarrow> byte list" where
  "putU32 p v buf = poke p (leU32 v) buf"

definition putU64 :: "nat \<Rightarrow> u64 \<Rightarrow> byte list \<Rightarrow> byte list" where
  "putU64 p v buf = poke p (leU64 v) buf"

definition getU16 :: "byte list \<Rightarrow> u16" where
  "getU16 p = ucast (p ! 0) OR push_bit 8 (ucast (p ! 1))"

definition getU32 :: "byte list \<Rightarrow> u32" where
  "getU32 p = ucast (p ! 0) OR push_bit 8 (ucast (p ! 1)) OR push_bit 16 (ucast (p ! 2))
     OR push_bit 24 (ucast (p ! 3))"

definition getU64 :: "byte list \<Rightarrow> u64" where
  "getU64 p = foldl (\<lambda>v i. push_bit 8 v OR ucast (p ! i)) 0 (rev [0..<8])"

subsection \<open>The header\<close>

record encapsulation_header =
  eh_command :: u16
  eh_length :: u16
  eh_session :: u32
  eh_status :: u32
  eh_context :: u64
  eh_options :: u32

definition encodeHeader :: "encapsulation_header \<Rightarrow> byte list \<Rightarrow> byte list" where
  "encodeHeader h out =
     putU32 20 (eh_options h) (putU64 12 (eh_context h) (putU32 8 (eh_status h)
       (putU32 4 (eh_session h) (putU16 2 (eh_length h) (putU16 0 (eh_command h) out)))))"

definition decodeHeader :: "byte list \<Rightarrow> encapsulation_header" where
  "decodeHeader p =
     \<lparr> eh_command = getU16 p, eh_length = getU16 (drop 2 p), eh_session = getU32 (drop 4 p),
       eh_status = getU32 (drop 8 p), eh_context = getU64 (drop 12 p),
       eh_options = getU32 (drop 20 p) \<rparr>"

text \<open>The wire image of a header, as one list: what \<open>encodeHeader\<close> leaves in the buffer.\<close>

definition header_bytes :: "encapsulation_header \<Rightarrow> byte list" where
  "header_bytes h =
     leU16 (eh_command h) @ leU16 (eh_length h) @ leU32 (eh_session h) @ leU32 (eh_status h)
     @ leU64 (eh_context h) @ leU32 (eh_options h)"

subsection \<open>The interface of a fixed-width codec\<close>

locale le_codec =
  fixes enc :: "'v \<Rightarrow> byte list" and dec :: "byte list \<Rightarrow> 'v" and width :: nat
  assumes enc_length: "length (enc v) = width"
    and dec_enc: "dec (enc v @ rest) = v"
    and enc_dec: "width \<le> length bs \<Longrightarrow> enc (dec bs) = take width bs"
begin

lemma dec_enc_exact: "dec (enc v) = v"
  using dec_enc [of v "[]"] by simp

lemma enc_inject: "enc v = enc w \<longleftrightarrow> v = w"
  by (metis dec_enc_exact)

lemma dec_cong:
  assumes "width \<le> length bs" and "take width bs = take width cs" and "width \<le> length cs"
  shows "dec bs = dec cs"
  using assms enc_dec enc_inject by metis

lemma dec_poke:
  assumes "off + width \<le> length buf"
  shows "dec (drop off (poke off (enc v) buf)) = v"
  using assms by (simp add: drop_poke enc_length dec_enc)

lemma dec_poke_other:
  assumes "o2 + width \<le> length buf" and "off + length bs \<le> length buf"
    and "o2 + width \<le> off \<or> off + length bs \<le> o2"
  shows "dec (drop o2 (poke off bs buf)) = dec (drop o2 buf)"
proof (rule dec_cong)
  show "take width (drop o2 (poke off bs buf)) = take width (drop o2 buf)"
    using assms subbuf_poke_disjoint [of o2 width off bs buf] by (simp add: subbuf_def)
qed (use assms in auto)

lemma dec_take: "width \<le> n \<Longrightarrow> width \<le> length bs \<Longrightarrow> dec (take n bs) = dec bs"
  by (rule dec_cong) (auto simp: min_def)

end

subsection \<open>The codecs of the library\<close>

lemma length_le [simp]: "length (leU16 v) = 2" "length (leU32 w) = 4" "length (leU64 x) = 8"
  by (simp_all add: leU16_def leU32_def leU64_def)

lemma take2_nth: "2 \<le> length bs \<Longrightarrow> take 2 bs = [bs ! 0, bs ! 1]"
  by (cases bs; cases "tl bs") (auto simp: numeral_2_eq_2)

lemma take4_nth: "4 \<le> length bs \<Longrightarrow> take 4 bs = [bs ! 0, bs ! 1, bs ! 2, bs ! 3]"
  by (rule nth_equalityI) (auto simp: less_Suc_eq numeral_eq_Suc)

lemma take8_nth: "8 \<le> length bs \<Longrightarrow> take 8 bs = map (\<lambda>i. bs ! i) [0..<8]"
  by (rule nth_equalityI) auto

lemma bit_byte_high [simp]: "8 \<le> n \<Longrightarrow> bit (b :: byte) n \<longleftrightarrow> False"
  by (auto dest: bit_imp_le_length)

lemma upt8: "[0..<8] = [0,1,2,3,4,5,6,7::nat]"
  by (simp add: upt_rec)

lemma leU16_getU16: "2 \<le> length bs \<Longrightarrow> leU16 (getU16 bs) = take 2 bs"
  by (auto simp: leU16_def getU16_def take2_nth bit_simps intro!: bit_word_eqI)

lemma leU32_getU32: "4 \<le> length bs \<Longrightarrow> leU32 (getU32 bs) = take 4 bs"
  by (auto simp: leU32_def getU32_def take4_nth bit_simps intro!: bit_word_eqI)

lemma leU64_getU64: "8 \<le> length bs \<Longrightarrow> leU64 (getU64 bs) = take 8 bs"
  by (auto simp: leU64_def getU64_def take8_nth upt8 bit_simps intro!: bit_word_eqI)

lemma bit_byte_of: "bit w n \<longleftrightarrow> bit (ucast (drop_bit (8 * (n div 8)) w) :: byte) (n mod 8)"
  for w :: "'a::len word"
  by (simp add: bit_simps)

lemma word_eq_by_bytes:
  fixes v w :: "'a::len word"
  assumes "LENGTH('a) \<le> 8 * k"
    and "\<And>i. i < k \<Longrightarrow> (ucast (drop_bit (8 * i) v) :: byte) = ucast (drop_bit (8 * i) w)"
  shows "v = w"
proof (rule bit_word_eqI)
  fix n assume "n < LENGTH('a)"
  then have "n div 8 < k"
    using assms(1) by (simp add: less_mult_imp_div_less mult.commute)
  then show "bit v n = bit w n"
    using assms(2) [of "n div 8"] bit_byte_of [of v n] bit_byte_of [of w n] by simp
qed

lemma leU16_inject: "leU16 v = leU16 w \<Longrightarrow> v = w"
  by (rule word_eq_by_bytes [where k = 2]) (auto simp: leU16_def less_Suc_eq numeral_eq_Suc)

lemma leU32_inject: "leU32 v = leU32 w \<Longrightarrow> v = w"
  by (rule word_eq_by_bytes [where k = 4]) (auto simp: leU32_def less_Suc_eq numeral_eq_Suc)

lemma leU64_inject: "leU64 v = leU64 w \<Longrightarrow> v = w"
  by (rule word_eq_by_bytes [where k = 8]) (auto simp: leU64_def)

lemma getU16_leU16: "getU16 (leU16 v @ rest) = v"
  by (rule leU16_inject) (simp add: leU16_getU16)

lemma getU32_leU32: "getU32 (leU32 v @ rest) = v"
  by (rule leU32_inject) (simp add: leU32_getU32)

lemma getU64_leU64: "getU64 (leU64 v @ rest) = v"
  by (rule leU64_inject) (simp add: leU64_getU64)

interpretation u16: le_codec leU16 getU16 2
  by unfold_locales (simp_all add: getU16_leU16 leU16_getU16)

interpretation u32: le_codec leU32 getU32 4
  by unfold_locales (simp_all add: getU32_leU32 leU32_getU32)

interpretation u64: le_codec leU64 getU64 8
  by unfold_locales (simp_all add: getU64_leU64 leU64_getU64)

lemmas get_put_simps [simp] =
  u16.dec_enc u16.dec_enc_exact u32.dec_enc u32.dec_enc_exact u64.dec_enc u64.dec_enc_exact

lemma length_putU [simp]:
  "p + 2 \<le> length buf \<Longrightarrow> length (putU16 p v buf) = length buf"
  "p + 4 \<le> length buf \<Longrightarrow> length (putU32 p w buf) = length buf"
  "p + 8 \<le> length buf \<Longrightarrow> length (putU64 p x buf) = length buf"
  by (simp_all add: putU16_def putU32_def putU64_def)

subsection \<open>The header as a codec\<close>

lemma length_header_bytes [simp]: "length (header_bytes h) = 24"
  by (simp add: header_bytes_def)

lemma encodeHeader_poke:
  "24 \<le> length out \<Longrightarrow> encodeHeader h out = poke 0 (header_bytes h) out"
  by (simp add: encodeHeader_def header_bytes_def putU16_def putU32_def putU64_def
      poke_poke_adjacent)

lemma take24_fields:
  "take 24 bs = take 2 bs @ take 2 (drop 2 bs) @ take 4 (drop 4 bs) @ take 4 (drop 8 bs)
     @ take 8 (drop 12 bs) @ take 4 (drop 20 bs)"
proof -
  have "take 24 bs = take (2 + (2 + (4 + (4 + (8 + 4))))) bs"
    by simp
  also have "\<dots> = take 2 bs @ take 2 (drop 2 bs) @ take 4 (drop 4 bs) @ take 4 (drop 8 bs)
     @ take 8 (drop 12 bs) @ take 4 (drop 20 bs)"
    by (simp only: take_add drop_drop) simp
  finally show ?thesis .
qed

lemma header_bytes_decode: "24 \<le> length bs \<Longrightarrow> header_bytes (decodeHeader bs) = take 24 bs"
  by (simp add: header_bytes_def decodeHeader_def take24_fields u16.enc_dec u32.enc_dec u64.enc_dec)

lemma decode_header_bytes: "decodeHeader (header_bytes h @ rest) = h"
  by (simp add: header_bytes_def decodeHeader_def)

interpretation header: le_codec header_bytes decodeHeader 24
  by unfold_locales (simp_all add: decode_header_bytes header_bytes_decode)

lemma decodeHeader_encodeHeader:
  "24 \<le> length out \<Longrightarrow> decodeHeader (encodeHeader h out) = h"
  using header.dec_poke [of 0 out h] by (simp add: encodeHeader_poke)

lemma length_encodeHeader [simp]: "24 \<le> length out \<Longrightarrow> length (encodeHeader h out) = length out"
  by (simp add: encodeHeader_poke)

lemma take_encodeHeader: "24 \<le> length out \<Longrightarrow> take 24 (encodeHeader h out) = header_bytes h"
  by (simp add: encodeHeader_poke take_poke_extend)

end
