(* ===== verification/Framing.thy ===== *)
theory Framing
  imports Encapsulation
begin

text \<open>
  The two loops every exchange of the library runs over a connection: \<open>writePending\<close> and
  \<open>readResponse\<close>, which \<open>Session.cpp\<close>, \<open>ExplicitMessage.cpp\<close> and
  \<open>Connection.cpp\<close> each hold a copy of, with a different limit on the body size. They are
  written once here over the connection's \<open>write\<close> and \<open>read\<close>, and the facts about
  them are proved once, from what a byte channel promises (the locales \<open>channel\<close> and
  \<open>delivering_channel\<close>, interpreted on \<open>TcpConnection\<close>).
  A read returns the count and the bytes it stored; a result that is not positive stores none.
\<close>

function write_loop ::
  "(byte list \<Rightarrow> 'n \<Rightarrow> int \<times> 'n) \<Rightarrow> byte list \<Rightarrow> nat \<Rightarrow> nat \<Rightarrow> 'n
     \<Rightarrow> Status \<times> nat \<times> 'n" where
  "write_loop wr tx txLen txSent net =
     (if txSent < txLen then
        (case wr (subbuf txSent (txLen - txSent) tx) net of (n, net') \<Rightarrow>
           if 0 < n then write_loop wr tx txLen (txSent + nat n) net'
           else if n = 0 then (Pending, txSent, net')
           else (Status_cast n, txSent, net'))
      else (Ok, txSent, net))"
  by pat_completeness auto
termination
  by (relation "measure (\<lambda>(wr, tx, txLen, txSent, net). txLen - txSent)") auto

function read_loop ::
  "(nat \<Rightarrow> 'n \<Rightarrow> (int \<times> byte list) \<times> 'n) \<Rightarrow> nat \<Rightarrow> byte list \<Rightarrow> nat \<Rightarrow> nat \<Rightarrow> 'n
     \<Rightarrow> Status \<times> byte list \<times> nat \<times> nat \<times> 'n" where
  "read_loop rd limit rx rxLen rxExpected net =
     (if rxLen < rxExpected then
        (case rd (rxExpected - rxLen) net of ((n, bs), net') \<Rightarrow>
           if 0 < n then
             (let rx' = poke rxLen bs rx; rxLen' = rxLen + nat n in
              if rxLen' = kEncapsulationHeaderSize then
                (let len = unat (eh_length (decodeHeader rx')) in
                 if limit < len then (Error, rx', rxLen', rxExpected, net')
                 else read_loop rd limit rx' rxLen' (kEncapsulationHeaderSize + len) net')
              else read_loop rd limit rx' rxLen' rxExpected net')
           else if n = 0 then (Pending, rx, rxLen, rxExpected, net')
           else (Status_cast n, rx, rxLen, rxExpected, net'))
      else (Ok, rx, rxLen, rxExpected, net))"
  by pat_completeness auto
termination
  by (relation "measure (\<lambda>(rd, limit, rx, rxLen, rxExpected, net).
        max rxExpected (24 + limit) - rxLen)") auto

declare write_loop.simps [simp del] read_loop.simps [simp del]

text \<open>
  The receive buffer of an exchange: its size is fixed, the cursor stays within what is
  expected, and what is expected stays within the buffer. A framed buffer expects the header
  until it has it, and then exactly the body the header announces.
\<close>

definition rx_wf :: "nat \<Rightarrow> byte list \<Rightarrow> nat \<Rightarrow> nat \<Rightarrow> bool" where
  "rx_wf limit rx rxLen rxExpected \<longleftrightarrow>
     length rx = 24 + limit \<and> rxLen \<le> rxExpected \<and> rxExpected \<le> 24 + limit"

definition rx_framed :: "nat \<Rightarrow> byte list \<Rightarrow> nat \<Rightarrow> nat \<Rightarrow> bool" where
  "rx_framed limit rx rxLen rxExpected \<longleftrightarrow>
     (if rxLen < 24 then rxExpected = 24
      else rxExpected = 24 + unat (eh_length (decodeHeader rx)) \<and>
           unat (eh_length (decodeHeader rx)) \<le> limit)"

text \<open>A whole packet: a header and exactly the body it announces.\<close>

definition packet :: "byte list \<Rightarrow> bool" where
  "packet bs \<longleftrightarrow> 24 \<le> length bs \<and> length bs = 24 + unat (eh_length (decodeHeader bs))"

text \<open>The errors a transfer can end with, as \<open>TcpConnection\<close> reports them.\<close>

definition io_failure :: "Status \<Rightarrow> bool" where
  "io_failure st \<longleftrightarrow> st \<in> {Closed, InvalidArg, Error}"

lemma io_failure_simps [simp]:
  "io_failure Closed" "io_failure InvalidArg" "io_failure Error" "\<not> io_failure Ok"
  "\<not> io_failure Pending" "\<not> io_failure Timeout" "\<not> io_failure Busy" "\<not> io_failure NotReady"
  by (simp_all add: io_failure_def)

lemma io_failure_failure [simp, dest]: "io_failure st \<Longrightarrow> failure st"
  by (auto simp: io_failure_def)

subsection \<open>The loops over any channel\<close>

lemma write_loop_done [simp]: "txLen \<le> txSent \<Longrightarrow> write_loop wr tx txLen txSent net = (Ok, txSent, net)"
  by (subst write_loop.simps) simp

lemma read_loop_done [simp]:
  "rxExpected \<le> rxLen \<Longrightarrow>
    read_loop rd limit rx rxLen rxExpected net = (Ok, rx, rxLen, rxExpected, net)"
  by (subst read_loop.simps) simp

lemma rx_framed_start: "rx_framed limit rx 0 24"
  by (simp add: rx_framed_def)

lemma rx_framed_poke:
  assumes wf: "rx_wf limit rx rxLen rxExpected" and fr: "rx_framed limit rx rxLen rxExpected"
    and len: "length bs \<le> rxExpected - rxLen" and ne: "rxLen + length bs \<noteq> 24"
  shows "rx_framed limit (poke rxLen bs rx) (rxLen + length bs) rxExpected"
proof (cases "rxLen < 24")
  case True
  with fr len ne show ?thesis
    by (auto simp: rx_framed_def)
next
  case False
  have "decodeHeader (poke rxLen bs rx) = decodeHeader rx"
    using False wf len header.dec_poke_other [of 0 rx rxLen bs] by (auto simp: rx_wf_def)
  with False fr show ?thesis
    by (simp add: rx_framed_def)
qed

text \<open>Hoare-style rules: an invariant of the loop and what it gives at each exit.\<close>

lemma write_loop_rule:
  assumes init: "P txSent net"
    and body: "\<And>k net n net'. P k net \<Longrightarrow> k < txLen \<Longrightarrow>
      wr (subbuf k (txLen - k) tx) net = (n, net') \<Longrightarrow> 0 < n \<Longrightarrow> P (k + nat n) net'"
    and fin: "\<And>k net. P k net \<Longrightarrow> txLen \<le> k \<Longrightarrow> Q Ok k net"
    and stop: "\<And>k net n net'. P k net \<Longrightarrow> k < txLen \<Longrightarrow>
      wr (subbuf k (txLen - k) tx) net = (n, net') \<Longrightarrow> n \<le> 0 \<Longrightarrow>
      Q (if n = 0 then Pending else Status_cast n) k net'"
    and run: "write_loop wr tx txLen txSent net = (st, k', net'')"
  shows "Q st k' net''"
  using init run
proof (induction "txLen - txSent" arbitrary: txSent net rule: less_induct)
  case less
  show ?case
  proof (cases "txSent < txLen")
    case False
    with less.prems fin show ?thesis by fastforce
  next
    case True
    obtain n net1 where w: "wr (subbuf txSent (txLen - txSent) tx) net = (n, net1)"
      by fastforce
    note eq = write_loop.simps [of wr tx txLen txSent net]
    show ?thesis
    proof (cases "0 < n")
      case pos: True
      have "P (txSent + nat n) net1"
        using less.prems(1) True w pos by (rule body)
      with less.hyps [of "txSent + nat n" net1] less.prems(2) True pos w eq show ?thesis
        by simp
    next
      case neg: False
      then have "Q (if n = 0 then Pending else Status_cast n) txSent net1"
        using less.prems(1) True w by (intro stop) auto
      with less.prems(2) True neg w eq show ?thesis
        by (auto split: if_splits)
    qed
  qed
qed

lemma read_loop_rule:
  assumes init: "P rx l e net"
    and body: "\<And>rx l e net n bs net'. P rx l e net \<Longrightarrow> l < e \<Longrightarrow> rd (e - l) net = ((n, bs), net') \<Longrightarrow>
      0 < n \<Longrightarrow> l + nat n \<noteq> 24 \<Longrightarrow> P (poke l bs rx) (l + nat n) e net'"
    and head: "\<And>rx l e net n bs net'. P rx l e net \<Longrightarrow> l < e \<Longrightarrow> rd (e - l) net = ((n, bs), net') \<Longrightarrow>
      0 < n \<Longrightarrow> l + nat n = 24 \<Longrightarrow> unat (eh_length (decodeHeader (poke l bs rx))) \<le> limit \<Longrightarrow>
      P (poke l bs rx) 24 (24 + unat (eh_length (decodeHeader (poke l bs rx)))) net'"
    and fin: "\<And>rx l e net. P rx l e net \<Longrightarrow> e \<le> l \<Longrightarrow> Q Ok rx l e net"
    and over: "\<And>rx l e net n bs net'. P rx l e net \<Longrightarrow> l < e \<Longrightarrow> rd (e - l) net = ((n, bs), net') \<Longrightarrow>
      0 < n \<Longrightarrow> l + nat n = 24 \<Longrightarrow> limit < unat (eh_length (decodeHeader (poke l bs rx))) \<Longrightarrow>
      Q Error (poke l bs rx) 24 e net'"
    and stop: "\<And>rx l e net n bs net'. P rx l e net \<Longrightarrow> l < e \<Longrightarrow> rd (e - l) net = ((n, bs), net') \<Longrightarrow>
      n \<le> 0 \<Longrightarrow> Q (if n = 0 then Pending else Status_cast n) rx l e net'"
    and run: "read_loop rd limit rx l e net = (st, rx', l', e', net'')"
  shows "Q st rx' l' e' net''"
  using init run
proof (induction "max e (24 + limit) - l" arbitrary: rx l e net rule: less_induct)
  case less
  show ?case
  proof (cases "l < e")
    case False
    with less.prems fin show ?thesis by fastforce
  next
    case True
    obtain n bs net1 where r: "rd (e - l) net = ((n, bs), net1)"
      by (metis prod.collapse)
    note eq = read_loop.simps [of rd limit rx l e net]
    show ?thesis
    proof (cases "0 < n")
      case neg: False
      then have "Q (if n = 0 then Pending else Status_cast n) rx l e net1"
        using less.prems(1) True r by (intro stop) auto
      with less.prems(2) True neg r eq show ?thesis
        by (auto split: if_splits)
    next
      case pos: True
      show ?thesis
      proof (cases "l + nat n = 24")
        case False
        have "P (poke l bs rx) (l + nat n) e net1"
          using less.prems(1) True r pos False by (rule body)
        with less.hyps [of e "l + nat n"] less.prems(2) True pos False r eq show ?thesis
          by simp
      next
        case at: True
        show ?thesis
        proof (cases "limit < unat (eh_length (decodeHeader (poke l bs rx)))")
          case big: True
          have "Q Error (poke l bs rx) 24 e net1"
            using less.prems(1) True r pos at big by (rule over)
          with less.prems(2) True pos at big r eq show ?thesis
            by simp
        next
          case small: False
          then have "P (poke l bs rx) 24 (24 + unat (eh_length (decodeHeader (poke l bs rx)))) net1"
            using less.prems(1) True r pos at by (intro head) auto
          moreover have "l < 24"
            using at pos by linarith
          moreover from this have "limit < max e (24 + limit) - l"
            by linarith
          ultimately show ?thesis
            using less.hyps [of "24 + unat (eh_length (decodeHeader (poke l bs rx)))" 24]
              less.prems(2) True pos at small r eq
            by (simp add: Let_def)
        qed
      qed
    qed
  qed
qed

subsection \<open>Properties the loops keep\<close>

locale channel_invariant =
  fixes wr :: "byte list \<Rightarrow> 'n \<Rightarrow> int \<times> 'n"
    and rd :: "nat \<Rightarrow> 'n \<Rightarrow> (int \<times> byte list) \<times> 'n"
    and inv :: "'n \<Rightarrow> bool"
  assumes wr_inv: "inv net \<Longrightarrow> wr bs net = (n, net') \<Longrightarrow> inv net'"
    and rd_inv: "inv net \<Longrightarrow> rd len net = ((n, bs), net') \<Longrightarrow> inv net'"
begin

lemma write_loop_inv:
  assumes "inv net" and "write_loop wr tx txLen txSent net = (st, k, net')"
  shows "inv net'"
  using assms(1) _ _ _ assms(2)
  by (rule write_loop_rule [where P = "\<lambda>_. inv" and Q = "\<lambda>_ _. inv"]) (blast intro: wr_inv)+

lemma read_loop_inv:
  assumes "inv net" and "read_loop rd limit rx l e net = (st, rx', l', e', net')"
  shows "inv net'"
  using assms(1) _ _ _ _ _ assms(2)
  by (rule read_loop_rule [where P = "\<lambda>_ _ _. inv" and Q = "\<lambda>_ _ _ _. inv"]) (blast intro: rd_inv)+

end

subsection \<open>What a byte channel promises, and what the loops make of it\<close>

text \<open>
  \<open>out\<close> and \<open>inp\<close> are the bytes the channel has accepted and delivered so far. A write
  accepts a prefix of what it is given, a read delivers at most what it is asked for.
\<close>

locale channel =
  fixes wr :: "byte list \<Rightarrow> 'n \<Rightarrow> int \<times> 'n"
    and rd :: "nat \<Rightarrow> 'n \<Rightarrow> (int \<times> byte list) \<times> 'n"
    and valid :: "'n \<Rightarrow> bool"
    and out :: "'n \<Rightarrow> byte list"
    and inp :: "'n \<Rightarrow> byte list"
  assumes wr_law: "valid net \<Longrightarrow> wr bs net = (n, net') \<Longrightarrow>
      valid net' \<and> (0 \<le> n \<or> n \<in> {-1, -5, -6}) \<and> n \<le> int (length bs) \<and>
      out net' = out net @ take (nat n) bs \<and> inp net' = inp net"
    and rd_law: "valid net \<Longrightarrow> rd len net = ((n, bs), net') \<Longrightarrow>
      valid net' \<and> (0 \<le> n \<or> n \<in> {-1, -5, -6}) \<and> n \<le> int len \<and> length bs = nat n \<and>
      out net' = out net \<and> inp net' = inp net @ bs"
begin

lemma write_loop_sent:
  assumes "valid net" and "txSent \<le> txLen" and tx: "txLen \<le> length tx"
    and run: "write_loop wr tx txLen txSent net = (st, k, net')"
  shows "valid net' \<and> txSent \<le> k \<and> k \<le> txLen \<and>
    out net' = out net @ drop txSent (take k tx) \<and> inp net' = inp net \<and>
    (st = Ok \<and> k = txLen \<or> st = Pending \<and> k < txLen \<or> io_failure st \<and> k < txLen)"
proof -
  define P where "P k s \<longleftrightarrow> valid s \<and> txSent \<le> k \<and> k \<le> txLen \<and>
      out s = out net @ drop txSent (take k tx) \<and> inp s = inp net" for k s
  define Q where "Q st k s \<longleftrightarrow> P k s \<and>
      (st = Ok \<and> k = txLen \<or> st = Pending \<and> k < txLen \<or> io_failure st \<and> k < txLen)" for st k s
  have "Q st k net'"
  proof (rule write_loop_rule [OF _ _ _ _ run, where P = P])
    fix k s n s'
    assume P: "P k s" and k: "k < txLen" and w: "wr (subbuf k (txLen - k) tx) s = (n, s')"
    have law: "valid s'" "0 \<le> n \<or> n \<in> {-1, -5, -6}" "nat n \<le> txLen - k"
        "out s' = out s @ take (nat n) (subbuf k (txLen - k) tx)" "inp s' = inp s"
      using wr_law [OF _ w] P k tx by (auto simp: P_def)
    have "drop txSent (take (k + nat n) tx) =
        drop txSent (take k tx @ take (nat n) (subbuf k (txLen - k) tx))"
      by (simp only: take_split_subbuf [OF law(3)])
    also have "\<dots> = drop txSent (take k tx) @ take (nat n) (subbuf k (txLen - k) tx)"
      using P k tx by (simp add: P_def)
    finally show P': "P (k + nat n) s'"
      using P k law by (simp add: P_def)
    show "Q (if n = 0 then Pending else Status_cast n) k s'" if "n \<le> 0"
      using P' that k law by (auto simp: Q_def)
  qed (use assms in \<open>auto simp: P_def Q_def\<close>)
  then show ?thesis
    by (simp add: P_def Q_def)
qed

lemma read_loop_framed:
  assumes "valid net" and "rx_wf limit rx l e" and "rx_framed limit rx l e"
    and run: "read_loop rd limit rx l e net = (st, rx', l', e', net')"
  shows "valid net' \<and> rx_wf limit rx' l' e' \<and> l \<le> l' \<and> take l rx' = take l rx \<and>
    out net' = out net \<and> inp net' = inp net @ drop l (take l' rx') \<and>
    (st = Ok \<and> l' = e' \<and> 24 \<le> l' \<and> rx_framed limit rx' l' e' \<or>
     st = Pending \<and> l' < e' \<and> rx_framed limit rx' l' e' \<or> io_failure st)"
proof -
  define I where "I r k s \<longleftrightarrow> valid s \<and> l \<le> k \<and> take l r = take l rx \<and> out s = out net \<and>
      inp s = inp net @ drop l (take k r)" for r k s
  define P where "P r k x s \<longleftrightarrow> I r k s \<and> rx_wf limit r k x \<and> rx_framed limit r k x" for r k x s
  define Q where "Q st r k x s \<longleftrightarrow> I r k s \<and> rx_wf limit r k x \<and>
      (st = Ok \<and> k = x \<and> 24 \<le> k \<and> rx_framed limit r k x \<or>
       st = Pending \<and> k < x \<and> rx_framed limit r k x \<or> io_failure st)" for st r k x s
  have "Q st rx' l' e' net'"
  proof (rule read_loop_rule [OF _ _ _ _ _ _ run, where P = P])
    show "P rx l e net"
      using assms by (simp add: P_def I_def)
  next
    fix r k x s n bs s'
    assume P: "P r k x s" and k: "k < x" and rd: "rd (x - k) s = ((n, bs), s')"
    have len: "length r = 24 + limit" "x \<le> 24 + limit"
      using P by (simp_all add: P_def rx_wf_def)
    have law: "valid s'" "0 \<le> n \<or> n \<in> {-1, -5, -6}" "nat n = length bs" "k + length bs \<le> x"
        "out s' = out s" "inp s' = inp s @ bs"
      using rd_law [OF _ rd] P k by (auto simp: P_def I_def)
    have tk: "take (k + length bs) (poke k bs r) = take k r @ bs"
      using law(4) len by (simp add: take_poke_extend)
    have I': "I (poke k bs r) (k + length bs) s'"
      using P k law len tk by (simp add: P_def I_def take_poke_prefix)
    have wf': "rx_wf limit (poke k bs r) (k + length bs) x"
      using law(4) len by (simp add: rx_wf_def)
    show "P (poke k bs r) (k + nat n) x s'" if "k + nat n \<noteq> 24"
      using I' wf' that law(3,4) P rx_framed_poke [of limit r k x bs] by (simp add: P_def)
    show "P (poke k bs r) 24 (24 + unat (eh_length (decodeHeader (poke k bs r)))) s'"
      if "k + nat n = 24" and "unat (eh_length (decodeHeader (poke k bs r))) \<le> limit"
      using I' wf' that law(3) by (simp add: P_def rx_wf_def rx_framed_def)
    show "Q Error (poke k bs r) 24 x s'" if "k + nat n = 24"
      using I' wf' that law(3) by (simp add: Q_def)
    show "Q (if n = 0 then Pending else Status_cast n) r k x s'" if "n \<le> 0"
    proof -
      have "bs = []"
        using law(3) that by simp
      with law P have "I r k s'"
        by (simp add: P_def I_def)
      with P k law(2) that show ?thesis
        by (auto simp: P_def Q_def)
    qed
  next
    fix r k x s
    assume P: "P r k x s" and k: "x \<le> k"
    then have kx: "k = x"
      by (simp add: P_def rx_wf_def)
    have "rx_framed limit r k x"
      using P by (simp add: P_def)
    then have "24 \<le> x"
      by (cases "k < 24") (simp_all only: rx_framed_def if_True if_False le_add1 order_refl simp_thms)
    with P kx show "Q Ok r k x s"
      by (simp add: P_def Q_def)
  qed
  then show ?thesis
    by (simp add: Q_def I_def)
qed

lemma read_loop_packet:
  assumes "valid net" and "rx_wf limit rx l e" and "rx_framed limit rx l e"
    and "read_loop rd limit rx l e net = (Ok, rx', l', e', net')"
  shows "packet (take l' rx') \<and> l' \<le> 24 + limit \<and>
    inp net' = inp net @ drop l (take l' rx') \<and> take l (take l' rx') = take l rx"
proof -
  note fr = read_loop_framed [OF assms]
  then have wf: "rx_wf limit rx' l' e'" and l: "l \<le> l'" "l' = e'" "24 \<le> l'"
    and f: "rx_framed limit rx' l' e'" and t: "take l rx' = take l rx"
    and i: "inp net' = inp net @ drop l (take l' rx')"
    by auto
  have "decodeHeader (take l' rx') = decodeHeader rx'"
    using wf l by (intro header.dec_take) (auto simp: rx_wf_def)
  then have "packet (take l' rx')"
    using wf l f by (simp add: packet_def rx_wf_def rx_framed_def)
  moreover have "take l (take l' rx') = take l rx"
    using l t by (simp add: min_def)
  ultimately show ?thesis
    using wf l i by (simp add: rx_wf_def)
qed

end

subsection \<open>A channel that delivers\<close>

text \<open>
  A channel that accepts at least one byte of every write and hands out what it has queued: the
  loops then finish, whatever the sizes of the single transfers.
\<close>

locale delivering_channel = channel +
  fixes queue :: "'a \<Rightarrow> byte list"
  assumes wr_some: "valid net \<Longrightarrow> bs \<noteq> [] \<Longrightarrow> wr bs net = (n, net') \<Longrightarrow>
      0 < n \<and> queue net' = queue net"
    and rd_some: "valid net \<Longrightarrow> 0 < len \<Longrightarrow> rd len net = ((n, bs), net') \<Longrightarrow>
      (queue net \<noteq> [] \<longrightarrow> 0 < n) \<and> queue net = bs @ queue net'"
begin

lemma write_loop_all:
  assumes "valid net" and "txSent \<le> txLen" and tx: "txLen \<le> length tx"
    and run: "write_loop wr tx txLen txSent net = (st, k, net')"
  shows "st = Ok \<and> k = txLen \<and> valid net' \<and> queue net' = queue net"
proof -
  define P where "P k s \<longleftrightarrow> valid s \<and> k \<le> txLen \<and> queue s = queue net" for k s
  have "st = Ok \<and> P k net' \<and> txLen \<le> k"
  proof (rule write_loop_rule [OF _ _ _ _ run, where P = P])
    fix k s n s'
    assume P: "P k s" and k: "k < txLen" and w: "wr (subbuf k (txLen - k) tx) s = (n, s')"
    have "subbuf k (txLen - k) tx \<noteq> []"
      using k tx by (simp add: subbuf_def)
    with P w have n: "0 < n" "queue s' = queue s"
      using wr_some by (auto simp: P_def)
    show "P (k + nat n) s'"
      using wr_law [OF _ w] P n k tx by (auto simp: P_def)
    show "(if n = 0 then Pending else Status_cast n) = Ok \<and> P k s' \<and> txLen \<le> k" if "n \<le> 0"
      using n that by simp
  qed (use assms in \<open>auto simp: P_def\<close>)
  then show ?thesis
    by (simp add: P_def)
qed

lemma read_loop_all:
  assumes "valid net" and "rx_wf limit rx l e" and "rx_framed limit rx l e"
    and q: "take l rx @ queue net = p @ rest" and p: "packet p" "length p \<le> 24 + limit" "l \<le> length p"
    and run: "read_loop rd limit rx l e net = (st, rx', l', e', net')"
  shows "st = Ok \<and> l' = length p \<and> take l' rx' = p \<and> queue net' = rest \<and> valid net'"
proof -
  have len_head: "eh_length (decodeHeader r) = eh_length (decodeHeader p)"
    if "take 24 r = take 24 p" and "24 \<le> length r" for r
    using that p header.dec_cong [of r p] by (simp add: packet_def)
  define P where "P r k x s \<longleftrightarrow> valid s \<and> rx_wf limit r k x \<and> rx_framed limit r k x \<and>
      k \<le> length p \<and> take k r = take k p \<and> queue s = drop k p @ rest" for r k x s
  have framed: "x = (if k < 24 then 24 else length p)" if "P r k x s" for r k x s
    using that p len_head [of r] take_take [of 24 k r] take_take [of 24 k p]
    by (auto simp: P_def rx_framed_def packet_def rx_wf_def min_def)
  have "st = Ok \<and> P rx' l' e' net' \<and> e' \<le> l'"
  proof (rule read_loop_rule [OF _ _ _ _ _ _ run, where P = P])
    have "take l rx = take l p"
      using arg_cong [OF q, of "take l"] assms(2) p(3) by (simp add: rx_wf_def)
    moreover have "queue net = drop l p @ rest"
      using arg_cong [OF q, of "drop l"] assms(2) p(3) by (simp add: rx_wf_def)
    ultimately show "P rx l e net"
      using assms by (simp add: P_def)
  next
    fix r k x s n bs s'
    assume P: "P r k x s" and k: "k < x" and rd: "rd (x - k) s = ((n, bs), s')"
    have x: "x \<le> length p"
      using framed [OF P] p(1) by (simp add: packet_def split: if_splits)
    have wf: "length r = 24 + limit" "x \<le> 24 + limit" "valid s"
      using P by (simp_all add: P_def rx_wf_def)
    have q: "queue s = drop k p @ rest" "drop k p \<noteq> []"
      using P k x by (simp_all add: P_def)
    have n: "0 < n" "drop k p @ rest = bs @ queue s'"
      using rd_some [OF wf(3) _ rd] k q by auto
    have law: "valid s'" "length bs = nat n" "k + length bs \<le> x"
      using rd_law [OF wf(3) rd] k by auto
    have bs: "bs = take (length bs) (drop k p)" "queue s' = drop (k + length bs) p @ rest"
    proof -
      have "take (length bs) (drop k p @ rest) = bs" "drop (length bs) (drop k p @ rest) = queue s'"
        using n(2) by simp_all
      with law(3) x show "bs = take (length bs) (drop k p)" "queue s' = drop (k + length bs) p @ rest"
        by (simp_all add: add.commute)
    qed
    have "take (k + length bs) (poke k bs r) = take k r @ bs"
      using law(3) wf by (simp add: take_poke_extend)
    also have "\<dots> = take k p @ take (length bs) (drop k p)"
      using P by (simp add: P_def flip: bs(1))
    finally have tk: "take (k + length bs) (poke k bs r) = take (k + length bs) p"
      by (simp add: take_add)
    show "P (poke k bs r) (k + nat n) x s'" if "k + nat n \<noteq> 24"
      using rx_framed_poke [of limit r k x bs] P law wf x tk bs(2) that
      by (simp add: P_def rx_wf_def)
    show "P (poke k bs r) 24 (24 + unat (eh_length (decodeHeader (poke k bs r)))) s'"
      if "k + nat n = 24" and "unat (eh_length (decodeHeader (poke k bs r))) \<le> limit"
      using that law wf x tk bs(2) by (simp add: P_def rx_wf_def rx_framed_def)
    show "Error = Ok \<and> P (poke k bs r) 24 x s' \<and> x \<le> 24"
      if at: "k + nat n = 24" and big: "limit < unat (eh_length (decodeHeader (poke k bs r)))"
    proof -
      have "eh_length (decodeHeader (poke k bs r)) = eh_length (decodeHeader p)"
        using tk at law wf by (intro len_head) simp_all
      with big p show ?thesis
        by (simp add: packet_def)
    qed
    show "(if n = 0 then Pending else Status_cast n) = Ok \<and> P r k x s' \<and> x \<le> k" if "n \<le> 0"
      using n(1) that by simp
  qed simp
  then have P': "st = Ok" "P rx' l' e' net'" "e' \<le> l'"
    by auto
  moreover have "24 \<le> l'"
    using framed [OF P'(2)] P'(3) by (simp split: if_splits)
  ultimately show ?thesis
    using framed [OF P'(2)] p(1) by (auto simp: P_def packet_def)
qed

end

end
