(* ===== verification/TcpConnection.thy ===== *)
theory TcpConnection
  imports Framing
begin

unbundle bit_operations_syntax

text \<open>
  \<open>src/src/transport/TcpConnection.h\<close> and \<open>TcpConnection.cpp\<close>, over the operating
  system they run on. lwIP, the Arduino clock, the random generator and the Ethernet driver are
  not part of the repository: they are the functions of a record \<open>'w os\<close>, each a step of an
  arbitrary outside world \<open>'w\<close>, and every definition that calls them takes that record as a
  parameter. What the library relies on is the predicate \<open>socket_contract\<close>.
  Connections live in a store indexed by address, because a \<open>Session\<close> and an
  \<open>ExplicitMessage\<close> keep a pointer to the same connection.
\<close>

subsection \<open>The outside world\<close>

datatype errno = EAGAIN | EWOULDBLOCK | EPIPE | ECONNRESET | EINPROGRESS | EOther int

text \<open>
  A receive either stores bytes, whose number is the result (0 when the peer has closed), or
  fails (-1) with an error number. A send returns its result and the error number.
\<close>

datatype recv_result = Received "byte list" | RecvFailed errno

type_synonym IPAddress = "byte \<times> byte \<times> byte \<times> byte"

definition IPAddress_any :: IPAddress where
  "IPAddress_any = (0, 0, 0, 0)"

record 'w os =
  os_millis :: "'w \<Rightarrow> u32 \<times> 'w"
  os_random :: "'w \<Rightarrow> u32 \<times> 'w"
  os_socket :: "'w \<Rightarrow> int \<times> 'w"
  os_getfl :: "int \<Rightarrow> 'w \<Rightarrow> int \<times> 'w"
  os_setfl :: "int \<Rightarrow> int \<Rightarrow> 'w \<Rightarrow> int \<times> 'w"
  os_O_NONBLOCK :: int
  os_connect :: "int \<Rightarrow> IPAddress \<Rightarrow> u16 \<Rightarrow> 'w \<Rightarrow> (int \<times> errno) \<times> 'w"
  os_close :: "int \<Rightarrow> 'w \<Rightarrow> 'w"
  os_select_writable :: "int \<Rightarrow> 'w \<Rightarrow> int \<times> 'w"
  os_so_error :: "int \<Rightarrow> 'w \<Rightarrow> (int \<times> int) \<times> 'w"
  os_send :: "int \<Rightarrow> byte list \<Rightarrow> 'w \<Rightarrow> (int \<times> errno) \<times> 'w"
  os_recv :: "int \<Rightarrow> nat \<Rightarrow> 'w \<Rightarrow> recv_result \<times> 'w"

text \<open>
  The documented behaviour of \<open>send\<close> and \<open>recv\<close> the library relies on: neither handles
  more bytes than it was given room for.
\<close>

definition socket_contract :: "'w os \<Rightarrow> bool" where
  "socket_contract os \<longleftrightarrow>
     (\<forall>fd bs w. fst (fst (os_send os fd bs w)) \<le> int (length bs)) \<and>
     (\<forall>fd len w bs w'. os_recv os fd len w = (Received bs, w') \<longrightarrow> length bs \<le> len)"

record tcp_connection =
  tcp_fd :: int
  tcp_remoteIp :: IPAddress
  tcp_remotePort :: u16
  tcp_deadline :: u32
  tcp_state :: Status

definition TcpConnection_new :: tcp_connection where
  "TcpConnection_new =
     \<lparr> tcp_fd = -1, tcp_remoteIp = IPAddress_any, tcp_remotePort = 0, tcp_deadline = 0,
       tcp_state = Closed \<rparr>"

text \<open>
  The state every operation steps: the outside world, the store of connections, and three
  history variables the code does not have. They record the bytes each connection has sent and
  received, and whether a null connection pointer was ever dereferenced.
\<close>

type_synonym conn_ref = nat

record 'w net =
  net_os :: 'w
  net_tcp :: "conn_ref \<Rightarrow> tcp_connection"
  net_sent :: "conn_ref \<Rightarrow> byte list"
  net_rcvd :: "conn_ref \<Rightarrow> byte list"
  net_fault :: bool

definition sys :: "('w \<Rightarrow> 'r \<times> 'w) \<Rightarrow> 'w net \<Rightarrow> 'r \<times> 'w net" where
  "sys f net = (case f (net_os net) of (r, w) \<Rightarrow> (r, net\<lparr>net_os := w\<rparr>))"

definition millis :: "'w os \<Rightarrow> 'w net \<Rightarrow> u32 \<times> 'w net" where
  "millis os net = sys (os_millis os) net"

definition put_tcp :: "conn_ref \<Rightarrow> tcp_connection \<Rightarrow> 'w net \<Rightarrow> 'w net" where
  "put_tcp c t net = net\<lparr>net_tcp := (net_tcp net)(c := t)\<rparr>"

subsection \<open>The operations\<close>

definition TcpConnection_close :: "'w os \<Rightarrow> conn_ref \<Rightarrow> 'w net \<Rightarrow> 'w net" where
  "TcpConnection_close os c net =
     (let t = net_tcp net c;
          net1 = (if 0 \<le> tcp_fd t then net\<lparr>net_os := os_close os (tcp_fd t) (net_os net)\<rparr> else net);
          fd1 = (if 0 \<le> tcp_fd t then -1 else tcp_fd t)
      in put_tcp c (t\<lparr>tcp_fd := fd1, tcp_state := Closed, tcp_remoteIp := IPAddress_any,
                       tcp_remotePort := 0, tcp_deadline := 0\<rparr>) net1)"

definition TcpConnection_connect ::
  "'w os \<Rightarrow> conn_ref \<Rightarrow> IPAddress \<Rightarrow> u16 \<Rightarrow> u32 \<Rightarrow> 'w net \<Rightarrow> Status \<times> 'w net" where
  "TcpConnection_connect os c ip port timeoutMs net =
     (let net0 = (if 0 \<le> tcp_fd (net_tcp net c) then TcpConnection_close os c net else net) in
      if ip = IPAddress_any \<or> port = 0 then (InvalidArg, net0)
      else
        (case sys (os_socket os) net0 of (fd, net1) \<Rightarrow>
           if fd < 0 then (Error, net1)
           else
             (case sys (os_getfl os fd) net1 of (flags, net2) \<Rightarrow>
                (case (if flags < 0 then (-1, net2)
                       else sys (os_setfl os fd (flags OR os_O_NONBLOCK os)) net2) of
                   (rc, net3) \<Rightarrow>
                   if flags < 0 \<or> rc < 0 then (Error, net3\<lparr>net_os := os_close os fd (net_os net3)\<rparr>)
                   else
                     (case sys (os_connect os fd ip port) net3 of ((rc, err), net4) \<Rightarrow>
                        if rc < 0 \<and> err \<noteq> EINPROGRESS
                        then (Error, net4\<lparr>net_os := os_close os fd (net_os net4)\<rparr>)
                        else
                          (case millis os net4 of (now, net5) \<Rightarrow>
                             (Pending,
                              put_tcp c ((net_tcp net5 c)\<lparr>tcp_fd := fd, tcp_remoteIp := ip,
                                tcp_remotePort := port, tcp_deadline := now + timeoutMs,
                                tcp_state := Pending\<rparr>) net5)))))))"

definition TcpConnection_poll :: "'w os \<Rightarrow> conn_ref \<Rightarrow> 'w net \<Rightarrow> Status \<times> 'w net" where
  "TcpConnection_poll os c net =
     (let t = net_tcp net c in
      if tcp_fd t < 0 then (Closed, net)
      else if tcp_state t = Ok then (Ok, net)
      else
        (case sys (os_select_writable os (tcp_fd t)) net of (rc, net1) \<Rightarrow>
           if rc < 0 then (Error, TcpConnection_close os c net1)
           else if rc = 0 then
             (case millis os net1 of (now, net2) \<Rightarrow>
                if expired now (tcp_deadline t) then (Timeout, TcpConnection_close os c net2)
                else (Pending, net2))
           else
             (case sys (os_so_error os (tcp_fd t)) net1 of ((rc2, error), net2) \<Rightarrow>
                if rc2 < 0 then (Error, TcpConnection_close os c net2)
                else if error = 0
                then (Ok, put_tcp c ((net_tcp net2 c)\<lparr>tcp_state := Ok\<rparr>) net2)
                else (Error, TcpConnection_close os c net2))))"

definition TcpConnection_read ::
  "'w os \<Rightarrow> conn_ref \<Rightarrow> bool \<Rightarrow> nat \<Rightarrow> 'w net \<Rightarrow> (int \<times> byte list) \<times> 'w net" where
  "TcpConnection_read os c buffer_null len net =
     (let t = net_tcp net c in
      if tcp_fd t < 0 \<or> tcp_state t \<noteq> Ok then ((Status_code Closed, []), net)
      else if buffer_null \<or> len = 0 then ((Status_code InvalidArg, []), net)
      else
        (case sys (os_recv os (tcp_fd t) len) net of (res, net1) \<Rightarrow>
           (case res of
              Received bs \<Rightarrow>
                if bs \<noteq> []
                then ((int (length bs), bs),
                      net1\<lparr>net_rcvd := (net_rcvd net1)(c := net_rcvd net1 c @ bs)\<rparr>)
                else ((Status_code Closed, []),
                      put_tcp c ((net_tcp net1 c)\<lparr>tcp_state := Closed\<rparr>) net1)
            | RecvFailed err \<Rightarrow>
                if err = EWOULDBLOCK \<or> err = EAGAIN then ((0, []), net1)
                else ((Status_code Error, []), net1))))"

definition TcpConnection_write ::
  "'w os \<Rightarrow> conn_ref \<Rightarrow> byte list option \<Rightarrow> nat \<Rightarrow> 'w net \<Rightarrow> int \<times> 'w net" where
  "TcpConnection_write os c buffer len net =
     (let t = net_tcp net c in
      if tcp_fd t < 0 \<or> tcp_state t \<noteq> Ok then (Status_code Closed, net)
      else
        (case buffer of
           None \<Rightarrow> (Status_code InvalidArg, net)
         | Some buf \<Rightarrow>
             if len = 0 then (Status_code InvalidArg, net)
             else
               (case sys (os_send os (tcp_fd t) (take len buf)) net of ((n, err), net1) \<Rightarrow>
                  if 0 < n
                  then (n, net1\<lparr>net_sent := (net_sent net1)(c := net_sent net1 c
                                   @ take (nat n) (take len buf))\<rparr>)
                  else if n = 0 then (0, net1)
                  else if err = EWOULDBLOCK \<or> err = EAGAIN then (0, net1)
                  else if err = EPIPE \<or> err = ECONNRESET
                  then (Status_code Closed, put_tcp c ((net_tcp net1 c)\<lparr>tcp_state := Closed\<rparr>) net1)
                  else (Status_code Error, net1))))"

definition TcpConnection_connected :: "conn_ref \<Rightarrow> 'w net \<Rightarrow> bool" where
  "TcpConnection_connected c net \<longleftrightarrow> tcp_state (net_tcp net c) = Ok"

subsection \<open>Through a connection pointer\<close>

text \<open>
  \<open>conn_->write(p, n)\<close> and \<open>conn_->read(p, n)\<close> as the loops call them, with a buffer
  that is never null. A null \<open>conn_\<close> is undefined behaviour; the model raises the fault flag.
\<close>

definition conn_write :: "'w os \<Rightarrow> conn_ref option \<Rightarrow> byte list \<Rightarrow> 'w net \<Rightarrow> int \<times> 'w net" where
  "conn_write os conn bs net =
     (case conn of
        None \<Rightarrow> (Status_code Error, net\<lparr>net_fault := True\<rparr>)
      | Some c \<Rightarrow> TcpConnection_write os c (Some bs) (length bs) net)"

definition conn_read ::
  "'w os \<Rightarrow> conn_ref option \<Rightarrow> nat \<Rightarrow> 'w net \<Rightarrow> (int \<times> byte list) \<times> 'w net" where
  "conn_read os conn len net =
     (case conn of
        None \<Rightarrow> ((Status_code Error, []), net\<lparr>net_fault := True\<rparr>)
      | Some c \<Rightarrow> TcpConnection_read os c False len net)"

definition conn_out :: "conn_ref option \<Rightarrow> 'w net \<Rightarrow> byte list" where
  "conn_out conn net = (case conn of None \<Rightarrow> [] | Some c \<Rightarrow> net_sent net c)"

definition conn_in :: "conn_ref option \<Rightarrow> 'w net \<Rightarrow> byte list" where
  "conn_in conn net = (case conn of None \<Rightarrow> [] | Some c \<Rightarrow> net_rcvd net c)"

subsection \<open>Facts about the world\<close>

named_theorems net_simps

lemma sys_eq [net_simps]:
  "sys f net = (r, net') \<longleftrightarrow>
    (\<exists>w. f (net_os net) = (r, w) \<and> net' = net\<lparr>net_os := w\<rparr>)"
  by (auto simp: sys_def split: prod.splits)

lemma put_tcp_fields [simp]:
  "net_os (put_tcp c t net) = net_os net"
  "net_tcp (put_tcp c t net) = (net_tcp net)(c := t)"
  "net_sent (put_tcp c t net) = net_sent net"
  "net_rcvd (put_tcp c t net) = net_rcvd net"
  "net_fault (put_tcp c t net) = net_fault net"
  by (simp_all add: put_tcp_def)

lemma socket_contract_send:
  "socket_contract os \<Longrightarrow> os_send os fd bs w = ((n, e), w') \<Longrightarrow> n \<le> int (length bs)"
  by (metis socket_contract_def fst_conv)

lemma socket_contract_recv:
  "socket_contract os \<Longrightarrow> os_recv os fd len w = (Received bs, w') \<Longrightarrow> length bs \<le> len"
  unfolding socket_contract_def by blast

text \<open>
  A read gives a positive count with that many bytes, zero, or one of three negative codes: a
  count and an error are never confused.
\<close>

lemma TcpConnection_read_cases:
  assumes "socket_contract os" and "TcpConnection_read os c b len net = ((n, bs), net')"
  shows "length bs = nat n" and "n \<le> int len"
    and "0 \<le> n \<or> n \<in> {Status_code Closed, Status_code InvalidArg, Status_code Error}"
  using assms socket_contract_recv [OF assms(1)]
  by (auto simp: TcpConnection_read_def Let_def sys_def split: if_splits prod.splits recv_result.splits)

lemma TcpConnection_write_cases:
  assumes "socket_contract os" and "TcpConnection_write os c buf len net = (n, net')"
  shows "n \<le> int len"
    and "0 \<le> n \<or> n \<in> {Status_code Closed, Status_code InvalidArg, Status_code Error}"
proof -
  have snd: "m \<le> int len" if "os_send os fd (take len bs) w = ((m, e), w')" for fd bs w m e w'
    using socket_contract_send [OF assms(1) that] by simp
  show "n \<le> int len"
    using assms(2)
    by (auto simp: TcpConnection_write_def Let_def sys_def dest: snd
        split: if_splits prod.splits option.splits)
  show "0 \<le> n \<or> n \<in> {Status_code Closed, Status_code InvalidArg, Status_code Error}"
    using assms(2)
    by (auto simp: TcpConnection_write_def Let_def sys_def
        split: if_splits prod.splits option.splits)
qed

subsection \<open>The connection as a byte channel\<close>

lemma conn_write_law:
  assumes "socket_contract os" and "conn_write os conn bs net = (n, net')"
  shows "(0 \<le> n \<or> n \<in> {-1, -5, -6}) \<and> n \<le> int (length bs) \<and>
    conn_out conn net' = conn_out conn net @ take (nat n) bs \<and> conn_in conn net' = conn_in conn net"
proof (cases conn)
  case None
  with assms(2) show ?thesis
    by (auto simp: conn_write_def conn_out_def conn_in_def)
next
  case (Some c)
  with assms(2) have w: "TcpConnection_write os c (Some bs) (length bs) net = (n, net')"
    by (simp add: conn_write_def)
  note r = TcpConnection_write_cases [OF assms(1) w]
  have "net_sent net' c = net_sent net c @ take (nat n) bs \<and> net_rcvd net' c = net_rcvd net c"
    using w by (auto simp: TcpConnection_write_def Let_def sys_def split: if_splits prod.splits)
  with r Some show ?thesis
    by (auto simp: conn_out_def conn_in_def)
qed

lemma conn_read_law:
  assumes "socket_contract os" and "conn_read os conn len net = ((n, bs), net')"
  shows "(0 \<le> n \<or> n \<in> {-1, -5, -6}) \<and> n \<le> int len \<and> length bs = nat n \<and>
    conn_out conn net' = conn_out conn net \<and> conn_in conn net' = conn_in conn net @ bs"
proof (cases conn)
  case None
  with assms(2) show ?thesis
    by (auto simp: conn_read_def conn_out_def conn_in_def)
next
  case (Some c)
  with assms(2) have r: "TcpConnection_read os c False len net = ((n, bs), net')"
    by (simp add: conn_read_def)
  note b = TcpConnection_read_cases [OF assms(1) r]
  have "net_sent net' c = net_sent net c \<and> net_rcvd net' c = net_rcvd net c @ bs"
    using r
    by (auto simp: TcpConnection_read_def Let_def sys_def
        split: if_splits prod.splits recv_result.splits)
  with b Some show ?thesis
    by (auto simp: conn_out_def conn_in_def)
qed

interpretation tcp: channel "conn_write os conn" "conn_read os conn"
    "\<lambda>_. socket_contract os" "conn_out conn" "conn_in conn" for os conn
  by unfold_locales (use conn_write_law conn_read_law in blast)+

text \<open>
  What a write or a read leaves alone: the other connections, the fault flag, and everything of
  this connection but its state, which can only become \<open>Closed\<close>.
\<close>

definition conn_frame :: "conn_ref \<Rightarrow> 'w net \<Rightarrow> 'w net \<Rightarrow> bool" where
  "conn_frame c net0 net \<longleftrightarrow>
     net_fault net = net_fault net0 \<and>
     (\<forall>d. d \<noteq> c \<longrightarrow> net_tcp net d = net_tcp net0 d \<and> net_sent net d = net_sent net0 d \<and>
                    net_rcvd net d = net_rcvd net0 d) \<and>
     (net_tcp net c = net_tcp net0 c \<or> net_tcp net c = (net_tcp net0 c)\<lparr>tcp_state := Closed\<rparr>)"

lemma conn_frame_refl [simp]: "conn_frame c net net"
  by (simp add: conn_frame_def)

lemma conn_frame_trans: "conn_frame c n0 n1 \<Longrightarrow> conn_frame c n1 n2 \<Longrightarrow> conn_frame c n0 n2"
  by (auto simp: conn_frame_def)

lemma conn_write_frame: "conn_write os (Some c) bs net = (n, net') \<Longrightarrow> conn_frame c net net'"
  by (auto simp: conn_frame_def conn_write_def TcpConnection_write_def Let_def sys_def
      split: if_splits prod.splits)

lemma conn_read_frame: "conn_read os (Some c) len net = ((n, bs), net') \<Longrightarrow> conn_frame c net net'"
  by (auto simp: conn_frame_def conn_read_def TcpConnection_read_def Let_def sys_def
      split: if_splits prod.splits recv_result.splits)

interpretation tcp_frame: channel_invariant "conn_write os (Some c)" "conn_read os (Some c)"
    "conn_frame c net0" for os c net0
  by unfold_locales (blast intro: conn_frame_trans conn_write_frame conn_read_frame)+

subsection \<open>A world that delivers\<close>

text \<open>
  The documented behaviour of a healthy stream socket: a send takes at least one byte, a receive
  hands out the head of the bytes queued for the socket and would block when there are none.
  \<open>q w fd\<close> is that queue; looking at the clock does not change it.
\<close>

definition stream_contract :: "'w os \<Rightarrow> ('w \<Rightarrow> int \<Rightarrow> byte list) \<Rightarrow> bool" where
  "stream_contract os q \<longleftrightarrow>
     socket_contract os \<and>
     (\<forall>fd bs w n e w'. bs \<noteq> [] \<longrightarrow> os_send os fd bs w = ((n, e), w') \<longrightarrow> 0 < n \<and> q w' = q w) \<and>
     (\<forall>fd len w r w'. 0 < len \<longrightarrow> os_recv os fd len w = (r, w') \<longrightarrow>
        (if q w fd = [] then r = RecvFailed EAGAIN \<and> q w' = q w
         else \<exists>bs. r = Received bs \<and> bs \<noteq> [] \<and> q w fd = bs @ q w' fd)) \<and>
     (\<forall>w. q (snd (os_millis os w)) = q w)"

definition conn_queue :: "('w \<Rightarrow> int \<Rightarrow> byte list) \<Rightarrow> conn_ref option \<Rightarrow> 'w net \<Rightarrow> byte list" where
  "conn_queue q conn net =
     (case conn of None \<Rightarrow> [] | Some c \<Rightarrow> q (net_os net) (tcp_fd (net_tcp net c)))"

definition conn_up :: "conn_ref option \<Rightarrow> 'w net \<Rightarrow> bool" where
  "conn_up conn net \<longleftrightarrow>
     (\<exists>c. conn = Some c \<and> 0 \<le> tcp_fd (net_tcp net c) \<and> tcp_state (net_tcp net c) = Ok)"

lemma conn_write_up:
  assumes "stream_contract os q" and "conn_up conn net" and "bs \<noteq> []"
    and "conn_write os conn bs net = (n, net')"
  shows "0 < n \<and> conn_up conn net' \<and> conn_queue q conn net' = conn_queue q conn net"
proof -
  obtain c where c: "conn = Some c" "0 \<le> tcp_fd (net_tcp net c)" "tcp_state (net_tcp net c) = Ok"
    using assms(2) by (auto simp: conn_up_def)
  obtain m e w' where s: "os_send os (tcp_fd (net_tcp net c)) bs (net_os net) = ((m, e), w')"
    by (metis prod.collapse)
  have "0 < m" "q w' = q (net_os net)"
    using assms(1,3) s unfolding stream_contract_def by blast+
  with assms(3,4) c s show ?thesis
    by (auto simp: conn_write_def TcpConnection_write_def sys_def conn_up_def conn_queue_def)
qed

lemma conn_read_up:
  assumes "stream_contract os q" and "conn_up conn net" and "0 < len"
    and "conn_read os conn len net = ((n, bs), net')"
  shows "(conn_queue q conn net \<noteq> [] \<longrightarrow> 0 < n) \<and> conn_queue q conn net = bs @ conn_queue q conn net' \<and>
    conn_up conn net'"
proof -
  obtain c where c: "conn = Some c" "0 \<le> tcp_fd (net_tcp net c)" "tcp_state (net_tcp net c) = Ok"
    using assms(2) by (auto simp: conn_up_def)
  obtain r w' where s: "os_recv os (tcp_fd (net_tcp net c)) len (net_os net) = (r, w')"
    by (metis prod.collapse)
  have "if q (net_os net) (tcp_fd (net_tcp net c)) = []
      then r = RecvFailed EAGAIN \<and> q w' = q (net_os net)
      else \<exists>b. r = Received b \<and> b \<noteq> [] \<and> q (net_os net) (tcp_fd (net_tcp net c)) =
        b @ q w' (tcp_fd (net_tcp net c))"
    using assms(1,3) s unfolding stream_contract_def by blast
  with assms(3,4) c s show ?thesis
    by (auto simp: conn_read_def TcpConnection_read_def sys_def conn_up_def conn_queue_def
        split: if_splits)
qed

lemma conn_write_up_any:
  assumes "stream_contract os q" and "conn_up conn net" and "conn_write os conn bs net = (n, net')"
  shows "conn_up conn net'"
proof (cases "bs = []")
  case True
  with assms(2,3) show ?thesis
    by (auto simp: conn_up_def conn_write_def TcpConnection_write_def)
next
  case False
  with conn_write_up [OF assms(1,2) _ assms(3)] show ?thesis by blast
qed

lemma conn_read_up_any:
  assumes "stream_contract os q" and "conn_up conn net"
    and "conn_read os conn len net = ((n, bs), net')"
  shows "conn_up conn net'"
proof (cases "len = 0")
  case True
  with assms(2,3) show ?thesis
    by (auto simp: conn_up_def conn_read_def TcpConnection_read_def)
next
  case False
  with conn_read_up [OF assms(1,2) _ assms(3)] show ?thesis by blast
qed

lemma stream_millis:
  assumes "stream_contract os q" and "millis os net = (now, net')"
  shows "conn_queue q conn net' = conn_queue q conn net" and "conn_up conn net' = conn_up conn net"
proof -
  have "q (net_os net') = q (net_os net)" and "net_tcp net' = net_tcp net"
    using assms by (auto simp: stream_contract_def millis_def sys_def split: prod.splits)
      (metis snd_conv)
  then show "conn_queue q conn net' = conn_queue q conn net" and "conn_up conn net' = conn_up conn net"
    by (simp_all add: conn_queue_def conn_up_def split: option.splits)
qed

interpretation tcp_up: delivering_channel "conn_write os conn" "conn_read os conn"
    "\<lambda>net. stream_contract os q \<and> conn_up conn net" "conn_out conn" "conn_in conn"
    "conn_queue q conn" for os conn q
proof unfold_locales
  fix net :: "'a net" and bs n net' len
  assume v: "stream_contract os q \<and> conn_up conn net"
  then have C: "socket_contract os"
    by (simp add: stream_contract_def)
  show "(stream_contract os q \<and> conn_up conn net') \<and> (0 \<le> n \<or> n \<in> {-1, -5, -6}) \<and> n \<le> int (length bs) \<and>
      conn_out conn net' = conn_out conn net @ take (nat n) bs \<and>
      conn_in conn net' = conn_in conn net"
    if "conn_write os conn bs net = (n, net')"
    using v conn_write_law [OF C that] conn_write_up_any [OF _ _ that] by blast
  show "0 < n \<and> conn_queue q conn net' = conn_queue q conn net"
    if "bs \<noteq> []" and "conn_write os conn bs net = (n, net')"
    using v conn_write_up [OF _ _ that] by blast
  show "(stream_contract os q \<and> conn_up conn net') \<and> (0 \<le> n \<or> n \<in> {-1, -5, -6}) \<and> n \<le> int len \<and>
      length bs = nat n \<and> conn_out conn net' = conn_out conn net \<and>
      conn_in conn net' = conn_in conn net @ bs"
    if "conn_read os conn len net = ((n, bs), net')"
    using v conn_read_law [OF C that] conn_read_up_any [OF _ _ that] by blast
  show "(conn_queue q conn net \<noteq> [] \<longrightarrow> 0 < n) \<and> conn_queue q conn net = bs @ conn_queue q conn net'"
    if "0 < len" and "conn_read os conn len net = ((n, bs), net')"
    using v conn_read_up [OF _ _ that] by blast
qed

subsection \<open>One exchange over a connection\<close>

text \<open>
  The three clients of a connection keep the same bookkeeping for the exchange in flight. The
  request is the first \<open>txLen\<close> bytes of \<open>tx\<close>; since the exchange began (when the
  connection had sent \<open>osent\<close> and received \<open>ircvd\<close>) it has sent the first \<open>txSent\<close>
  bytes of it, and received exactly the first \<open>rxLen\<close> bytes of \<open>rx\<close>.
\<close>

definition exchange ::
  "conn_ref option \<Rightarrow> byte list \<Rightarrow> byte list \<Rightarrow> byte list \<Rightarrow> nat \<Rightarrow> byte list \<Rightarrow> nat \<Rightarrow> 'w net \<Rightarrow> bool"
  where
  "exchange conn osent ircvd tx txSent rx rxLen net \<longleftrightarrow>
     conn_out conn net = osent @ take txSent tx \<and> conn_in conn net = ircvd @ take rxLen rx"

lemma exchange_start: "exchange conn (conn_out conn net) (conn_in conn net) tx 0 rx 0 net"
  by (simp add: exchange_def)

lemma exchange_write:
  assumes "socket_contract os" and "exchange conn osent ircvd tx txSent rx rxLen net"
    and "txSent \<le> txLen" and "txLen \<le> length tx"
    and "write_loop (conn_write os conn) tx txLen txSent net = (st, k, net')"
  shows "exchange conn osent ircvd tx k rx rxLen net'"
proof -
  have "take txSent tx @ drop txSent (take k tx) = take k tx"
    using tcp.write_loop_sent [OF assms(1,3-5)]
    by (metis append_take_drop_id min.absorb1 take_take)
  with tcp.write_loop_sent [OF assms(1,3-5)] assms(2) show ?thesis
    by (simp add: exchange_def)
qed

lemma exchange_read:
  assumes "socket_contract os" and "exchange conn osent ircvd tx txSent rx l net"
    and "rx_wf limit rx l e" and "rx_framed limit rx l e"
    and "read_loop (conn_read os conn) limit rx l e net = (st, rx', l', e', net')"
  shows "exchange conn osent ircvd tx txSent rx' l' net'"
proof -
  note fr = tcp.read_loop_framed [OF assms(1,3-5)]
  have "take l rx @ drop l (take l' rx') = take l' rx'"
    using fr by (metis append_take_drop_id min.absorb1 take_take)
  with fr assms(2) show ?thesis
    by (simp add: exchange_def)
qed

lemma exchange_millis [simp]:
  "millis os net = (now, net') \<Longrightarrow>
    exchange conn osent ircvd tx txSent rx rxLen net' = exchange conn osent ircvd tx txSent rx rxLen net"
  by (auto simp: millis_def sys_def exchange_def conn_out_def conn_in_def
      split: prod.splits option.splits)

lemma exchange_world [simp]:
  "exchange conn osent ircvd tx txSent rx rxLen (net\<lparr>net_os := w\<rparr>) =
    exchange conn osent ircvd tx txSent rx rxLen net"
  by (simp add: exchange_def conn_out_def conn_in_def split: option.splits)

lemma millis_frame: "millis os net = (now, net') \<Longrightarrow> conn_frame c net net'"
  by (auto simp: millis_def sys_def conn_frame_def split: prod.splits)

lemma sys_fault: "sys f net = (r, net') \<Longrightarrow> net_fault net' = net_fault net"
  by (auto simp: sys_def split: prod.splits)

lemma millis_fault: "millis os net = (now, net') \<Longrightarrow> net_fault net' = net_fault net"
  using millis_frame [of os net now net' undefined] by (simp add: conn_frame_def)

end
