(* ===== verification/EthClient.thy ===== *)
theory EthClient
  imports TcpConnection
begin

text \<open>
  The Ethernet client, \<open>src/src/transport/Client.h\<close> and \<open>Client.cpp\<close>. The ESP32
  Ethernet driver \<open>ETH\<close> and the \<open>SPI\<close> bus are not part of the repository: they are the
  functions of the record \<open>'w eth\<close>, steps of the same outside world. The build option
  \<open>CONFIG_ETH_USE_ESP32_EMAC\<close> is a field of that record.
\<close>

record 'w eth =
  eth_use_emac :: bool
  eth_spi_begin :: "int \<Rightarrow> int \<Rightarrow> int \<Rightarrow> 'w \<Rightarrow> 'w"
  eth_begin_spi :: "int \<Rightarrow> int \<Rightarrow> int \<Rightarrow> int \<Rightarrow> int \<Rightarrow> 'w \<Rightarrow> bool \<times> 'w"
  eth_begin_rmii :: "int \<Rightarrow> int \<Rightarrow> int \<Rightarrow> int \<Rightarrow> int \<Rightarrow> int \<Rightarrow> 'w \<Rightarrow> bool \<times> 'w"
  eth_config :: "IPAddress \<Rightarrow> IPAddress \<Rightarrow> IPAddress \<Rightarrow> IPAddress \<Rightarrow> 'w \<Rightarrow> bool \<times> 'w"
  eth_end :: "'w \<Rightarrow> 'w"
  eth_linkUp :: "'w \<Rightarrow> bool \<times> 'w"
  eth_hasIP :: "'w \<Rightarrow> bool \<times> 'w"
  eth_localIP :: "'w \<Rightarrow> IPAddress"
  eth_subnetMask :: "'w \<Rightarrow> IPAddress"

record client_config =
  cfg_phyType :: int
  cfg_ip :: IPAddress
  cfg_gateway :: IPAddress
  cfg_subnet :: IPAddress
  cfg_dns :: IPAddress
  cfg_sck :: int
  cfg_miso :: int
  cfg_mosi :: int
  cfg_cs :: int
  cfg_irq :: int
  cfg_rst :: int
  cfg_phyAddr :: int
  cfg_rmii :: bool
  cfg_mdc :: int
  cfg_mdio :: int
  cfg_power :: int
  cfg_clkMode :: int

text \<open>The defaults of the structure; \<open>ETH_PHY_W5500\<close> is a constant of the driver's header.\<close>

definition Config_default :: "int \<Rightarrow> client_config" where
  "Config_default ETH_PHY_W5500 =
     \<lparr> cfg_phyType = ETH_PHY_W5500, cfg_ip = (192, 168, 1, 50), cfg_gateway = (192, 168, 1, 1),
       cfg_subnet = (255, 255, 255, 0), cfg_dns = (192, 168, 1, 1), cfg_sck = 5, cfg_miso = 7,
       cfg_mosi = 8, cfg_cs = 6, cfg_irq = -1, cfg_rst = -1, cfg_phyAddr = 1, cfg_rmii = False,
       cfg_mdc = 23, cfg_mdio = 18, cfg_power = -1, cfg_clkMode = 0 \<rparr>"

record client =
  cl_cfg :: client_config
  cl_started :: bool
  cl_ready :: bool
  cl_failed :: bool

definition Client_new :: "int \<Rightarrow> client" where
  "Client_new ETH_PHY_W5500 =
     \<lparr> cl_cfg = Config_default ETH_PHY_W5500, cl_started = False, cl_ready = False,
       cl_failed = False \<rparr>"

definition eth_act :: "('w \<Rightarrow> 'w) \<Rightarrow> 'w net \<Rightarrow> 'w net" where
  "eth_act f net = net\<lparr>net_os := f (net_os net)\<rparr>"

definition Client_begin ::
  "'w eth \<Rightarrow> client_config \<Rightarrow> client \<Rightarrow> 'w net \<Rightarrow> Status \<times> client \<times> 'w net" where
  "Client_begin eth cfg cl net =
     (let net0 = (if cl_started cl then eth_act (eth_end eth) net else net);
          cl0 = cl\<lparr>cl_started := False, cl_cfg := cfg, cl_ready := False, cl_failed := False\<rparr>
      in case (if eth_use_emac eth \<and> cfg_rmii cfg
               then sys (eth_begin_rmii eth (cfg_phyType cfg) (cfg_phyAddr cfg) (cfg_mdc cfg)
                           (cfg_mdio cfg) (cfg_power cfg) (cfg_clkMode cfg)) net0
               else sys (eth_begin_spi eth (cfg_phyType cfg) (cfg_phyAddr cfg) (cfg_cs cfg)
                           (cfg_irq cfg) (cfg_rst cfg))
                      (eth_act (eth_spi_begin eth (cfg_sck cfg) (cfg_miso cfg) (cfg_mosi cfg)) net0))
         of (ok, net1) \<Rightarrow>
           if \<not> ok then (Error, cl0\<lparr>cl_failed := True\<rparr>, net1)
           else
             (case sys (eth_config eth (cfg_ip cfg) (cfg_gateway cfg) (cfg_subnet cfg)
                          (cfg_dns cfg)) net1 of
                (ok2, net2) \<Rightarrow>
                  if \<not> ok2 then (Error, cl0\<lparr>cl_failed := True\<rparr>, net2)
                  else (Pending, cl0\<lparr>cl_started := True\<rparr>, net2)))"

definition Client_poll :: "'w eth \<Rightarrow> client \<Rightarrow> 'w net \<Rightarrow> Status \<times> client \<times> 'w net" where
  "Client_poll eth cl net =
     (if cl_failed cl then (Error, cl, net)
      else if \<not> cl_started cl then (NotReady, cl, net)
      else if cl_ready cl then (Ok, cl, net)
      else
        (case sys (eth_linkUp eth) net of (up, net1) \<Rightarrow>
           (case (if up then sys (eth_hasIP eth) net1 else (False, net1)) of (ip, net2) \<Rightarrow>
              if up \<and> ip then (Ok, cl\<lparr>cl_ready := True\<rparr>, net2) else (Pending, cl, net2))))"

definition Client_ready :: "client \<Rightarrow> bool" where
  "Client_ready cl \<longleftrightarrow> cl_ready cl"

definition Client_localIP :: "'w eth \<Rightarrow> client \<Rightarrow> 'w net \<Rightarrow> IPAddress" where
  "Client_localIP eth cl net = (if cl_ready cl then eth_localIP eth (net_os net) else (0, 0, 0, 0))"

definition Client_subnetMask :: "'w eth \<Rightarrow> client \<Rightarrow> 'w net \<Rightarrow> IPAddress" where
  "Client_subnetMask eth cl net =
     (if cl_ready cl then eth_subnetMask eth (net_os net) else (0, 0, 0, 0))"

text \<open>The destructor.\<close>

definition Client_end :: "'w eth \<Rightarrow> client \<Rightarrow> 'w net \<Rightarrow> client \<times> 'w net" where
  "Client_end eth cl net =
     (if cl_started cl
      then (cl\<lparr>cl_started := False, cl_ready := False\<rparr>, eth_act (eth_end eth) net)
      else (cl\<lparr>cl_ready := False\<rparr>, net))"

subsection \<open>The states of a client\<close>

text \<open>A client is ready only if it is started, and failed only if it is not.\<close>

definition client_inv :: "client \<Rightarrow> bool" where
  "client_inv cl \<longleftrightarrow> (cl_ready cl \<longrightarrow> cl_started cl) \<and> (cl_failed cl \<longrightarrow> \<not> cl_started cl)"

lemma Client_new_inv: "client_inv (Client_new w)"
  by (simp add: client_inv_def Client_new_def)

lemma Client_begin_inv: "Client_begin eth cfg cl net = (st, cl', net') \<Longrightarrow> client_inv cl'"
  by (auto simp: Client_begin_def client_inv_def Let_def split: prod.splits if_splits)

lemma Client_poll_inv: "client_inv cl \<Longrightarrow> Client_poll eth cl net = (st, cl', net') \<Longrightarrow> client_inv cl'"
  by (auto simp: Client_poll_def client_inv_def split: prod.splits if_splits)

lemma sys_net [simp]:
  "sys f net = (r, net') \<Longrightarrow> net_tcp net' = net_tcp net \<and> net_sent net' = net_sent net \<and>
    net_rcvd net' = net_rcvd net \<and> net_fault net' = net_fault net"
  by (auto simp: sys_def split: prod.splits)

text \<open>Nothing but the outside world changes.\<close>

definition only_os :: "'w net \<Rightarrow> 'w net \<Rightarrow> bool" where
  "only_os net net' \<longleftrightarrow>
     net_tcp net' = net_tcp net \<and> net_sent net' = net_sent net \<and> net_rcvd net' = net_rcvd net \<and>
     net_fault net' = net_fault net"

lemma only_os_refl [simp]: "only_os net net"
  by (simp add: only_os_def)

lemma only_os_sys: "sys f net = (r, net') \<Longrightarrow> only_os net net'"
  by (simp add: only_os_def)

lemma only_os_act [simp]: "only_os net (eth_act f net)"
  by (simp add: only_os_def eth_act_def)

lemma only_os_trans: "only_os a b \<Longrightarrow> only_os b c \<Longrightarrow> only_os a c"
  by (simp add: only_os_def)

lemma only_os_fields:
  "only_os net net' \<Longrightarrow> net_tcp net' = net_tcp net \<and> net_fault net' = net_fault net"
  by (simp add: only_os_def)

lemma Client_begin_only_os:
  assumes "Client_begin eth cfg cl net = (st, cl', net')"
  shows "only_os net net'"
  using assms
  by (auto simp: Client_begin_def Let_def only_os_def eth_act_def split: prod.splits if_splits)

lemma Client_poll_only_os:
  assumes "Client_poll eth cl net = (st, cl', net')"
  shows "only_os net net'"
  using assms by (auto simp: Client_poll_def only_os_def split: prod.splits if_splits)

subsection \<open>Properties\<close>

text \<open>
  The life of the Ethernet client: \<open>begin()\<close> forgets what was before, asks the driver to
  start and to take the static address, and reports \<open>Pending\<close> exactly if both succeed;
  \<open>poll()\<close> then reports \<open>Ok\<close> from the first time link and address are there, and for
  ever after, \<open>Pending\<close> before; a client that failed reports \<open>Error\<close> until the next
  \<open>begin()\<close>. Neither touches a connection.
\<close>

theorem Client_life:
  assumes "Client_begin eth cfg cl net = (st1, cl1, net1)"
    and "Client_poll eth cl1 net2 = (st2, cl2, net3)"
  shows "(st1 = Pending \<and> cl_started cl1 \<or> st1 = Error \<and> cl_failed cl1) \<and> cl_cfg cl1 = cfg \<and>
    \<not> Client_ready cl1 \<and>
    (st1 = Error \<longrightarrow> st2 = Error) \<and>
    (st1 = Pending \<longrightarrow> st2 \<in> {Ok, Pending} \<and> (st2 = Ok \<longleftrightarrow> Client_ready cl2) \<and>
       (st2 = Ok \<longrightarrow> fst (eth_linkUp eth (net_os net2)))) \<and>
    (Client_ready cl2 \<longrightarrow> Client_poll eth cl2 net4 = (Ok, cl2, net4)) \<and>
    only_os net net1 \<and> only_os net2 net3"
proof -
  have b: "(st1 = Pending \<and> cl_started cl1 \<and> \<not> cl_failed cl1 \<or> st1 = Error \<and> cl_failed cl1)"
    "cl_cfg cl1 = cfg" "\<not> cl_ready cl1"
    using assms(1) by (auto simp: Client_begin_def Let_def split: prod.splits if_splits)
  then have "st1 = Error \<longrightarrow> st2 = Error" and
    "st1 = Pending \<longrightarrow> st2 \<in> {Ok, Pending} \<and> (st2 = Ok \<longleftrightarrow> cl_ready cl2) \<and>
      (st2 = Ok \<longrightarrow> fst (eth_linkUp eth (net_os net2)))"
    and "cl_ready cl2 \<longrightarrow> Client_poll eth cl2 net4 = (Ok, cl2, net4)"
    using assms(2) by (auto simp: Client_poll_def sys_def split: prod.splits if_splits)
  with b Client_begin_only_os [OF assms(1)] Client_poll_only_os [OF assms(2)] show ?thesis
    by (auto simp: Client_ready_def)
qed

definition demo_eth :: "'w eth" where
  "demo_eth =
     \<lparr> eth_use_emac = False, eth_spi_begin = (\<lambda>a b c w. w), eth_begin_spi = (\<lambda>a b c d e w. (True, w)),
       eth_begin_rmii = (\<lambda>a b c d e f w. (True, w)), eth_config = (\<lambda>a b c d w. (True, w)),
       eth_end = (\<lambda>w. w), eth_linkUp = (\<lambda>w. (True, w)), eth_hasIP = (\<lambda>w. (True, w)),
       eth_localIP = (\<lambda>w. (192, 168, 1, 50)), eth_subnetMask = (\<lambda>w. (255, 255, 255, 0)) \<rparr>"

theorem Client_life_witness:
  "\<forall>net :: unit net. \<exists>cl1 cl2 net1 net2.
    Client_begin demo_eth (Config_default 0) (Client_new 0) net = (Pending, cl1, net1) \<and>
    Client_poll demo_eth cl1 net1 = (Ok, cl2, net2) \<and> Client_ready cl2"
proof
  fix net :: "unit net"
  obtain cl1 net1 where b: "Client_begin demo_eth (Config_default 0) (Client_new 0) net = (Pending, cl1, net1)"
    by (simp add: Client_begin_def demo_eth_def sys_def Client_new_def Let_def)
  obtain st cl2 net2 where p: "Client_poll demo_eth cl1 net1 = (st, cl2, net2)"
    by (metis prod_cases3)
  have "st = Ok"
    using b p by (auto simp: Client_begin_def Client_poll_def demo_eth_def sys_def Client_new_def Let_def)
  with b p Client_life [OF b p]
  show "\<exists>cl1 cl2 net1 net2. Client_begin demo_eth (Config_default 0) (Client_new 0) net = (Pending, cl1, net1) \<and>
    Client_poll demo_eth cl1 net1 = (Ok, cl2, net2) \<and> Client_ready cl2"
    by blast
qed

text \<open>
  A start that fails at the address leaks the driver: if \<open>ETH.begin()\<close> succeeds and
  \<open>ETH.config()\<close> does not, the client holds itself to be not started, so neither the next
  \<open>begin()\<close> nor the destructor stops the driver that is running.
\<close>

theorem Client_failed_config_leaks:
  assumes "Client_begin eth cfg cl net = (Error, cl1, net1)"
  shows "Client_end eth cl1 net2 = (cl1, net2) \<and>
    (\<forall>f. Client_begin (eth\<lparr>eth_end := f\<rparr>) cfg2 cl1 net2 = Client_begin eth cfg2 cl1 net2)"
proof -
  have "\<not> cl_started cl1" "\<not> cl_ready cl1"
    using assms by (auto simp: Client_begin_def Let_def split: prod.splits if_splits)
  then show ?thesis
    by (simp add: Client_end_def Client_begin_def Let_def cong: prod.case_cong if_cong split del: if_split)
qed

theorem Client_failed_config_leaks_witness:
  "\<forall>net :: unit net. \<exists>cl1 net1.
    Client_begin (demo_eth\<lparr>eth_config := (\<lambda>a b c d w. (False, w))\<rparr>) (Config_default 0)
      (Client_new 0) net = (Error, cl1, net1) \<and>
    Client_end (demo_eth\<lparr>eth_config := (\<lambda>a b c d w. (False, w))\<rparr>) cl1 net1 = (cl1, net1)"
proof
  fix net :: "unit net"
  obtain cl1 net1 where b: "Client_begin (demo_eth\<lparr>eth_config := (\<lambda>a b c d w. (False, w))\<rparr>)
      (Config_default 0) (Client_new 0) net = (Error, cl1, net1)"
    by (simp add: Client_begin_def demo_eth_def sys_def Client_new_def Let_def)
  with Client_failed_config_leaks [OF b]
  show "\<exists>cl1 net1. Client_begin (demo_eth\<lparr>eth_config := (\<lambda>a b c d w. (False, w))\<rparr>) (Config_default 0)
      (Client_new 0) net = (Error, cl1, net1) \<and>
    Client_end (demo_eth\<lparr>eth_config := (\<lambda>a b c d w. (False, w))\<rparr>) cl1 net1 = (cl1, net1)"
    by blast
qed

end
