(* ===== verification/Loopback.thy ===== *)
theory Loopback
  imports TcpConnection
begin

text \<open>
  A concrete outside world in which the examples of the development run: a clock that stands
  still until the example moves it, a socket that accepts everything and hands out a queue of
  bytes. It keeps the contracts of \<open>TcpConnection\<close>, so these can hold.
\<close>

record loopback =
  lb_now :: u32
  lb_random :: u32
  lb_queue :: "byte list"

definition loopback_os :: "loopback os" where
  "loopback_os =
     \<lparr> os_millis = (\<lambda>w. (lb_now w, w)),
       os_random = (\<lambda>w. (lb_random w, w)),
       os_socket = (\<lambda>w. (3, w)),
       os_getfl = (\<lambda>fd w. (0, w)),
       os_setfl = (\<lambda>fd flags w. (0, w)),
       os_O_NONBLOCK = 1,
       os_connect = (\<lambda>fd ip port w. ((-1, EINPROGRESS), w)),
       os_close = (\<lambda>fd w. w),
       os_select_writable = (\<lambda>fd w. (1, w)),
       os_so_error = (\<lambda>fd w. ((0, 0), w)),
       os_send = (\<lambda>fd bs w. ((int (length bs), EOther 0), w)),
       os_recv = (\<lambda>fd len w.
         if lb_queue w = [] then (RecvFailed EAGAIN, w)
         else (Received (take len (lb_queue w)), w\<lparr>lb_queue := drop len (lb_queue w)\<rparr>)) \<rparr>"

lemma loopback_simps [simp]:
  "os_millis loopback_os w = (lb_now w, w)"
  "os_random loopback_os w = (lb_random w, w)"
  "os_socket loopback_os w = (3, w)"
  "os_getfl loopback_os fd w = (0, w)"
  "os_setfl loopback_os fd flags w = (0, w)"
  "os_connect loopback_os fd ip port w = ((-1, EINPROGRESS), w)"
  "os_close loopback_os fd w = w"
  "os_select_writable loopback_os fd w = (1, w)"
  "os_so_error loopback_os fd w = ((0, 0), w)"
  "os_send loopback_os fd bs w = ((int (length bs), EOther 0), w)"
  "os_recv loopback_os fd len w =
     (if lb_queue w = [] then (RecvFailed EAGAIN, w)
      else (Received (take len (lb_queue w)), w\<lparr>lb_queue := drop len (lb_queue w)\<rparr>))"
  by (simp_all add: loopback_os_def)

lemma loopback_socket_contract [simp]: "socket_contract loopback_os"
  by (auto simp: socket_contract_def split: if_splits)

lemma loopback_stream_contract [simp]: "stream_contract loopback_os (\<lambda>w fd. lb_queue w)"
  by (auto simp: stream_contract_def)

text \<open>A store with one connected socket, at address 0, and a queue of bytes to receive.\<close>

definition up_tcp :: tcp_connection where
  "up_tcp = TcpConnection_new\<lparr>tcp_fd := 3, tcp_state := Ok\<rparr>"

definition loopback_net :: "u32 \<Rightarrow> byte list \<Rightarrow> loopback net" where
  "loopback_net now queue =
     \<lparr> net_os = \<lparr> lb_now = now, lb_random = 7, lb_queue = queue \<rparr>, net_tcp = (\<lambda>c. up_tcp),
       net_sent = (\<lambda>c. []), net_rcvd = (\<lambda>c. []), net_fault = False \<rparr>"

lemma loopback_net_simps [simp]:
  "lb_now (net_os (loopback_net now queue)) = now"
  "lb_queue (net_os (loopback_net now queue)) = queue"
  "lb_random (net_os (loopback_net now queue)) = 7"
  "net_tcp (loopback_net now queue) c = up_tcp"
  "tcp_fd up_tcp = 3" "tcp_state up_tcp = Ok"
  "net_sent (loopback_net now queue) c = []"
  "net_rcvd (loopback_net now queue) c = []"
  "\<not> net_fault (loopback_net now queue)"
  by (simp_all add: loopback_net_def up_tcp_def TcpConnection_new_def)

lemma loopback_millis [simp]:
  "millis loopback_os net = (lb_now (net_os net), net)"
  by (simp add: millis_def sys_def)

lemma loopback_up [simp]: "conn_up (Some c) (loopback_net now queue)"
  by (simp add: conn_up_def)

lemma loopback_connected [simp]: "TcpConnection_connected c (loopback_net now queue)"
  by (simp add: TcpConnection_connected_def)

end
