(* ===== verification/Session.thy ===== *)
theory Session
  imports Loopback
begin

text \<open>
  The EtherNet/IP session, \<open>src/src/eip/Session.h\<close> and \<open>Session.cpp\<close>: the state
  machine that registers and unregisters a session over a connection it points to. A poll checks
  the deadline, sends what is left of the request, receives what is left of the reply, and
  validates the reply. The session object is a record; the fields that \<open>conn_\<close> points at
  live in the store of connections.
\<close>

definition ses_kMaxBodySize :: nat where
  "ses_kMaxBodySize = 512"

lemma ses_kMaxBodySize [simp]: "ses_kMaxBodySize = 512"
  by (simp add: ses_kMaxBodySize_def)

datatype SessionState =
  SesIdle | SesRegistering | SesRegistered | SesUnregistering | SesClosed | SesFailed

record session =
  ses_conn :: "conn_ref option"
  ses_state :: SessionState
  ses_handle :: u32
  ses_deadline :: u32
  ses_context :: u64
  ses_tx :: "byte list"
  ses_txLen :: nat
  ses_txSent :: nat
  ses_rx :: "byte list"
  ses_rxLen :: nat
  ses_rxExpected :: nat

text \<open>A new session; the two buffers are not initialised, so their contents are parameters.\<close>

definition Session_new :: "byte list \<Rightarrow> byte list \<Rightarrow> session" where
  "Session_new tx rx =
     \<lparr> ses_conn = None, ses_state = SesIdle, ses_handle = 0, ses_deadline = 0, ses_context = 1,
       ses_tx = tx, ses_txLen = 0, ses_txSent = 0, ses_rx = rx, ses_rxLen = 0,
       ses_rxExpected = 0 \<rparr>"

definition Session_registered :: "session \<Rightarrow> bool" where
  "Session_registered s \<longleftrightarrow> ses_state s = SesRegistered"

definition Session_abort :: "session \<Rightarrow> session" where
  "Session_abort s =
     s\<lparr>ses_conn := None, ses_state := SesClosed, ses_handle := 0, ses_txLen := 0, ses_txSent := 0,
       ses_rxLen := 0, ses_rxExpected := 0\<rparr>"

definition Session_startRegister :: "session \<Rightarrow> Status \<times> session" where
  "Session_startRegister s =
     (let h = \<lparr> eh_command = Command_code RegisterSession, eh_length = 4, eh_session = 0,
                eh_status = 0, eh_context = ses_context s, eh_options = 0 \<rparr>;
          tx1 = encodeHeader h (ses_tx s);
          tx2 = putU16 kEncapsulationHeaderSize 1 tx1;
          tx3 = putU16 (kEncapsulationHeaderSize + 2) 0 tx2
      in (Pending, s\<lparr>ses_tx := tx3, ses_txLen := kEncapsulationHeaderSize + 4, ses_txSent := 0,
                      ses_rxLen := 0, ses_rxExpected := kEncapsulationHeaderSize,
                      ses_state := SesRegistering\<rparr>))"

definition Session_startUnregister :: "session \<Rightarrow> Status \<times> session" where
  "Session_startUnregister s =
     (let h = \<lparr> eh_command = Command_code UnregisterSession, eh_length = 0,
                eh_session = ses_handle s, eh_status = 0, eh_context = ses_context s,
                eh_options = 0 \<rparr>;
          tx1 = encodeHeader h (ses_tx s)
      in (Pending, s\<lparr>ses_tx := tx1, ses_txLen := kEncapsulationHeaderSize, ses_txSent := 0,
                      ses_rxLen := 0, ses_rxExpected := kEncapsulationHeaderSize,
                      ses_state := SesUnregistering\<rparr>))"

definition Session_open ::
  "'w os \<Rightarrow> conn_ref \<Rightarrow> u32 \<Rightarrow> session \<Rightarrow> 'w net \<Rightarrow> Status \<times> session \<times> 'w net" where
  "Session_open os conn timeoutMs s net =
     (if ses_state s = SesRegistering \<or> ses_state s = SesRegistered then (Busy, s, net)
      else if \<not> TcpConnection_connected conn net then (NotReady, s, net)
      else
        (case millis os net of (now, net1) \<Rightarrow>
           (case Session_startRegister (s\<lparr>ses_conn := Some conn, ses_deadline := now + timeoutMs\<rparr>) of
              (st, s1) \<Rightarrow> (st, s1, net1))))"

definition Session_close :: "session \<Rightarrow> Status \<times> session" where
  "Session_close s =
     (if ses_state s = SesRegistered then Session_startUnregister s
      else if ses_state s = SesRegistering \<or> ses_state s = SesUnregistering then (Busy, s)
      else (Ok, Session_abort s))"

definition Session_writePending ::
  "'w os \<Rightarrow> session \<Rightarrow> 'w net \<Rightarrow> Status \<times> session \<times> 'w net" where
  "Session_writePending os s net =
     (case write_loop (conn_write os (ses_conn s)) (ses_tx s) (ses_txLen s) (ses_txSent s) net of
        (st, sent, net1) \<Rightarrow> (st, s\<lparr>ses_txSent := sent\<rparr>, net1))"

definition Session_readResponse ::
  "'w os \<Rightarrow> session \<Rightarrow> 'w net \<Rightarrow> Status \<times> session \<times> 'w net" where
  "Session_readResponse os s net =
     (case read_loop (conn_read os (ses_conn s)) ses_kMaxBodySize (ses_rx s) (ses_rxLen s)
        (ses_rxExpected s) net of
        (st, rx, rxLen, rxExpected, net1) \<Rightarrow>
          (st, s\<lparr>ses_rx := rx, ses_rxLen := rxLen, ses_rxExpected := rxExpected\<rparr>, net1))"

definition Session_pollRegistering ::
  "'w os \<Rightarrow> session \<Rightarrow> 'w net \<Rightarrow> Status \<times> session \<times> 'w net" where
  "Session_pollRegistering os s net =
     (case millis os net of (now, net0) \<Rightarrow>
        if expired now (ses_deadline s) then (Timeout, s\<lparr>ses_state := SesFailed\<rparr>, net0)
        else
          (case Session_writePending os s net0 of (st, s1, net1) \<Rightarrow>
             if st \<noteq> Ok then (st, s1, net1)
             else
               (case Session_readResponse os s1 net1 of (st2, s2, net2) \<Rightarrow>
                  if st2 = Pending then (Pending, s2, net2)
                  else if st2 \<noteq> Ok then (st2, s2\<lparr>ses_state := SesFailed\<rparr>, net2)
                  else
                    (let h = decodeHeader (ses_rx s2) in
                     if eh_command h \<noteq> Command_code RegisterSession \<or> eh_status h \<noteq> 0
                        \<or> eh_length h < 4
                     then (Error, s2\<lparr>ses_state := SesFailed\<rparr>, net2)
                     else
                       (let s3 = s2\<lparr>ses_handle := eh_session h\<rparr> in
                        if ses_handle s3 = 0 then (Error, s3\<lparr>ses_state := SesFailed\<rparr>, net2)
                        else (Ok, s3\<lparr>ses_state := SesRegistered\<rparr>, net2))))))"

definition Session_pollUnregistering ::
  "'w os \<Rightarrow> session \<Rightarrow> 'w net \<Rightarrow> Status \<times> session \<times> 'w net" where
  "Session_pollUnregistering os s net =
     (case millis os net of (now, net0) \<Rightarrow>
        if expired now (ses_deadline s) then (Timeout, s\<lparr>ses_state := SesFailed\<rparr>, net0)
        else
          (case Session_writePending os s net0 of (st, s1, net1) \<Rightarrow>
             if st \<noteq> Ok then (st, s1, net1)
             else
               (case Session_readResponse os s1 net1 of (st2, s2, net2) \<Rightarrow>
                  if st2 = Pending then (Pending, s2, net2)
                  else if st2 \<noteq> Ok then (st2, s2\<lparr>ses_state := SesFailed\<rparr>, net2)
                  else (Ok, s2\<lparr>ses_state := SesClosed\<rparr>, net2))))"

definition Session_poll ::
  "'w os \<Rightarrow> session \<Rightarrow> 'w net \<Rightarrow> Status \<times> session \<times> 'w net" where
  "Session_poll os s net =
     (case ses_state s of
        SesRegistering \<Rightarrow> Session_pollRegistering os s net
      | SesUnregistering \<Rightarrow> Session_pollUnregistering os s net
      | SesRegistered \<Rightarrow> (Ok, s, net)
      | SesClosed \<Rightarrow> (Closed, s, net)
      | SesFailed \<Rightarrow> (Error, s, net)
      | SesIdle \<Rightarrow> (NotReady, s, net))"

subsection \<open>The invariant\<close>

text \<open>
  Cursors stay within the buffers, whose sizes never change (so no write leaves them); while an
  exchange is in flight there is a connection and the receive buffer is framed; a registered
  session has a handle and a connection.
\<close>

definition Session_buffers :: "session \<Rightarrow> bool" where
  "Session_buffers s \<longleftrightarrow>
     length (ses_tx s) = 24 + ses_kMaxBodySize \<and> ses_txSent s \<le> ses_txLen s \<and>
     ses_txLen s \<le> length (ses_tx s) \<and>
     rx_wf ses_kMaxBodySize (ses_rx s) (ses_rxLen s) (ses_rxExpected s)"

definition Session_busy :: "session \<Rightarrow> bool" where
  "Session_busy s \<longleftrightarrow> ses_state s = SesRegistering \<or> ses_state s = SesUnregistering"

definition Session_framed :: "session \<Rightarrow> bool" where
  "Session_framed s \<longleftrightarrow>
     ses_conn s \<noteq> None \<and> rx_framed ses_kMaxBodySize (ses_rx s) (ses_rxLen s) (ses_rxExpected s)"

definition Session_inv :: "session \<Rightarrow> bool" where
  "Session_inv s \<longleftrightarrow>
     Session_buffers s \<and> (Session_busy s \<longrightarrow> Session_framed s) \<and>
     (ses_state s = SesRegistered \<longrightarrow> ses_handle s \<noteq> 0 \<and> ses_conn s \<noteq> None)"

lemmas Session_inv_defs = Session_inv_def Session_buffers_def Session_busy_def Session_framed_def

lemma Session_new_inv:
  "length tx = 24 + ses_kMaxBodySize \<Longrightarrow> length rx = 24 + ses_kMaxBodySize \<Longrightarrow>
    Session_inv (Session_new tx rx)"
  by (simp add: Session_inv_defs Session_new_def rx_wf_def)

lemma Session_abort_inv: "Session_inv s \<Longrightarrow> Session_inv (Session_abort s)"
  by (simp add: Session_inv_defs Session_abort_def rx_wf_def)

lemma Session_startRegister_inv:
  "Session_inv s \<Longrightarrow> ses_conn s \<noteq> None \<Longrightarrow> Session_startRegister s = (st, s') \<Longrightarrow> Session_inv s'"
  by (auto simp: Session_inv_defs Session_startRegister_def Let_def rx_wf_def rx_framed_start)

lemma Session_startUnregister_inv:
  "Session_inv s \<Longrightarrow> ses_conn s \<noteq> None \<Longrightarrow> Session_startUnregister s = (st, s') \<Longrightarrow> Session_inv s'"
  by (auto simp: Session_inv_defs Session_startUnregister_def Let_def rx_wf_def rx_framed_start)

lemma Session_writePending_spec:
  assumes "socket_contract os" and "Session_buffers s"
    and "Session_writePending os s net = (st, s', net')"
  obtains k where "s' = s\<lparr>ses_txSent := k\<rparr>" and "Session_buffers s'"
    and "st = Ok \<and> k = ses_txLen s \<or> st = Pending \<or> io_failure st"
proof -
  obtain k where w: "write_loop (conn_write os (ses_conn s)) (ses_tx s) (ses_txLen s) (ses_txSent s)
      net = (st, k, net')" and s': "s' = s\<lparr>ses_txSent := k\<rparr>"
    using assms(3) by (auto simp: Session_writePending_def split: prod.splits)
  show thesis
    using tcp.write_loop_sent [OF assms(1) _ _ w] assms(2) s'
    by (intro that [OF s']) (auto simp: Session_buffers_def)
qed

lemma Session_readResponse_spec:
  assumes "socket_contract os" and "Session_buffers s" and "Session_framed s"
    and "Session_readResponse os s net = (st, s', net')"
  obtains rx l e where "s' = s\<lparr>ses_rx := rx, ses_rxLen := l, ses_rxExpected := e\<rparr>"
    and "Session_buffers s'"
    and "st = Ok \<and> Session_framed s' \<and> packet (take l rx) \<and> 24 \<le> l \<or>
      st = Pending \<and> Session_framed s' \<or> io_failure st"
proof -
  obtain rx l e where r: "read_loop (conn_read os (ses_conn s)) ses_kMaxBodySize (ses_rx s)
      (ses_rxLen s) (ses_rxExpected s) net = (st, rx, l, e, net')"
    and s': "s' = s\<lparr>ses_rx := rx, ses_rxLen := l, ses_rxExpected := e\<rparr>"
    using assms(4) by (auto simp: Session_readResponse_def split: prod.splits)
  have wf: "rx_wf ses_kMaxBodySize (ses_rx s) (ses_rxLen s) (ses_rxExpected s)"
    and fr: "rx_framed ses_kMaxBodySize (ses_rx s) (ses_rxLen s) (ses_rxExpected s)"
    using assms by (auto simp: Session_buffers_def Session_framed_def)
  have "packet (take l rx)" if "st = Ok"
    using tcp.read_loop_packet [OF assms(1) wf fr] r that by blast
  with tcp.read_loop_framed [OF assms(1) wf fr r] s' assms(2,3) show thesis
    by (intro that [OF s']) (auto simp: Session_buffers_def Session_framed_def)
qed

subsection \<open>One poll\<close>

lemma Session_poll_idle [simp]:
  "ses_state s = SesIdle \<Longrightarrow> Session_poll os s net = (NotReady, s, net)"
  "ses_state s = SesRegistered \<Longrightarrow> Session_poll os s net = (Ok, s, net)"
  "ses_state s = SesClosed \<Longrightarrow> Session_poll os s net = (Closed, s, net)"
  "ses_state s = SesFailed \<Longrightarrow> Session_poll os s net = (Error, s, net)"
  by (simp_all add: Session_poll_def)

text \<open>The fields a poll never writes.\<close>

definition ses_same_request :: "session \<Rightarrow> session \<Rightarrow> bool" where
  "ses_same_request s s' \<longleftrightarrow>
     ses_conn s' = ses_conn s \<and> ses_deadline s' = ses_deadline s \<and> ses_context s' = ses_context s \<and>
     ses_tx s' = ses_tx s \<and> ses_txLen s' = ses_txLen s"

text \<open>A reply that registers the session: what \<open>pollRegistering\<close> accepts.\<close>

definition register_reply :: "byte list \<Rightarrow> u32 \<Rightarrow> bool" where
  "register_reply p handle \<longleftrightarrow>
     packet p \<and> length p \<le> 24 + ses_kMaxBodySize \<and>
     eh_command (decodeHeader p) = Command_code RegisterSession \<and> eh_status (decodeHeader p) = 0 \<and>
     4 \<le> eh_length (decodeHeader p) \<and> handle = eh_session (decodeHeader p) \<and> handle \<noteq> 0"

abbreviation ses_exchange :: "byte list \<Rightarrow> byte list \<Rightarrow> session \<Rightarrow> 'w net \<Rightarrow> bool" where
  "ses_exchange osent ircvd s net \<equiv>
     exchange (ses_conn s) osent ircvd (ses_tx s) (ses_txSent s) (ses_rx s) (ses_rxLen s) net"

lemma Session_writePending_exchange:
  assumes "socket_contract os" and "Session_buffers s" and "ses_exchange osent ircvd s net"
    and "Session_writePending os s net = (st, s', net')"
  shows "ses_exchange osent ircvd s' net'"
  using assms(4) exchange_write [OF assms(1,3)] assms(2)
  by (auto simp: Session_writePending_def Session_buffers_def split: prod.splits)

lemma Session_readResponse_exchange:
  assumes "socket_contract os" and "Session_buffers s" and "Session_framed s"
    and "ses_exchange osent ircvd s net" and "Session_readResponse os s net = (st, s', net')"
  shows "ses_exchange osent ircvd s' net'"
  using assms(5) exchange_read [OF assms(1,4)] assms(2,3)
  by (auto simp: Session_readResponse_def Session_buffers_def Session_framed_def split: prod.splits)

lemma Session_rx_header:
  assumes "Session_buffers s" and "24 \<le> ses_rxLen s"
  shows "decodeHeader (take (ses_rxLen s) (ses_rx s)) = decodeHeader (ses_rx s)"
    and "length (take (ses_rxLen s) (ses_rx s)) \<le> 24 + ses_kMaxBodySize"
  using assms by (auto simp: Session_buffers_def rx_wf_def intro!: header.dec_take)

lemma Session_pollRegistering_spec:
  assumes C: "socket_contract os" and I: "Session_inv s" and S: "ses_state s = SesRegistering"
    and run: "Session_pollRegistering os s net = (st, s', net')"
  shows "Session_inv s' \<and> ses_same_request s s' \<and>
    (ses_exchange osent ircvd s net \<longrightarrow> ses_exchange osent ircvd s' net') \<and>
    (st = Ok \<and> ses_state s' = SesRegistered \<and> ses_txSent s' = ses_txLen s' \<and>
       register_reply (take (ses_rxLen s') (ses_rx s')) (ses_handle s') \<or>
     st = Pending \<and> ses_state s' = SesRegistering \<or>
     failure st \<and> ses_state s' \<in> {SesRegistering, SesFailed})"
proof -
  obtain now net0 where m: "millis os net = (now, net0)" by fastforce
  obtain st1 s1 net1 where w: "Session_writePending os s net0 = (st1, s1, net1)"
    by (metis prod_cases3)
  obtain st2 s2 net2 where r: "Session_readResponse os s1 net1 = (st2, s2, net2)"
    by (metis prod_cases3)
  note run = run [unfolded Session_pollRegistering_def m w r prod.case Let_def]
  have B: "Session_buffers s" "Session_framed s"
    using I S by (auto simp: Session_inv_def Session_busy_def)
  have cn: "ses_conn s \<noteq> None"
    using B(2) by (simp add: Session_framed_def)
  obtain k where s1: "s1 = s\<lparr>ses_txSent := k\<rparr>" "Session_buffers s1"
    and st1: "st1 = Ok \<and> k = ses_txLen s \<or> st1 = Pending \<or> io_failure st1"
    using C B(1) w by (rule Session_writePending_spec)
  have F1: "Session_framed s1"
    using B(2) s1 by (simp add: Session_framed_def)
  obtain rx l e where s2: "s2 = s1\<lparr>ses_rx := rx, ses_rxLen := l, ses_rxExpected := e\<rparr>"
      "Session_buffers s2"
    and st2: "st2 = Ok \<and> Session_framed s2 \<and> packet (take l rx) \<and> 24 \<le> l \<or>
      st2 = Pending \<and> Session_framed s2 \<or> io_failure st2"
    using C s1(2) F1 r by (rule Session_readResponse_spec)
  have x1: "ses_exchange osent ircvd s1 net1" if "ses_exchange osent ircvd s net"
    using Session_writePending_exchange [OF C B(1) _ w] that m by simp
  then have x2: "ses_exchange osent ircvd s2 net2" if "ses_exchange osent ircvd s net"
    using Session_readResponse_exchange [OF C s1(2) F1 _ r] that by simp
  have x0: "ses_exchange osent ircvd s net0" if "ses_exchange osent ircvd s net"
    using that m by simp
  have hd: "decodeHeader (take l rx) = decodeHeader rx" "length (take l rx) \<le> 24 + ses_kMaxBodySize"
    if "24 \<le> l"
    using Session_rx_header [OF s2(2)] that s2(1) by simp_all
  consider (late) "expired now (ses_deadline s)" | (blocked) "\<not> expired now (ses_deadline s)" "st1 \<noteq> Ok"
    | (waiting) "\<not> expired now (ses_deadline s)" "st1 = Ok" "st2 \<noteq> Ok"
    | (reply) "\<not> expired now (ses_deadline s)" "st1 = Ok" "st2 = Ok"
    by blast
  then show ?thesis
  proof cases
    case late
    with run x0 B I show ?thesis
      by (auto simp: Session_inv_defs ses_same_request_def)
  next
    case blocked
    with run x1 st1 s1 F1 S show ?thesis
      by (auto simp: Session_inv_def Session_busy_def ses_same_request_def)
  next
    case waiting
    with run x2 st1 st2 s1 s2 S show ?thesis
      by (auto simp: Session_inv_def Session_busy_def ses_same_request_def Session_buffers_def
          split: if_splits)
  next
    case reply
    with run x2 st1 st2 s1 s2 S hd cn show ?thesis
      by (auto simp: Session_inv_def Session_busy_def ses_same_request_def Session_buffers_def
          register_reply_def split: if_splits)
  qed
qed

lemma Session_pollUnregistering_spec:
  assumes C: "socket_contract os" and I: "Session_inv s" and S: "ses_state s = SesUnregistering"
    and run: "Session_pollUnregistering os s net = (st, s', net')"
  shows "Session_inv s' \<and> ses_same_request s s' \<and> ses_handle s' = ses_handle s \<and>
    (ses_exchange osent ircvd s net \<longrightarrow> ses_exchange osent ircvd s' net') \<and>
    (st = Ok \<and> ses_state s' = SesClosed \<and> ses_txSent s' = ses_txLen s' \<and>
       packet (take (ses_rxLen s') (ses_rx s')) \<or>
     st = Pending \<and> ses_state s' = SesUnregistering \<or>
     failure st \<and> ses_state s' \<in> {SesUnregistering, SesFailed})"
proof -
  obtain now net0 where m: "millis os net = (now, net0)" by fastforce
  obtain st1 s1 net1 where w: "Session_writePending os s net0 = (st1, s1, net1)"
    by (metis prod_cases3)
  obtain st2 s2 net2 where r: "Session_readResponse os s1 net1 = (st2, s2, net2)"
    by (metis prod_cases3)
  note run = run [unfolded Session_pollUnregistering_def m w r prod.case]
  have B: "Session_buffers s" "Session_framed s"
    using I S by (auto simp: Session_inv_def Session_busy_def)
  obtain k where s1: "s1 = s\<lparr>ses_txSent := k\<rparr>" "Session_buffers s1"
    and st1: "st1 = Ok \<and> k = ses_txLen s \<or> st1 = Pending \<or> io_failure st1"
    using C B(1) w by (rule Session_writePending_spec)
  have F1: "Session_framed s1"
    using B(2) s1 by (simp add: Session_framed_def)
  obtain rx l e where s2: "s2 = s1\<lparr>ses_rx := rx, ses_rxLen := l, ses_rxExpected := e\<rparr>"
      "Session_buffers s2"
    and st2: "st2 = Ok \<and> Session_framed s2 \<and> packet (take l rx) \<and> 24 \<le> l \<or>
      st2 = Pending \<and> Session_framed s2 \<or> io_failure st2"
    using C s1(2) F1 r by (rule Session_readResponse_spec)
  have x1: "ses_exchange osent ircvd s1 net1" if "ses_exchange osent ircvd s net"
    using Session_writePending_exchange [OF C B(1) _ w] that m by simp
  then have x2: "ses_exchange osent ircvd s2 net2" if "ses_exchange osent ircvd s net"
    using Session_readResponse_exchange [OF C s1(2) F1 _ r] that by simp
  have x0: "ses_exchange osent ircvd s net0" if "ses_exchange osent ircvd s net"
    using that m by simp
  consider (late) "expired now (ses_deadline s)" | (blocked) "\<not> expired now (ses_deadline s)" "st1 \<noteq> Ok"
    | (read) "\<not> expired now (ses_deadline s)" "st1 = Ok"
    by blast
  then show ?thesis
  proof cases
    case late
    with run x0 B I show ?thesis
      by (auto simp: Session_inv_defs ses_same_request_def)
  next
    case blocked
    with run x1 st1 s1 F1 S show ?thesis
      by (auto simp: Session_inv_def Session_busy_def ses_same_request_def)
  next
    case read
    with run x2 st1 st2 s1 s2 S show ?thesis
      by (auto simp: Session_inv_def Session_busy_def ses_same_request_def Session_buffers_def
          split: if_splits)
  qed
qed

lemma Session_poll_inv:
  assumes "socket_contract os" and "Session_inv s" and "Session_poll os s net = (st, s', net')"
  shows "Session_inv s'"
  using assms Session_pollRegistering_spec [OF assms(1,2)]
    Session_pollUnregistering_spec [OF assms(1,2)]
  by (cases "ses_state s") (auto simp: Session_poll_def)

lemma Session_open_inv:
  assumes "Session_inv s" and "Session_open os c timeoutMs s net = (st, s', net')"
  shows "Session_inv s'"
proof -
  have "Session_inv (s\<lparr>ses_conn := Some c, ses_deadline := d\<rparr>)" for d
    using assms(1) by (auto simp: Session_inv_defs)
  from Session_startRegister_inv [OF this] assms show ?thesis
    by (auto simp: Session_open_def split: if_splits prod.splits)
qed

lemma Session_close_inv:
  assumes "Session_inv s" and "Session_close s = (st, s')"
  shows "Session_inv s'"
  using assms Session_startUnregister_inv [OF assms(1)] Session_abort_inv [OF assms(1)]
  by (auto simp: Session_close_def Session_inv_def split: if_splits)

subsection \<open>What a poll touches\<close>

lemma Session_write_read_frame:
  assumes "ses_conn s = Some c"
  shows "Session_writePending os s net = (st, s', net') \<Longrightarrow> conn_frame c net net' \<and> ses_conn s' = Some c"
    and "Session_readResponse os s net = (st, s', net') \<Longrightarrow> conn_frame c net net' \<and> ses_conn s' = Some c"
  using assms tcp_frame.write_loop_inv [OF conn_frame_refl] tcp_frame.read_loop_inv [OF conn_frame_refl]
  by (auto simp: Session_writePending_def Session_readResponse_def split: prod.splits)

lemma Session_poll_frame:
  assumes "Session_inv s" and "Session_poll os s net = (st, s', net')"
  shows "net' = net \<or> (\<exists>c. ses_conn s = Some c \<and> conn_frame c net net')"
proof (cases "Session_busy s")
  case False
  with assms(2) show ?thesis
    by (cases "ses_state s") (auto simp: Session_busy_def)
next
  case True
  then obtain c where c: "ses_conn s = Some c"
    using assms(1) by (auto simp: Session_inv_def Session_framed_def)
  obtain now net0 where m: "millis os net = (now, net0)" by fastforce
  obtain st1 s1 net1 where w: "Session_writePending os s net0 = (st1, s1, net1)"
    by (metis prod_cases3)
  obtain st2 s2 net2 where r: "Session_readResponse os s1 net1 = (st2, s2, net2)"
    by (metis prod_cases3)
  have f0: "conn_frame c net net0"
    using m by (rule millis_frame)
  note f1 = Session_write_read_frame(1) [OF c w]
  note f2 = Session_write_read_frame(2) [OF conjunct2 [OF f1] r]
  have "net' \<in> {net0, net1, net2}"
    using True assms(2) m w r
    by (auto simp: Session_poll_def Session_busy_def Session_pollRegistering_def
        Session_pollUnregistering_def Let_def split: if_splits)
  moreover have "conn_frame c net net1" "conn_frame c net net2"
    using f0 f1 f2 conn_frame_trans by blast+
  ultimately show ?thesis
    using c f0 by blast
qed

lemma Session_poll_fault:
  "Session_inv s \<Longrightarrow> Session_poll os s net = (st, s', net') \<Longrightarrow> net_fault net' = net_fault net"
  using Session_poll_frame by (fastforce simp: conn_frame_def)

subsection \<open>Reachable sessions\<close>

text \<open>
  Any sequence of calls, on any connection of the store. Between two calls the rest of the
  program and the world may do anything to the store but dereference a null pointer.
\<close>

datatype session_call = CallOpen conn_ref u32 | CallPoll | CallClose | CallAbort

text \<open>\<open>abort()\<close> returns nothing; its step is given the status \<open>Ok\<close>.\<close>

fun Session_call ::
  "'w os \<Rightarrow> session_call \<Rightarrow> session \<Rightarrow> 'w net \<Rightarrow> Status \<times> session \<times> 'w net" where
  "Session_call os (CallOpen c timeoutMs) s net = Session_open os c timeoutMs s net"
| "Session_call os CallPoll s net = Session_poll os s net"
| "Session_call os CallClose s net = (case Session_close s of (st, s') \<Rightarrow> (st, s', net))"
| "Session_call os CallAbort s net = (Ok, Session_abort s, net)"

inductive Session_reach :: "'w os \<Rightarrow> session \<Rightarrow> 'w net \<Rightarrow> bool" for os where
  init: "length tx = 24 + ses_kMaxBodySize \<Longrightarrow> length rx = 24 + ses_kMaxBodySize \<Longrightarrow>
    \<not> net_fault net \<Longrightarrow> Session_reach os (Session_new tx rx) net"
| call: "Session_reach os s net \<Longrightarrow> Session_call os call s net = (st, s', net') \<Longrightarrow>
    Session_reach os s' net'"
| world: "Session_reach os s net \<Longrightarrow> \<not> net_fault net' \<Longrightarrow> Session_reach os s net'"

lemma Session_open_net:
  assumes "Session_open os c timeoutMs s net = (st, s', net')"
  shows "net' = net \<or> (\<exists>now. millis os net = (now, net'))"
  using assms by (auto simp: Session_open_def Session_startRegister_def Let_def
      split: if_splits prod.splits)

lemma Session_call_inv:
  assumes "socket_contract os" and "Session_inv s" and "Session_call os call s net = (st, s', net')"
  shows "Session_inv s'" and "net_fault net' = net_fault net"
proof -
  show "Session_inv s'"
    using assms(3) Session_open_inv [OF assms(2)] Session_poll_inv [OF assms(1,2)]
      Session_close_inv [OF assms(2)] Session_abort_inv [OF assms(2)]
    by (cases call) (auto split: prod.splits)
  show "net_fault net' = net_fault net"
  proof (cases call)
    case (CallOpen c timeoutMs)
    with assms(3) Session_open_net have "net' = net \<or> (\<exists>now. millis os net = (now, net'))"
      by fastforce
    then show ?thesis
      using millis_frame [of os net _ net' undefined] by (auto simp: conn_frame_def)
  next
    case CallPoll
    with assms(3) Session_poll_fault [OF assms(2)] show ?thesis
      by simp
  qed (use assms(3) in \<open>auto split: prod.splits\<close>)
qed

lemma Session_reach_safe:
  assumes "socket_contract os" and "Session_reach os s net"
  shows "Session_inv s \<and> \<not> net_fault net"
  using assms(2)
proof (induction rule: Session_reach.induct)
  case (init tx rx net)
  then show ?case
    by (simp add: Session_new_inv)
next
  case (call s net call st s' net')
  then show ?case
    using Session_call_inv [OF assms(1)] by metis
qed simp

subsection \<open>The abstract state machine\<close>

text \<open>
  What a caller may expect of a session: the status of each call and the state it leaves, with
  the protocol's bytes, buffers and deadlines left out. A poll that fails while sending leaves
  the exchange in flight; any other failed poll ends it.
\<close>

inductive session_spec :: "session_call \<Rightarrow> Status \<Rightarrow> SessionState \<Rightarrow> SessionState \<Rightarrow> bool" where
  open_started: "x \<notin> {SesRegistering, SesRegistered} \<Longrightarrow>
    session_spec (CallOpen c t) Pending x SesRegistering"
| open_busy: "x \<in> {SesRegistering, SesRegistered} \<Longrightarrow> session_spec (CallOpen c t) Busy x x"
| open_down: "x \<notin> {SesRegistering, SesRegistered} \<Longrightarrow> session_spec (CallOpen c t) NotReady x x"
| close_started: "session_spec CallClose Pending SesRegistered SesUnregistering"
| close_busy: "x \<in> {SesRegistering, SesUnregistering} \<Longrightarrow> session_spec CallClose Busy x x"
| close_now: "x \<in> {SesIdle, SesClosed, SesFailed} \<Longrightarrow> session_spec CallClose Ok x SesClosed"
| abort: "session_spec CallAbort Ok x SesClosed"
| poll_wait: "x \<in> {SesRegistering, SesUnregistering} \<Longrightarrow> session_spec CallPoll Pending x x"
| poll_registered: "session_spec CallPoll Ok SesRegistering SesRegistered"
| poll_unregistered: "session_spec CallPoll Ok SesUnregistering SesClosed"
| poll_blocked: "x \<in> {SesRegistering, SesUnregistering} \<Longrightarrow> failure st \<Longrightarrow>
    session_spec CallPoll st x x"
| poll_failed: "x \<in> {SesRegistering, SesUnregistering} \<Longrightarrow> failure st \<Longrightarrow>
    session_spec CallPoll st x SesFailed"
| poll_settled: "(st, x) \<in> {(Ok, SesRegistered), (Closed, SesClosed), (Error, SesFailed),
    (NotReady, SesIdle)} \<Longrightarrow> session_spec CallPoll st x x"

lemma Session_open_spec:
  "Session_open os c t s net = (st, s', net') \<Longrightarrow>
    session_spec (CallOpen c t) st (ses_state s) (ses_state s')"
  by (auto simp: Session_open_def Session_startRegister_def Let_def
      split: if_splits prod.splits intro: session_spec.intros)

lemma Session_close_spec:
  "Session_close s = (st, s') \<Longrightarrow> session_spec CallClose st (ses_state s) (ses_state s')"
  by (cases "ses_state s")
    (auto simp: Session_close_def Session_startUnregister_def Session_abort_def Let_def
      intro: session_spec.intros)

lemma Session_poll_spec:
  assumes "socket_contract os" and "Session_inv s" and "Session_poll os s net = (st, s', net')"
  shows "session_spec CallPoll st (ses_state s) (ses_state s')"
proof (cases "ses_state s")
  case SesRegistering
  with assms(3) have "Session_pollRegistering os s net = (st, s', net')"
    by (simp add: Session_poll_def)
  from Session_pollRegistering_spec [OF assms(1,2) SesRegistering this, where osent = "[]" and
      ircvd = "[]"] SesRegistering show ?thesis
    by (auto intro: session_spec.intros)
next
  case SesUnregistering
  with assms(3) have "Session_pollUnregistering os s net = (st, s', net')"
    by (simp add: Session_poll_def)
  from Session_pollUnregistering_spec [OF assms(1,2) SesUnregistering this, where osent = "[]" and
      ircvd = "[]"] SesUnregistering show ?thesis
    by (auto intro: session_spec.intros)
qed (use assms(3) in \<open>auto intro: session_spec.intros\<close>)

lemma Session_call_spec:
  assumes "socket_contract os" and "Session_inv s" and "Session_call os call s net = (st, s', net')"
  shows "session_spec call st (ses_state s) (ses_state s')"
  using assms Session_open_spec Session_close_spec Session_poll_spec
  by (cases call) (auto split: prod.splits simp: Session_abort_def intro: session_spec.abort)

subsection \<open>Runs of polls\<close>

text \<open>
  A run of polls: every poll but the last is \<open>Pending\<close>, and the world moves on freely in
  between.
\<close>

inductive Session_run ::
  "'w os \<Rightarrow> session \<Rightarrow> 'w net \<Rightarrow> Status \<Rightarrow> session \<Rightarrow> 'w net \<Rightarrow> bool" for os where
  last: "Session_poll os s net = (st, s', net') \<Longrightarrow> Session_run os s net st s' net'"
| again: "Session_poll os s net = (Pending, s1, net1) \<Longrightarrow>
    Session_run os s1 (net1\<lparr>net_os := w\<rparr>) st s' net' \<Longrightarrow> Session_run os s net st s' net'"

lemma Session_run_registering:
  assumes "Session_run os s net st s' net'" and "socket_contract os" and "Session_inv s"
    and "ses_state s = SesRegistering" and "ses_exchange osent ircvd s net"
  shows "Session_inv s' \<and> ses_same_request s s' \<and> ses_exchange osent ircvd s' net' \<and>
    (st = Ok \<longrightarrow> ses_state s' = SesRegistered \<and> ses_txSent s' = ses_txLen s' \<and>
       register_reply (take (ses_rxLen s') (ses_rx s')) (ses_handle s'))"
  using assms
proof (induction rule: Session_run.induct)
  case (last s net st s' net')
  then have "Session_pollRegistering os s net = (st, s', net')"
    by (simp add: Session_poll_def)
  from Session_pollRegistering_spec [OF last(2-4) this] last(5) show ?case
    by auto
next
  case (again s net s1 net1 w st s' net')
  then have "Session_pollRegistering os s net = (Pending, s1, net1)"
    by (simp add: Session_poll_def)
  note step = Session_pollRegistering_spec [OF again(4-6) this]
  have "Session_inv s1" "ses_same_request s s1" "ses_exchange osent ircvd s1 net1"
    "ses_state s1 = SesRegistering"
    using step again(7) by auto
  with again(3,4) show ?case
    by (auto simp: ses_same_request_def)
qed

text \<open>The registration request: a header with a zero session, protocol version 1, no options.\<close>

definition register_request :: "u64 \<Rightarrow> byte list" where
  "register_request ctx =
     header_bytes \<lparr> eh_command = Command_code RegisterSession, eh_length = 4, eh_session = 0,
       eh_status = 0, eh_context = ctx, eh_options = 0 \<rparr> @ leU16 1 @ leU16 0"

lemma Session_startRegister_request:
  assumes "24 + 4 \<le> length (ses_tx s)" and "Session_startRegister s = (st, s')"
  shows "take (ses_txLen s') (ses_tx s') = register_request (ses_context s)"
proof -
  let ?h = "\<lparr> eh_command = Command_code RegisterSession, eh_length = 4, eh_session = 0,
       eh_status = 0, eh_context = ses_context s, eh_options = 0 \<rparr>"
  have "ses_txLen s' = 28" "ses_tx s' = putU16 26 0 (putU16 24 1 (encodeHeader ?h (ses_tx s)))"
    using assms(2) by (auto simp: Session_startRegister_def Let_def)
  then show ?thesis
    using assms(1)
    by (simp add: register_request_def putU16_def encodeHeader_poke poke_poke_adjacent
        take_poke_extend)
qed

lemma Session_open_registering:
  assumes I: "Session_inv s" and run: "Session_open os c timeoutMs s net = (Pending, s', net')"
  shows "Session_inv s'" and "ses_state s' = SesRegistering" and "ses_conn s' = Some c"
    and "take (ses_txLen s') (ses_tx s') = register_request (ses_context s)"
    and "ses_exchange (net_sent net c) (net_rcvd net c) s' net'"
    and "\<exists>now. millis os net = (now, net') \<and> ses_deadline s' = now + timeoutMs"
proof -
  obtain now where m: "millis os net = (now, net')"
    and r: "Session_startRegister (s\<lparr>ses_conn := Some c, ses_deadline := now + timeoutMs\<rparr>) = (Pending, s')"
    using run by (auto simp: Session_open_def split: if_splits prod.splits)
  have len: "24 + 4 \<le> length (ses_tx (s\<lparr>ses_conn := Some c, ses_deadline := now + timeoutMs\<rparr>))"
    using I by (simp add: Session_inv_def Session_buffers_def)
  show "Session_inv s'"
    using I run by (rule Session_open_inv)
  show "take (ses_txLen s') (ses_tx s') = register_request (ses_context s)"
    using Session_startRegister_request [OF len r] by simp
  show "ses_state s' = SesRegistering" and "ses_conn s' = Some c"
    using r by (auto simp: Session_startRegister_def Let_def)
  have "ses_txSent s' = 0" "ses_rxLen s' = 0" "ses_deadline s' = now + timeoutMs"
    using r by (auto simp: Session_startRegister_def Let_def)
  moreover from this have "ses_exchange (net_sent net c) (net_rcvd net c) s' net"
    using \<open>ses_conn s' = Some c\<close> by (simp add: exchange_def conn_out_def conn_in_def)
  ultimately show "ses_exchange (net_sent net c) (net_rcvd net c) s' net'"
    and "\<exists>now. millis os net = (now, net') \<and> ses_deadline s' = now + timeoutMs"
    using m by auto
qed

subsection \<open>A poll over a healthy connection\<close>

lemma Session_writePending_live:
  assumes "stream_contract os q" and "conn_up (ses_conn s) net" and "Session_buffers s"
    and "Session_writePending os s net = (st, s', net')"
  shows "st = Ok \<and> s' = s\<lparr>ses_txSent := ses_txLen s\<rparr> \<and> conn_up (ses_conn s) net' \<and>
    conn_queue q (ses_conn s) net' = conn_queue q (ses_conn s) net"
proof -
  obtain k where w: "write_loop (conn_write os (ses_conn s)) (ses_tx s) (ses_txLen s) (ses_txSent s)
      net = (st, k, net')" and "s' = s\<lparr>ses_txSent := k\<rparr>"
    using assms(4) by (auto simp: Session_writePending_def split: prod.splits)
  with tcp_up.write_loop_all [OF _ _ _ w] assms(1-3) show ?thesis
    by (simp add: Session_buffers_def)
qed

lemma Session_readResponse_live:
  assumes "stream_contract os q" and "conn_up (ses_conn s) net" and "Session_buffers s"
    and "Session_framed s" and "packet p" and "length p \<le> 24 + ses_kMaxBodySize"
    and "ses_rxLen s \<le> length p"
    and "take (ses_rxLen s) (ses_rx s) @ conn_queue q (ses_conn s) net = p @ rest"
    and "Session_readResponse os s net = (st, s', net')"
  obtains rx e where "st = Ok" and "take (length p) rx = p"
    and "s' = s\<lparr>ses_rx := rx, ses_rxLen := length p, ses_rxExpected := e\<rparr>"
    and "conn_queue q (ses_conn s) net' = rest"
proof -
  obtain rx l e where r: "read_loop (conn_read os (ses_conn s)) ses_kMaxBodySize (ses_rx s)
      (ses_rxLen s) (ses_rxExpected s) net = (st, rx, l, e, net')"
    and s': "s' = s\<lparr>ses_rx := rx, ses_rxLen := l, ses_rxExpected := e\<rparr>"
    using assms(9) by (auto simp: Session_readResponse_def split: prod.splits)
  have v: "stream_contract os q \<and> conn_up (ses_conn s) net"
    using assms(1,2) by blast
  show thesis
    using tcp_up.read_loop_all [OF v _ _ assms(8,5,6,7) r] assms(3,4) s'
    by (intro that [of rx e]) (auto simp: Session_buffers_def Session_framed_def)
qed

lemma Session_poll_registers:
  assumes S: "stream_contract os q" and I: "Session_inv s" and "ses_state s = SesRegistering"
    and up: "conn_up (ses_conn s) net" and t: "\<not> expired (fst (millis os net)) (ses_deadline s)"
    and p: "register_reply p h" "ses_rxLen s \<le> length p"
      "take (ses_rxLen s) (ses_rx s) @ conn_queue q (ses_conn s) net = p @ rest"
    and run: "Session_poll os s net = (st, s', net')"
  shows "st = Ok \<and> ses_state s' = SesRegistered \<and> ses_handle s' = h \<and> ses_conn s' = ses_conn s \<and>
    conn_queue q (ses_conn s) net' = rest"
proof -
  obtain now net0 where m: "millis os net = (now, net0)" by fastforce
  obtain st1 s1 net1 where w: "Session_writePending os s net0 = (st1, s1, net1)"
    by (metis prod_cases3)
  obtain st2 s2 net2 where r: "Session_readResponse os s1 net1 = (st2, s2, net2)"
    by (metis prod_cases3)
  have B: "Session_buffers s" "Session_framed s"
    using I assms(3) by (auto simp: Session_inv_def Session_busy_def)
  have w': "st1 = Ok" "s1 = s\<lparr>ses_txSent := ses_txLen s\<rparr>" "conn_up (ses_conn s) net1"
      "conn_queue q (ses_conn s) net1 = conn_queue q (ses_conn s) net"
    using Session_writePending_live [OF S _ B(1) w] up stream_millis [OF S m] by simp_all
  have B1: "Session_buffers s1" "Session_framed s1"
    using B w'(2) by (auto simp: Session_buffers_def Session_framed_def)
  have pk: "packet p" "length p \<le> 24 + ses_kMaxBodySize"
    using p(1) by (simp_all add: register_reply_def)
  obtain rx e where r': "st2 = Ok" "take (length p) rx = p"
      "s2 = s1\<lparr>ses_rx := rx, ses_rxLen := length p, ses_rxExpected := e\<rparr>"
      "conn_queue q (ses_conn s) net2 = rest"
    using Session_readResponse_live [OF S _ B1 pk _ _ r] w' p(2,3) by auto
  have "decodeHeader rx = decodeHeader p"
    using r'(2) pk header.dec_take [of "length p" rx]
    by (metis length_take min.bounded_iff packet_def)
  then show ?thesis
    using run assms(3) m w r w' r' t p(1)
    by (auto simp: Session_poll_def Session_pollRegistering_def register_reply_def Let_def
        not_less [symmetric])
qed

lemma Session_poll_unregisters:
  assumes S: "stream_contract os q" and I: "Session_inv s" and "ses_state s = SesUnregistering"
    and up: "conn_up (ses_conn s) net" and t: "\<not> expired (fst (millis os net)) (ses_deadline s)"
    and p: "packet p" "length p \<le> 24 + ses_kMaxBodySize" "ses_rxLen s \<le> length p"
      "take (ses_rxLen s) (ses_rx s) @ conn_queue q (ses_conn s) net = p @ rest"
    and run: "Session_poll os s net = (st, s', net')"
  shows "st = Ok \<and> ses_state s' = SesClosed \<and> conn_queue q (ses_conn s) net' = rest"
proof -
  obtain now net0 where m: "millis os net = (now, net0)" by fastforce
  obtain st1 s1 net1 where w: "Session_writePending os s net0 = (st1, s1, net1)"
    by (metis prod_cases3)
  obtain st2 s2 net2 where r: "Session_readResponse os s1 net1 = (st2, s2, net2)"
    by (metis prod_cases3)
  have B: "Session_buffers s" "Session_framed s"
    using I assms(3) by (auto simp: Session_inv_def Session_busy_def)
  have w': "st1 = Ok" "s1 = s\<lparr>ses_txSent := ses_txLen s\<rparr>" "conn_up (ses_conn s) net1"
      "conn_queue q (ses_conn s) net1 = conn_queue q (ses_conn s) net"
    using Session_writePending_live [OF S _ B(1) w] up stream_millis [OF S m] by simp_all
  have B1: "Session_buffers s1" "Session_framed s1"
    using B w'(2) by (auto simp: Session_buffers_def Session_framed_def)
  obtain rx e where r': "st2 = Ok" "conn_queue q (ses_conn s) net2 = rest"
    using Session_readResponse_live [OF S _ B1 p(1,2) _ _ r] w' p(3,4) by auto
  then show ?thesis
    using run assms(3) m w r w' t by (auto simp: Session_poll_def Session_pollUnregistering_def)
qed

lemma Session_poll_on_time:
  assumes C: "socket_contract os" and I: "Session_inv s" and B: "Session_busy s"
    and t: "\<not> expired (fst (millis os net)) (ses_deadline s)"
    and run: "Session_poll os s net = (st, s', net')"
  shows "st \<noteq> Timeout"
proof -
  obtain now net0 where m: "millis os net = (now, net0)" by fastforce
  obtain st1 s1 net1 where w: "Session_writePending os s net0 = (st1, s1, net1)"
    by (metis prod_cases3)
  obtain st2 s2 net2 where r: "Session_readResponse os s1 net1 = (st2, s2, net2)"
    by (metis prod_cases3)
  have B': "Session_buffers s" "Session_framed s"
    using I B by (auto simp: Session_inv_def)
  obtain k where s1: "s1 = s\<lparr>ses_txSent := k\<rparr>" "Session_buffers s1"
    and "st1 = Ok \<and> k = ses_txLen s \<or> st1 = Pending \<or> io_failure st1"
    using C B'(1) w by (rule Session_writePending_spec)
  then have st1: "st1 \<noteq> Timeout" by auto
  have "Session_framed s1"
    using B'(2) s1 by (simp add: Session_framed_def)
  with C s1(2) have "st2 \<noteq> Timeout"
    using r by (elim Session_readResponse_spec) auto
  with st1 run B t m w r show ?thesis
    by (auto simp: Session_poll_def Session_busy_def Session_pollRegistering_def
        Session_pollUnregistering_def Let_def split: if_splits)
qed

lemma Session_poll_late:
  assumes "Session_busy s" and "millis os net = (now, net0)" and "expired now (ses_deadline s)"
  shows "Session_poll os s net = (Timeout, s\<lparr>ses_state := SesFailed\<rparr>, net0)"
  using assms
  by (auto simp: Session_poll_def Session_busy_def Session_pollRegistering_def
      Session_pollUnregistering_def)

text \<open>The unregistration request: a header with the session handle and no body.\<close>

definition unregister_request :: "u32 \<Rightarrow> u64 \<Rightarrow> byte list" where
  "unregister_request handle ctx =
     header_bytes \<lparr> eh_command = Command_code UnregisterSession, eh_length = 0,
       eh_session = handle, eh_status = 0, eh_context = ctx, eh_options = 0 \<rparr>"

lemma Session_close_unregistering:
  assumes I: "Session_inv s" and R: "Session_registered s" and run: "Session_close s = (st, s')"
  shows "st = Pending" and "Session_inv s'" and "ses_state s' = SesUnregistering"
    and "take (ses_txLen s') (ses_tx s') = unregister_request (ses_handle s) (ses_context s)"
    and "ses_conn s' = ses_conn s" and "ses_deadline s' = ses_deadline s"
    and "ses_exchange (conn_out (ses_conn s) net) (conn_in (ses_conn s) net) s' net"
proof -
  have u: "Session_startUnregister s = (st, s')"
    using R run by (simp add: Session_close_def Session_registered_def)
  have len: "24 \<le> length (ses_tx s)"
    using I by (simp add: Session_inv_def Session_buffers_def)
  show "Session_inv s'"
    using I run by (rule Session_close_inv)
  show "st = Pending" "ses_state s' = SesUnregistering" "ses_conn s' = ses_conn s"
    "ses_deadline s' = ses_deadline s"
    using u by (auto simp: Session_startUnregister_def Let_def)
  show "take (ses_txLen s') (ses_tx s') = unregister_request (ses_handle s) (ses_context s)"
    using u len
    by (auto simp: Session_startUnregister_def Let_def unregister_request_def take_encodeHeader)
  show "ses_exchange (conn_out (ses_conn s) net) (conn_in (ses_conn s) net) s' net"
    using u by (auto simp: Session_startUnregister_def Let_def exchange_def)
qed

lemma Session_run_unregistering:
  assumes "Session_run os s net st s' net'" and "socket_contract os" and "Session_inv s"
    and "ses_state s = SesUnregistering" and "ses_exchange osent ircvd s net"
  shows "Session_inv s' \<and> ses_same_request s s' \<and> ses_exchange osent ircvd s' net' \<and>
    (st = Ok \<longrightarrow> ses_state s' = SesClosed \<and> ses_txSent s' = ses_txLen s' \<and>
       packet (take (ses_rxLen s') (ses_rx s')))"
  using assms
proof (induction rule: Session_run.induct)
  case (last s net st s' net')
  then have "Session_pollUnregistering os s net = (st, s', net')"
    by (simp add: Session_poll_def)
  from Session_pollUnregistering_spec [OF last(2-4) this] last(5) show ?case
    by auto
next
  case (again s net s1 net1 w st s' net')
  then have "Session_pollUnregistering os s net = (Pending, s1, net1)"
    by (simp add: Session_poll_def)
  note step = Session_pollUnregistering_spec [OF again(4-6) this]
  have "Session_inv s1" "ses_same_request s s1" "ses_exchange osent ircvd s1 net1"
    "ses_state s1 = SesUnregistering"
    using step again(7) by auto
  with again(3,4) show ?case
    by (auto simp: ses_same_request_def)
qed

subsection \<open>Properties\<close>

text \<open>
  C10. Memory safety of the session object: whatever sequence of calls it serves, and whatever
  the socket returns, every cursor stays in its buffer, no buffer is ever written past its end
  (its length never changes), and no null connection is dereferenced.
\<close>

theorem Session_memory_safe:
  assumes "socket_contract os" and "Session_reach os s net"
  shows "length (ses_tx s) = 536 \<and> length (ses_rx s) = 536 \<and> ses_txSent s \<le> ses_txLen s \<and>
    ses_txLen s \<le> 536 \<and> ses_rxLen s \<le> ses_rxExpected s \<and> ses_rxExpected s \<le> 536 \<and>
    (Session_registered s \<longrightarrow> ses_handle s \<noteq> 0) \<and> \<not> net_fault net"
  using Session_reach_safe [OF assms]
  by (simp add: Session_inv_def Session_buffers_def rx_wf_def Session_registered_def)

theorem Session_memory_safe_witness:
  "socket_contract loopback_os \<and> length (ses_tx (Session_new (replicate 536 0) (replicate 536 0))) = 536"
  using Session_memory_safe [OF loopback_socket_contract
      Session_reach.init [of "replicate 536 0" "replicate 536 0" "loopback_net 0 []"]]
  by simp

text \<open>
  C14. Refinement: every call of a session, with its status and the state it leaves, is a step
  of the abstract state machine.
\<close>

theorem Session_refines_spec:
  assumes "socket_contract os" and "Session_reach os s net"
    and "Session_call os call s net = (st, s', net')"
  shows "session_spec call st (ses_state s) (ses_state s')"
  using Session_call_spec [OF assms(1) conjunct1 [OF Session_reach_safe [OF assms(1,2)]] assms(3)] .

theorem Session_refines_spec_witness:
  "session_spec CallPoll NotReady SesIdle SesIdle"
  using Session_refines_spec [OF loopback_socket_contract
      Session_reach.init [of "replicate 536 0" "replicate 536 0" "loopback_net 0 []"],
      of CallPoll NotReady]
  by (simp add: Session_new_def)

text \<open>
  C6. A registration that ends well exchanged exactly the protocol's bytes: after
  \<open>open()\<close> and any run of polls ending in \<open>Ok\<close>, the connection has sent one
  RegisterSession request and nothing else, and has received exactly one well-formed reply,
  whose session handle, non-zero, is the handle of the session.
\<close>

theorem Session_registration_exchange:
  assumes "socket_contract os" and "Session_inv s"
    and "Session_open os c timeoutMs s net = (Pending, s1, net1)"
    and "Session_run os s1 net1 Ok s2 net2"
  shows "Session_registered s2 \<and>
    net_sent net2 c = net_sent net c @ register_request (ses_context s) \<and>
    (\<exists>p. net_rcvd net2 c = net_rcvd net c @ p \<and> register_reply p (ses_handle s2))"
proof -
  note op = Session_open_registering [OF assms(2,3)]
  note run = Session_run_registering [OF assms(4,1) op(1,2,5)]
  then have same: "ses_same_request s1 s2" and txd: "ses_txSent s2 = ses_txLen s2"
    and x: "ses_exchange (net_sent net c) (net_rcvd net c) s2 net2"
    and rep: "register_reply (take (ses_rxLen s2) (ses_rx s2)) (ses_handle s2)"
    and st: "ses_state s2 = SesRegistered"
    by auto
  have "take (ses_txSent s2) (ses_tx s2) = register_request (ses_context s)"
    using op(4) same txd by (simp add: ses_same_request_def)
  with x rep st op(3) same show ?thesis
    by (auto simp: exchange_def conn_out_def conn_in_def Session_registered_def ses_same_request_def)
qed

definition demo_reply :: "byte list" where
  "demo_reply = header_bytes \<lparr> eh_command = Command_code RegisterSession, eh_length = 4,
     eh_session = 0x13572468, eh_status = 0, eh_context = 1, eh_options = 0 \<rparr> @ leU16 1 @ leU16 0"

definition demo_session :: session where
  "demo_session = Session_new (replicate 536 0) (replicate 536 0)"

lemma demo_reply_registers: "register_reply demo_reply 0x13572468"
  by (simp add: register_reply_def packet_def demo_reply_def header.dec_enc)

lemma demo_session_inv: "Session_inv demo_session"
  unfolding demo_session_def by (rule Session_new_inv) simp_all

definition demo_opened :: session where
  "demo_opened = fst (snd (Session_open loopback_os 0 5000 demo_session (loopback_net 0 demo_reply)))"

lemma demo_open:
  "Session_open loopback_os 0 5000 demo_session (loopback_net 0 demo_reply) =
    (Pending, demo_opened, loopback_net 0 demo_reply)"
  by (simp add: demo_opened_def Session_open_def demo_session_def Session_new_def
      Session_startRegister_def Let_def)

lemma demo_poll:
  obtains s' net' where "Session_poll loopback_os demo_opened (loopback_net 0 demo_reply) = (Ok, s', net')"
    and "ses_state s' = SesRegistered" and "ses_handle s' = 0x13572468" and "Session_inv s'"
    and "ses_deadline s' = 5000"
proof -
  let ?n = "loopback_net 0 demo_reply"
  obtain st s' net' where run: "Session_poll loopback_os demo_opened ?n = (st, s', net')"
    by (metis prod_cases3)
  note op = Session_open_registering [OF demo_session_inv demo_open]
  have d: "ses_deadline demo_opened = 5000" "ses_rxLen demo_opened = 0"
    by (simp_all add: demo_opened_def Session_open_def demo_session_def Session_new_def
      Session_startRegister_def Let_def)
  have "st = Ok \<and> ses_state s' = SesRegistered \<and> ses_handle s' = 0x13572468 \<and>
      ses_conn s' = ses_conn demo_opened \<and> conn_queue (\<lambda>w fd. lb_queue w) (ses_conn demo_opened) net' = []"
    by (rule Session_poll_registers [OF loopback_stream_contract op(1,2) _ _ demo_reply_registers _ _ run])
      (simp_all add: op(3) d expired_def conn_queue_def)
  moreover have "Session_inv s'"
    using Session_poll_inv [OF loopback_socket_contract op(1) run] .
  moreover have "ses_deadline s' = 5000"
    using Session_run_registering [OF Session_run.last [OF run] loopback_socket_contract op(1,2,5)] d
    by (simp add: ses_same_request_def)
  ultimately show thesis
    using that run by blast
qed

theorem Session_registration_exchange_witness:
  "\<exists>s2 (net2 :: loopback net). Session_registered s2 \<and> net_sent net2 0 = register_request 1 \<and>
    (\<exists>p. net_rcvd net2 0 = p \<and> register_reply p (ses_handle s2) \<and> ses_handle s2 = 0x13572468)"
proof -
  obtain s' net' where run: "Session_poll loopback_os demo_opened (loopback_net 0 demo_reply) = (Ok, s', net')"
    and h: "ses_handle s' = 0x13572468"
    using demo_poll by metis
  have ctx: "ses_context demo_session = 1"
    by (simp add: demo_session_def Session_new_def)
  from Session_registration_exchange [OF loopback_socket_contract demo_session_inv demo_open
      Session_run.last [OF run]] h ctx
  show ?thesis
    by (intro exI [of _ s'] exI [of _ net']) auto
qed

text \<open>
  A registration succeeds: on a healthy connection, if the reply has arrived when the
  session is polled before its deadline, \<open>open()\<close> and one \<open>poll()\<close> register the
  session with the handle of the reply, and leave the bytes after the reply in the socket.
\<close>

theorem Session_open_poll_registers:
  assumes "stream_contract os q" and "Session_inv s" and "conn_up (Some c) net"
    and "ses_state s \<notin> {SesRegistering, SesRegistered}"
    and "Session_open os c timeoutMs s net = (st1, s1, net1)"
    and "\<not> expired (fst (millis os net1)) (ses_deadline s1)"
    and "conn_queue q (Some c) net1 = p @ rest" and "register_reply p h"
    and "Session_poll os s1 net1 = (st2, s2, net2)"
  shows "st1 = Pending \<and> st2 = Ok \<and> Session_registered s2 \<and> ses_handle s2 = h \<and>
    conn_queue q (Some c) net2 = rest"
proof -
  have "st1 = Pending"
    using assms(3-5) by (auto simp: Session_open_def TcpConnection_connected_def conn_up_def
        Session_startRegister_def Let_def split: prod.splits)
  note op = Session_open_registering [OF assms(2) assms(5) [unfolded this]]
  have up: "conn_up (ses_conn s1) net1"
    using op(3,6) stream_millis(2) [OF assms(1)] assms(3) by auto
  have rx: "ses_rxLen s1 = 0"
    using assms(5) \<open>st1 = Pending\<close> by (auto simp: Session_open_def Session_startRegister_def Let_def
        split: if_splits prod.splits)
  from Session_poll_registers [OF assms(1) op(1,2) up assms(6,8) _ _ assms(9), of rest] rx op(3) assms(7)
    \<open>st1 = Pending\<close>
  show ?thesis
    by (simp add: Session_registered_def)
qed

theorem Session_open_poll_registers_witness:
  "Session_registered (fst (snd (Session_poll loopback_os demo_opened (loopback_net 0 demo_reply))))"
proof -
  obtain st s' net' where run: "Session_poll loopback_os demo_opened (loopback_net 0 demo_reply) = (st, s', net')"
    by (metis prod_cases3)
  have d: "ses_deadline demo_opened = 5000"
    by (simp add: demo_opened_def Session_open_def demo_session_def Session_new_def
      Session_startRegister_def Let_def)
  have "Session_registered s'"
    using Session_open_poll_registers [OF loopback_stream_contract demo_session_inv loopback_up _
        demo_open _ _ demo_reply_registers run, of "[]"] d
    by (simp add: demo_session_def Session_new_def expired_def conn_queue_def)
  with run show ?thesis by simp
qed

text \<open>
  The deadline of an exchange, exactly: a poll in flight reports \<open>Timeout\<close> if and only
  if the clock has reached the deadline; then the session has failed and nothing was sent or
  received.
\<close>

theorem Session_poll_timeout_iff:
  assumes "socket_contract os" and "Session_inv s" and "Session_busy s"
    and "Session_poll os s net = (st, s', net')"
  shows "(st = Timeout \<longleftrightarrow> expired (fst (millis os net)) (ses_deadline s)) \<and>
    (st = Timeout \<longrightarrow> ses_state s' = SesFailed \<and> net' = snd (millis os net))"
proof (cases "expired (fst (millis os net)) (ses_deadline s)")
  case True
  with Session_poll_late [OF assms(3), of os net] assms(4) show ?thesis
    by (auto simp: prod_eq_iff)
next
  case False
  with Session_poll_on_time [OF assms(1-3) _ assms(4)] show ?thesis
    by simp
qed

theorem Session_poll_timeout_iff_witness:
  "fst (Session_poll loopback_os demo_opened (loopback_net 5000 [])) = Timeout"
proof -
  obtain st s' net' where run: "Session_poll loopback_os demo_opened (loopback_net 5000 []) = (st, s', net')"
    by (metis prod_cases3)
  note op = Session_open_registering [OF demo_session_inv demo_open]
  have "ses_deadline demo_opened = 5000"
    by (simp add: demo_opened_def Session_open_def demo_session_def Session_new_def
      Session_startRegister_def Let_def)
  with Session_poll_timeout_iff [OF loopback_socket_contract op(1) _ run] op(2) run show ?thesis
    by (simp add: Session_busy_def expired_def)
qed

text \<open>
  A graceful close that ends well: after \<open>close()\<close> of a registered session and any
  run of polls ending in \<open>Ok\<close>, the connection has sent one UnregisterSession request with
  the session's handle and nothing else, has received one whole packet, and the session is closed.
\<close>

theorem Session_unregistration_exchange:
  assumes "socket_contract os" and "Session_inv s" and "Session_registered s"
    and "Session_close s = (st1, s1)" and "Session_run os s1 net Ok s2 net2"
  shows "st1 = Pending \<and> ses_state s2 = SesClosed \<and>
    (\<exists>c. ses_conn s = Some c \<and>
       net_sent net2 c = net_sent net c @ unregister_request (ses_handle s) (ses_context s) \<and>
       (\<exists>p. net_rcvd net2 c = net_rcvd net c @ p \<and> packet p))"
proof -
  note cl = Session_close_unregistering [OF assms(2-4)]
  note run = Session_run_unregistering [OF assms(5,1) cl(2,3) cl(7) [of net]]
  obtain c where c: "ses_conn s = Some c"
    using assms(2,3) by (auto simp: Session_inv_def Session_registered_def)
  from run have same: "ses_same_request s1 s2" and txd: "ses_txSent s2 = ses_txLen s2"
    and x: "ses_exchange (net_sent net c) (net_rcvd net c) s2 net2"
    and p: "packet (take (ses_rxLen s2) (ses_rx s2))" and st: "ses_state s2 = SesClosed"
    using c by (auto simp: conn_out_def conn_in_def)
  have "take (ses_txSent s2) (ses_tx s2) = unregister_request (ses_handle s) (ses_context s)"
    using cl(4) same txd by (simp add: ses_same_request_def)
  with x p st c cl(1,5) same show ?thesis
    by (auto simp: exchange_def conn_out_def conn_in_def ses_same_request_def)
qed

definition demo_unregister_reply :: "byte list" where
  "demo_unregister_reply = header_bytes \<lparr> eh_command = Command_code UnregisterSession,
     eh_length = 0, eh_session = 0, eh_status = 0, eh_context = 1, eh_options = 0 \<rparr>"

theorem Session_unregistration_exchange_witness:
  "\<exists>net2 :: loopback net. net_sent net2 0 = unregister_request 0x13572468 1 \<and> packet (net_rcvd net2 0)"
proof -
  let ?n = "loopback_net 10 demo_unregister_reply"
  obtain s' net' where reg: "Session_poll loopback_os demo_opened (loopback_net 0 demo_reply) = (Ok, s', net')"
    and s': "ses_state s' = SesRegistered" "ses_handle s' = 0x13572468" "Session_inv s'"
      "ses_deadline s' = 5000"
    using demo_poll by metis
  note op = Session_open_registering [OF demo_session_inv demo_open]
  have same: "ses_same_request demo_opened s'"
    using Session_run_registering [OF Session_run.last [OF reg] loopback_socket_contract op(1,2,5)]
    by blast
  have ctx: "ses_context s' = 1" and c: "ses_conn s' = Some 0"
    using same op(3) by (simp_all add: ses_same_request_def demo_opened_def Session_open_def
        demo_session_def Session_new_def Session_startRegister_def Let_def)
  obtain st1 s1 where cl: "Session_close s' = (st1, s1)" by fastforce
  have R: "Session_registered s'"
    using s'(1) by (simp add: Session_registered_def)
  note cl' = Session_close_unregistering [OF s'(3) R cl]
  have rx: "ses_rxLen s1 = 0"
    using cl R by (auto simp: Session_close_def Session_registered_def Session_startUnregister_def Let_def)
  obtain st2 s2 net2 where run: "Session_poll loopback_os s1 ?n = (st2, s2, net2)"
    by (metis prod_cases3)
  have pk: "packet demo_unregister_reply" "length demo_unregister_reply \<le> 24 + ses_kMaxBodySize"
    by (simp_all add: demo_unregister_reply_def packet_def header.dec_enc_exact)
  have "st2 = Ok"
    using Session_poll_unregisters [OF loopback_stream_contract cl'(2,3) _ _ pk _ _ run, of "[]"]
      rx c cl'(5,6) s'(4) by (simp add: expired_def conn_queue_def)
  with Session_unregistration_exchange [OF loopback_socket_contract s'(3) R cl
      Session_run.last [OF run [unfolded this]]] s'(2) ctx c
  show ?thesis
    by (intro exI [of _ net2]) auto
qed

text \<open>
  A defect of \<open>close()\<close>: it starts the unregistration without a deadline of its own, so
  the exchange is still bound by the deadline \<open>open()\<close> set. A session that is closed once
  that time has passed (here \<open>e\<close> milliseconds after \<open>open()\<close>, with a timeout of at most
  \<open>e\<close>) fails with \<open>Timeout\<close> at the first poll, and sends no UnregisterSession at all.
\<close>

theorem Session_close_after_open_deadline:
  assumes "socket_contract os" and "Session_inv s"
    and "Session_open os c timeoutMs s net = (Pending, s1, net1)"
    and "Session_run os s1 net1 Ok s2 net2"
    and "Session_close s2 = (st3, s3)"
    and "fst (millis os net3) = fst (millis os net) + e" and "timeoutMs \<le> e" and "unat e < 2 ^ 31"
  shows "st3 = Pending \<and>
    Session_poll os s3 net3 = (Timeout, s3\<lparr>ses_state := SesFailed\<rparr>, snd (millis os net3))"
proof -
  note op = Session_open_registering [OF assms(2,3)]
  note run = Session_run_registering [OF assms(4,1) op(1,2,5)]
  then have I: "Session_inv s2" and R: "Session_registered s2"
    and d: "ses_deadline s2 = fst (millis os net) + timeoutMs"
    using op(6) by (auto simp: ses_same_request_def Session_registered_def)
  note cl = Session_close_unregistering [OF I R assms(5)]
  have "expired (fst (millis os net3)) (ses_deadline s3)"
    using assms(6-8) cl(6) d expired_within_half [of timeoutMs e "fst (millis os net)"]
    by (simp add: word_le_nat_alt)
  then show ?thesis
    using cl(1,3) Session_poll_late [of s3 os net3 "fst (millis os net3)" "snd (millis os net3)"]
    by (simp add: Session_busy_def)
qed

theorem Session_close_after_open_deadline_witness:
  "\<exists>s3. fst (Session_poll loopback_os s3 (loopback_net 60000 [])) = Timeout \<and>
    ses_state s3 = SesUnregistering"
proof -
  obtain s' net' where run: "Session_poll loopback_os demo_opened (loopback_net 0 demo_reply) = (Ok, s', net')"
    and st: "ses_state s' = SesRegistered"
    using demo_poll by metis
  obtain st3 s3 where cl: "Session_close s' = (st3, s3)" by fastforce
  have "ses_state s3 = SesUnregistering"
    using st cl by (auto simp: Session_close_def Session_startUnregister_def Let_def)
  moreover have "Session_poll loopback_os s3 (loopback_net 60000 []) =
      (Timeout, s3\<lparr>ses_state := SesFailed\<rparr>, snd (millis loopback_os (loopback_net 60000 [])))"
    using Session_close_after_open_deadline [OF loopback_socket_contract demo_session_inv demo_open
        Session_run.last [OF run] cl, of "loopback_net 60000 []" 60000] by simp
  ultimately show ?thesis
    by (intro exI [of _ s3]) simp
qed

end
