(* ===== verification/Cip.thy ===== *)
theory Cip
  imports Encapsulation
begin

unbundle bit_operations_syntax

text \<open>
  CIP constants and path helpers, \<open>src/src/cip/Cip.h\<close>. Enumerations are datatypes with
  their wire codes; \<open>DtUnknown\<close> is what \<open>static_cast<DataType>\<close> makes of a byte that
  names no type. The \<open>append\<close> functions write at an offset of a buffer and return the number
  of bytes written, as in the source.
\<close>

subsection \<open>Codes\<close>

datatype Service =
    GetAttributeAll | SetAttributeAll | GetAttributeList | SetAttributeList | SvReset | Start | Stop
  | Create | Delete | MultipleServicePacket | ApplyAttributes | GetAttributeSingle
  | SetAttributeSingle | FindNextObjectInstance | Restore | Save | NoOperation | GetMember
  | SetMember | InsertMember | RemoveMember

fun Service_code :: "Service \<Rightarrow> byte" where
  "Service_code GetAttributeAll = 0x01"
| "Service_code SetAttributeAll = 0x02"
| "Service_code GetAttributeList = 0x03"
| "Service_code SetAttributeList = 0x04"
| "Service_code SvReset = 0x05"
| "Service_code Start = 0x06"
| "Service_code Stop = 0x07"
| "Service_code Create = 0x08"
| "Service_code Delete = 0x09"
| "Service_code MultipleServicePacket = 0x0A"
| "Service_code ApplyAttributes = 0x0D"
| "Service_code GetAttributeSingle = 0x0E"
| "Service_code SetAttributeSingle = 0x10"
| "Service_code FindNextObjectInstance = 0x11"
| "Service_code Restore = 0x15"
| "Service_code Save = 0x16"
| "Service_code NoOperation = 0x17"
| "Service_code GetMember = 0x18"
| "Service_code SetMember = 0x19"
| "Service_code InsertMember = 0x1A"
| "Service_code RemoveMember = 0x1B"

definition kSegmentClassId8 :: byte where "kSegmentClassId8 = 0x20"
definition kSegmentClassId16 :: byte where "kSegmentClassId16 = 0x21"
definition kSegmentInstanceId8 :: byte where "kSegmentInstanceId8 = 0x24"
definition kSegmentInstanceId16 :: byte where "kSegmentInstanceId16 = 0x25"
definition kSegmentElementId8 :: byte where "kSegmentElementId8 = 0x28"
definition kSegmentElementId16 :: byte where "kSegmentElementId16 = 0x29"
definition kSegmentAttributeId8 :: byte where "kSegmentAttributeId8 = 0x30"
definition kSegmentAttributeId16 :: byte where "kSegmentAttributeId16 = 0x31"
definition kSegmentSymbolic :: byte where "kSegmentSymbolic = 0xA0"

datatype GeneralStatus =
    Success | ConnectionFailure | ResourceUnavailable | InvalidParameterValue
  | PathSegmentError | PathDestinationUnknown | PartialTransfer | ConnectionLost
  | ServiceNotSupported | InvalidAttributeValue | AttributeListError
  | AlreadyInRequestedMode | ObjectStateConflict | ObjectAlreadyExists
  | AttributeNotSettable | PrivilegeViolation | DeviceStateConflict | ReplyDataTooLarge
  | NotEnoughData | AttributeNotSupported | TooMuchData | ObjectDoesNotExist
  | EmbeddedServiceError | InvalidParameter | InvalidReplyReceived | BufferOverflow
  | PathSizeInvalid

fun GeneralStatus_code :: "GeneralStatus \<Rightarrow> byte" where
  "GeneralStatus_code Success = 0x00"
| "GeneralStatus_code ConnectionFailure = 0x01"
| "GeneralStatus_code ResourceUnavailable = 0x02"
| "GeneralStatus_code InvalidParameterValue = 0x03"
| "GeneralStatus_code PathSegmentError = 0x04"
| "GeneralStatus_code PathDestinationUnknown = 0x05"
| "GeneralStatus_code PartialTransfer = 0x06"
| "GeneralStatus_code ConnectionLost = 0x07"
| "GeneralStatus_code ServiceNotSupported = 0x08"
| "GeneralStatus_code InvalidAttributeValue = 0x09"
| "GeneralStatus_code AttributeListError = 0x0A"
| "GeneralStatus_code AlreadyInRequestedMode = 0x0B"
| "GeneralStatus_code ObjectStateConflict = 0x0C"
| "GeneralStatus_code ObjectAlreadyExists = 0x0D"
| "GeneralStatus_code AttributeNotSettable = 0x0E"
| "GeneralStatus_code PrivilegeViolation = 0x0F"
| "GeneralStatus_code DeviceStateConflict = 0x10"
| "GeneralStatus_code ReplyDataTooLarge = 0x11"
| "GeneralStatus_code NotEnoughData = 0x13"
| "GeneralStatus_code AttributeNotSupported = 0x14"
| "GeneralStatus_code TooMuchData = 0x15"
| "GeneralStatus_code ObjectDoesNotExist = 0x16"
| "GeneralStatus_code EmbeddedServiceError = 0x1E"
| "GeneralStatus_code InvalidParameter = 0x20"
| "GeneralStatus_code InvalidReplyReceived = 0x22"
| "GeneralStatus_code BufferOverflow = 0x23"
| "GeneralStatus_code PathSizeInvalid = 0x26"

datatype CpfItemType =
  NullAddress | CpfListIdentity | ConnectedAddress | ConnectedData | UnconnectedData
  | CpfListServices

fun CpfItemType_code :: "CpfItemType \<Rightarrow> u16" where
  "CpfItemType_code NullAddress = 0x0000"
| "CpfItemType_code CpfListIdentity = 0x000C"
| "CpfItemType_code ConnectedAddress = 0x00A1"
| "CpfItemType_code ConnectedData = 0x00B1"
| "CpfItemType_code UnconnectedData = 0x00B2"
| "CpfItemType_code CpfListServices = 0x0100"

datatype DataType =
    DtBool | DtSint | DtInt | DtDint | DtLint | DtUsint | DtUint | DtUdint | DtUlint | DtReal
  | DtLreal | DtString | DtUnknown byte

fun DataType_code :: "DataType \<Rightarrow> byte" where
  "DataType_code DtBool = 0xC1"
| "DataType_code DtSint = 0xC2"
| "DataType_code DtInt = 0xC3"
| "DataType_code DtDint = 0xC4"
| "DataType_code DtLint = 0xC5"
| "DataType_code DtUsint = 0xC6"
| "DataType_code DtUint = 0xC7"
| "DataType_code DtUdint = 0xC8"
| "DataType_code DtUlint = 0xC9"
| "DataType_code DtReal = 0xCA"
| "DataType_code DtLreal = 0xCB"
| "DataType_code DtString = 0xD0"
| "DataType_code (DtUnknown b) = b"

definition DataType_cast :: "byte \<Rightarrow> DataType" where
  "DataType_cast b =
     (if b = 0xC1 then DtBool else if b = 0xC2 then DtSint else if b = 0xC3 then DtInt
      else if b = 0xC4 then DtDint else if b = 0xC5 then DtLint else if b = 0xC6 then DtUsint
      else if b = 0xC7 then DtUint else if b = 0xC8 then DtUdint else if b = 0xC9 then DtUlint
      else if b = 0xCA then DtReal else if b = 0xCB then DtLreal else if b = 0xD0 then DtString
      else DtUnknown b)"

fun dataTypeElementSize :: "DataType \<Rightarrow> nat" where
  "dataTypeElementSize DtBool = 1"
| "dataTypeElementSize DtSint = 1"
| "dataTypeElementSize DtInt = 2"
| "dataTypeElementSize DtDint = 4"
| "dataTypeElementSize DtLint = 8"
| "dataTypeElementSize DtUsint = 1"
| "dataTypeElementSize DtUint = 2"
| "dataTypeElementSize DtUdint = 4"
| "dataTypeElementSize DtUlint = 8"
| "dataTypeElementSize DtReal = 4"
| "dataTypeElementSize DtLreal = 8"
| "dataTypeElementSize DtString = 0"
| "dataTypeElementSize (DtUnknown b) = 0"

fun dataTypeName :: "DataType \<Rightarrow> string" where
  "dataTypeName DtBool = ''BOOL''"
| "dataTypeName DtSint = ''SINT''"
| "dataTypeName DtInt = ''INT''"
| "dataTypeName DtDint = ''DINT''"
| "dataTypeName DtLint = ''LINT''"
| "dataTypeName DtUsint = ''USINT''"
| "dataTypeName DtUint = ''UINT''"
| "dataTypeName DtUdint = ''UDINT''"
| "dataTypeName DtUlint = ''ULINT''"
| "dataTypeName DtReal = ''REAL''"
| "dataTypeName DtLreal = ''LREAL''"
| "dataTypeName DtString = ''STRING''"
| "dataTypeName (DtUnknown b) = ''UNKNOWN''"

datatype TagService = TsRead | TsWrite | TsReadFragmented | TsWriteFragmented

fun TagService_code :: "TagService \<Rightarrow> byte" where
  "TagService_code TsRead = 0x4C"
| "TagService_code TsWrite = 0x4D"
| "TagService_code TsReadFragmented = 0x52"
| "TagService_code TsWriteFragmented = 0x53"

definition kIdentityVendorId :: byte where "kIdentityVendorId = 1"
definition kIdentityDeviceType :: byte where "kIdentityDeviceType = 2"
definition kIdentityProductCode :: byte where "kIdentityProductCode = 3"
definition kIdentityRevision :: byte where "kIdentityRevision = 4"
definition kIdentityStatus :: byte where "kIdentityStatus = 5"
definition kIdentitySerialNumber :: byte where "kIdentitySerialNumber = 6"
definition kIdentityProductName :: byte where "kIdentityProductName = 7"
definition kIdentityState :: byte where "kIdentityState = 8"

subsection \<open>Path segments\<close>

definition appendClass :: "nat \<Rightarrow> byte \<Rightarrow> byte list \<Rightarrow> byte list \<times> nat" where
  "appendClass out classId buf = (poke out [kSegmentClassId8, classId] buf, 2)"

definition appendInstance :: "nat \<Rightarrow> byte \<Rightarrow> byte list \<Rightarrow> byte list \<times> nat" where
  "appendInstance out instanceId buf = (poke out [kSegmentInstanceId8, instanceId] buf, 2)"

definition appendAttribute :: "nat \<Rightarrow> byte \<Rightarrow> byte list \<Rightarrow> byte list \<times> nat" where
  "appendAttribute out attributeId buf = (poke out [kSegmentAttributeId8, attributeId] buf, 2)"

definition kMaxSymbolicName :: nat where
  "kMaxSymbolicName = 120"

definition appendSymbolic :: "nat \<Rightarrow> cstring \<Rightarrow> byte list \<Rightarrow> byte list \<times> nat" where
  "appendSymbolic out name buf =
     (let len = (if kMaxSymbolicName < length name then kMaxSymbolicName else length name);
          buf1 = poke out [kSegmentSymbolic] buf;
          buf2 = poke (out + 1) [of_nat len] buf1;
          buf3 = poke (out + 2) (take len name) buf2;
          total = 2 + len
      in if odd len then (poke (out + total) [0] buf3, total + 1) else (buf3, total))"

text \<open>The segment as one list: what \<open>appendSymbolic\<close> leaves at \<open>out\<close>.\<close>

definition symbolic_segment :: "cstring \<Rightarrow> byte list" where
  "symbolic_segment name =
     (let n = take kMaxSymbolicName name
      in [kSegmentSymbolic, of_nat (length n)] @ n @ (if odd (length n) then [0] else []))"

text \<open>
  The inverse, as the synthetic server of the repository reads a path
  (\<open>src/tools/synthetic_eip_server.py\<close>, \<open>parse_symbolic_path\<close>): the name of the
  first segment, if the path begins with a symbolic segment.
\<close>

definition parse_symbolic :: "byte list \<Rightarrow> cstring option" where
  "parse_symbolic path =
     (if length path < 2 \<or> path ! 0 \<noteq> kSegmentSymbolic then None
      else Some (take (unat (path ! 1)) (drop 2 path)))"

subsection \<open>Facts\<close>

lemma DataType_code_cast: "DataType_code (DataType_cast b) = b"
  by (simp add: DataType_cast_def)

lemma DataType_cast_code: "(\<And>b. t \<noteq> DtUnknown b) \<Longrightarrow> DataType_cast (DataType_code t) = t"
  by (cases t) (auto simp: DataType_cast_def)

lemma dataTypeElementSize_le: "dataTypeElementSize t \<le> 8"
  by (cases t) simp_all

lemma length_symbolic_segment:
  "length (symbolic_segment name) =
     2 + min (length name) 120 + (if odd (min (length name) 120) then 1 else 0)"
  by (auto simp: symbolic_segment_def kMaxSymbolicName_def Let_def min.commute)

lemma symbolic_segment_bounds:
  "even (length (symbolic_segment name))" "2 \<le> length (symbolic_segment name)"
  "length (symbolic_segment name) \<le> 122"
proof -
  show "even (length (symbolic_segment name))"
    by (simp add: length_symbolic_segment)
  show "2 \<le> length (symbolic_segment name)"
    by (simp add: length_symbolic_segment)
  have "odd (min (length name) 120) \<Longrightarrow> min (length name) 120 < 120"
    by (cases "length name < 120") auto
  then show "length (symbolic_segment name) \<le> 122"
    by (auto simp: length_symbolic_segment)
qed

lemma symbolic_segment_short: "length name < 64 \<Longrightarrow> length (symbolic_segment name) \<le> 66"
  by (auto simp: length_symbolic_segment min_def)

lemma appendSymbolic_segment:
  assumes "out + length (symbolic_segment name) \<le> length buf"
  shows "appendSymbolic out name buf =
    (poke out (symbolic_segment name) buf, length (symbolic_segment name))"
proof -
  define n where "n = take kMaxSymbolicName name"
  have len: "(if kMaxSymbolicName < length name then kMaxSymbolicName else length name) = length n"
    and tk: "take (length n) name = n"
    by (simp_all add: n_def min_def)
  have seg: "symbolic_segment name =
      [kSegmentSymbolic, of_nat (length n)] @ n @ (if odd (length n) then [0] else [])"
    by (simp add: symbolic_segment_def n_def Let_def)
  have "out + 2 + length n \<le> length buf"
    using assms by (simp add: seg)
  then have three: "poke (out + 2) n (poke (out + 1) [of_nat (length n)]
      (poke out [kSegmentSymbolic] buf)) = poke out ([kSegmentSymbolic, of_nat (length n)] @ n) buf"
    by (simp add: poke_poke_adjacent)
  show ?thesis
  proof (cases "odd (length n)")
    case True
    then have "poke (out + (2 + length n)) [0]
        (poke out ([kSegmentSymbolic, of_nat (length n)] @ n) buf) =
        poke out (([kSegmentSymbolic, of_nat (length n)] @ n) @ [0]) buf"
      using assms by (intro poke_poke_adjacent) (simp_all add: seg)
    with True show ?thesis
      by (simp add: appendSymbolic_def Let_def len tk three [simplified] seg)
  next
    case False
    then show ?thesis
      by (simp add: appendSymbolic_def Let_def len tk three [simplified] seg)
  qed
qed

lemma parse_symbolic_segment:
  "parse_symbolic (symbolic_segment name @ rest) = Some (take kMaxSymbolicName name)"
proof -
  define n where "n = take kMaxSymbolicName name"
  have "length n \<le> 120"
    by (simp add: n_def kMaxSymbolicName_def)
  then have "unat (of_nat (length n) :: byte) = length n"
    by (simp add: unat_of_nat)
  then show ?thesis
    by (simp add: parse_symbolic_def symbolic_segment_def Let_def flip: n_def)
qed

end
