(* ===== verification/Cpf.thy ===== *)
theory Cpf
  imports Cip Framing
begin

text \<open>
  The Common Packet Format as a specification: a packet body carries a list of typed items.
  \<open>cpf_decode\<close> reads a number of items off a byte list and \<open>cpf_bytes\<close> writes them; the
  offset-and-remainder loops of \<open>ExplicitMessage.cpp\<close> and \<open>Connection.cpp\<close> are proved
  against them. \<open>rr_parse\<close> and \<open>ud_parse\<close> say what a well-formed unconnected and
  connected reply is, as functions of the packet alone.
\<close>

type_synonym cpf_item = "u16 \<times> byte list"

fun cpf_decode :: "nat \<Rightarrow> byte list \<Rightarrow> cpf_item list option" where
  "cpf_decode 0 bs = Some []"
| "cpf_decode (Suc n) bs =
     (if length bs < 4 then None
      else
        (let len = unat (getU16 (drop 2 bs)); rest = drop 4 bs in
         if length rest < len then None
         else
           (case cpf_decode n (drop len rest) of
              None \<Rightarrow> None
            | Some items \<Rightarrow> Some ((getU16 bs, take len rest) # items))))"

definition cpf_bytes :: "cpf_item list \<Rightarrow> byte list" where
  "cpf_bytes items =
     concat (map (\<lambda>(t, d). leU16 t @ leU16 (of_nat (length d)) @ d) items)"

definition cpf_small :: "cpf_item list \<Rightarrow> bool" where
  "cpf_small items \<longleftrightarrow> (\<forall>(t, d) \<in> set items. length d < 2 ^ 16)"

text \<open>The data of the last item of a type: the loops overwrite, so the last one wins.\<close>

fun last_item :: "u16 \<Rightarrow> cpf_item list \<Rightarrow> byte list option" where
  "last_item t [] = None"
| "last_item t ((t', d) # items) =
     (case last_item t items of None \<Rightarrow> (if t' = t then Some d else None) | Some e \<Rightarrow> Some e)"

lemma cpf_decode_bytes:
  "cpf_small items \<Longrightarrow> cpf_decode (length items) (cpf_bytes items @ junk) = Some items"
proof (induction items)
  case Nil
  then show ?case by simp
next
  case (Cons item items)
  obtain t d where item: "item = (t, d)" by fastforce
  have d: "unat (of_nat (length d) :: u16) = length d"
    using Cons.prems by (simp add: cpf_small_def item unat_of_nat)
  have "cpf_decode (length items) (cpf_bytes items @ junk) = Some items"
    using Cons by (simp add: cpf_small_def)
  with d show ?case
    by (simp add: cpf_bytes_def item Let_def)
qed

lemma cpf_decode_length: "cpf_decode n bs = Some items \<Longrightarrow> length items = n"
  by (induction n bs arbitrary: items rule: cpf_decode.induct)
    (auto simp: Let_def split: if_splits option.splits)

lemma cpf_decode_needs_bytes: "cpf_decode n bs = Some items \<Longrightarrow> 4 * n \<le> length bs"
  by (induction n bs arbitrary: items rule: cpf_decode.induct)
    (fastforce simp: Let_def split: if_splits option.splits)+

lemma last_item_length: "cpf_decode n bs = Some items \<Longrightarrow> last_item t items = Some d \<Longrightarrow>
    length d + 4 \<le> length bs"
  by (induction n bs arbitrary: items rule: cpf_decode.induct)
    (fastforce simp: Let_def split: if_splits option.splits)+

subsection \<open>Walking a buffer\<close>

text \<open>
  The parsing loops of the source walk the receive buffer with an offset and a count of the bytes
  left. One step of \<open>cpf_decode\<close> over the part of the buffer they have before them, and what
  they know of the last item of a type: where it lies in the buffer.
\<close>

lemma subbuf_sub:
  "i \<le> n \<Longrightarrow> drop i (subbuf p n bs) = subbuf (p + i) (n - i) bs"
  "i \<le> n \<Longrightarrow> take i (subbuf p n bs) = subbuf p i bs"
  by (simp_all add: subbuf_def drop_take add.commute min_def)

lemma cpf_decode_step:
  assumes "p + remaining \<le> length rx"
  shows "cpf_decode (Suc n) (subbuf p remaining rx) =
    (if remaining < 4 then None
     else
       (let l = unat (getU16 (drop (p + 2) rx)) in
        if remaining - 4 < l then None
        else
          (case cpf_decode n (subbuf (p + 4 + l) (remaining - 4 - l) rx) of
             None \<Rightarrow> None
           | Some items \<Rightarrow> Some ((getU16 (drop p rx), subbuf (p + 4) l rx) # items))))"
proof (cases "remaining < 4")
  case True
  with assms show ?thesis
    by simp
next
  case False
  define l where "l = unat (getU16 (drop (p + 2) rx))"
  have "drop 2 (subbuf p remaining rx) = subbuf (p + 2) (remaining - 2) rx"
    and rest: "drop 4 (subbuf p remaining rx) = subbuf (p + 4) (remaining - 4) rx"
    using False by (simp_all add: subbuf_sub)
  with False assms have l: "unat (getU16 (drop 2 (subbuf p remaining rx))) = l"
    and t: "getU16 (subbuf p remaining rx) = getU16 (drop p rx)"
    by (simp_all add: subbuf_def u16.dec_take l_def)
  have "length (subbuf p remaining rx) = remaining" "length (subbuf (p + 4) (remaining - 4) rx) = remaining - 4"
    using assms False by simp_all
  with False show ?thesis
    unfolding cpf_decode.simps(2) Let_def l rest t
    by (simp add: subbuf_sub l_def [symmetric, simplified] cong: option.case_cong)
qed

text \<open>
  \<open>located\<close>: \<open>loc\<close> is the offset and length in the buffer of the item found, or what it was
  before when there is none.
\<close>

definition located ::
  "byte list \<Rightarrow> nat \<Rightarrow> (nat \<times> nat) option \<Rightarrow> (nat \<times> nat) option \<Rightarrow> byte list option \<Rightarrow> bool" where
  "located rx bound old loc item \<longleftrightarrow>
     (case item of
        None \<Rightarrow> loc = old
      | Some d \<Rightarrow> \<exists>off. loc = Some (off, length d) \<and> subbuf off (length d) rx = d \<and>
          off + length d \<le> bound)"

lemma located_cons:
  assumes "located rx b (if t' = t then Some (off, l) else old) loc (last_item t items)"
    and "off + l \<le> b" and "b \<le> length rx"
  shows "located rx b old loc (last_item t ((t', subbuf off l rx) # items))"
  using assms by (auto simp: located_def split: option.splits if_splits)

lemma cpf_reply_parts:
  assumes "32 \<le> l" and "l \<le> length rx"
  shows "decodeHeader (take l rx) = decodeHeader rx"
    and "getU16 (drop 6 (drop 24 (take l rx))) = getU16 (drop 30 rx)"
    and "drop 8 (drop 24 (take l rx)) = subbuf 32 (l - 32) rx"
    and "length (drop 24 (take l rx)) = l - 24"
proof -
  have six: "drop 6 (drop 24 (take l rx)) = subbuf 30 (l - 30) rx"
    by (simp add: subbuf_def drop_take)
  show "decodeHeader (take l rx) = decodeHeader rx"
    using assms by (simp add: header.dec_take)
  show "getU16 (drop 6 (drop 24 (take l rx))) = getU16 (drop 30 rx)"
    unfolding six subbuf_def using assms by (simp add: u16.dec_take)
  show "drop 8 (drop 24 (take l rx)) = subbuf 32 (l - 32) rx"
    by (simp add: subbuf_def drop_take)
  show "length (drop 24 (take l rx)) = l - 24"
    using assms by simp
qed

lemma located_bytes:
  assumes "subbuf off (length d) rx = d" and "off + length d \<le> length rx"
  shows "i < length d \<Longrightarrow> rx ! (off + i) = d ! i"
    and "k \<le> length d \<Longrightarrow> subbuf (off + k) (length d - k) rx = drop k d"
    and "2 \<le> length d \<Longrightarrow> getU16 (drop off rx) = getU16 d"
proof -
  show nth: "rx ! (off + i) = d ! i" if "i < length d"
  proof -
    have "d ! i = subbuf off (length d) rx ! i"
      using assms(1) by simp
    with that assms(2) show ?thesis
      by (simp add: subbuf_def)
  qed
  show "subbuf (off + k) (length d - k) rx = drop k d" if "k \<le> length d"
    using that subbuf_sub(1) [of k "length d" off rx] assms(1) by simp
  show "getU16 (drop off rx) = getU16 d" if "2 \<le> length d"
  proof -
    have "getU16 (take (length d) (drop off rx)) = getU16 (drop off rx)"
      using that assms(2) by (simp add: u16.dec_take)
    with assms(1) show ?thesis
      by (simp add: subbuf_def)
  qed
qed

subsection \<open>Unconnected replies (SendRRData)\<close>

definition rr_parse :: "u64 \<Rightarrow> byte list \<Rightarrow> (byte \<times> byte \<times> byte list) option" where
  "rr_parse ctx p =
     (let h = decodeHeader p; body = drop 24 p in
      if eh_command h \<noteq> Command_code SendRRData \<or> eh_status h \<noteq> 0 \<or> eh_context h \<noteq> ctx then None
      else if length body < 8 then None
      else
        (case cpf_decode (unat (getU16 (drop 6 body))) (drop 8 body) of
           None \<Rightarrow> None
         | Some items \<Rightarrow>
             (case last_item (CpfItemType_code UnconnectedData) items of
                None \<Rightarrow> None
              | Some cip \<Rightarrow>
                  if length cip < 4 then None else Some (cip ! 0, cip ! 2, drop 4 cip))))"

text \<open>A packet around a list of items, and the reply a server sends to a request.\<close>

definition rr_packet :: "u32 \<Rightarrow> u64 \<Rightarrow> cpf_item list \<Rightarrow> byte list" where
  "rr_packet session ctx items =
     header_bytes \<lparr> eh_command = Command_code SendRRData,
       eh_length = of_nat (8 + length (cpf_bytes items)), eh_session = session, eh_status = 0,
       eh_context = ctx, eh_options = 0 \<rparr>
     @ leU32 0 @ leU16 0 @ leU16 (of_nat (length items)) @ cpf_bytes items"

definition rr_reply :: "u32 \<Rightarrow> u64 \<Rightarrow> byte \<Rightarrow> byte \<Rightarrow> byte list \<Rightarrow> byte list" where
  "rr_reply session ctx service code data =
     rr_packet session ctx
       [(CpfItemType_code NullAddress, []),
        (CpfItemType_code UnconnectedData, [service, 0, code, 0] @ data)]"

lemma rr_packet_packet:
  assumes "8 + length (cpf_bytes items) < 2 ^ 16"
  shows "packet (rr_packet session ctx items)"
    and "length (rr_packet session ctx items) = 32 + length (cpf_bytes items)"
proof -
  have "unat (of_nat (8 + length (cpf_bytes items)) :: u16) = 8 + length (cpf_bytes items)"
    using assms by (simp only: unat_of_nat) simp
  then show "packet (rr_packet session ctx items)"
    by (simp add: packet_def rr_packet_def header.dec_enc del: of_nat_add)
  show "length (rr_packet session ctx items) = 32 + length (cpf_bytes items)"
    by (simp add: rr_packet_def)
qed

lemma rr_parse_packet:
  assumes "cpf_small items" and "length items < 2 ^ 16"
  shows "rr_parse ctx (rr_packet session ctx items) =
    (case last_item (CpfItemType_code UnconnectedData) items of
       None \<Rightarrow> None
     | Some cip \<Rightarrow> if length cip < 4 then None else Some (cip ! 0, cip ! 2, drop 4 cip))"
  using assms cpf_decode_bytes [of items "[]"]
  by (simp add: rr_parse_def rr_packet_def header.dec_enc unat_of_nat Let_def)

lemma rr_parse_reply:
  assumes "length data \<le> 1000"
  shows "rr_parse ctx (rr_reply session ctx service code data) = Some (service, code, data)"
    and "packet (rr_reply session ctx service code data)"
    and "length (rr_reply session ctx service code data) = 44 + length data"
proof -
  let ?items = "[(CpfItemType_code NullAddress, []),
    (CpfItemType_code UnconnectedData, [service, 0, code, 0] @ data)]"
  have small: "cpf_small ?items"
    using assms by (simp add: cpf_small_def)
  show "rr_parse ctx (rr_reply session ctx service code data) = Some (service, code, data)"
    using rr_parse_packet [OF small, of ctx session] by (simp add: rr_reply_def)
  have len: "length (cpf_bytes ?items) = 12 + length data"
    by (simp add: cpf_bytes_def)
  show "packet (rr_reply session ctx service code data)"
    and "length (rr_reply session ctx service code data) = 44 + length data"
    using rr_packet_packet [of ?items session ctx] assms len by (simp_all add: rr_reply_def)
qed

subsection \<open>Connected replies (SendUnitData)\<close>

definition ud_parse :: "u64 \<Rightarrow> u32 \<Rightarrow> u16 \<Rightarrow> byte list \<Rightarrow> (byte \<times> byte \<times> byte list) option" where
  "ud_parse ctx connId sequence p =
     (let h = decodeHeader p; body = drop 24 p in
      if eh_command h \<noteq> Command_code SendUnitData \<or> eh_status h \<noteq> 0 \<or> eh_context h \<noteq> ctx then None
      else if length body < 8 then None
      else
        (case cpf_decode (unat (getU16 (drop 6 body))) (drop 8 body) of
           None \<Rightarrow> None
         | Some items \<Rightarrow>
             if \<exists>(t, d) \<in> set items. t = CpfItemType_code ConnectedAddress \<and> length d < 4 then None
             else
               (case (last_item (CpfItemType_code ConnectedAddress) items,
                      last_item (CpfItemType_code ConnectedData) items) of
                  (Some addr, Some d) \<Rightarrow>
                    if getU32 addr \<noteq> connId \<or> length d < 6 \<or> getU16 d \<noteq> sequence then None
                    else Some (d ! 2, d ! 4, drop 6 d)
                | _ \<Rightarrow> None)))"

end
