(* ===== verification/ExplicitMessage.thy ===== *)
theory ExplicitMessage
  imports Loopback Cpf
begin

text \<open>
  One CIP explicit-message exchange, \<open>src/src/cip/ExplicitMessage.h\<close> and
  \<open>ExplicitMessage.cpp\<close>: \<open>send()\<close> builds a SendRRData packet around a CIP request,
  \<open>poll()\<close> sends it, receives the reply and finds the CIP response in it. The pointer
  \<open>data_\<close> into the receive buffer is an offset into \<open>em_rx\<close>, so it sees later writes
  to that buffer, as the pointer does.
\<close>

definition em_kMaxCipData :: nat where
  "em_kMaxCipData = 256"

lemma em_kMaxCipData [simp]: "em_kMaxCipData = 256"
  by (simp add: em_kMaxCipData_def)

datatype EmState = EmIdle | EmSending | EmReceiving | EmDone | EmFailed

record explicit_message =
  em_conn :: "conn_ref option"
  em_state :: EmState
  em_deadline :: u32
  em_context :: u64
  em_sentContext :: u64
  em_tx :: "byte list"
  em_txLen :: nat
  em_txSent :: nat
  em_rx :: "byte list"
  em_rxLen :: nat
  em_rxExpected :: nat
  em_replyService :: byte
  em_resultCode :: byte
  em_data :: "nat option"
  em_dataLen :: nat

definition ExplicitMessage_new :: "byte list \<Rightarrow> byte list \<Rightarrow> explicit_message" where
  "ExplicitMessage_new tx rx =
     \<lparr> em_conn = None, em_state = EmIdle, em_deadline = 0, em_context = 1, em_sentContext = 0,
       em_tx = tx, em_txLen = 0, em_txSent = 0, em_rx = rx, em_rxLen = 0, em_rxExpected = 0,
       em_replyService = 0, em_resultCode = 0, em_data = None, em_dataLen = 0 \<rparr>"

definition ExplicitMessage_abort :: "explicit_message \<Rightarrow> explicit_message" where
  "ExplicitMessage_abort m = m\<lparr>em_conn := None, em_state := EmIdle\<rparr>"

text \<open>
  The caller's \<open>path\<close> and \<open>data\<close>: a pointer (\<open>None\<close> when null, else the bytes it
  points at) and a length of type \<open>size_t\<close>. The sum of the lengths is taken modulo
  \<open>2 ^ 32\<close>, as the code takes it.
\<close>

definition ExplicitMessage_send ::
  "'w os \<Rightarrow> conn_ref \<Rightarrow> u32 \<Rightarrow> byte \<Rightarrow> byte list option \<Rightarrow> size_t \<Rightarrow> byte list option \<Rightarrow> size_t \<Rightarrow> u32
     \<Rightarrow> explicit_message \<Rightarrow> 'w net \<Rightarrow> Status \<times> explicit_message \<times> 'w net" where
  "ExplicitMessage_send os conn sessionHandle service path pathLen data dataLen timeoutMs m net =
     (if em_state m = EmSending \<or> em_state m = EmReceiving then (Busy, m, net)
      else if \<not> TcpConnection_connected conn net then (NotReady, m, net)
      else
        (let m0 = m\<lparr>em_conn := Some conn\<rparr>;
             cipLen = 2 + pathLen + dataLen
         in if of_nat em_kMaxCipData < cipLen \<or> odd pathLen \<or> (0 < pathLen \<and> path = None) \<or>
               (0 < dataLen \<and> data = None)
            then (InvalidArg, m0, net)
            else
              (let h = \<lparr> eh_command = Command_code SendRRData, eh_length = ucast (16 + cipLen),
                         eh_session = sessionHandle, eh_status = 0, eh_context = em_context m0,
                         eh_options = 0 \<rparr>;
                   body = kEncapsulationHeaderSize;
                   cip = body + 16;
                   t1 = encodeHeader h (em_tx m0);
                   t2 = putU32 body 0 t1;
                   t3 = putU16 (body + 4) 0 t2;
                   t4 = putU16 (body + 6) 2 t3;
                   t5 = putU16 (body + 8) (CpfItemType_code NullAddress) t4;
                   t6 = putU16 (body + 10) 0 t5;
                   t7 = putU16 (body + 12) (CpfItemType_code UnconnectedData) t6;
                   t8 = putU16 (body + 14) (ucast cipLen) t7;
                   t9 = poke cip [service] t8;
                   t10 = poke (cip + 1) [ucast (pathLen div 2)] t9;
                   t11 = (if pathLen \<noteq> 0 then poke (cip + 2) (take (unat pathLen) (the path)) t10
                          else t10);
                   t12 = (if dataLen \<noteq> 0
                          then poke (cip + 2 + unat pathLen) (take (unat dataLen) (the data)) t11
                          else t11)
               in case millis os net of (now, net1) \<Rightarrow>
                    (Pending,
                     m0\<lparr>em_tx := t12, em_txLen := kEncapsulationHeaderSize + 16 + unat cipLen,
                        em_txSent := 0, em_rxLen := 0, em_rxExpected := kEncapsulationHeaderSize,
                        em_sentContext := em_context m0, em_context := em_context m0 + 1,
                        em_deadline := now + timeoutMs, em_state := EmSending\<rparr>,
                     net1))))"

definition ExplicitMessage_writePending ::
  "'w os \<Rightarrow> explicit_message \<Rightarrow> 'w net \<Rightarrow> Status \<times> explicit_message \<times> 'w net" where
  "ExplicitMessage_writePending os m net =
     (case write_loop (conn_write os (em_conn m)) (em_tx m) (em_txLen m) (em_txSent m) net of
        (st, sent, net1) \<Rightarrow> (st, m\<lparr>em_txSent := sent\<rparr>, net1))"

definition ExplicitMessage_readResponse ::
  "'w os \<Rightarrow> explicit_message \<Rightarrow> 'w net \<Rightarrow> Status \<times> explicit_message \<times> 'w net" where
  "ExplicitMessage_readResponse os m net =
     (case read_loop (conn_read os (em_conn m)) (16 + em_kMaxCipData) (em_rx m) (em_rxLen m)
        (em_rxExpected m) net of
        (st, rx, rxLen, rxExpected, net1) \<Rightarrow>
          (st, m\<lparr>em_rx := rx, em_rxLen := rxLen, em_rxExpected := rxExpected\<rparr>, net1))"

text \<open>
  The loop over the CPF items of a reply: \<open>n\<close> items are left, \<open>p\<close> is the offset of the
  next one and \<open>remaining\<close> the bytes from there on. The result is \<open>None\<close> for a malformed
  packet, else the offset and length of the last unconnected-data item, if there is one.
\<close>

fun parse_unconnected ::
  "byte list \<Rightarrow> nat \<Rightarrow> nat \<Rightarrow> nat \<Rightarrow> (nat \<times> nat) option \<Rightarrow> (nat \<times> nat) option option" where
  "parse_unconnected rx 0 p remaining cip = Some cip"
| "parse_unconnected rx (Suc n) p remaining cip =
     (if remaining < 4 then None
      else
        (let type = getU16 (drop p rx); len = unat (getU16 (drop (p + 2) rx));
             p1 = p + 4; remaining1 = remaining - 4
         in if remaining1 < len then None
            else parse_unconnected rx n (p1 + len) (remaining1 - len)
                   (if type = 0x00B2 then Some (p1, len) else cip)))"

definition ExplicitMessage_parseResponse :: "explicit_message \<Rightarrow> Status \<times> explicit_message" where
  "ExplicitMessage_parseResponse m =
     (let h = decodeHeader (em_rx m) in
      if eh_command h \<noteq> Command_code SendRRData \<or> eh_status h \<noteq> 0 then (Error, m)
      else if eh_context h \<noteq> em_sentContext m then (Error, m)
      else
        (let body = kEncapsulationHeaderSize;
             bodyLen = em_rxLen m - kEncapsulationHeaderSize
         in if bodyLen < 8 then (Error, m)
            else
              (let itemCount = unat (getU16 (drop (body + 6) (em_rx m))) in
               case parse_unconnected (em_rx m) itemCount (body + 8) (bodyLen - 8) None of
                 None \<Rightarrow> (Error, m)
               | Some None \<Rightarrow> (Error, m)
               | Some (Some (cipData, cipLen)) \<Rightarrow>
                   if cipLen < 4 then (Error, m)
                   else (Ok, m\<lparr>em_replyService := em_rx m ! cipData,
                                em_resultCode := em_rx m ! (cipData + 2),
                                em_data := Some (cipData + 4), em_dataLen := cipLen - 4\<rparr>))))"

definition ExplicitMessage_poll ::
  "'w os \<Rightarrow> explicit_message \<Rightarrow> 'w net \<Rightarrow> Status \<times> explicit_message \<times> 'w net" where
  "ExplicitMessage_poll os m net =
     (case em_state m of
        EmDone \<Rightarrow> (Ok, m, net)
      | EmFailed \<Rightarrow> (Error, m, net)
      | EmIdle \<Rightarrow> (NotReady, m, net)
      | _ \<Rightarrow>
          (case millis os net of (now, net0) \<Rightarrow>
             if expired now (em_deadline m) then (Timeout, m\<lparr>em_state := EmFailed\<rparr>, net0)
             else
               (case ExplicitMessage_writePending os m net0 of (st, m1, net1) \<Rightarrow>
                  if st \<noteq> Ok
                  then (st, if st \<noteq> Pending then m1\<lparr>em_state := EmFailed\<rparr> else m1, net1)
                  else
                    (case ExplicitMessage_readResponse os (m1\<lparr>em_state := EmReceiving\<rparr>) net1 of
                       (st2, m2, net2) \<Rightarrow>
                         if st2 = Pending then (Pending, m2, net2)
                         else if st2 \<noteq> Ok then (st2, m2\<lparr>em_state := EmFailed\<rparr>, net2)
                         else
                           (case ExplicitMessage_parseResponse m2 of (st3, m3) \<Rightarrow>
                              (st3, m3\<lparr>em_state := (if st3 = Ok then EmDone else EmFailed)\<rparr>,
                               net2))))))"

text \<open>The accessors: \<open>data()\<close> is the bytes from the pointer on.\<close>

definition ExplicitMessage_data :: "explicit_message \<Rightarrow> byte list" where
  "ExplicitMessage_data m = (case em_data m of None \<Rightarrow> [] | Some off \<Rightarrow> drop off (em_rx m))"

subsection \<open>The invariant\<close>

text \<open>
  Cursors stay within the buffers; an exchange in flight has a connection and a framed receive
  buffer; the data pointer, when set, points at \<open>dataLen_\<close> bytes inside the receive buffer,
  and it is set once an exchange is done.
\<close>

definition em_buffers :: "explicit_message \<Rightarrow> bool" where
  "em_buffers m \<longleftrightarrow>
     length (em_tx m) = 24 + 16 + em_kMaxCipData \<and> em_txSent m \<le> em_txLen m \<and>
     em_txLen m \<le> length (em_tx m) \<and>
     rx_wf (16 + em_kMaxCipData) (em_rx m) (em_rxLen m) (em_rxExpected m)"

definition em_busy :: "explicit_message \<Rightarrow> bool" where
  "em_busy m \<longleftrightarrow> em_state m = EmSending \<or> em_state m = EmReceiving"

definition em_framed :: "explicit_message \<Rightarrow> bool" where
  "em_framed m \<longleftrightarrow>
     em_conn m \<noteq> None \<and>
     rx_framed (16 + em_kMaxCipData) (em_rx m) (em_rxLen m) (em_rxExpected m)"

definition em_result :: "explicit_message \<Rightarrow> bool" where
  "em_result m \<longleftrightarrow>
     (case em_data m of None \<Rightarrow> em_dataLen m = 0 | Some off \<Rightarrow> off + em_dataLen m \<le> length (em_rx m))"

definition em_inv :: "explicit_message \<Rightarrow> bool" where
  "em_inv m \<longleftrightarrow>
     em_buffers m \<and> (em_busy m \<longrightarrow> em_framed m) \<and> em_result m \<and>
     (em_state m = EmDone \<longrightarrow> em_data m \<noteq> None)"

lemmas em_inv_defs = em_inv_def em_buffers_def em_busy_def em_framed_def em_result_def

lemma ExplicitMessage_new_inv:
  "length tx = 296 \<Longrightarrow> length rx = 296 \<Longrightarrow> em_inv (ExplicitMessage_new tx rx)"
  by (simp add: em_inv_defs ExplicitMessage_new_def rx_wf_def)

lemma ExplicitMessage_abort_inv: "em_inv m \<Longrightarrow> em_inv (ExplicitMessage_abort m)"
  by (simp add: em_inv_defs ExplicitMessage_abort_def split: option.splits)

lemma ExplicitMessage_abort_idle [simp]:
  "\<not> em_busy (ExplicitMessage_abort m)" "em_state (ExplicitMessage_abort m) = EmIdle"
  by (simp_all add: em_busy_def ExplicitMessage_abort_def)

subsection \<open>Sending\<close>

text \<open>
  What a caller of \<open>send()\<close> owes: the two pointers, when not null, point at as many bytes as
  the lengths say, and the lengths do not sum past \<open>2 ^ 32\<close>.
\<close>

definition em_args :: "byte list option \<Rightarrow> size_t \<Rightarrow> byte list option \<Rightarrow> size_t \<Rightarrow> bool" where
  "em_args path pathLen data dataLen \<longleftrightarrow>
     (\<forall>p. path = Some p \<longrightarrow> unat pathLen \<le> length p) \<and>
     (\<forall>d. data = Some d \<longrightarrow> unat dataLen \<le> length d) \<and>
     2 + unat pathLen + unat dataLen < 2 ^ 32"

definition arg_bytes :: "byte list option \<Rightarrow> size_t \<Rightarrow> byte list" where
  "arg_bytes p n = take (unat n) (the p)"

text \<open>The CIP request, and the packet around it.\<close>

definition cip_request :: "byte \<Rightarrow> byte list \<Rightarrow> byte list \<Rightarrow> byte list" where
  "cip_request service path data = [service, of_nat (length path div 2)] @ path @ data"

definition rr_request :: "u32 \<Rightarrow> u64 \<Rightarrow> byte \<Rightarrow> byte list \<Rightarrow> byte list \<Rightarrow> byte list" where
  "rr_request session ctx service path data =
     rr_packet session ctx
       [(CpfItemType_code NullAddress, []),
        (CpfItemType_code UnconnectedData, cip_request service path data)]"

text \<open>The same packet as the writes of \<open>send()\<close> lay it out.\<close>

lemma rr_request_bytes:
  "rr_request session ctx service path data =
     header_bytes \<lparr> eh_command = Command_code SendRRData,
       eh_length = of_nat (18 + length path + length data), eh_session = session, eh_status = 0,
       eh_context = ctx, eh_options = 0 \<rparr>
     @ leU32 0 @ leU16 0 @ leU16 2 @ leU16 (CpfItemType_code NullAddress) @ leU16 0
     @ leU16 (CpfItemType_code UnconnectedData) @ leU16 (of_nat (2 + length path + length data))
     @ [service] @ [of_nat (length path div 2)] @ path @ data"
  by (simp add: rr_request_def rr_packet_def cpf_bytes_def cip_request_def ac_simps)

lemma em_args_sum:
  assumes "em_args path pathLen data dataLen"
  shows "unat (2 + pathLen + dataLen) = 2 + unat pathLen + unat dataLen"
proof -
  have "unat (2 + pathLen) = 2 + unat pathLen"
    using assms unat_add_lem [of "2 :: 32 word" pathLen] by (simp add: em_args_def)
  then show ?thesis
    using assms unat_add_lem [of "2 + pathLen" dataLen] by (simp add: em_args_def)
qed

lemma em_args_sizes:
  assumes "em_args path pathLen data dataLen"
    and "\<not> (of_nat em_kMaxCipData < 2 + pathLen + dataLen \<or> odd pathLen \<or>
      (0 < pathLen \<and> path = None) \<or> (0 < dataLen \<and> data = None))"
  shows "unat (2 + pathLen + dataLen) = 2 + unat pathLen + unat dataLen"
    and "2 + unat pathLen + unat dataLen \<le> 256"
    and "length (arg_bytes path pathLen) = unat pathLen"
    and "length (arg_bytes data dataLen) = unat dataLen"
proof -
  show u: "unat (2 + pathLen + dataLen) = 2 + unat pathLen + unat dataLen"
    using assms(1) by (rule em_args_sum)
  have "2 + pathLen + dataLen \<le> 256"
    using assms(2) by (simp add: not_less)
  then have "unat (2 + pathLen + dataLen) \<le> 256"
    by (simp add: word_le_nat_alt)
  with u show "2 + unat pathLen + unat dataLen \<le> 256"
    by simp
  have "unat pathLen = 0 \<or> path \<noteq> None" and "unat dataLen = 0 \<or> data \<noteq> None"
    using assms(2) by (auto simp: word_neq_0_conv unat_eq_zero)
  then show "length (arg_bytes path pathLen) = unat pathLen"
    and "length (arg_bytes data dataLen) = unat dataLen"
    using assms(1) by (auto simp: arg_bytes_def em_args_def)
qed


lemma em_layout:
  assumes "length tx = 296" and "2 + length P + length D \<le> 256"
  shows "poke (kEncapsulationHeaderSize + 16 + 2 + length P) D
    (poke (kEncapsulationHeaderSize + 16 + 2) P
    (poke (kEncapsulationHeaderSize + 16 + 1) [of_nat (length P div 2)]
    (poke (kEncapsulationHeaderSize + 16) [service]
    (putU16 (kEncapsulationHeaderSize + 14) (of_nat (2 + length P + length D))
    (putU16 (kEncapsulationHeaderSize + 12) (CpfItemType_code UnconnectedData)
    (putU16 (kEncapsulationHeaderSize + 10) 0
    (putU16 (kEncapsulationHeaderSize + 8) (CpfItemType_code NullAddress)
    (putU16 (kEncapsulationHeaderSize + 6) 2
    (putU16 (kEncapsulationHeaderSize + 4) 0
    (putU32 kEncapsulationHeaderSize 0
    (encodeHeader \<lparr> eh_command = Command_code SendRRData,
       eh_length = of_nat (18 + length P + length D), eh_session = session, eh_status = 0,
       eh_context = ctx, eh_options = 0 \<rparr> tx))))))))))) =
    poke 0 (rr_request session ctx service P D) tx"
  using assms
  by (simp add: rr_request_bytes encodeHeader_poke putU16_def putU32_def poke_poke_adjacent
      del: append_assoc append_Cons) simp

definition em_started ::
  "conn_ref \<Rightarrow> u32 \<Rightarrow> byte list \<Rightarrow> explicit_message \<Rightarrow> explicit_message \<Rightarrow> bool" where
  "em_started c deadline request m m' \<longleftrightarrow>
     em_conn m' = Some c \<and> em_state m' = EmSending \<and> em_deadline m' = deadline \<and>
     em_sentContext m' = em_context m \<and> em_context m' = em_context m + 1 \<and>
     take (em_txLen m') (em_tx m') = request \<and> em_txLen m' = length request \<and>
     em_txSent m' = 0 \<and> em_rxLen m' = 0 \<and> em_inv m'"

lemma ExplicitMessage_send_spec:
  assumes I: "em_inv m" and A: "em_args path pathLen data dataLen"
    and run: "ExplicitMessage_send os c h service path pathLen data dataLen timeoutMs m net =
      (st, m', net')"
  obtains "st = Busy" "m' = m" "net' = net" "em_busy m"
  | "st = NotReady" "m' = m" "net' = net" "\<not> em_busy m" "\<not> TcpConnection_connected c net"
  | "st = InvalidArg" "m' = m\<lparr>em_conn := Some c\<rparr>" "net' = net" "\<not> em_busy m"
  | now where "st = Pending" "\<not> em_busy m" "TcpConnection_connected c net"
      "millis os net = (now, net')"
      "em_started c (now + timeoutMs)
         (rr_request h (em_context m) service (arg_bytes path pathLen) (arg_bytes data dataLen)) m m'"
proof -
  let ?bad = "of_nat em_kMaxCipData < 2 + pathLen + dataLen \<or> odd pathLen \<or>
      (0 < pathLen \<and> path = None) \<or> (0 < dataLen \<and> data = None)"
  consider (busy) "em_busy m" | (down) "\<not> em_busy m" "\<not> TcpConnection_connected c net"
    | (bad) "\<not> em_busy m" "TcpConnection_connected c net" ?bad
    | (ok) "\<not> em_busy m" "TcpConnection_connected c net" "\<not> ?bad"
    by blast
  then show thesis
  proof cases
    case busy
    with run that(1) show thesis
      by (auto simp: ExplicitMessage_send_def em_busy_def)
  next
    case down
    with run that(2) show thesis
      by (auto simp: ExplicitMessage_send_def em_busy_def)
  next
    case bad
    then have "ExplicitMessage_send os c h service path pathLen data dataLen timeoutMs m net =
        (InvalidArg, m\<lparr>em_conn := Some c\<rparr>, net)"
      unfolding ExplicitMessage_send_def em_busy_def Let_def by auto
    with run bad that(3) show thesis
      by auto
  next
    case ok
    define P where "P = arg_bytes path pathLen"
    define D where "D = arg_bytes data dataLen"
    note size = em_args_sizes [OF A ok(3), folded P_def D_def]
    obtain now net1 where m: "millis os net = (now, net1)" by fastforce
    have len: "length (em_tx m) = 296"
      using I by (simp add: em_inv_defs)
    have "unat (pathLen div 2) = length P div 2"
      by (simp add: size unat_div_distrib)
    then have half: "(ucast (pathLen div 2) :: byte) = of_nat (length P div 2)"
      by (metis of_nat_unat)
    have u: "unat (2 + pathLen + dataLen) = 2 + length P + length D"
      using size by simp
    then have clen: "(ucast (2 + pathLen + dataLen) :: u16) = of_nat (2 + length P + length D)"
      by (metis of_nat_unat)
    have "unat (16 + (2 + pathLen + dataLen)) = 18 + length P + length D"
      using u size unat_add_lem [of "16 :: 32 word" "2 + pathLen + dataLen"] by simp
    then have hlen: "(ucast (16 + (2 + pathLen + dataLen)) :: u16) = of_nat (18 + length P + length D)"
      by (metis of_nat_unat)
    have skip: "(if pathLen \<noteq> 0 then poke k (take (unat pathLen) (the path)) t else t) = poke k P t"
      "(if dataLen \<noteq> 0 then poke k (take (unat dataLen) (the data)) t else t) = poke k D t"
      for k and t :: "byte list"
      by (simp_all add: P_def D_def arg_bytes_def)
    have len': "length (em_tx (m\<lparr>em_conn := Some c\<rparr>)) = 296"
      using len by simp
    have fit: "2 + length P + length D \<le> 256"
      using size by simp
    let ?req = "rr_request h (em_context m) service P D"
    have req: "length ?req = 42 + length P + length D"
      by (simp add: rr_request_bytes)
    have idle: "\<not> (em_state m = EmSending \<or> em_state m = EmReceiving)" "\<not> \<not> TcpConnection_connected c net"
      using ok(1,2) by (simp_all add: em_busy_def)
    have eqs: "st = Pending" "net' = net1"
      "m' = m\<lparr>em_conn := Some c, em_tx := poke 0 ?req (em_tx m), em_txLen := length ?req,
          em_txSent := 0, em_rxLen := 0, em_rxExpected := 24, em_sentContext := em_context m,
          em_context := em_context m + 1, em_deadline := now + timeoutMs, em_state := EmSending\<rparr>"
      using run [unfolded ExplicitMessage_send_def Let_def if_not_P [OF idle(1)] if_not_P [OF idle(2)]
          if_not_P [OF ok(3)] skip half clen hlen m prod.case u,
          unfolded size(3) [symmetric], unfolded em_layout [OF len' fit]]
      by (auto simp: req)
    have "em_inv m'"
      using I size(2) by (auto simp: eqs em_inv_defs rx_wf_def rx_framed_start req size split: option.splits)
    then have "em_started c (now + timeoutMs) ?req m m'"
      using len size(2) by (simp add: em_started_def eqs req size take_poke_extend)
    with ok(1,2) m eqs(1,2) that(4) show thesis
      by (simp add: P_def D_def)
  qed
qed

lemma ExplicitMessage_send_pending:
  assumes "em_inv m" and "em_args path pathLen data dataLen"
    and "ExplicitMessage_send os c h service path pathLen data dataLen timeoutMs m net =
      (Pending, m', net')"
  obtains now where "\<not> em_busy m" and "TcpConnection_connected c net" and "millis os net = (now, net')"
    and "em_started c (now + timeoutMs)
      (rr_request h (em_context m) service (arg_bytes path pathLen) (arg_bytes data dataLen)) m m'"
  by (rule ExplicitMessage_send_spec [OF assms]) (use that in auto)

text \<open>The guards of \<open>send()\<close>, for an idle message on a connected socket.\<close>

lemma ExplicitMessage_send_decides:
  assumes "\<not> em_busy m" and "TcpConnection_connected c net"
    and "em_args (Some path) pathLen (Some data) dataLen"
    and "ExplicitMessage_send os c h service (Some path) pathLen (Some data) dataLen timeoutMs m net =
      (st, m', net')"
  shows "st = (if even (unat pathLen) \<and> 2 + unat pathLen + unat dataLen \<le> 256 then Pending
    else InvalidArg)"
proof -
  have big: "of_nat em_kMaxCipData < 2 + pathLen + dataLen \<longleftrightarrow> 256 < 2 + unat pathLen + unat dataLen"
    using em_args_sum [OF assms(3)] by (simp add: word_less_nat_alt)
  have "even (of_nat (unat pathLen) :: size_t) \<longleftrightarrow> even (unat pathLen)"
    by (rule even_of_nat)
  then have ev: "even pathLen \<longleftrightarrow> even (unat pathLen)"
    by simp
  show ?thesis
    using assms(1,2,4) big ev
    by (auto simp: ExplicitMessage_send_def em_busy_def Let_def split: if_splits prod.splits)
qed

subsection \<open>Parsing the reply\<close>

text \<open>The offset loop of \<open>parseResponse\<close> is the list function \<open>cpf_decode\<close>.\<close>

lemma parse_unconnected_located:
  assumes "p + remaining \<le> length rx"
  shows "case cpf_decode n (subbuf p remaining rx) of
      None \<Rightarrow> parse_unconnected rx n p remaining cip = None
    | Some items \<Rightarrow> \<exists>loc. parse_unconnected rx n p remaining cip = Some loc \<and>
        located rx (p + remaining) cip loc (last_item 0x00B2 items)"
  using assms
proof (induction n arbitrary: p remaining cip)
  case 0
  then show ?case by (simp add: located_def)
next
  case (Suc n)
  define l where "l = unat (getU16 (drop (p + 2) rx))"
  consider "remaining < 4" | "4 \<le> remaining" "remaining - 4 < l" | (fits) "4 \<le> remaining" "l \<le> remaining - 4"
    by linarith
  then show ?case
  proof cases
    case fits
    let ?cip = "if getU16 (drop p rx) = 0x00B2 then Some (p + 4, l) else cip"
    have fit: "p + 4 + l + (remaining - 4 - l) = p + remaining" "p + 4 + l \<le> p + remaining"
      using fits by linarith+
    have step: "parse_unconnected rx (Suc n) p remaining cip =
        parse_unconnected rx n (p + 4 + l) (remaining - 4 - l) ?cip"
      using fits by (simp add: Let_def l_def)
    show ?thesis
    proof (cases "cpf_decode n (subbuf (p + 4 + l) (remaining - 4 - l) rx)")
      case None
      with Suc.IH [of "p + 4 + l" "remaining - 4 - l" ?cip] Suc.prems fits fit(1) show ?thesis
        unfolding cpf_decode_step [OF Suc.prems] step by (simp add: Let_def l_def)
    next
      case (Some items)
      with Suc.IH [of "p + 4 + l" "remaining - 4 - l" ?cip] Suc.prems fit(1)
      obtain loc where loc: "parse_unconnected rx n (p + 4 + l) (remaining - 4 - l) ?cip = Some loc"
          "located rx (p + remaining) ?cip loc (last_item 0x00B2 items)"
        by auto
      from located_cons [OF loc(2) fit(2) Suc.prems] Some loc(1) fits show ?thesis
        unfolding cpf_decode_step [OF Suc.prems] step
        by (simp add: Let_def l_def [symmetric, simplified] del: last_item.simps)
    qed
  qed (simp_all add: cpf_decode_step [OF Suc.prems] Let_def l_def del: cpf_decode.simps)
qed

lemma ExplicitMessage_parseResponse_spec:
  assumes B: "em_buffers m" and l: "24 \<le> em_rxLen m"
  shows "case rr_parse (em_sentContext m) (take (em_rxLen m) (em_rx m)) of
      None \<Rightarrow> ExplicitMessage_parseResponse m = (Error, m)
    | Some (service, code, d) \<Rightarrow> \<exists>off.
        ExplicitMessage_parseResponse m =
          (Ok, m\<lparr>em_replyService := service, em_resultCode := code, em_data := Some off,
                 em_dataLen := length d\<rparr>) \<and>
        subbuf off (length d) (em_rx m) = d \<and> off + length d \<le> em_rxLen m"
proof -
  define rx where "rx = em_rx m"
  define p where "p = take (em_rxLen m) rx"
  note parse = ExplicitMessage_parseResponse_def [of m, unfolded Let_def, folded rx_def]
  have len: "em_rxLen m \<le> length rx"
    using B by (auto simp: em_buffers_def rx_wf_def rx_def)
  have hd: "decodeHeader p = decodeHeader rx"
    using l len by (simp add: p_def header.dec_take)
  let ?bad = "eh_command (decodeHeader p) \<noteq> Command_code SendRRData \<or>
      eh_status (decodeHeader p) \<noteq> 0 \<or> eh_context (decodeHeader p) \<noteq> em_sentContext m"
  show ?thesis
  proof (cases "?bad \<or> em_rxLen m - 24 < 8")
    case True
    moreover from this have "rr_parse (em_sentContext m) p = None"
      using len by (auto simp: rr_parse_def Let_def p_def)
    ultimately show ?thesis
      by (auto simp: parse hd simp flip: rx_def p_def)
  next
    case False
    let ?n = "unat (getU16 (drop 30 rx))"
    have "32 \<le> em_rxLen m"
      using False by linarith
    note parts = cpf_reply_parts [OF this len, folded p_def]
    have fit: "32 + (em_rxLen m - 32) \<le> length rx" "32 + (em_rxLen m - 32) = em_rxLen m"
      using False len by linarith+
    note walk = parse_unconnected_located [OF fit(1), of ?n None, unfolded fit(2)]
    have rr: "rr_parse (em_sentContext m) p =
      (case cpf_decode ?n (subbuf 32 (em_rxLen m - 32) rx) of
         None \<Rightarrow> None
       | Some items \<Rightarrow>
           (case last_item 0x00B2 items of
              None \<Rightarrow> None
            | Some cip \<Rightarrow> if length cip < 4 then None else Some (cip ! 0, cip ! 2, drop 4 cip)))"
      using False unfolding rr_parse_def Let_def parts(2-) CpfItemType_code.simps by simp
    have run: "ExplicitMessage_parseResponse m =
      (case parse_unconnected rx ?n 32 (em_rxLen m - 32) None of
         Some (Some (cd, n)) \<Rightarrow>
           if n < 4 then (Error, m)
           else (Ok, m\<lparr>em_replyService := rx ! cd, em_resultCode := rx ! (cd + 2),
                       em_data := Some (cd + 4), em_dataLen := n - 4\<rparr>)
       | _ \<Rightarrow> (Error, m))"
      using False unfolding parse hd by (simp split: option.splits prod.splits)
    show ?thesis
    proof (cases "cpf_decode ?n (subbuf 32 (em_rxLen m - 32) rx)")
      case None
      with walk show ?thesis
        unfolding rx_def [symmetric] p_def [symmetric] rr run by simp
    next
      case items: (Some items)
      with walk obtain loc where w: "parse_unconnected rx ?n 32 (em_rxLen m - 32) None = Some loc"
        and loc: "located rx (em_rxLen m) None loc (last_item 0x00B2 items)"
        by auto
      show ?thesis
      proof (cases "last_item 0x00B2 items")
        case None
        with loc w items show ?thesis
          unfolding rx_def [symmetric] p_def [symmetric] rr run by (simp add: located_def)
      next
        case (Some d)
        with loc obtain off where off: "loc = Some (off, length d)" "subbuf off (length d) rx = d"
            "off + length d \<le> em_rxLen m"
          by (auto simp: located_def)
        note at = located_bytes [OF off(2) order.trans [OF off(3) len]]
        show ?thesis
        proof (cases "length d < 4")
          case True
          with Some items w off(1) show ?thesis
            unfolding rx_def [symmetric] p_def [symmetric] rr run by simp
        next
          case False
          moreover from this have "d \<noteq> []"
            by auto
          ultimately have "rx ! off = d ! 0" "rx ! (off + 2) = d ! 2" "subbuf (off + 4) (length d - 4) rx = drop 4 d"
            using at(1) [of 0] at(1) [of 2] at(2) [of 4] by auto
          with False Some items w off show ?thesis
            unfolding rx_def [symmetric] p_def [symmetric] rr run
            by (auto intro!: exI [of _ "off + 4"])
        qed
      qed
    qed
  qed
qed

subsection \<open>One poll\<close>

lemma ExplicitMessage_writePending_spec:
  assumes "socket_contract os" and "em_buffers m"
    and "ExplicitMessage_writePending os m net = (st, m', net')"
  obtains k where "m' = m\<lparr>em_txSent := k\<rparr>" and "em_buffers m'"
    and "st = Ok \<and> k = em_txLen m \<or> st = Pending \<or> io_failure st"
proof -
  obtain k where w: "write_loop (conn_write os (em_conn m)) (em_tx m) (em_txLen m) (em_txSent m)
      net = (st, k, net')" and m': "m' = m\<lparr>em_txSent := k\<rparr>"
    using assms(3) by (auto simp: ExplicitMessage_writePending_def split: prod.splits)
  show thesis
    using tcp.write_loop_sent [OF assms(1) _ _ w] assms(2) m'
    by (intro that [OF m']) (auto simp: em_buffers_def)
qed

lemma ExplicitMessage_readResponse_spec:
  assumes "socket_contract os" and "em_buffers m" and "em_framed m"
    and "ExplicitMessage_readResponse os m net = (st, m', net')"
  obtains rx l e where "m' = m\<lparr>em_rx := rx, em_rxLen := l, em_rxExpected := e\<rparr>"
    and "em_buffers m'" and "length rx = length (em_rx m)"
    and "st = Ok \<and> em_framed m' \<and> packet (take l rx) \<and> 24 \<le> l \<or>
      st = Pending \<and> em_framed m' \<or> io_failure st"
proof -
  let ?limit = "16 + em_kMaxCipData"
  obtain rx l e where r: "read_loop (conn_read os (em_conn m)) ?limit (em_rx m)
      (em_rxLen m) (em_rxExpected m) net = (st, rx, l, e, net')"
    and m': "m' = m\<lparr>em_rx := rx, em_rxLen := l, em_rxExpected := e\<rparr>"
    using assms(4) by (auto simp: ExplicitMessage_readResponse_def split: prod.splits)
  have wf: "rx_wf ?limit (em_rx m) (em_rxLen m) (em_rxExpected m)"
    and fr: "rx_framed ?limit (em_rx m) (em_rxLen m) (em_rxExpected m)"
    using assms by (auto simp: em_buffers_def em_framed_def)
  have "packet (take l rx)" if "st = Ok"
    using tcp.read_loop_packet [OF assms(1) wf fr] r that by blast
  with tcp.read_loop_framed [OF assms(1) wf fr r] m' assms(2,3) wf show thesis
    by (intro that [OF m']) (auto simp: em_buffers_def em_framed_def rx_wf_def)
qed

text \<open>The fields of the request, which a poll never writes.\<close>

definition em_same_request :: "explicit_message \<Rightarrow> explicit_message \<Rightarrow> bool" where
  "em_same_request m m' \<longleftrightarrow>
     em_conn m' = em_conn m \<and> em_deadline m' = em_deadline m \<and> em_context m' = em_context m \<and>
     em_sentContext m' = em_sentContext m \<and> em_tx m' = em_tx m \<and> em_txLen m' = em_txLen m"

text \<open>
  The reply a finished message holds: the whole packet received is one that \<open>rr_parse\<close>
  accepts for the context sent, and the accessors give its fields.
\<close>

definition em_reply :: "explicit_message \<Rightarrow> bool" where
  "em_reply m \<longleftrightarrow>
     packet (take (em_rxLen m) (em_rx m)) \<and>
     rr_parse (em_sentContext m) (take (em_rxLen m) (em_rx m)) =
       Some (em_replyService m, em_resultCode m, take (em_dataLen m) (ExplicitMessage_data m)) \<and>
     em_dataLen m \<le> length (ExplicitMessage_data m)"

abbreviation em_exchange :: "byte list \<Rightarrow> byte list \<Rightarrow> explicit_message \<Rightarrow> 'w net \<Rightarrow> bool" where
  "em_exchange osent ircvd m net \<equiv>
     exchange (em_conn m) osent ircvd (em_tx m) (em_txSent m) (em_rx m) (em_rxLen m) net"

lemma ExplicitMessage_writePending_exchange:
  assumes "socket_contract os" and "em_buffers m" and "em_exchange osent ircvd m net"
    and "ExplicitMessage_writePending os m net = (st, m', net')"
  shows "em_exchange osent ircvd m' net'"
  using assms(4) exchange_write [OF assms(1,3)] assms(2)
  by (auto simp: ExplicitMessage_writePending_def em_buffers_def split: prod.splits)

lemma ExplicitMessage_readResponse_exchange:
  assumes "socket_contract os" and "em_buffers m" and "em_framed m"
    and "em_exchange osent ircvd m net" and "ExplicitMessage_readResponse os m net = (st, m', net')"
  shows "em_exchange osent ircvd m' net'"
  using assms(5) exchange_read [OF assms(1,4)] assms(2,3)
  by (auto simp: ExplicitMessage_readResponse_def em_buffers_def em_framed_def split: prod.splits)

lemma ExplicitMessage_parseResponse_cases:
  assumes "em_buffers m" and "24 \<le> em_rxLen m" and "packet (take (em_rxLen m) (em_rx m))"
    and "ExplicitMessage_parseResponse m = (st, m')"
  obtains "st = Error" "m' = m" "rr_parse (em_sentContext m) (take (em_rxLen m) (em_rx m)) = None"
  | service code off n where "st = Ok" "em_reply m'"
      "m' = m\<lparr>em_replyService := service, em_resultCode := code, em_data := Some off, em_dataLen := n\<rparr>"
      "off + n \<le> length (em_rx m)"
      "rr_parse (em_sentContext m) (take (em_rxLen m) (em_rx m)) = Some (service, code, subbuf off n (em_rx m))"
proof -
  have len: "em_rxLen m \<le> length (em_rx m)"
    using assms(1) by (auto simp: em_buffers_def rx_wf_def)
  show thesis
  proof (cases "rr_parse (em_sentContext m) (take (em_rxLen m) (em_rx m))")
    case None
    with that(1) assms(4) ExplicitMessage_parseResponse_spec [OF assms(1,2)] show thesis
      by simp
  next
    case (Some r)
    obtain service code d where r: "r = (service, code, d)"
      by (metis prod_cases3)
    obtain off where "ExplicitMessage_parseResponse m =
          (Ok, m\<lparr>em_replyService := service, em_resultCode := code, em_data := Some off,
                 em_dataLen := length d\<rparr>)"
      and d: "subbuf off (length d) (em_rx m) = d" "off + length d \<le> em_rxLen m"
      using ExplicitMessage_parseResponse_spec [OF assms(1,2)] Some r by auto
    with assms(3,4) Some r len show thesis
      by (intro that(2) [of "length d" off code service])
        (auto simp: em_reply_def ExplicitMessage_data_def subbuf_def)
  qed
qed

lemma ExplicitMessage_poll_settled [simp]:
  "em_state m = EmDone \<Longrightarrow> ExplicitMessage_poll os m net = (Ok, m, net)"
  "em_state m = EmFailed \<Longrightarrow> ExplicitMessage_poll os m net = (Error, m, net)"
  "em_state m = EmIdle \<Longrightarrow> ExplicitMessage_poll os m net = (NotReady, m, net)"
  by (simp_all add: ExplicitMessage_poll_def)

lemma ExplicitMessage_poll_late:
  assumes "em_busy m" and "millis os net = (now, net0)" and "expired now (em_deadline m)"
  shows "ExplicitMessage_poll os m net = (Timeout, m\<lparr>em_state := EmFailed\<rparr>, net0)"
  using assms by (auto simp: ExplicitMessage_poll_def em_busy_def)

lemma ExplicitMessage_poll_spec:
  assumes C: "socket_contract os" and I: "em_inv m" and S: "em_busy m"
    and run: "ExplicitMessage_poll os m net = (st, m', net')"
  shows "em_inv m' \<and> em_same_request m m' \<and>
    (em_exchange osent ircvd m net \<longrightarrow> em_exchange osent ircvd m' net') \<and>
    (st = Timeout \<longleftrightarrow> expired (fst (millis os net)) (em_deadline m)) \<and>
    (st = Ok \<and> em_state m' = EmDone \<and> em_txSent m' = em_txLen m' \<and> em_reply m' \<or>
     st = Pending \<and> em_busy m' \<or>
     failure st \<and> em_state m' = EmFailed)"
proof -
  obtain now net0 where m: "millis os net = (now, net0)" by fastforce
  obtain st1 m1 net1 where w: "ExplicitMessage_writePending os m net0 = (st1, m1, net1)"
    by (metis prod_cases3)
  let ?m1 = "m1\<lparr>em_state := EmReceiving\<rparr>"
  obtain st2 m2 net2 where r: "ExplicitMessage_readResponse os ?m1 net1 = (st2, m2, net2)"
    by (metis prod_cases3)
  obtain st3 m3 where p: "ExplicitMessage_parseResponse m2 = (st3, m3)" by fastforce
  have run: "(st, m', net') =
      (if expired now (em_deadline m) then (Timeout, m\<lparr>em_state := EmFailed\<rparr>, net0)
       else if st1 \<noteq> Ok then (st1, if st1 \<noteq> Pending then m1\<lparr>em_state := EmFailed\<rparr> else m1, net1)
       else if st2 = Pending then (Pending, m2, net2)
       else if st2 \<noteq> Ok then (st2, m2\<lparr>em_state := EmFailed\<rparr>, net2)
       else (st3, m3\<lparr>em_state := (if st3 = Ok then EmDone else EmFailed)\<rparr>, net2))"
    using run S m w r p by (auto simp: ExplicitMessage_poll_def em_busy_def)
  have B: "em_buffers m" "em_framed m" "em_result m"
    using I S by (auto simp: em_inv_def)
  obtain k where m1: "m1 = m\<lparr>em_txSent := k\<rparr>" "em_buffers m1"
    and st1: "st1 = Ok \<and> k = em_txLen m \<or> st1 = Pending \<or> io_failure st1"
    using C B(1) w by (rule ExplicitMessage_writePending_spec)
  have B1: "em_buffers ?m1" "em_framed ?m1"
    using B m1 by (auto simp: em_framed_def em_buffers_def)
  obtain rx l e where m2: "m2 = ?m1\<lparr>em_rx := rx, em_rxLen := l, em_rxExpected := e\<rparr>"
      "em_buffers m2" "length rx = length (em_rx ?m1)"
    and st2: "st2 = Ok \<and> em_framed m2 \<and> packet (take l rx) \<and> 24 \<le> l \<or>
      st2 = Pending \<and> em_framed m2 \<or> io_failure st2"
    using C B1 r by (rule ExplicitMessage_readResponse_spec)
  have x0: "em_exchange osent ircvd m net0" if "em_exchange osent ircvd m net"
    using that m by simp
  have x1: "em_exchange osent ircvd ?m1 net1" if "em_exchange osent ircvd m net"
    using ExplicitMessage_writePending_exchange [OF C B(1) x0 [OF that] w] by simp
  have x2: "em_exchange osent ircvd m2 net2" if "em_exchange osent ircvd m net"
    using ExplicitMessage_readResponse_exchange [OF C B1 x1 [OF that] r] by simp
  have res: "em_result m1" "em_result m2"
    using B(3) m1(1) m2(1,3) by (auto simp: em_result_def split: option.splits)
  consider (late) "expired now (em_deadline m)" | (blocked) "\<not> expired now (em_deadline m)" "st1 \<noteq> Ok"
    | (waiting) "\<not> expired now (em_deadline m)" "st1 = Ok" "st2 \<noteq> Ok"
    | (reply) "\<not> expired now (em_deadline m)" "st1 = Ok" "st2 = Ok"
    by blast
  then show ?thesis
  proof cases
    case late
    with run x0 B I show ?thesis
      by (auto simp: em_inv_defs em_same_request_def m split: option.splits)
  next
    case blocked
    have r': "st = st1" "m' = (if st1 \<noteq> Pending then m1\<lparr>em_state := EmFailed\<rparr> else m1)" "net' = net1"
      using run blocked by simp_all
    have F: "em_framed m1" "em_busy m1"
      using B(2) S m1(1) by (simp_all add: em_framed_def em_busy_def)
    have T: "st1 \<noteq> Timeout"
      using st1 by auto
    have f: "em_inv m1" "em_inv (m1\<lparr>em_state := EmFailed\<rparr>)"
      using F m1(2) res(1) by (auto simp: em_inv_defs split: option.splits)
    show ?thesis
      using blocked st1 x1 f F T m m1(1) unfolding r'
      by (cases "st1 = Pending") (auto simp: em_same_request_def)
  next
    case waiting
    have r': "st = st2" "m' = (if st2 \<noteq> Pending then m2\<lparr>em_state := EmFailed\<rparr> else m2)" "net' = net2"
      using run waiting by (simp_all split: if_splits)
    have F: "em_busy m2" "em_state m2 = EmReceiving"
      using m2(1) by (simp_all add: em_busy_def)
    have T: "st2 \<noteq> Timeout"
      using st2 by auto
    have f: "em_inv m2" if "st2 = Pending"
      using m2(2) res(2) st2 that F by (auto simp: em_inv_def)
    have f': "em_inv (m2\<lparr>em_state := EmFailed\<rparr>)"
      using m2(2) res(2) by (auto simp: em_inv_defs split: option.splits)
    show ?thesis
      using waiting st2 x2 f f' F T m m1(1) m2(1) unfolding r'
      by (cases "st2 = Pending") (auto simp: em_same_request_def)
  next
    case reply
    have r': "st = st3" "m' = m3\<lparr>em_state := (if st3 = Ok then EmDone else EmFailed)\<rparr>" "net' = net2"
      using run reply by simp_all
    have k: "em_txSent m2 = em_txLen m2" "em_same_request m m2"
      using st1 reply m1(1) m2(1) by (auto simp: em_same_request_def)
    have rd: "24 \<le> em_rxLen m2" "packet (take (em_rxLen m2) (em_rx m2))"
      using st2 reply m2(1) by auto
    show ?thesis
    proof (rule ExplicitMessage_parseResponse_cases [OF m2(2) rd p])
      assume e: "st3 = Error" "m3 = m2"
      have "em_inv (m2\<lparr>em_state := EmFailed\<rparr>)"
        using m2(2) res(2) by (auto simp: em_inv_defs split: option.splits)
      with e reply k x2 m show ?thesis
        unfolding r' by (simp add: em_same_request_def)
    next
      fix service code off n
      assume e: "st3 = Ok" "em_reply m3" "off + n \<le> length (em_rx m2)"
        "m3 = m2\<lparr>em_replyService := service, em_resultCode := code, em_data := Some off, em_dataLen := n\<rparr>"
      have "em_inv (m3\<lparr>em_state := EmDone\<rparr>)"
        using m2(2) e(3,4) by (auto simp: em_inv_defs)
      moreover have "em_reply (m3\<lparr>em_state := EmDone\<rparr>)"
        using e(2) by (simp add: em_reply_def ExplicitMessage_data_def split: option.splits)
      ultimately show ?thesis
        using e(1,4) reply k x2 m unfolding r' by (simp add: em_same_request_def)
    qed
  qed
qed

lemma ExplicitMessage_poll_inv:
  assumes "socket_contract os" and "em_inv m" and "ExplicitMessage_poll os m net = (st, m', net')"
  shows "em_inv m'"
proof (cases "em_busy m")
  case True
  with ExplicitMessage_poll_spec [OF assms(1,2) _ assms(3)] show ?thesis
    by blast
next
  case False
  with assms show ?thesis
    by (cases "em_state m") (auto simp: em_busy_def)
qed

lemma ExplicitMessage_send_inv:
  assumes "em_inv m" and "em_args path pathLen data dataLen"
    and "ExplicitMessage_send os c h service path pathLen data dataLen timeoutMs m net = (st, m', net')"
  shows "em_inv m'"
  by (rule ExplicitMessage_send_spec [OF assms])
    (use assms(1) in \<open>auto simp: em_started_def em_inv_defs split: option.splits\<close>)

subsection \<open>What an operation touches\<close>

lemma ExplicitMessage_write_read_frame:
  assumes "em_conn m = Some c"
  shows "ExplicitMessage_writePending os m net = (st, m', net') \<Longrightarrow> conn_frame c net net' \<and> em_conn m' = Some c"
    and "ExplicitMessage_readResponse os m net = (st, m', net') \<Longrightarrow> conn_frame c net net' \<and> em_conn m' = Some c"
  using assms tcp_frame.write_loop_inv [OF conn_frame_refl] tcp_frame.read_loop_inv [OF conn_frame_refl]
  by (auto simp: ExplicitMessage_writePending_def ExplicitMessage_readResponse_def split: prod.splits)

lemma ExplicitMessage_poll_frame:
  assumes "em_inv m" and "ExplicitMessage_poll os m net = (st, m', net')"
  shows "net' = net \<or> (\<exists>c. em_busy m \<and> em_conn m = Some c \<and> conn_frame c net net')"
proof (cases "em_busy m")
  case False
  with assms(2) show ?thesis
    by (cases "em_state m") (auto simp: em_busy_def)
next
  case True
  then obtain c where c: "em_conn m = Some c"
    using assms(1) by (auto simp: em_inv_def em_framed_def)
  obtain now net0 where m: "millis os net = (now, net0)" by fastforce
  obtain st1 m1 net1 where w: "ExplicitMessage_writePending os m net0 = (st1, m1, net1)"
    by (metis prod_cases3)
  let ?m1 = "m1\<lparr>em_state := EmReceiving\<rparr>"
  obtain st2 m2 net2 where r: "ExplicitMessage_readResponse os ?m1 net1 = (st2, m2, net2)"
    by (metis prod_cases3)
  have f0: "conn_frame c net net0"
    using m by (rule millis_frame)
  note f1 = ExplicitMessage_write_read_frame(1) [OF c w]
  have "em_conn ?m1 = Some c"
    using f1 by simp
  note f2 = ExplicitMessage_write_read_frame(2) [OF this r]
  have "net' \<in> {net0, net1, net2}"
    using True assms(2) m w r
    by (auto simp: ExplicitMessage_poll_def em_busy_def split: if_splits prod.splits)
  moreover have "conn_frame c net net1" "conn_frame c net net2"
    using f0 f1 f2 conn_frame_trans by blast+
  ultimately show ?thesis
    using c f0 True by blast
qed

lemma ExplicitMessage_send_net:
  assumes "ExplicitMessage_send os c h service path pathLen data dataLen timeoutMs m net = (st, m', net')"
  shows "net' = net \<or> (\<exists>now. millis os net = (now, net'))"
  using assms by (auto simp: ExplicitMessage_send_def Let_def split: if_splits prod.splits)

subsection \<open>Reachable messages\<close>

datatype em_call =
    EmSend conn_ref u32 byte "byte list option" size_t "byte list option" size_t u32
  | EmPoll
  | EmAbort

fun em_call_args :: "em_call \<Rightarrow> bool" where
  "em_call_args (EmSend c h service path pathLen data dataLen t) = em_args path pathLen data dataLen"
| "em_call_args EmPoll = True"
| "em_call_args EmAbort = True"

fun ExplicitMessage_call ::
  "'w os \<Rightarrow> em_call \<Rightarrow> explicit_message \<Rightarrow> 'w net \<Rightarrow> Status \<times> explicit_message \<times> 'w net" where
  "ExplicitMessage_call os (EmSend c h service path pathLen data dataLen t) m net =
     ExplicitMessage_send os c h service path pathLen data dataLen t m net"
| "ExplicitMessage_call os EmPoll m net = ExplicitMessage_poll os m net"
| "ExplicitMessage_call os EmAbort m net = (Ok, ExplicitMessage_abort m, net)"

inductive em_reach :: "'w os \<Rightarrow> explicit_message \<Rightarrow> 'w net \<Rightarrow> bool" for os where
  init: "length tx = 296 \<Longrightarrow> length rx = 296 \<Longrightarrow> \<not> net_fault net \<Longrightarrow>
    em_reach os (ExplicitMessage_new tx rx) net"
| call: "em_reach os m net \<Longrightarrow> em_call_args call \<Longrightarrow>
    ExplicitMessage_call os call m net = (st, m', net') \<Longrightarrow> em_reach os m' net'"
| world: "em_reach os m net \<Longrightarrow> \<not> net_fault net' \<Longrightarrow> em_reach os m net'"

lemma ExplicitMessage_call_inv:
  assumes "socket_contract os" and "em_inv m" and "em_call_args call"
    and "ExplicitMessage_call os call m net = (st, m', net')"
  shows "em_inv m'" and "net_fault net' = net_fault net"
proof -
  show "em_inv m'"
    using assms(3,4) ExplicitMessage_send_inv [OF assms(2)] ExplicitMessage_poll_inv [OF assms(1,2)]
      ExplicitMessage_abort_inv [OF assms(2)]
    by (cases call) auto
  show "net_fault net' = net_fault net"
  proof (cases call)
    case (EmSend c h service path pathLen data dataLen t)
    with assms(4) ExplicitMessage_send_net have "net' = net \<or> (\<exists>now. millis os net = (now, net'))"
      by fastforce
    then show ?thesis
      using millis_frame [of os net _ net' undefined] by (auto simp: conn_frame_def)
  next
    case EmPoll
    with assms(4) ExplicitMessage_poll_frame [OF assms(2)] show ?thesis
      by (fastforce simp: conn_frame_def)
  qed (use assms(4) in auto)
qed

lemma em_reach_safe:
  assumes "socket_contract os" and "em_reach os m net"
  shows "em_inv m \<and> \<not> net_fault net"
  using assms(2)
proof (induction rule: em_reach.induct)
  case (init tx rx net)
  then show ?case
    by (simp add: ExplicitMessage_new_inv)
next
  case (call m net call st m' net')
  then show ?case
    using ExplicitMessage_call_inv [OF assms(1)] by metis
qed simp

subsection \<open>Runs of polls\<close>

inductive em_run ::
  "'w os \<Rightarrow> explicit_message \<Rightarrow> 'w net \<Rightarrow> Status \<Rightarrow> explicit_message \<Rightarrow> 'w net \<Rightarrow> bool" for os where
  last: "ExplicitMessage_poll os m net = (st, m', net') \<Longrightarrow> em_run os m net st m' net'"
| again: "ExplicitMessage_poll os m net = (Pending, m1, net1) \<Longrightarrow>
    em_run os m1 (net1\<lparr>net_os := w\<rparr>) st m' net' \<Longrightarrow> em_run os m net st m' net'"

lemma em_run_busy:
  assumes "em_run os m net st m' net'" and "socket_contract os" and "em_inv m"
    and "em_busy m" and "em_exchange osent ircvd m net"
  shows "em_inv m' \<and> em_same_request m m' \<and> em_exchange osent ircvd m' net' \<and>
    (st = Ok \<longrightarrow> em_state m' = EmDone \<and> em_txSent m' = em_txLen m' \<and> em_reply m')"
  using assms
proof (induction rule: em_run.induct)
  case (last m net st m' net')
  from ExplicitMessage_poll_spec [OF last(2-4,1)] last(5) show ?case
    by auto
next
  case (again m net m1 net1 w st m' net')
  note step = ExplicitMessage_poll_spec [OF again(4-6,1)]
  have "em_inv m1" "em_same_request m m1" "em_exchange osent ircvd m1 (net1\<lparr>net_os := w\<rparr>)" "em_busy m1"
    using step again(7) by auto
  with again(3,4) show ?case
    by (auto simp: em_same_request_def)
qed

text \<open>A started exchange whose polls end in \<open>Ok\<close>: what went over the wire.\<close>

lemma em_started_exchange:
  assumes "socket_contract os" and s: "em_started c deadline req m m1"
    and m: "millis os net = (now, net1)" and r: "em_run os m1 net1 Ok m2 net2"
  shows "em_inv m2 \<and> em_state m2 = EmDone \<and> em_reply m2 \<and> em_context m2 = em_context m + 1 \<and>
    em_sentContext m2 = em_context m \<and> net_sent net2 c = net_sent net c @ req \<and>
    (\<exists>p. net_rcvd net2 c = net_rcvd net c @ p \<and> packet p \<and>
       rr_parse (em_context m) p =
         Some (em_replyService m2, em_resultCode m2, take (em_dataLen m2) (ExplicitMessage_data m2)))"
proof -
  have b: "em_busy m1" "em_inv m1"
    using s by (simp_all add: em_started_def em_busy_def)
  have x: "em_exchange (net_sent net c) (net_rcvd net c) m1 net1"
    using s m by (simp add: em_started_def) (simp add: exchange_def conn_out_def conn_in_def)
  note run = em_run_busy [OF r assms(1) b(2,1) x]
  have "take (em_txSent m2) (em_tx m2) = take (em_txLen m1) (em_tx m1)"
    using run by (simp add: em_same_request_def)
  also have "\<dots> = req"
    using s unfolding em_started_def by blast
  finally have "take (em_txSent m2) (em_tx m2) = req" .
  moreover have "em_conn m2 = Some c" "em_context m2 = em_context m + 1" "em_sentContext m2 = em_context m"
    using run s by (simp_all add: em_same_request_def em_started_def)
  ultimately show ?thesis
    using run by (auto simp: em_reply_def exchange_def conn_out_def conn_in_def)
qed

subsection \<open>A poll over a healthy connection\<close>

lemma ExplicitMessage_writePending_live:
  assumes "stream_contract os q" and "conn_up (em_conn m) net" and "em_buffers m"
    and "ExplicitMessage_writePending os m net = (st, m', net')"
  shows "st = Ok \<and> m' = m\<lparr>em_txSent := em_txLen m\<rparr> \<and> conn_up (em_conn m) net' \<and>
    conn_queue q (em_conn m) net' = conn_queue q (em_conn m) net"
proof -
  obtain k where w: "write_loop (conn_write os (em_conn m)) (em_tx m) (em_txLen m) (em_txSent m)
      net = (st, k, net')" and "m' = m\<lparr>em_txSent := k\<rparr>"
    using assms(4) by (auto simp: ExplicitMessage_writePending_def split: prod.splits)
  with tcp_up.write_loop_all [OF _ _ _ w] assms(1-3) show ?thesis
    by (simp add: em_buffers_def)
qed

lemma ExplicitMessage_readResponse_live:
  assumes "stream_contract os q" and "conn_up (em_conn m) net" and "em_buffers m"
    and "em_framed m" and "packet p" and "length p \<le> 296" and "em_rxLen m \<le> length p"
    and "take (em_rxLen m) (em_rx m) @ conn_queue q (em_conn m) net = p @ rest"
    and "ExplicitMessage_readResponse os m net = (st, m', net')"
  obtains rx e where "st = Ok" and "take (length p) rx = p"
    and "m' = m\<lparr>em_rx := rx, em_rxLen := length p, em_rxExpected := e\<rparr>"
    and "conn_queue q (em_conn m) net' = rest" and "conn_up (em_conn m) net'"
proof -
  obtain rx l e where r: "read_loop (conn_read os (em_conn m)) (16 + em_kMaxCipData) (em_rx m)
      (em_rxLen m) (em_rxExpected m) net = (st, rx, l, e, net')"
    and m': "m' = m\<lparr>em_rx := rx, em_rxLen := l, em_rxExpected := e\<rparr>"
    using assms(9) by (auto simp: ExplicitMessage_readResponse_def split: prod.splits)
  have v: "stream_contract os q \<and> conn_up (em_conn m) net"
    using assms(1,2) by blast
  show thesis
    using tcp_up.read_loop_all [OF v _ _ assms(8,5) _ assms(7) r] assms(3,4,6) m'
    by (intro that [of rx e]) (auto simp: em_buffers_def em_framed_def)
qed

text \<open>
  When the whole reply packet has arrived, one poll settles the exchange, and what it settles on
  is a function of the packet: \<open>rr_parse\<close>.
\<close>

lemma ExplicitMessage_poll_live:
  assumes S: "stream_contract os q" and I: "em_inv m" and B: "em_busy m"
    and up: "conn_up (em_conn m) net" and t: "\<not> expired (fst (millis os net)) (em_deadline m)"
    and p: "packet p" "length p \<le> 296" "em_rxLen m \<le> length p"
      "take (em_rxLen m) (em_rx m) @ conn_queue q (em_conn m) net = p @ rest"
    and run: "ExplicitMessage_poll os m net = (st, m', net')"
  shows "conn_queue q (em_conn m) net' = rest \<and> conn_up (em_conn m) net' \<and> em_same_request m m' \<and>
    em_txSent m' = em_txLen m' \<and>
    (case rr_parse (em_sentContext m) p of
       None \<Rightarrow> st = Error \<and> em_state m' = EmFailed
     | Some (service, code, d) \<Rightarrow>
         st = Ok \<and> em_state m' = EmDone \<and> em_replyService m' = service \<and>
         em_resultCode m' = code \<and> em_dataLen m' = length d \<and>
         take (length d) (ExplicitMessage_data m') = d)"
proof -
  obtain now net0 where m: "millis os net = (now, net0)" by fastforce
  obtain st1 m1 net1 where w: "ExplicitMessage_writePending os m net0 = (st1, m1, net1)"
    by (metis prod_cases3)
  let ?m1 = "m1\<lparr>em_state := EmReceiving\<rparr>"
  obtain st2 m2 net2 where r: "ExplicitMessage_readResponse os ?m1 net1 = (st2, m2, net2)"
    by (metis prod_cases3)
  obtain st3 m3 where ps: "ExplicitMessage_parseResponse m2 = (st3, m3)" by fastforce
  have I': "em_buffers m" "em_framed m"
    using I B by (auto simp: em_inv_def)
  have w': "st1 = Ok" "m1 = m\<lparr>em_txSent := em_txLen m\<rparr>" "conn_up (em_conn m) net1"
      "conn_queue q (em_conn m) net1 = conn_queue q (em_conn m) net"
    using ExplicitMessage_writePending_live [OF S _ I'(1) w] up stream_millis [OF S m] by simp_all
  have B1: "em_buffers ?m1" "em_framed ?m1" "em_conn ?m1 = em_conn m"
    using I' w'(2) by (auto simp: em_buffers_def em_framed_def)
  obtain rx e where r': "st2 = Ok" "take (length p) rx = p"
      "m2 = ?m1\<lparr>em_rx := rx, em_rxLen := length p, em_rxExpected := e\<rparr>"
      "conn_queue q (em_conn m) net2 = rest" "conn_up (em_conn m) net2"
    using ExplicitMessage_readResponse_live [OF S _ B1(1,2) p(1,2) _ _ r] B1(3) w' p(3,4) by auto
  have out: "st = st3" "m' = m3\<lparr>em_state := (if st3 = Ok then EmDone else EmFailed)\<rparr>" "net' = net2"
    using run B m w r ps t w'(1) r'(1) by (auto simp: ExplicitMessage_poll_def em_busy_def)
  obtain rx' l' e' where b2: "m2 = ?m1\<lparr>em_rx := rx', em_rxLen := l', em_rxExpected := e'\<rparr>" "em_buffers m2"
    using S B1(1,2) r by (elim ExplicitMessage_readResponse_spec [rotated 3]) (auto simp: stream_contract_def)
  have rd: "24 \<le> em_rxLen m2" "packet (take (em_rxLen m2) (em_rx m2))"
      "take (em_rxLen m2) (em_rx m2) = p" "em_sentContext m2 = em_sentContext m"
    using r' p(1) w'(2) by (auto simp: packet_def)
  show ?thesis
  proof (rule ExplicitMessage_parseResponse_cases [OF b2(2) rd(1,2) ps])
    assume "st3 = Error" "m3 = m2" "rr_parse (em_sentContext m2) (take (em_rxLen m2) (em_rx m2)) = None"
    with out r' rd w'(2) show ?thesis
      by (simp add: em_same_request_def)
  next
    fix service code off n
    assume e: "st3 = Ok" "off + n \<le> length (em_rx m2)"
      "m3 = m2\<lparr>em_replyService := service, em_resultCode := code, em_data := Some off, em_dataLen := n\<rparr>"
      "rr_parse (em_sentContext m2) (take (em_rxLen m2) (em_rx m2)) =
         Some (service, code, subbuf off n (em_rx m2))"
    from e(1,3) out r' w'(2) have "em_same_request m m'" "em_txSent m' = em_txLen m'"
      by (simp_all add: em_same_request_def)
    with e out r' rd show ?thesis
      by (simp add: ExplicitMessage_data_def subbuf_def)
  qed
qed

subsection \<open>Properties\<close>

text \<open>
  Memory safety of the message object, for any sequence of calls whose arguments point at
  what they claim, and any input: cursors stay in their buffers, no buffer is written past its
  end, the data pointer handed to the caller lies, with \<open>dataLength()\<close> bytes, inside the
  receive buffer, and no null connection is dereferenced.
\<close>

theorem em_memory_safe:
  assumes "socket_contract os" and "em_reach os m net"
  shows "length (em_tx m) = 296 \<and> length (em_rx m) = 296 \<and> em_txSent m \<le> em_txLen m \<and>
    em_txLen m \<le> 296 \<and> em_rxLen m \<le> em_rxExpected m \<and> em_rxExpected m \<le> 296 \<and>
    em_dataLen m \<le> length (ExplicitMessage_data m) \<and>
    (em_state m = EmDone \<longrightarrow> em_data m \<noteq> None) \<and> \<not> net_fault net"
  using em_reach_safe [OF assms]
  by (auto simp: em_inv_defs rx_wf_def ExplicitMessage_data_def split: option.splits)

text \<open>Example: a read of one DINT, \<open>Tag\<close>, over the loopback.\<close>

definition demo_message :: explicit_message where
  "demo_message = ExplicitMessage_new (replicate 296 0) (replicate 296 0)"

definition demo_path :: "byte list" where
  "demo_path = symbolic_segment [0x54, 0x61, 0x67]"

definition demo_result :: "byte list" where
  "demo_result = rr_reply 9 1 0xCC 0 [0xC3, 0, 1, 2, 3, 4]"

definition demo_sent :: explicit_message where
  "demo_sent = fst (snd (ExplicitMessage_send loopback_os 0 9 0x4C (Some demo_path) 6
     (Some [1, 0]) 2 1000 demo_message (loopback_net 0 demo_result)))"

lemma demo_path_bytes [simp]: "demo_path = [0xA0, 3, 0x54, 0x61, 0x67, 0]"
  by (simp add: demo_path_def symbolic_segment_def kMaxSymbolicName_def kSegmentSymbolic_def)

lemma demo_message_inv: "em_inv demo_message"
  unfolding demo_message_def by (rule ExplicitMessage_new_inv) simp_all

lemma demo_send:
  "ExplicitMessage_send loopback_os 0 9 0x4C (Some demo_path) 6 (Some [1, 0]) 2 1000 demo_message
     (loopback_net 0 demo_result) = (Pending, demo_sent, loopback_net 0 demo_result)"
  by (simp add: demo_sent_def ExplicitMessage_send_def demo_message_def ExplicitMessage_new_def Let_def)

theorem em_memory_safe_witness:
  "length (em_rx demo_sent) = 296"
proof -
  have "em_reach loopback_os demo_message (loopback_net 0 demo_result)"
    unfolding demo_message_def by (rule em_reach.init) simp_all
  then have "em_reach loopback_os demo_sent (loopback_net 0 demo_result)"
    by (rule em_reach.call [where call = "EmSend 0 9 0x4C (Some demo_path) 6 (Some [1, 0]) 2 1000"])
      (simp_all add: em_args_def demo_send [simplified])
  from em_memory_safe [OF loopback_socket_contract this] show ?thesis
    by simp
qed

text \<open>
  C4. An exchange that ends well: after \<open>send()\<close> and any run of polls ending in
  \<open>Ok\<close>, the connection has sent exactly one SendRRData packet around the caller's service,
  path and data, under a context no earlier exchange of this object used, and has received
  exactly one packet, a well-formed reply to that context whose service, status and data are
  what the accessors return.
\<close>

theorem em_request_exchange:
  assumes "socket_contract os" and "em_inv m" and "em_args path pathLen data dataLen"
    and "ExplicitMessage_send os c h service path pathLen data dataLen timeoutMs m net =
      (Pending, m1, net1)"
    and "em_run os m1 net1 Ok m2 net2"
  shows "em_state m2 = EmDone \<and>
    net_sent net2 c = net_sent net c @
      rr_request h (em_context m) service (arg_bytes path pathLen) (arg_bytes data dataLen) \<and>
    em_context m2 = em_context m + 1 \<and>
    (\<exists>p. net_rcvd net2 c = net_rcvd net c @ p \<and> packet p \<and>
       rr_parse (em_context m) p =
         Some (em_replyService m2, em_resultCode m2, take (em_dataLen m2) (ExplicitMessage_data m2)))"
proof -
  obtain now where m: "millis os net = (now, net1)"
    and s: "em_started c (now + timeoutMs)
      (rr_request h (em_context m) service (arg_bytes path pathLen) (arg_bytes data dataLen)) m m1"
    using ExplicitMessage_send_pending [OF assms(2-4)] by blast
  from em_started_exchange [OF assms(1) s m assms(5)] show ?thesis
    by blast
qed

text \<open>The example's exchange: the reply is in the socket when it is first polled.\<close>

lemma demo_args: "em_args (Some demo_path) 6 (Some [1, 0]) 2"
  by (simp add: em_args_def)

lemma demo_started:
  "em_started 0 1000 (rr_request 9 1 0x4C demo_path [1, 0]) demo_message demo_sent"
proof -
  have "em_context demo_message = 1"
    by (simp add: demo_message_def ExplicitMessage_new_def)
  then show ?thesis
    using ExplicitMessage_send_pending [OF demo_message_inv demo_args demo_send]
    by (auto simp: arg_bytes_def)
qed

lemma demo_result_facts:
  "rr_parse 1 demo_result = Some (0xCC, 0, [0xC3, 0, 1, 2, 3, 4])" "packet demo_result"
  "length demo_result = 50"
  unfolding demo_result_def by (simp_all add: rr_parse_reply)

lemma demo_message_poll:
  obtains m' net' where "ExplicitMessage_poll loopback_os demo_sent (loopback_net 0 demo_result) = (Ok, m', net')"
    and "em_replyService m' = 0xCC" and "em_resultCode m' = 0"
    and "take (em_dataLen m') (ExplicitMessage_data m') = [0xC3, 0, 1, 2, 3, 4]"
proof -
  obtain st m' net' where run: "ExplicitMessage_poll loopback_os demo_sent (loopback_net 0 demo_result) =
      (st, m', net')"
    by (metis prod_cases3)
  have b: "em_inv demo_sent" "em_busy demo_sent" "em_conn demo_sent = Some 0"
      "em_deadline demo_sent = 1000" "em_rxLen demo_sent = 0" "em_sentContext demo_sent = 1"
    using demo_started by (simp_all add: em_started_def em_busy_def demo_message_def ExplicitMessage_new_def)
  have "case rr_parse (em_sentContext demo_sent) demo_result of
      None \<Rightarrow> st = Error \<and> em_state m' = EmFailed
    | Some (service, code, d) \<Rightarrow> st = Ok \<and> em_state m' = EmDone \<and> em_replyService m' = service \<and>
         em_resultCode m' = code \<and> em_dataLen m' = length d \<and>
         take (length d) (ExplicitMessage_data m') = d"
    using ExplicitMessage_poll_live [OF loopback_stream_contract b(1,2) _ _ demo_result_facts(2) _ _ _ run,
        of "[]"] b demo_result_facts(3)
    by (simp add: expired_def conn_queue_def)
  with b demo_result_facts(1) run show thesis
    by (intro that [of m' net']) simp_all
qed

theorem em_request_exchange_witness:
  "\<exists>m2 (net2 :: loopback net). net_sent net2 0 = rr_request 9 1 0x4C demo_path [1, 0] \<and>
    rr_parse 1 (net_rcvd net2 0) = Some (0xCC, 0, take (em_dataLen m2) (ExplicitMessage_data m2))"
proof -
  obtain m' net' where run: "ExplicitMessage_poll loopback_os demo_sent (loopback_net 0 demo_result) = (Ok, m', net')"
    and r: "em_replyService m' = 0xCC" "em_resultCode m' = 0"
    using demo_message_poll by metis
  have "em_context demo_message = 1" "arg_bytes (Some demo_path) 6 = demo_path"
      "arg_bytes (Some [1, 0]) 2 = [1, 0 :: byte]"
    by (simp_all add: demo_message_def ExplicitMessage_new_def arg_bytes_def)
  with em_request_exchange [OF loopback_socket_contract demo_message_inv demo_args demo_send
      em_run.last [OF run]] r show ?thesis
    by (intro exI [of _ m'] exI [of _ net']) (auto simp del: demo_path_bytes)
qed

text \<open>
  What \<open>send()\<close> accepts: an idle message on a connected socket takes a request if and
  only if its path is a whole number of 16-bit words and service, path size, path and data fit in
  256 bytes; then the transmit buffer holds the packet for it, byte for byte.
\<close>

theorem em_send_accepts:
  assumes "em_inv m" and "\<not> em_busy m" and "TcpConnection_connected c net"
    and "length path < 2 ^ 31" and "length data < 2 ^ 30"
    and "ExplicitMessage_send os c h service (Some path) (of_nat (length path)) (Some data)
      (of_nat (length data)) timeoutMs m net = (st, m', net')"
  shows "st = (if even (length path) \<and> 2 + length path + length data \<le> 256 then Pending
      else InvalidArg) \<and>
    (st = Pending \<longrightarrow>
       take (em_txLen m') (em_tx m') = rr_request h (em_context m) service path data)"
proof -
  have u: "unat (of_nat (length path) :: size_t) = length path"
      "unat (of_nat (length data) :: size_t) = length data"
    using assms(4,5) by (simp_all add: unat_of_nat)
  have A: "em_args (Some path) (of_nat (length path)) (Some data) (of_nat (length data))"
    using assms(4,5) u by (simp add: em_args_def)
  have st: "st = (if even (length path) \<and> 2 + length path + length data \<le> 256 then Pending
      else InvalidArg)"
    using ExplicitMessage_send_decides [OF assms(2,3) A assms(6)] by (simp only: u)
  have "take (em_txLen m') (em_tx m') = rr_request h (em_context m) service path data" if "st = Pending"
    using ExplicitMessage_send_pending [OF assms(1) A assms(6) [unfolded that]] u
    unfolding em_started_def by (auto simp: arg_bytes_def)
  with st show ?thesis
    by auto
qed

theorem em_send_accepts_witness:
  "fst (ExplicitMessage_send loopback_os 0 9 0x4C (Some (replicate 254 0)) 254 (Some []) 0 1000
     demo_message (loopback_net 0 [])) = Pending \<and>
   fst (ExplicitMessage_send loopback_os 0 9 0x4C (Some (replicate 254 0)) 254 (Some [0, 0]) 2 1000
     demo_message (loopback_net 0 [])) = InvalidArg"
proof -
  have idle: "\<not> em_busy demo_message"
    by (simp add: em_busy_def demo_message_def ExplicitMessage_new_def)
  note acc = em_send_accepts [OF demo_message_inv idle loopback_connected]
  obtain st m' and net' :: "loopback net" where a: "ExplicitMessage_send loopback_os 0 9 0x4C
      (Some (replicate 254 0)) (of_nat (length (replicate 254 (0 :: byte)))) (Some [])
      (of_nat (length ([] :: byte list))) 1000 demo_message (loopback_net 0 []) = (st, m', net')"
    by (metis prod_cases3)
  obtain st2 m2 and net2 :: "loopback net" where b: "ExplicitMessage_send loopback_os 0 9 0x4C
      (Some (replicate 254 0)) (of_nat (length (replicate 254 (0 :: byte)))) (Some [0, 0])
      (of_nat (length [0, 0 :: byte])) 1000 demo_message (loopback_net 0 []) = (st2, m2, net2)"
    by (metis prod_cases3)
  from acc [OF _ _ a] acc [OF _ _ b] a b show ?thesis
    by simp
qed

lemma em_poll_decides:
  assumes "stream_contract os q" and "em_inv m" and "em_args path pathLen data dataLen"
    and "ExplicitMessage_send os c h service path pathLen data dataLen timeoutMs m net =
      (Pending, m1, net1)"
    and "conn_up (Some c) net2" and "\<not> expired (fst (millis os net2)) (em_deadline m1)"
    and "conn_queue q (Some c) net2 = p @ rest" and "packet p" and "length p \<le> 296"
    and "ExplicitMessage_poll os m1 net2 = (st, m2, net3)"
  shows "conn_queue q (Some c) net3 = rest \<and>
    (case rr_parse (em_context m) p of
       None \<Rightarrow> st = Error \<and> em_state m2 = EmFailed
     | Some (code_service, code, d) \<Rightarrow>
         st = Ok \<and> em_state m2 = EmDone \<and> em_replyService m2 = code_service \<and>
         em_resultCode m2 = code \<and> em_dataLen m2 = length d \<and>
         take (length d) (ExplicitMessage_data m2) = d)"
proof -
  obtain now where "em_started c (now + timeoutMs)
      (rr_request h (em_context m) service (arg_bytes path pathLen) (arg_bytes data dataLen)) m m1"
    using ExplicitMessage_send_pending [OF assms(2,3,4)] by blast
  then have m1: "em_inv m1" "em_busy m1" "em_conn m1 = Some c" "em_rxLen m1 = 0"
      "em_sentContext m1 = em_context m"
    by (simp_all add: em_started_def em_busy_def)
  from ExplicitMessage_poll_live [OF assms(1) m1(1,2) _ assms(6,8,9) _ _ assms(10)] assms(5,7) m1
  show ?thesis
    by simp
qed

text \<open>
  C5. The reply decides the exchange: on a healthy connection, if a whole packet has arrived
  when the message is polled before its deadline, the poll settles the exchange, and the outcome
  is a function of the packet alone. A packet that is not a well-formed reply to the context sent
  gives \<open>Error\<close>; a well-formed one gives \<open>Ok\<close>, and the accessors return its service,
  status and data. The bytes after the packet stay in the socket.
\<close>

theorem em_send_poll_decides:
  assumes "stream_contract os q" and "em_inv m" and "em_args path pathLen data dataLen"
    and "ExplicitMessage_send os c h service path pathLen data dataLen timeoutMs m net =
      (Pending, m1, net1)"
    and "conn_up (Some c) net2" and "\<not> expired (fst (millis os net2)) (em_deadline m1)"
    and "conn_queue q (Some c) net2 = p @ rest" and "packet p" and "length p \<le> 296"
    and "ExplicitMessage_poll os m1 net2 = (st, m2, net3)"
  shows "conn_queue q (Some c) net3 = rest \<and>
    (case rr_parse (em_context m) p of
       None \<Rightarrow> st = Error \<and> em_state m2 = EmFailed
     | Some (code_service, code, d) \<Rightarrow>
         st = Ok \<and> em_state m2 = EmDone \<and> em_replyService m2 = code_service \<and>
         em_resultCode m2 = code \<and> em_dataLen m2 = length d \<and>
         take (length d) (ExplicitMessage_data m2) = d)"
  by (rule em_poll_decides [OF assms])

theorem em_send_poll_decides_witness:
  "em_state (fst (snd (ExplicitMessage_poll loopback_os demo_sent (loopback_net 0 demo_result)))) = EmDone"
proof -
  obtain st m' net' where run: "ExplicitMessage_poll loopback_os demo_sent (loopback_net 0 demo_result) =
      (st, m', net')"
    by (metis prod_cases3)
  have "em_context demo_message = 1" "em_deadline demo_sent = 1000"
    using demo_started by (simp_all add: em_started_def demo_message_def ExplicitMessage_new_def)
  with em_send_poll_decides [OF loopback_stream_contract demo_message_inv demo_args demo_send
      loopback_up _ _ demo_result_facts(2) _ run, of "[]"] run
  show ?thesis
    by (simp add: expired_def conn_queue_def demo_result_facts(1,3))
qed

text \<open>
  The deadline of an exchange, exactly: a poll in flight reports \<open>Timeout\<close> if and only
  if the clock has reached the deadline; a poll that does not leave the exchange in flight has
  settled it, as done with \<open>Ok\<close> or failed with a failure status.
\<close>

theorem em_poll_timeout_iff:
  assumes "socket_contract os" and "em_inv m" and "em_busy m"
    and "ExplicitMessage_poll os m net = (st, m', net')"
  shows "(st = Timeout \<longleftrightarrow> expired (fst (millis os net)) (em_deadline m)) \<and>
    (st = Pending \<longleftrightarrow> em_busy m') \<and> (st = Ok \<longleftrightarrow> em_state m' = EmDone) \<and>
    (failure st \<longleftrightarrow> em_state m' = EmFailed)"
  using ExplicitMessage_poll_spec [OF assms, of "[]" "[]"] by (auto simp: em_busy_def)

theorem em_poll_timeout_iff_witness:
  "fst (ExplicitMessage_poll loopback_os demo_sent (loopback_net 1000 demo_result)) = Timeout"
proof -
  obtain st m' net' where run: "ExplicitMessage_poll loopback_os demo_sent (loopback_net 1000 demo_result) =
      (st, m', net')"
    by (metis prod_cases3)
  have "em_inv demo_sent" "em_busy demo_sent" "em_deadline demo_sent = 1000"
    using demo_started by (simp_all add: em_started_def em_busy_def)
  with em_poll_timeout_iff [OF loopback_socket_contract _ _ run] run show ?thesis
    by (simp add: expired_def)
qed

end
