(* ===== verification/Carrier.thy ===== *)
theory Carrier
  imports Status
begin

text \<open>
  The interface between a message that carries one exchange at a time and the clients that share
  it. A \<open>Tag\<close> is a client of the \<open>ExplicitMessage\<close> it is given, and the tags of a
  \<open>PlcClient\<close> share one message. The contract is that a client waits exactly while the
  message carries its exchange; its consequence is that of any number of clients that share a
  message at most one waits, whatever calls they make in whatever order.
\<close>

text \<open>
  \<open>owned\<close>: the message is in flight exactly if some client waits, and no two clients wait.
\<close>

definition owned :: "('c \<Rightarrow> bool) \<Rightarrow> ('m \<Rightarrow> bool) \<Rightarrow> 'c list \<Rightarrow> 'm \<Rightarrow> bool" where
  "owned waiting inflight cs m \<longleftrightarrow>
     (inflight m \<longleftrightarrow> (\<exists>i < length cs. waiting (cs ! i))) \<and>
     (\<forall>i < length cs. \<forall>j < length cs. waiting (cs ! i) \<longrightarrow> waiting (cs ! j) \<longrightarrow> i = j)"

lemma owned_unique: "owned waiting inflight cs m \<Longrightarrow> i < length cs \<Longrightarrow> j < length cs \<Longrightarrow>
    waiting (cs ! i) \<Longrightarrow> waiting (cs ! j) \<Longrightarrow> i = j"
  by (simp add: owned_def)

lemma owned_inflight: "owned waiting inflight cs m \<Longrightarrow> i < length cs \<Longrightarrow> waiting (cs ! i) \<Longrightarrow> inflight m"
  by (auto simp: owned_def)

lemma owned_idle:
  "owned waiting inflight cs m \<Longrightarrow> \<not> inflight m \<Longrightarrow> i < length cs \<Longrightarrow> \<not> waiting (cs ! i)"
  by (auto simp: owned_def)

text \<open>A client changes without starting or ending an exchange.\<close>

lemma owned_same:
  assumes "owned waiting inflight cs m" and "i < length cs"
    and "waiting c' \<longleftrightarrow> waiting (cs ! i)" and "inflight m' \<longleftrightarrow> inflight m"
  shows "owned waiting inflight (cs[i := c']) m'"
proof -
  have "waiting (cs[i := c'] ! j) \<longleftrightarrow> waiting (cs ! j)" if "j < length cs" for j
    using that assms(2,3) by (cases "i = j") auto
  with assms(1,4) show ?thesis
    by (auto simp: owned_def)
qed

text \<open>A client starts an exchange on an idle message.\<close>

lemma owned_start:
  assumes "owned waiting inflight cs m" and "i < length cs"
    and "\<not> inflight m" and "waiting c'" and "inflight m'"
  shows "owned waiting inflight (cs[i := c']) m'"
  using assms by (auto simp: owned_def nth_list_update)

text \<open>The client that waits ends its exchange.\<close>

lemma owned_stop:
  assumes "owned waiting inflight cs m" and "i < length cs" and "waiting (cs ! i)"
    and "\<not> waiting c'" and "\<not> inflight m'"
  shows "owned waiting inflight (cs[i := c']) m'"
  using assms by (auto simp: owned_def nth_list_update)

text \<open>What the message promises.\<close>

locale carrier =
  fixes valid :: "'m \<Rightarrow> bool"
    and inflight :: "'m \<Rightarrow> bool"
    and mpoll :: "'m \<Rightarrow> 'n \<Rightarrow> Status \<times> 'm \<times> 'n"
    and mabort :: "'m \<Rightarrow> 'm"
  assumes mpoll_valid: "valid m \<Longrightarrow> mpoll m n = (st, m', n') \<Longrightarrow> valid m'"
    and mpoll_busy: "valid m \<Longrightarrow> inflight m \<Longrightarrow> mpoll m n = (st, m', n') \<Longrightarrow>
      inflight m' \<longleftrightarrow> st = Pending"
    and mabort_valid: "valid m \<Longrightarrow> valid (mabort m)"
    and mabort_idle: "\<not> inflight (mabort m)"

text \<open>What a client of it promises.\<close>

locale carrier_client = carrier +
  fixes waiting :: "'c \<Rightarrow> bool"
    and cpoll :: "'c \<Rightarrow> 'a \<Rightarrow> 'b \<Rightarrow> Status \<times> 'c \<times> 'a \<times> 'b"
    and cabort :: "'c \<Rightarrow> 'a \<Rightarrow> 'c \<times> 'a"
  assumes cpoll_idle: "\<not> waiting c \<Longrightarrow> cpoll c m n = (st, c', m', n') \<Longrightarrow>
      c' = c \<and> m' = m \<and> n' = n \<and> st \<noteq> Pending"
    and cpoll_waiting: "waiting c \<Longrightarrow> cpoll c m n = (st, c', m', n') \<Longrightarrow>
      \<exists>st0. mpoll m n = (st0, m', n') \<and> (waiting c' \<longleftrightarrow> st0 = Pending) \<and> (st = Pending \<longleftrightarrow> st0 = Pending)"
    and cabort_idle: "\<not> waiting c \<Longrightarrow> cabort c m = (c', m') \<Longrightarrow> \<not> waiting c' \<and> m' = m"
    and cabort_waiting: "waiting c \<Longrightarrow> cabort c m = (c', m') \<Longrightarrow> \<not> waiting c' \<and> m' = mabort m"
begin

lemma owned_cpoll:
  assumes "owned waiting inflight cs m" and "valid m" and "i < length cs"
    and "cpoll (cs ! i) m n = (st, c', m', n')"
  shows "owned waiting inflight (cs[i := c']) m' \<and> valid m' \<and> (st = Pending \<longleftrightarrow> waiting c')"
proof (cases "waiting (cs ! i)")
  case False
  with cpoll_idle [OF this assms(4)] assms(1,2) show ?thesis
    by simp
next
  case True
  from cpoll_waiting [OF this assms(4)] obtain st0 where st0: "mpoll m n = (st0, m', n')"
      "waiting c' \<longleftrightarrow> st0 = Pending" "st = Pending \<longleftrightarrow> st0 = Pending"
    by blast
  have fl: "inflight m"
    using assms(1,3) True by (rule owned_inflight)
  note fl' = mpoll_busy [OF assms(2) fl st0(1)]
  have "owned waiting inflight (cs[i := c']) m'"
  proof (cases "st0 = Pending")
    case True
    with owned_same [OF assms(1,3)] fl fl' st0(2) \<open>waiting (cs ! i)\<close> show ?thesis
      by blast
  next
    case False
    with owned_stop [OF assms(1,3) True] fl' st0(2) show ?thesis
      by blast
  qed
  with st0 mpoll_valid [OF assms(2) st0(1)] show ?thesis
    by blast
qed

lemma owned_cabort:
  assumes "owned waiting inflight cs m" and "valid m" and "i < length cs"
    and "cabort (cs ! i) m = (c', m')"
  shows "owned waiting inflight (cs[i := c']) m' \<and> valid m' \<and> \<not> waiting c'"
proof (cases "waiting (cs ! i)")
  case False
  with cabort_idle [OF this assms(4)] assms(1-3) show ?thesis
    using owned_same [OF assms(1,3)] by blast
next
  case True
  with cabort_waiting [OF this assms(4)] assms(2) show ?thesis
    using owned_stop [OF assms(1,3) True] mabort_idle mabort_valid by blast
qed

end

end
