(* ===== verification/Tag.thy ===== *)
theory Tag
  imports ExplicitMessage Carrier
begin

text \<open>
  A Logix tag, \<open>src/src/tag/Tag.h\<close> and \<open>Tag.cpp\<close>: a 256-byte data buffer with typed
  accessors, and the Read Tag and Write Tag exchanges over a message the caller lends it. The
  message is passed to every operation that uses it and returned, as the C++ reference is.
  Signed results are integers; a float or a double is the list of the bytes of its representation,
  which is what \<open>memcpy\<close> moves.
\<close>

definition tag_kMaxDataSize :: size_t where
  "tag_kMaxDataSize = 256"

datatype TagState = TagIdle | TagReading | TagWriting | TagDone | TagFailed

record tag =
  tag_state :: TagState
  tag_data :: "byte list"
  tag_dataLen :: nat
  tag_dataType :: byte
  tag_resultCode :: byte

text \<open>A new tag; the data buffer is not initialised, so its contents are a parameter.\<close>

definition Tag_new :: "byte list \<Rightarrow> tag" where
  "Tag_new data =
     \<lparr> tag_state = TagIdle, tag_data = data, tag_dataLen = 0, tag_dataType = 0,
       tag_resultCode = 0 \<rparr>"

definition tag_waiting :: "tag \<Rightarrow> bool" where
  "tag_waiting t \<longleftrightarrow> tag_state t = TagReading \<or> tag_state t = TagWriting"

subsection \<open>Read and write\<close>

text \<open>
  The local arrays \<open>path\<close>, \<open>count\<close> and \<open>wdata\<close> are uninitialised in the source; only
  the bytes written to them are passed on, so they start as zeros here.
\<close>

definition Tag_startRead ::
  "'w os \<Rightarrow> conn_ref \<Rightarrow> u32 \<Rightarrow> cstring \<Rightarrow> u32 \<Rightarrow> u32 \<Rightarrow> tag \<Rightarrow> explicit_message \<Rightarrow> 'w net
     \<Rightarrow> Status \<times> tag \<times> explicit_message \<times> 'w net" where
  "Tag_startRead os conn sessionHandle name elementCount timeoutMs t msg net =
     (case appendSymbolic 0 name (replicate 128 0) of (path, pathLen) \<Rightarrow>
        (let count = putU16 0 (ucast elementCount) (replicate 2 0) in
         (case ExplicitMessage_send os conn sessionHandle (TagService_code TsRead)
                 (Some path) (of_nat pathLen) (Some count) 2 timeoutMs msg net of
            (st, msg1, net1) \<Rightarrow>
              if st \<noteq> Pending then (st, t, msg1, net1)
              else (Pending, t\<lparr>tag_dataLen := 0, tag_resultCode := 0, tag_state := TagReading\<rparr>,
                    msg1, net1))))"

text \<open>The length of the data of a write, \<open>None\<close> when the request is invalid.\<close>

definition Tag_writeLength :: "u32 \<Rightarrow> tag \<Rightarrow> nat option" where
  "Tag_writeLength elementCount t =
     (if tag_dataType t = DataType_code DtString then
        (let strLen = getU32 (tag_data t) in
         if tag_kMaxDataSize - 4 < strLen then None else Some (4 + unat strLen))
      else
        (let elemSize = dataTypeElementSize (DataType_cast (tag_dataType t)) in
         if elemSize = 0 \<or> unat tag_kMaxDataSize div elemSize < unat elementCount then None
         else Some (unat elementCount * elemSize)))"

definition Tag_startWrite ::
  "'w os \<Rightarrow> conn_ref \<Rightarrow> u32 \<Rightarrow> cstring \<Rightarrow> u32 \<Rightarrow> u32 \<Rightarrow> tag \<Rightarrow> explicit_message \<Rightarrow> 'w net
     \<Rightarrow> Status \<times> tag \<times> explicit_message \<times> 'w net" where
  "Tag_startWrite os conn sessionHandle name elementCount timeoutMs t msg net =
     (case Tag_writeLength elementCount t of
        None \<Rightarrow> (InvalidArg, t, msg, net)
      | Some dataLen \<Rightarrow>
          (case appendSymbolic 0 name (replicate 128 0) of (path, pathLen) \<Rightarrow>
             (let wdata0 = replicate (2 + 2 + unat tag_kMaxDataSize) 0;
                  wdata1 = putU16 0 (ucast elementCount) wdata0;
                  wdata2 = putU16 2 (ucast (tag_dataType t)) wdata1;
                  wdata = poke 4 (take dataLen (tag_data t)) wdata2;
                  wdataLen = 4 + dataLen
              in case ExplicitMessage_send os conn sessionHandle (TagService_code TsWrite)
                        (Some path) (of_nat pathLen) (Some wdata) (of_nat wdataLen) timeoutMs
                        msg net of
                   (st, msg1, net1) \<Rightarrow>
                     if st \<noteq> Pending then (st, t, msg1, net1)
                     else (Pending, t\<lparr>tag_state := TagWriting\<rparr>, msg1, net1))))"

definition Tag_read ::
  "'w os \<Rightarrow> conn_ref \<Rightarrow> u32 \<Rightarrow> cstring option \<Rightarrow> u32 \<Rightarrow> u32 \<Rightarrow> tag \<Rightarrow> explicit_message \<Rightarrow> 'w net
     \<Rightarrow> Status \<times> tag \<times> explicit_message \<times> 'w net" where
  "Tag_read os conn sessionHandle name elementCount timeoutMs t msg net =
     (case name of
        None \<Rightarrow> (InvalidArg, t, msg, net)
      | Some nm \<Rightarrow>
          if kMaxSymbolicName < length nm then (InvalidArg, t, msg, net)
          else if tag_state t = TagReading \<or> tag_state t = TagWriting then (Busy, t, msg, net)
          else Tag_startRead os conn sessionHandle nm elementCount timeoutMs t msg net)"

definition Tag_write ::
  "'w os \<Rightarrow> conn_ref \<Rightarrow> u32 \<Rightarrow> cstring option \<Rightarrow> u32 \<Rightarrow> u32 \<Rightarrow> tag \<Rightarrow> explicit_message \<Rightarrow> 'w net
     \<Rightarrow> Status \<times> tag \<times> explicit_message \<times> 'w net" where
  "Tag_write os conn sessionHandle name elementCount timeoutMs t msg net =
     (case name of
        None \<Rightarrow> (InvalidArg, t, msg, net)
      | Some nm \<Rightarrow>
          if kMaxSymbolicName < length nm then (InvalidArg, t, msg, net)
          else if tag_dataType t = 0 then (NotReady, t, msg, net)
          else if tag_state t = TagReading \<or> tag_state t = TagWriting then (Busy, t, msg, net)
          else Tag_startWrite os conn sessionHandle nm elementCount timeoutMs t msg net)"

definition Tag_poll ::
  "'w os \<Rightarrow> tag \<Rightarrow> explicit_message \<Rightarrow> 'w net \<Rightarrow> Status \<times> tag \<times> explicit_message \<times> 'w net" where
  "Tag_poll os t msg net =
     (if tag_state t \<noteq> TagReading \<and> tag_state t \<noteq> TagWriting then
        (case tag_state t of
           TagDone \<Rightarrow> (Ok, t, msg, net)
         | TagFailed \<Rightarrow> (Error, t, msg, net)
         | _ \<Rightarrow> (NotReady, t, msg, net))
      else
        (case ExplicitMessage_poll os msg net of (st, msg1, net1) \<Rightarrow>
           if st = Pending then (Pending, t, msg1, net1)
           else if st \<noteq> Ok then (st, t\<lparr>tag_state := TagFailed\<rparr>, msg1, net1)
           else
             (let t1 = t\<lparr>tag_resultCode := em_resultCode msg1\<rparr> in
              if tag_resultCode t1 \<noteq> 0 then (Error, t1\<lparr>tag_state := TagFailed\<rparr>, msg1, net1)
              else
                (let data = ExplicitMessage_data msg1;
                     n = (if unat tag_kMaxDataSize < em_dataLen msg1 - 2
                          then unat tag_kMaxDataSize else em_dataLen msg1 - 2);
                     t2 = (if tag_state t1 = TagReading \<and> 2 \<le> em_dataLen msg1
                           then t1\<lparr>tag_dataType := ucast (getU16 data),
                                   tag_data := poke 0 (take n (drop 2 data)) (tag_data t1),
                                   tag_dataLen := n\<rparr>
                           else t1)
                 in (Ok, t2\<lparr>tag_state := TagDone\<rparr>, msg1, net1)))))"

definition Tag_status :: "tag \<Rightarrow> Status" where
  "Tag_status t =
     (case tag_state t of
        TagReading \<Rightarrow> Pending
      | TagWriting \<Rightarrow> Pending
      | TagDone \<Rightarrow> Ok
      | TagFailed \<Rightarrow> Error
      | TagIdle \<Rightarrow> NotReady)"

definition Tag_abort :: "tag \<Rightarrow> explicit_message \<Rightarrow> tag \<times> explicit_message" where
  "Tag_abort t msg =
     (t\<lparr>tag_state := TagIdle, tag_dataLen := 0\<rparr>,
      if tag_state t = TagReading \<or> tag_state t = TagWriting then ExplicitMessage_abort msg
      else msg)"

definition Tag_setDataType :: "byte \<Rightarrow> tag \<Rightarrow> tag" where
  "Tag_setDataType type t = t\<lparr>tag_dataType := type\<rparr>"

subsection \<open>Typed accessors\<close>

definition Tag_inBounds :: "size_t \<Rightarrow> size_t \<Rightarrow> bool" where
  "Tag_inBounds off sz \<longleftrightarrow> sz \<le> tag_kMaxDataSize \<and> off \<le> tag_kMaxDataSize - sz"

definition Tag_at :: "size_t \<Rightarrow> tag \<Rightarrow> byte list" where
  "Tag_at off t = drop (unat off) (tag_data t)"

definition Tag_getBool :: "size_t \<Rightarrow> tag \<Rightarrow> bool" where
  "Tag_getBool off t \<longleftrightarrow> Tag_inBounds off 1 \<and> tag_data t ! unat off \<noteq> 0"

definition Tag_getInt8 :: "size_t \<Rightarrow> tag \<Rightarrow> int" where
  "Tag_getInt8 off t = (if Tag_inBounds off 1 then sint (tag_data t ! unat off) else 0)"

definition Tag_getInt16 :: "size_t \<Rightarrow> tag \<Rightarrow> int" where
  "Tag_getInt16 off t = (if Tag_inBounds off 2 then sint (getU16 (Tag_at off t)) else 0)"

definition Tag_getInt32 :: "size_t \<Rightarrow> tag \<Rightarrow> int" where
  "Tag_getInt32 off t = (if Tag_inBounds off 4 then sint (getU32 (Tag_at off t)) else 0)"

definition Tag_getInt64 :: "size_t \<Rightarrow> tag \<Rightarrow> int" where
  "Tag_getInt64 off t = (if Tag_inBounds off 8 then sint (getU64 (Tag_at off t)) else 0)"

definition Tag_getUint8 :: "size_t \<Rightarrow> tag \<Rightarrow> byte" where
  "Tag_getUint8 off t = (if Tag_inBounds off 1 then tag_data t ! unat off else 0)"

definition Tag_getUint16 :: "size_t \<Rightarrow> tag \<Rightarrow> u16" where
  "Tag_getUint16 off t = (if Tag_inBounds off 2 then getU16 (Tag_at off t) else 0)"

definition Tag_getUint32 :: "size_t \<Rightarrow> tag \<Rightarrow> u32" where
  "Tag_getUint32 off t = (if Tag_inBounds off 4 then getU32 (Tag_at off t) else 0)"

definition Tag_getUint64 :: "size_t \<Rightarrow> tag \<Rightarrow> u64" where
  "Tag_getUint64 off t = (if Tag_inBounds off 8 then getU64 (Tag_at off t) else 0)"

text \<open>\<open>0.0f\<close> and \<open>0.0\<close> are all zero bytes.\<close>

definition Tag_getFloat32 :: "size_t \<Rightarrow> tag \<Rightarrow> byte list" where
  "Tag_getFloat32 off t =
     (if \<not> Tag_inBounds off 4 then replicate 4 0 else take 4 (Tag_at off t))"

definition Tag_getFloat64 :: "size_t \<Rightarrow> tag \<Rightarrow> byte list" where
  "Tag_getFloat64 off t =
     (if \<not> Tag_inBounds off 8 then replicate 8 0 else take 8 (Tag_at off t))"

definition Tag_setBool :: "size_t \<Rightarrow> bool \<Rightarrow> tag \<Rightarrow> tag" where
  "Tag_setBool off v t =
     (if Tag_inBounds off 1
      then t\<lparr>tag_data := poke (unat off) [if v then 1 else 0] (tag_data t)\<rparr> else t)"

definition Tag_setInt8 :: "size_t \<Rightarrow> int \<Rightarrow> tag \<Rightarrow> tag" where
  "Tag_setInt8 off v t =
     (if Tag_inBounds off 1
      then t\<lparr>tag_data := poke (unat off) [word_of_int v] (tag_data t)\<rparr> else t)"

definition Tag_setInt16 :: "size_t \<Rightarrow> int \<Rightarrow> tag \<Rightarrow> tag" where
  "Tag_setInt16 off v t =
     (if Tag_inBounds off 2
      then t\<lparr>tag_data := putU16 (unat off) (word_of_int v) (tag_data t)\<rparr> else t)"

definition Tag_setInt32 :: "size_t \<Rightarrow> int \<Rightarrow> tag \<Rightarrow> tag" where
  "Tag_setInt32 off v t =
     (if Tag_inBounds off 4
      then t\<lparr>tag_data := putU32 (unat off) (word_of_int v) (tag_data t)\<rparr> else t)"

definition Tag_setInt64 :: "size_t \<Rightarrow> int \<Rightarrow> tag \<Rightarrow> tag" where
  "Tag_setInt64 off v t =
     (if Tag_inBounds off 8
      then t\<lparr>tag_data := putU64 (unat off) (word_of_int v) (tag_data t)\<rparr> else t)"

definition Tag_setUint8 :: "size_t \<Rightarrow> byte \<Rightarrow> tag \<Rightarrow> tag" where
  "Tag_setUint8 off v t =
     (if Tag_inBounds off 1 then t\<lparr>tag_data := poke (unat off) [v] (tag_data t)\<rparr> else t)"

definition Tag_setUint16 :: "size_t \<Rightarrow> u16 \<Rightarrow> tag \<Rightarrow> tag" where
  "Tag_setUint16 off v t =
     (if Tag_inBounds off 2 then t\<lparr>tag_data := putU16 (unat off) v (tag_data t)\<rparr> else t)"

definition Tag_setUint32 :: "size_t \<Rightarrow> u32 \<Rightarrow> tag \<Rightarrow> tag" where
  "Tag_setUint32 off v t =
     (if Tag_inBounds off 4 then t\<lparr>tag_data := putU32 (unat off) v (tag_data t)\<rparr> else t)"

definition Tag_setUint64 :: "size_t \<Rightarrow> u64 \<Rightarrow> tag \<Rightarrow> tag" where
  "Tag_setUint64 off v t =
     (if Tag_inBounds off 8 then t\<lparr>tag_data := putU64 (unat off) v (tag_data t)\<rparr> else t)"

text \<open>\<open>v\<close> is the representation of a float (4 bytes) or of a double (8 bytes).\<close>

definition Tag_setFloat32 :: "size_t \<Rightarrow> byte list \<Rightarrow> tag \<Rightarrow> tag" where
  "Tag_setFloat32 off v t =
     (if Tag_inBounds off 4 then t\<lparr>tag_data := poke (unat off) (take 4 v) (tag_data t)\<rparr> else t)"

definition Tag_setFloat64 :: "size_t \<Rightarrow> byte list \<Rightarrow> tag \<Rightarrow> tag" where
  "Tag_setFloat64 off v t =
     (if Tag_inBounds off 8 then t\<lparr>tag_data := poke (unat off) (take 8 v) (tag_data t)\<rparr> else t)"

text \<open>The caller's buffer is \<open>None\<close> when null; the result is the count and the buffer after.\<close>

definition Tag_getString :: "byte list option \<Rightarrow> nat \<Rightarrow> tag \<Rightarrow> nat \<times> byte list option" where
  "Tag_getString buf bufLen t =
     (if tag_dataLen t < 4 \<or> buf = None \<or> bufLen = 0 then (0, buf)
      else
        (let len = getU32 (tag_data t);
             n0 = (if unat len < tag_dataLen t - 4 then unat len else tag_dataLen t - 4);
             n = (if bufLen - 1 < n0 then bufLen - 1 else n0);
             buf1 = poke 0 (take n (drop 4 (tag_data t))) (the buf);
             buf2 = poke n [0] buf1
         in (n, Some buf2)))"

definition Tag_setString :: "cstring option \<Rightarrow> tag \<Rightarrow> tag" where
  "Tag_setString s t =
     (case s of
        None \<Rightarrow> t
      | Some str \<Rightarrow>
          (let len = (if unat tag_kMaxDataSize - 4 < length str then unat tag_kMaxDataSize - 4
                      else length str);
               d1 = putU32 0 (of_nat len) (tag_data t);
               d2 = poke 4 (take len str) d1
           in t\<lparr>tag_data := d2, tag_dataLen := 4 + len\<rparr>))"

subsection \<open>Bounds of the accessors\<close>

lemma tag_kMaxDataSize_unat [simp]: "unat tag_kMaxDataSize = 256"
  by (simp add: tag_kMaxDataSize_def)

text \<open>The bounds test, in exact arithmetic: it cannot be fooled by a sum that wraps around.\<close>

lemma Tag_inBounds_iff: "Tag_inBounds off sz \<longleftrightarrow> unat off + unat sz \<le> 256"
proof (cases "sz \<le> tag_kMaxDataSize")
  case True
  then have "unat (tag_kMaxDataSize - sz) = 256 - unat sz" and "unat sz \<le> 256"
    by (simp_all add: unat_sub word_le_nat_alt)
  with True show ?thesis
    by (auto simp: Tag_inBounds_def word_le_nat_alt)
next
  case False
  then show ?thesis
    by (simp add: Tag_inBounds_def word_le_nat_alt)
qed

definition tag_inv :: "tag \<Rightarrow> bool" where
  "tag_inv t \<longleftrightarrow> length (tag_data t) = 256 \<and> tag_dataLen t \<le> 256"

text \<open>
  \<open>tag_writes off w t t'\<close>: between the two tags only bytes of the data buffer differ, and only
  those of the window of \<open>w\<close> bytes at \<open>off\<close>, which lies inside the buffer if it is not empty.
\<close>

definition tag_writes :: "size_t \<Rightarrow> nat \<Rightarrow> tag \<Rightarrow> tag \<Rightarrow> bool" where
  "tag_writes off w t t' \<longleftrightarrow>
     (t' = t \<or> unat off + w \<le> 256) \<and> t' = t\<lparr>tag_data := tag_data t'\<rparr> \<and>
     length (tag_data t') = length (tag_data t) \<and>
     (\<forall>i < 256. i < unat off \<or> unat off + w \<le> i \<longrightarrow> tag_data t' ! i = tag_data t ! i)"

text \<open>
  What a pair of typed accessors promises: the value is kept as \<open>width\<close> bytes at the offset,
  an access out of bounds reads a default and writes nothing. \<open>rep\<close> says which values the
  type has.
\<close>

locale tag_accessor =
  fixes width :: nat and sz :: size_t
    and rep :: "'v \<Rightarrow> bool" and enc :: "'v \<Rightarrow> byte list" and dec :: "byte list \<Rightarrow> 'v"
    and dflt :: 'v
    and get :: "size_t \<Rightarrow> tag \<Rightarrow> 'v" and set_at :: "size_t \<Rightarrow> 'v \<Rightarrow> tag \<Rightarrow> tag"
  assumes sz_width: "unat sz = width"
    and enc_length: "rep v \<Longrightarrow> length (enc v) = width"
    and dec_enc: "rep v \<Longrightarrow> dec (enc v @ rest) = v"
    and dec_local: "width \<le> length bs \<Longrightarrow> dec (take width bs) = dec bs"
    and get_def: "length (tag_data t) = 256 \<Longrightarrow>
      get off t = (if Tag_inBounds off sz then dec (drop (unat off) (tag_data t)) else dflt)"
    and set_def: "rep v \<Longrightarrow>
      set_at off v t = (if Tag_inBounds off sz then t\<lparr>tag_data := poke (unat off) (enc v) (tag_data t)\<rparr> else t)"
begin

lemma set_inv: "tag_inv t \<Longrightarrow> rep v \<Longrightarrow> tag_inv (set_at off v t)"
  by (auto simp: tag_inv_def set_def Tag_inBounds_iff sz_width enc_length)

lemma get_set:
  assumes "tag_inv t" and "rep v" and "Tag_inBounds off sz"
  shows "get off (set_at off v t) = v"
proof -
  have len: "unat off + length (enc v) \<le> length (tag_data t)"
    using assms by (simp add: tag_inv_def Tag_inBounds_iff sz_width enc_length)
  then have "drop (unat off) (tag_data (set_at off v t)) = enc v @ drop (unat off + length (enc v)) (tag_data t)"
    using assms by (simp add: set_def drop_poke)
  with assms len show ?thesis
    by (simp add: get_def tag_inv_def set_def dec_enc)
qed

lemma get_poke_other:
  assumes "tag_inv t" and "o2 + length bs \<le> 256"
    and "unat off + width \<le> o2 \<or> o2 + length bs \<le> unat off"
  shows "get off (t\<lparr>tag_data := poke o2 bs (tag_data t)\<rparr>) = get off t"
proof (cases "Tag_inBounds off sz")
  case False
  with assms show ?thesis
    by (simp add: get_def tag_inv_def)
next
  case True
  let ?d = "tag_data t"
  have len: "length ?d = 256" "unat off + width \<le> 256"
    using assms(1) True by (simp_all add: tag_inv_def Tag_inBounds_iff sz_width)
  have "take width (drop (unat off) (poke o2 bs ?d)) = take width (drop (unat off) ?d)"
    using assms(2,3) len subbuf_poke_disjoint [of "unat off" width o2 bs ?d] by (simp add: subbuf_def)
  then have "dec (drop (unat off) (poke o2 bs ?d)) = dec (drop (unat off) ?d)"
    using len assms(2) dec_local [of "drop (unat off) (poke o2 bs ?d)"] dec_local [of "drop (unat off) ?d"]
    by simp
  with True len assms(2) show ?thesis
    by (simp add: get_def)
qed

lemma set_writes:
  assumes "tag_inv t" and "rep v"
  shows "tag_writes off width t (set_at off v t)"
proof (cases "Tag_inBounds off sz")
  case False
  with assms show ?thesis
    by (simp add: set_def tag_writes_def)
next
  case True
  then have "unat off + length (enc v) \<le> 256" "length (enc v) = width" "length (tag_data t) = 256"
    using assms by (simp_all add: Tag_inBounds_iff sz_width enc_length tag_inv_def)
  with True assms show ?thesis
    by (auto simp: set_def tag_writes_def poke_def nth_append min_def)
qed

lemma out_of_bounds:
  "tag_inv t \<Longrightarrow> rep v \<Longrightarrow> \<not> Tag_inBounds off sz \<Longrightarrow> get off t = dflt \<and> set_at off v t = t"
  by (simp add: get_def set_def tag_inv_def)

end

text \<open>The eleven pairs of accessors.\<close>

lemma take1_nth: "1 \<le> length bs \<Longrightarrow> take 1 bs = [bs ! 0]"
  by (cases bs) auto

lemma Tag_at_nth: "unat off < length (tag_data t) \<Longrightarrow> drop (unat off) (tag_data t) ! 0 = tag_data t ! unat off"
  by simp

lemma inBounds_1_nth [simp]:
  "length (tag_data t) = 256 \<Longrightarrow> Tag_inBounds off 1 \<Longrightarrow>
    drop (unat off) (tag_data t) ! 0 = tag_data t ! unat off"
  by (simp add: Tag_inBounds_iff)

definition sint_range :: "nat \<Rightarrow> int \<Rightarrow> bool" where
  "sint_range w v \<longleftrightarrow> - (2 ^ (w - 1)) \<le> v \<and> v < 2 ^ (w - 1)"

lemma sint_of_range: "sint_range LENGTH('a::len) v \<Longrightarrow> sint (word_of_int v :: 'a word) = v"
  by (simp add: sint_range_def signed_of_int signed_take_bit_int_eq_self)

interpretation acc_bool: tag_accessor 1 1 "\<lambda>_. True" "\<lambda>b. [if b then 1 else 0]" "\<lambda>bs. bs ! 0 \<noteq> 0"
    False Tag_getBool Tag_setBool
  by unfold_locales (auto simp: Tag_getBool_def Tag_setBool_def)

interpretation acc_int8: tag_accessor 1 1 "sint_range 8" "\<lambda>v. [word_of_int v]" "\<lambda>bs. sint (bs ! 0)"
    0 Tag_getInt8 Tag_setInt8
  by unfold_locales (auto simp: Tag_getInt8_def Tag_setInt8_def sint_of_range)

interpretation acc_int16: tag_accessor 2 2 "sint_range 16" "\<lambda>v. leU16 (word_of_int v)"
    "\<lambda>bs. sint (getU16 bs)" 0 Tag_getInt16 Tag_setInt16
  by unfold_locales
    (auto simp: Tag_getInt16_def Tag_setInt16_def sint_of_range Tag_at_def putU16_def u16.dec_take)

interpretation acc_int32: tag_accessor 4 4 "sint_range 32" "\<lambda>v. leU32 (word_of_int v)"
    "\<lambda>bs. sint (getU32 bs)" 0 Tag_getInt32 Tag_setInt32
  by unfold_locales
    (auto simp: Tag_getInt32_def Tag_setInt32_def sint_of_range Tag_at_def putU32_def u32.dec_take)

interpretation acc_int64: tag_accessor 8 8 "sint_range 64" "\<lambda>v. leU64 (word_of_int v)"
    "\<lambda>bs. sint (getU64 bs)" 0 Tag_getInt64 Tag_setInt64
  by unfold_locales
    (auto simp: Tag_getInt64_def Tag_setInt64_def sint_of_range Tag_at_def putU64_def u64.dec_take)

interpretation acc_uint8: tag_accessor 1 1 "\<lambda>_. True" "\<lambda>v. [v]" "\<lambda>bs. bs ! 0"
    0 Tag_getUint8 Tag_setUint8
  by unfold_locales (auto simp: Tag_getUint8_def Tag_setUint8_def)

interpretation acc_uint16: tag_accessor 2 2 "\<lambda>_. True" leU16 getU16 0 Tag_getUint16 Tag_setUint16
  by unfold_locales (auto simp: Tag_getUint16_def Tag_setUint16_def Tag_at_def putU16_def u16.dec_take)

interpretation acc_uint32: tag_accessor 4 4 "\<lambda>_. True" leU32 getU32 0 Tag_getUint32 Tag_setUint32
  by unfold_locales (auto simp: Tag_getUint32_def Tag_setUint32_def Tag_at_def putU32_def u32.dec_take)

interpretation acc_uint64: tag_accessor 8 8 "\<lambda>_. True" leU64 getU64 0 Tag_getUint64 Tag_setUint64
  by unfold_locales (auto simp: Tag_getUint64_def Tag_setUint64_def Tag_at_def putU64_def u64.dec_take)

interpretation acc_float32: tag_accessor 4 4 "\<lambda>v. length v = 4" "\<lambda>v. v" "take 4" "replicate 4 0"
    Tag_getFloat32 Tag_setFloat32
  by unfold_locales (auto simp: Tag_getFloat32_def Tag_setFloat32_def Tag_at_def)

interpretation acc_float64: tag_accessor 8 8 "\<lambda>v. length v = 8" "\<lambda>v. v" "take 8" "replicate 8 0"
    Tag_getFloat64 Tag_setFloat64
  by unfold_locales (auto simp: Tag_getFloat64_def Tag_setFloat64_def Tag_at_def)

subsection \<open>A tag and the message that carries its exchange\<close>

lemma Tag_poll_settled:
  "\<not> tag_waiting t \<Longrightarrow> Tag_poll os t msg net = (Tag_status t, t, msg, net)"
  by (cases "tag_state t") (auto simp: Tag_poll_def Tag_status_def tag_waiting_def)

lemma Tag_status_pending [simp]: "Tag_status t = Pending \<longleftrightarrow> tag_waiting t"
  by (cases "tag_state t") (auto simp: Tag_status_def tag_waiting_def)

lemma Tag_poll_waiting:
  assumes "tag_waiting t" and "Tag_poll os t msg net = (st, t', msg', net')"
  obtains st0 where "ExplicitMessage_poll os msg net = (st0, msg', net')"
    and "tag_waiting t' \<longleftrightarrow> st0 = Pending" and "st = Pending \<longleftrightarrow> st0 = Pending"
    and "st0 = Pending \<longrightarrow> t' = t"
    and "st0 \<noteq> Pending \<longrightarrow> st0 \<noteq> Ok \<longrightarrow> st = st0 \<and> t' = t\<lparr>tag_state := TagFailed\<rparr>"
proof -
  obtain st0 m1 n1 where p: "ExplicitMessage_poll os msg net = (st0, m1, n1)"
    by (metis prod_cases3)
  with assms have "m1 = msg'" "n1 = net'"
    by (auto simp: Tag_poll_def tag_waiting_def Let_def split: if_splits)
  with assms p show thesis
    by (intro that [of st0]) (auto simp: Tag_poll_def tag_waiting_def Let_def split: if_splits)
qed

interpretation tag_pool: carrier_client "\<lambda>m. socket_contract os \<and> em_inv m" em_busy
    "ExplicitMessage_poll os" ExplicitMessage_abort tag_waiting "Tag_poll os" Tag_abort for os
proof unfold_locales
  fix m m' :: explicit_message and n n' :: "'a net" and st c c'
  show "socket_contract os \<and> em_inv m'"
    if "socket_contract os \<and> em_inv m" and "ExplicitMessage_poll os m n = (st, m', n')"
    using that ExplicitMessage_poll_inv by blast
  show "em_busy m' \<longleftrightarrow> st = Pending"
    if "socket_contract os \<and> em_inv m" and "em_busy m" and "ExplicitMessage_poll os m n = (st, m', n')"
    using that ExplicitMessage_poll_spec [of os m n st m' n' "[]" "[]"] by (auto simp: em_busy_def)
  show "socket_contract os \<and> em_inv (ExplicitMessage_abort m)" if "socket_contract os \<and> em_inv m"
    using that ExplicitMessage_abort_inv by blast
  show "c' = c \<and> m' = m \<and> n' = n \<and> st \<noteq> Pending"
    if "\<not> tag_waiting c" and "Tag_poll os c m n = (st, c', m', n')"
    using that Tag_poll_settled [OF that(1), of os m n] by auto
  show "\<exists>st0. ExplicitMessage_poll os m n = (st0, m', n') \<and> (tag_waiting c' \<longleftrightarrow> st0 = Pending) \<and>
      (st = Pending \<longleftrightarrow> st0 = Pending)"
    if "tag_waiting c" and "Tag_poll os c m n = (st, c', m', n')"
    using that by (rule Tag_poll_waiting) blast
qed (auto simp: Tag_abort_def tag_waiting_def)

subsection \<open>Starting a read or a write\<close>

lemma symbolic_argument:
  assumes "appendSymbolic 0 name (replicate 128 0) = (path, pathLen)"
  shows "pathLen = length (symbolic_segment name)" and "take pathLen path = symbolic_segment name"
    and "length path = 128" and "pathLen \<le> 122"
proof -
  have "length (symbolic_segment name) \<le> 122"
    by (rule symbolic_segment_bounds)
  with assms show "pathLen = length (symbolic_segment name)" "take pathLen path = symbolic_segment name"
    "length path = 128" "pathLen \<le> 122"
    using appendSymbolic_segment [of 0 name "replicate 128 0"] by (auto simp: take_poke_extend)
qed

lemma small_size [simp]: "n < 1024 \<Longrightarrow> unat (of_nat n :: size_t) = n"
  by (simp add: unat_of_nat)

lemma symbolic_arg_bytes:
  assumes "appendSymbolic 0 name (replicate 128 0) = (path, pathLen)"
  shows "arg_bytes (Some path) (of_nat pathLen) = symbolic_segment name"
  using symbolic_argument [OF assms] by (simp add: arg_bytes_def)

lemma symbolic_em_args:
  assumes "appendSymbolic 0 name (replicate 128 0) = (path, pathLen)" and "n < 1024" and "n \<le> length d"
  shows "em_args (Some path) (of_nat pathLen) (Some d) (of_nat n)"
  using symbolic_argument [OF assms(1)] assms(2,3) by (simp add: em_args_def)

text \<open>What a call that starts an exchange does to the message, whatever it returns.\<close>

definition tag_started :: "Status \<Rightarrow> tag \<Rightarrow> tag \<Rightarrow> explicit_message \<Rightarrow> explicit_message \<Rightarrow> bool" where
  "tag_started st t t' msg msg' \<longleftrightarrow>
     em_inv msg' \<and> (tag_inv t \<longrightarrow> tag_inv t') \<and>
     (st = Pending \<longrightarrow> \<not> tag_waiting t \<and> tag_waiting t' \<and> \<not> em_busy msg \<and> em_busy msg') \<and>
     (st \<noteq> Pending \<longrightarrow> t' = t \<and> (em_busy msg' \<longleftrightarrow> em_busy msg))"

lemma ExplicitMessage_send_started:
  assumes "em_inv msg" and "em_args path pathLen data dataLen"
    and "ExplicitMessage_send os c h service path pathLen data dataLen timeoutMs msg net = (st, msg', net')"
  shows "em_inv msg' \<and> (if st = Pending then \<not> em_busy msg \<and> em_busy msg' else em_busy msg' = em_busy msg)"
  by (rule ExplicitMessage_send_spec [OF assms])
    (use assms(1) ExplicitMessage_send_inv [OF assms] in \<open>auto simp: em_started_def em_busy_def\<close>)

lemma Tag_startRead_started:
  assumes "em_inv msg" and "\<not> tag_waiting t"
    and "Tag_startRead os c h name n timeoutMs t msg net = (st, t', msg', net')"
  shows "tag_started st t t' msg msg'"
proof -
  obtain path pathLen where a: "appendSymbolic 0 name (replicate 128 0) = (path, pathLen)"
    by fastforce
  have A: "em_args (Some path) (of_nat pathLen) (Some (putU16 0 (ucast n) (replicate 2 0))) 2"
    using symbolic_em_args [OF a, of 2 "putU16 0 (ucast n) (replicate 2 0)"] by simp
  obtain st1 m1 n1 where s: "ExplicitMessage_send os c h (TagService_code TsRead) (Some path)
      (of_nat pathLen) (Some (putU16 0 (ucast n) (replicate 2 0))) 2 timeoutMs msg net = (st1, m1, n1)"
    by (metis prod_cases3)
  from ExplicitMessage_send_started [OF assms(1) A s] assms(2)
    assms(3) [unfolded Tag_startRead_def a Let_def prod.case s] show ?thesis
    by (auto simp: tag_started_def tag_waiting_def tag_inv_def split: if_splits)
qed

lemma Tag_writeLength_le:
  assumes "Tag_writeLength n t = Some len"
  shows "len \<le> 256"
proof (cases "tag_dataType t = DataType_code DtString")
  case True
  with assms show ?thesis
    by (auto simp: Tag_writeLength_def Let_def tag_kMaxDataSize_def word_less_nat_alt split: if_splits)
next
  case False
  with assms obtain sz where "sz \<noteq> 0" "unat n \<le> 256 div sz" "len = unat n * sz"
    by (auto simp: Tag_writeLength_def Let_def split: if_splits)
  then show ?thesis
    by (metis div_times_less_eq_dividend le_trans mult_le_mono1)
qed

text \<open>The data of a write request, as it goes out.\<close>

definition write_data :: "u32 \<Rightarrow> byte \<Rightarrow> byte list \<Rightarrow> byte list" where
  "write_data n type data = leU16 (ucast n) @ leU16 (ucast type) @ data"

lemma write_data_layout:
  assumes "len \<le> 256" and "length data = 256"
  shows "take (4 + len) (poke 4 (take len data) (putU16 2 (ucast type)
      (putU16 0 (ucast n) (replicate (2 + 2 + unat tag_kMaxDataSize) 0)))) =
      write_data n type (take len data)"
    and "length (poke 4 (take len data) (putU16 2 (ucast type)
      (putU16 0 (ucast n) (replicate (2 + 2 + unat tag_kMaxDataSize) 0)))) = 260"
proof -
  have "poke 4 (take len data) (putU16 2 (ucast type)
      (putU16 0 (ucast n) (replicate (2 + 2 + unat tag_kMaxDataSize) 0))) =
    poke 0 (write_data n type (take len data)) (replicate 260 0)"
    using assms by (simp add: write_data_def putU16_def poke_poke_adjacent)
  moreover have "length (write_data n type (take len data)) = 4 + len"
    using assms by (simp add: write_data_def)
  ultimately show "take (4 + len) (poke 4 (take len data) (putU16 2 (ucast type)
      (putU16 0 (ucast n) (replicate (2 + 2 + unat tag_kMaxDataSize) 0)))) =
      write_data n type (take len data)"
    and "length (poke 4 (take len data) (putU16 2 (ucast type)
      (putU16 0 (ucast n) (replicate (2 + 2 + unat tag_kMaxDataSize) 0)))) = 260"
    using assms(1) by (simp_all add: take_poke_extend)
qed

lemma Tag_startWrite_sends:
  assumes "tag_inv t" and "Tag_writeLength n t = Some len"
    and "Tag_startWrite os c h name n timeoutMs t msg net = (st, t', msg', net')"
  obtains path pathLen wdata where
    "ExplicitMessage_send os c h (TagService_code TsWrite) (Some path) (of_nat pathLen) (Some wdata)
      (of_nat (4 + len)) timeoutMs msg net = (st, msg', net')"
    and "em_args (Some path) (of_nat pathLen) (Some wdata) (of_nat (4 + len))"
    and "arg_bytes (Some path) (of_nat pathLen) = symbolic_segment name"
    and "arg_bytes (Some wdata) (of_nat (4 + len)) = write_data n (tag_dataType t) (take len (tag_data t))"
    and "t' = (if st = Pending then t\<lparr>tag_state := TagWriting\<rparr> else t)"
    and "pathLen = length (symbolic_segment name)"
proof -
  obtain path pathLen where a: "appendSymbolic 0 name (replicate 128 0) = (path, pathLen)"
    by fastforce
  define wdata where "wdata = poke 4 (take len (tag_data t)) (putU16 2 (ucast (tag_dataType t))
      (putU16 0 (ucast n) (replicate (2 + 2 + unat tag_kMaxDataSize) 0)))"
  have len: "len \<le> 256" "length (tag_data t) = 256"
    using Tag_writeLength_le [OF assms(2)] assms(1) by (simp_all add: tag_inv_def)
  note lay = write_data_layout [OF len, of "tag_dataType t" n, folded wdata_def]
  obtain st1 m1 n1 where s: "ExplicitMessage_send os c h (TagService_code TsWrite) (Some path)
      (of_nat pathLen) (Some wdata) (of_nat (4 + len)) timeoutMs msg net = (st1, m1, n1)"
    by (metis prod_cases3)
  have r: "st = st1" "msg' = m1" "net' = n1" "t' = (if st1 = Pending then t\<lparr>tag_state := TagWriting\<rparr> else t)"
    using assms(3) [unfolded Tag_startWrite_def assms(2) a Let_def prod.case option.case
        wdata_def [symmetric] s] by (auto split: if_splits)
  show thesis
  proof (rule that)
    show "em_args (Some path) (of_nat pathLen) (Some wdata) (of_nat (4 + len))"
      using symbolic_em_args [OF a, of "4 + len" wdata] lay(2) len(1) by simp
    have "unat (of_nat (4 + len) :: size_t) = 4 + len"
      using len(1) by (intro small_size) simp
    then show "arg_bytes (Some wdata) (of_nat (4 + len)) = write_data n (tag_dataType t) (take len (tag_data t))"
      by (simp add: arg_bytes_def lay(1) del: of_nat_add)
  qed (use r s symbolic_arg_bytes [OF a] symbolic_argument [OF a] in simp_all)
qed

lemma Tag_startWrite_started:
  assumes "em_inv msg" and "tag_inv t" and "\<not> tag_waiting t"
    and run: "Tag_startWrite os c h name n timeoutMs t msg net = (st, t', msg', net')"
  shows "tag_started st t t' msg msg'"
proof (cases "Tag_writeLength n t")
  case None
  with assms show ?thesis
    by (auto simp: Tag_startWrite_def tag_started_def)
next
  case (Some len)
  show ?thesis
  proof (rule Tag_startWrite_sends [OF assms(2) Some run])
    fix path pathLen wdata
    assume s: "ExplicitMessage_send os c h (TagService_code TsWrite) (Some path) (of_nat pathLen)
        (Some wdata) (of_nat (4 + len)) timeoutMs msg net = (st, msg', net')"
      and A: "em_args (Some path) (of_nat pathLen) (Some wdata) (of_nat (4 + len))"
      and t': "t' = (if st = Pending then t\<lparr>tag_state := TagWriting\<rparr> else t)"
    from ExplicitMessage_send_started [OF assms(1) A s] assms(3) show ?thesis
      unfolding t' by (auto simp: tag_started_def tag_waiting_def tag_inv_def split: if_splits)
  qed
qed

lemma Tag_read_started:
  assumes "em_inv msg" and "Tag_read os c h name n timeoutMs t msg net = (st, t', msg', net')"
  shows "tag_started st t t' msg msg'"
  using assms Tag_startRead_started [OF assms(1), where os = os]
  by (auto simp: Tag_read_def tag_started_def tag_waiting_def split: option.splits if_splits)

lemma Tag_write_started:
  assumes "em_inv msg" and "tag_inv t" and "Tag_write os c h name n timeoutMs t msg net = (st, t', msg', net')"
  shows "tag_started st t t' msg msg'"
  using assms Tag_startWrite_started [OF assms(1,2), where os = os]
  by (auto simp: Tag_write_def tag_started_def tag_waiting_def split: option.splits if_splits)

text \<open>A read or a write that starts puts this request on the wire.\<close>

lemma Tag_read_pending:
  assumes "em_inv msg" and "Tag_read os c h (Some name) n timeoutMs t msg net = (Pending, t', msg', net')"
  obtains now where "millis os net = (now, net')"
    and "em_started c (now + timeoutMs)
      (rr_request h (em_context msg) 0x4C (symbolic_segment name) (leU16 (ucast n))) msg msg'"
    and "t' = t\<lparr>tag_dataLen := 0, tag_resultCode := 0, tag_state := TagReading\<rparr>"
proof -
  obtain path pathLen where a: "appendSymbolic 0 name (replicate 128 0) = (path, pathLen)"
    by fastforce
  let ?count = "putU16 0 (ucast n) (replicate 2 0)"
  have A: "em_args (Some path) (of_nat pathLen) (Some ?count) 2"
    using symbolic_em_args [OF a, of 2 ?count] by simp
  obtain st1 m1 n1 where s: "ExplicitMessage_send os c h (TagService_code TsRead) (Some path)
      (of_nat pathLen) (Some ?count) 2 timeoutMs msg net = (st1, m1, n1)"
    by (metis prod_cases3)
  have r: "Tag_startRead os c h name n timeoutMs t msg net = (Pending, t', msg', net')"
    using assms(2) by (simp add: Tag_read_def split: if_splits)
  have "st1 = Pending" "m1 = msg'" "n1 = net'"
      "t' = t\<lparr>tag_dataLen := 0, tag_resultCode := 0, tag_state := TagReading\<rparr>"
    using r [unfolded Tag_startRead_def a Let_def prod.case s] by (auto split: if_splits)
  moreover have "arg_bytes (Some ?count) 2 = leU16 (ucast n)"
    by (simp add: arg_bytes_def putU16_def poke_def)
  ultimately show thesis
    using ExplicitMessage_send_pending [OF assms(1) A s [unfolded \<open>st1 = Pending\<close>]] that
      symbolic_arg_bytes [OF a]
    by auto
qed

lemma Tag_write_pending:
  assumes "em_inv msg" and "tag_inv t"
    and "Tag_write os c h (Some name) n timeoutMs t msg net = (Pending, t', msg', net')"
  obtains now len where "millis os net = (now, net')" and "Tag_writeLength n t = Some len"
    and "em_started c (now + timeoutMs)
      (rr_request h (em_context msg) 0x4D (symbolic_segment name)
        (write_data n (tag_dataType t) (take len (tag_data t)))) msg msg'"
    and "t' = t\<lparr>tag_state := TagWriting\<rparr>"
proof -
  have r: "Tag_startWrite os c h name n timeoutMs t msg net = (Pending, t', msg', net')"
    using assms(3) by (simp add: Tag_write_def split: if_splits)
  then obtain len where len: "Tag_writeLength n t = Some len"
    by (auto simp: Tag_startWrite_def split: option.splits)
  show thesis
  proof (rule Tag_startWrite_sends [OF assms(2) len r])
    fix path pathLen wdata
    assume s: "ExplicitMessage_send os c h (TagService_code TsWrite) (Some path) (of_nat pathLen)
        (Some wdata) (of_nat (4 + len)) timeoutMs msg net = (Pending, msg', net')"
      and A: "em_args (Some path) (of_nat pathLen) (Some wdata) (of_nat (4 + len))"
      and b: "arg_bytes (Some path) (of_nat pathLen) = symbolic_segment name"
        "arg_bytes (Some wdata) (of_nat (4 + len)) = write_data n (tag_dataType t) (take len (tag_data t))"
      and t': "t' = (if Pending = Pending then t\<lparr>tag_state := TagWriting\<rparr> else t)"
    show thesis
      using ExplicitMessage_send_pending [OF assms(1) A s] that len t' b by auto
  qed
qed

subsection \<open>Ending an exchange\<close>

text \<open>What a poll makes of the message's answer: the part of \<open>poll()\<close> after \<open>msg.poll()\<close>.\<close>

definition tag_finish :: "Status \<Rightarrow> explicit_message \<Rightarrow> tag \<Rightarrow> Status \<times> tag" where
  "tag_finish st msg t =
     (if st = Pending then (Pending, t)
      else if st \<noteq> Ok then (st, t\<lparr>tag_state := TagFailed\<rparr>)
      else if em_resultCode msg \<noteq> 0
      then (Error, t\<lparr>tag_resultCode := em_resultCode msg, tag_state := TagFailed\<rparr>)
      else
        (let n = min 256 (em_dataLen msg - 2); d = ExplicitMessage_data msg in
         (Ok, if tag_state t = TagReading \<and> 2 \<le> em_dataLen msg
              then t\<lparr>tag_resultCode := 0, tag_dataType := ucast (getU16 d),
                     tag_data := poke 0 (take n (drop 2 d)) (tag_data t), tag_dataLen := n,
                     tag_state := TagDone\<rparr>
              else t\<lparr>tag_resultCode := 0, tag_state := TagDone\<rparr>)))"

lemma Tag_poll_finish:
  assumes "tag_waiting t"
  shows "Tag_poll os t msg net =
    (case ExplicitMessage_poll os msg net of (st, msg', net') \<Rightarrow>
       (case tag_finish st msg' t of (st', t') \<Rightarrow> (st', t', msg', net')))"
  using assms
  by (auto simp: Tag_poll_def tag_waiting_def tag_finish_def Let_def min_def split: prod.splits)

lemma tag_finish_inv:
  assumes "tag_inv t" and "em_inv msg" and "tag_finish st msg t = (st', t')"
  shows "tag_inv t'"
proof -
  have "length (take (min 256 (em_dataLen msg - 2)) (drop 2 (ExplicitMessage_data msg))) \<le> 256"
    by simp
  with assms(1,3) show ?thesis
    by (auto simp: tag_finish_def tag_inv_def Let_def split: if_splits)
qed

lemma Tag_poll_inv:
  assumes "socket_contract os" and "em_inv msg" and "tag_inv t"
    and "Tag_poll os t msg net = (st, t', msg', net')"
  shows "em_inv msg' \<and> tag_inv t'"
proof (cases "tag_waiting t")
  case False
  with assms Tag_poll_settled [OF False, of os msg net] show ?thesis
    by simp
next
  case True
  obtain st0 m1 n1 where p: "ExplicitMessage_poll os msg net = (st0, m1, n1)"
    by (metis prod_cases3)
  have "em_inv m1"
    using ExplicitMessage_poll_inv [OF assms(1,2) p] .
  with assms(3,4) p True tag_finish_inv [OF assms(3), of m1 st0] show ?thesis
    by (auto simp: Tag_poll_finish split: prod.splits)
qed

lemma Tag_abort_inv:
  "em_inv msg \<Longrightarrow> tag_inv t \<Longrightarrow> Tag_abort t msg = (t', msg') \<Longrightarrow> em_inv msg' \<and> tag_inv t'"
  by (auto simp: Tag_abort_def tag_inv_def ExplicitMessage_abort_inv)

text \<open>A run of polls of a tag is a run of polls of the message, and one \<open>tag_finish\<close>.\<close>

inductive tag_run ::
  "'w os \<Rightarrow> tag \<Rightarrow> explicit_message \<Rightarrow> 'w net \<Rightarrow> Status \<Rightarrow> tag \<Rightarrow> explicit_message \<Rightarrow> 'w net \<Rightarrow> bool"
  for os where
  last: "Tag_poll os t msg net = (st, t', msg', net') \<Longrightarrow> tag_run os t msg net st t' msg' net'"
| again: "Tag_poll os t msg net = (Pending, t1, msg1, net1) \<Longrightarrow>
    tag_run os t1 msg1 (net1\<lparr>net_os := w\<rparr>) st t' msg' net' \<Longrightarrow> tag_run os t msg net st t' msg' net'"

lemma tag_run_em_run:
  assumes "tag_run os t msg net st t' msg' net'" and "tag_waiting t"
  obtains st0 where "em_run os msg net st0 msg' net'" and "tag_finish st0 msg' t = (st, t')"
  using assms
proof (induction arbitrary: thesis rule: tag_run.induct)
  case (last t msg net st t' msg' net')
  then show ?case
    by (auto simp: Tag_poll_finish split: prod.splits intro: em_run.last)
next
  case (again t msg net t1 msg1 net1 w st t' msg' net')
  obtain st0 where p: "ExplicitMessage_poll os msg net = (st0, msg1, net1)"
    and f: "tag_finish st0 msg1 t = (Pending, t1)"
    using again(1,5) by (auto simp: Tag_poll_finish split: prod.splits)
  from f have "st0 = Pending" "t1 = t"
    by (auto simp: tag_finish_def Let_def split: if_splits)
  with again(3) [of thesis] again(4,5) p show ?case
    by (auto intro: em_run.again)
qed

lemma tag_finish_Ok:
  assumes "tag_finish st msg t = (Ok, t')"
  shows "st = Ok \<and> em_resultCode msg = 0 \<and> tag_state t' = TagDone \<and> tag_resultCode t' = 0"
  using assms by (auto simp: tag_finish_def Let_def split: if_splits)

text \<open>A finished read has the type and the data of the reply.\<close>

definition tag_holds :: "byte list \<Rightarrow> tag \<Rightarrow> bool" where
  "tag_holds d t \<longleftrightarrow>
     tag_dataType t = d ! 0 \<and> tag_dataLen t = length d - 2 \<and> take (tag_dataLen t) (tag_data t) = drop 2 d"

lemma low_byte: "2 \<le> length d \<Longrightarrow> (ucast (getU16 d) :: byte) = d ! 0"
proof -
  assume "2 \<le> length d"
  then have "leU16 (getU16 d) ! 0 = d ! 0"
    by (simp add: leU16_getU16)
  then show ?thesis
    by (simp add: leU16_def)
qed

lemma tag_finish_read:
  assumes "tag_inv t" and "tag_state t = TagReading" and "tag_finish Ok msg t = (Ok, t')"
    and "d = take (em_dataLen msg) (ExplicitMessage_data msg)"
    and "em_dataLen msg \<le> length (ExplicitMessage_data msg)" and "em_dataLen msg \<le> 258"
  shows "if 2 \<le> length d then tag_holds d t'
    else tag_dataLen t' = tag_dataLen t \<and> tag_data t' = tag_data t \<and> tag_dataType t' = tag_dataType t"
proof -
  have len: "length d = em_dataLen msg"
    using assms(4,5) by simp
  show ?thesis
  proof (cases "2 \<le> em_dataLen msg")
    case False
    with assms(2,3) len show ?thesis
      by (auto simp: tag_finish_def Let_def split: if_splits)
  next
    case True
    have "getU16 (ExplicitMessage_data msg) = getU16 d"
      using True assms(4,5) by (simp add: u16.dec_take)
    moreover have "take (em_dataLen msg - 2) (drop 2 (ExplicitMessage_data msg)) = drop 2 d"
      using assms(4) by (simp add: drop_take)
    moreover have "min 256 (em_dataLen msg - 2) = em_dataLen msg - 2"
      using assms(6) by simp
    ultimately have "t' = t\<lparr>tag_resultCode := 0, tag_dataType := d ! 0,
        tag_data := poke 0 (drop 2 d) (tag_data t), tag_dataLen := em_dataLen msg - 2, tag_state := TagDone\<rparr>"
      using assms(2,3) True low_byte [of d] len by (auto simp: tag_finish_def Let_def split: if_splits)
    with True len assms(1,6) show ?thesis
      by (simp add: tag_holds_def take_poke_extend)
  qed
qed

text \<open>The clamp of the code is never reached: a reply's data fits in the receive buffer.\<close>

lemma rr_parse_length:
  assumes "rr_parse ctx p = Some (service, code, d)"
  shows "length d + 40 \<le> length p"
proof -
  let ?body = "drop 24 p"
  obtain items cip where len: "8 \<le> length ?body"
    and "cpf_decode (unat (getU16 (drop 6 ?body))) (drop 8 ?body) = Some items"
    and "last_item (CpfItemType_code UnconnectedData) items = Some cip"
    and "4 \<le> length cip" and "d = drop 4 cip"
    using assms by (auto simp: rr_parse_def Let_def split: if_splits option.splits)
  then have "length cip + 4 \<le> length (drop 8 ?body)"
    by (blast dest: last_item_length)
  with len \<open>4 \<le> length cip\<close> \<open>d = drop 4 cip\<close> show ?thesis
    by simp
qed

lemma em_reply_small:
  assumes "em_inv m" and "em_reply m"
  shows "em_dataLen m \<le> 256"
  using rr_parse_length [of "em_sentContext m" "take (em_rxLen m) (em_rx m)"] assms
  by (auto simp: em_reply_def em_inv_def em_buffers_def rx_wf_def min_def split: if_splits)

end
