(* ===== verification/PlcClient.thy ===== *)
theory PlcClient
  imports EthClient Session Tag
begin

text \<open>
  The public API, \<open>src/src/PlcClient.h\<close> and \<open>PlcClient.cpp\<close>: it owns the Ethernet
  client, one connection (its address in the store is \<open>plc_tcp\<close>), the session, the one
  message all tags share, and a pool of eight tags. The two user callbacks are code of the sketch:
  a callback is an address in the record, and the record \<open>'w callbacks\<close> says what the code at
  an address does. It may call the client again, so it maps the client and the world to new ones.
\<close>

definition plc_kMaxTags :: nat where
  "plc_kMaxTags = 8"

lemma plc_kMaxTags [simp]: "plc_kMaxTags = 8"
  by (simp add: plc_kMaxTags_def)

definition plc_kMaxTagName :: nat where
  "plc_kMaxTagName = 64"

lemma plc_kMaxTagName [simp]: "plc_kMaxTagName = 64"
  by (simp add: plc_kMaxTagName_def)

datatype PlcState =
  PlcIdle | PlcEthernet | PlcConnecting | PlcRegistering | PlcReady | PlcDisconnecting | PlcFailed

record plc_client =
  plc_eth :: client
  plc_tcp :: conn_ref
  plc_session :: session
  plc_msg :: explicit_message
  plc_state :: PlcState
  plc_remoteIp :: IPAddress
  plc_remotePort :: u16
  plc_wantConnect :: bool
  plc_connectTimeoutMs :: u32
  plc_deadline :: u32
  plc_tags :: "tag list"
  plc_inUse :: "bool list"
  plc_tagNames :: "byte list list"
  plc_tagElemCount :: "u32 list"
  plc_tagPrevStatus :: "Status list"
  plc_tagCallback :: "nat option"
  plc_tagUserData :: nat
  plc_stateCallback :: "nat option"
  plc_stateUserData :: nat

record 'w callbacks =
  cb_tag :: "nat \<Rightarrow> int \<Rightarrow> Status \<Rightarrow> nat \<Rightarrow> plc_client \<times> 'w net \<Rightarrow> plc_client \<times> 'w net"
  cb_state :: "nat \<Rightarrow> Status \<Rightarrow> nat \<Rightarrow> plc_client \<times> 'w net \<Rightarrow> plc_client \<times> 'w net"

text \<open>
  A new client at an address. The members without an initialiser (the buffers of the session, the
  message and the tags, and the names) have arbitrary contents.
\<close>

definition PlcClient_new ::
  "client \<Rightarrow> conn_ref \<Rightarrow> session \<Rightarrow> explicit_message \<Rightarrow> tag list \<Rightarrow> byte list list \<Rightarrow> plc_client" where
  "PlcClient_new eth tcp ses msg tags names =
     \<lparr> plc_eth = eth, plc_tcp = tcp, plc_session = ses, plc_msg = msg, plc_state = PlcIdle,
       plc_remoteIp = IPAddress_any, plc_remotePort = 0, plc_wantConnect = False,
       plc_connectTimeoutMs = 0, plc_deadline = 0, plc_tags = tags,
       plc_inUse = replicate plc_kMaxTags False, plc_tagNames = names,
       plc_tagElemCount = replicate plc_kMaxTags 0,
       plc_tagPrevStatus = replicate plc_kMaxTags Pending, plc_tagCallback = None,
       plc_tagUserData = 0, plc_stateCallback = None, plc_stateUserData = 0 \<rparr>"

subsection \<open>Connecting\<close>

definition PlcClient_begin ::
  "'w eth \<Rightarrow> client_config \<Rightarrow> plc_client \<Rightarrow> 'w net \<Rightarrow> Status \<times> plc_client \<times> 'w net" where
  "PlcClient_begin eth cfg plc net =
     (let plc0 = plc\<lparr>plc_state := PlcEthernet, plc_wantConnect := False\<rparr> in
      case Client_begin eth cfg (plc_eth plc0) net of (st, cl, net1) \<Rightarrow>
        (st, plc0\<lparr>plc_eth := cl\<rparr>, net1))"

definition PlcClient_connect ::
  "'w os \<Rightarrow> IPAddress \<Rightarrow> u16 \<Rightarrow> u32 \<Rightarrow> plc_client \<Rightarrow> 'w net \<Rightarrow> Status \<times> plc_client \<times> 'w net" where
  "PlcClient_connect os ip port timeoutMs plc net =
     (let plc0 = plc\<lparr>plc_remoteIp := ip, plc_remotePort := port, plc_connectTimeoutMs := timeoutMs,
                     plc_wantConnect := False\<rparr> in
      if Client_ready (plc_eth plc0) then
        (let plc1 = plc0\<lparr>plc_session := Session_abort (plc_session plc0)\<rparr>;
             net1 = TcpConnection_close os (plc_tcp plc1) net
         in case millis os net1 of (now, net2) \<Rightarrow>
              (let plc2 = plc1\<lparr>plc_state := PlcConnecting, plc_deadline := now + timeoutMs\<rparr> in
               case TcpConnection_connect os (plc_tcp plc2) (plc_remoteIp plc2) (plc_remotePort plc2)
                      timeoutMs net2 of
                 (st, net3) \<Rightarrow>
                   if st \<noteq> Pending then (st, plc2\<lparr>plc_state := PlcFailed\<rparr>, net3)
                   else (Pending, plc2, net3)))
      else (Pending, plc0\<lparr>plc_wantConnect := True, plc_state := PlcEthernet\<rparr>, net))"

definition PlcClient_disconnect ::
  "'w os \<Rightarrow> plc_client \<Rightarrow> 'w net \<Rightarrow> Status \<times> plc_client \<times> 'w net" where
  "PlcClient_disconnect os plc net =
     (if plc_state plc = PlcReady then
        (case Session_close (plc_session plc) of (st, ses) \<Rightarrow>
           (Pending, plc\<lparr>plc_state := PlcDisconnecting, plc_session := ses\<rparr>, net))
      else
        (Ok, plc\<lparr>plc_session := Session_abort (plc_session plc), plc_state := PlcIdle\<rparr>,
         TcpConnection_close os (plc_tcp plc) net))"

text \<open>The destructor.\<close>

definition PlcClient_end :: "'w os \<Rightarrow> plc_client \<Rightarrow> 'w net \<Rightarrow> plc_client \<times> 'w net" where
  "PlcClient_end os plc net =
     (plc\<lparr>plc_session := Session_abort (plc_session plc)\<rparr>, TcpConnection_close os (plc_tcp plc) net)"

subsection \<open>Poll\<close>

definition call_tag ::
  "'w callbacks \<Rightarrow> nat \<Rightarrow> Status \<Rightarrow> plc_client \<times> 'w net \<Rightarrow> plc_client \<times> 'w net" where
  "call_tag cb i st s =
     (case plc_tagCallback (fst s) of
        None \<Rightarrow> s
      | Some f \<Rightarrow> cb_tag cb f (int i) st (plc_tagUserData (fst s)) s)"

definition call_state ::
  "'w callbacks \<Rightarrow> Status \<Rightarrow> plc_client \<times> 'w net \<Rightarrow> plc_client \<times> 'w net" where
  "call_state cb st s =
     (case plc_stateCallback (fst s) of
        None \<Rightarrow> s
      | Some f \<Rightarrow> cb_state cb f st (plc_stateUserData (fst s)) s)"

text \<open>One turn of the loop over the pool; the flag is \<open>disconnected\<close>.\<close>

definition PlcClient_pollTag ::
  "'w os \<Rightarrow> 'w callbacks \<Rightarrow> nat \<Rightarrow> bool \<times> plc_client \<times> 'w net \<Rightarrow> bool \<times> plc_client \<times> 'w net" where
  "PlcClient_pollTag os cb i s =
     (case s of (disconnected, plc, net) \<Rightarrow>
        if \<not> plc_inUse plc ! i then (disconnected, plc, net)
        else
          (let prev = plc_tagPrevStatus plc ! i in
           case Tag_poll os (plc_tags plc ! i) (plc_msg plc) net of (st, t, msg, net1) \<Rightarrow>
             (let plc1 = plc\<lparr>plc_tags := (plc_tags plc)[i := t], plc_msg := msg,
                             plc_tagPrevStatus := (plc_tagPrevStatus plc)[i := st]\<rparr> in
              (disconnected \<or> st = Closed,
               if prev = Pending \<and> st \<noteq> Pending then call_tag cb i st (plc1, net1)
               else (plc1, net1)))))"

definition PlcClient_pollReady ::
  "'w os \<Rightarrow> 'w callbacks \<Rightarrow> plc_client \<Rightarrow> 'w net \<Rightarrow> Status \<times> plc_client \<times> 'w net" where
  "PlcClient_pollReady os cb plc net =
     (case fold (PlcClient_pollTag os cb) [0..<plc_kMaxTags] (False, plc, net) of
        (disconnected, plc1, net1) \<Rightarrow>
          if disconnected then
            (Closed,
             call_state cb Closed
               (plc1\<lparr>plc_session := Session_abort (plc_session plc1), plc_state := PlcIdle\<rparr>,
                TcpConnection_close os (plc_tcp plc1) net1))
          else (Ok, plc1, net1))"

definition PlcClient_pollEthernet ::
  "'w os \<Rightarrow> 'w eth \<Rightarrow> plc_client \<Rightarrow> 'w net \<Rightarrow> Status \<times> plc_client \<times> 'w net" where
  "PlcClient_pollEthernet os eth plc net =
     (case Client_poll eth (plc_eth plc) net of (st, cl, net1) \<Rightarrow>
        (let plc1 = plc\<lparr>plc_eth := cl\<rparr> in
         if st = Ok then
           (if plc_wantConnect plc1 then
              (case millis os net1 of (now, net2) \<Rightarrow>
                 (let plc2 = plc1\<lparr>plc_wantConnect := False, plc_state := PlcConnecting,
                                  plc_deadline := now + plc_connectTimeoutMs plc1\<rparr> in
                  case TcpConnection_connect os (plc_tcp plc2) (plc_remoteIp plc2)
                         (plc_remotePort plc2) (plc_connectTimeoutMs plc2) net2 of
                    (cst, net3) \<Rightarrow>
                      if cst \<noteq> Pending then (cst, plc2\<lparr>plc_state := PlcFailed\<rparr>, net3)
                      else (Pending, plc2, net3)))
            else (Ok, plc1, net1))
         else if st = Error then (st, plc1\<lparr>plc_state := PlcFailed\<rparr>, net1)
         else (Pending, plc1, net1)))"

definition PlcClient_pollConnecting ::
  "'w os \<Rightarrow> plc_client \<Rightarrow> 'w net \<Rightarrow> Status \<times> plc_client \<times> 'w net" where
  "PlcClient_pollConnecting os plc net =
     (case millis os net of (now, net0) \<Rightarrow>
        if expired now (plc_deadline plc) then (Timeout, plc\<lparr>plc_state := PlcFailed\<rparr>, net0)
        else
          (case TcpConnection_poll os (plc_tcp plc) net0 of (st, net1) \<Rightarrow>
             if st = Ok then
               (case millis os net1 of (now2, net2) \<Rightarrow>
                  (case Session_open os (plc_tcp plc) (plc_deadline plc - now2) (plc_session plc) net2 of
                     (openSt, ses, net3) \<Rightarrow>
                       (let plc1 = plc\<lparr>plc_session := ses\<rparr> in
                        if openSt \<noteq> Pending then (openSt, plc1\<lparr>plc_state := PlcFailed\<rparr>, net3)
                        else (Pending, plc1\<lparr>plc_state := PlcRegistering\<rparr>, net3))))
             else if st = Timeout \<or> st = Error then (st, plc\<lparr>plc_state := PlcFailed\<rparr>, net1)
             else (Pending, plc, net1)))"

definition PlcClient_pollRegistering ::
  "'w os \<Rightarrow> 'w callbacks \<Rightarrow> plc_client \<Rightarrow> 'w net \<Rightarrow> Status \<times> plc_client \<times> 'w net" where
  "PlcClient_pollRegistering os cb plc net =
     (case millis os net of (now, net0) \<Rightarrow>
        if expired now (plc_deadline plc) then (Timeout, plc\<lparr>plc_state := PlcFailed\<rparr>, net0)
        else
          (case Session_poll os (plc_session plc) net0 of (st, ses, net1) \<Rightarrow>
             (let plc1 = plc\<lparr>plc_session := ses\<rparr> in
              if st = Ok then (Ok, call_state cb Ok (plc1\<lparr>plc_state := PlcReady\<rparr>, net1))
              else if st = Timeout \<or> st = Error then (st, plc1\<lparr>plc_state := PlcFailed\<rparr>, net1)
              else (Pending, plc1, net1))))"

definition PlcClient_pollDisconnecting ::
  "'w os \<Rightarrow> 'w callbacks \<Rightarrow> plc_client \<Rightarrow> 'w net \<Rightarrow> Status \<times> plc_client \<times> 'w net" where
  "PlcClient_pollDisconnecting os cb plc net =
     (case Session_poll os (plc_session plc) net of (st, ses, net1) \<Rightarrow>
        (let plc1 = plc\<lparr>plc_session := ses\<rparr> in
         if st = Ok \<or> st = Closed then
           (Ok, call_state cb Closed
                  (plc1\<lparr>plc_state := PlcIdle\<rparr>, TcpConnection_close os (plc_tcp plc1) net1))
         else (Pending, plc1, net1)))"

definition PlcClient_poll ::
  "'w os \<Rightarrow> 'w eth \<Rightarrow> 'w callbacks \<Rightarrow> plc_client \<Rightarrow> 'w net \<Rightarrow> Status \<times> plc_client \<times> 'w net" where
  "PlcClient_poll os eth cb plc net =
     (case plc_state plc of
        PlcEthernet \<Rightarrow> PlcClient_pollEthernet os eth plc net
      | PlcConnecting \<Rightarrow> PlcClient_pollConnecting os plc net
      | PlcRegistering \<Rightarrow> PlcClient_pollRegistering os cb plc net
      | PlcReady \<Rightarrow> PlcClient_pollReady os cb plc net
      | PlcDisconnecting \<Rightarrow> PlcClient_pollDisconnecting os cb plc net
      | PlcFailed \<Rightarrow> (Error, plc, net)
      | PlcIdle \<Rightarrow> (NotReady, plc, net))"

subsection \<open>The tag pool\<close>

definition PlcClient_validHandle :: "int \<Rightarrow> plc_client \<Rightarrow> bool" where
  "PlcClient_validHandle handle plc \<longleftrightarrow>
     0 \<le> handle \<and> handle < int plc_kMaxTags \<and> plc_inUse plc ! nat handle"

text \<open>The loop of \<open>findFreeTag\<close>, from index \<open>i\<close>.\<close>

fun find_free :: "bool list \<Rightarrow> nat \<Rightarrow> int" where
  "find_free [] i = -1"
| "find_free (u # us) i = (if \<not> u then int i else find_free us (i + 1))"

definition PlcClient_findFreeTag :: "plc_client \<Rightarrow> int" where
  "PlcClient_findFreeTag plc = find_free (plc_inUse plc) 0"

definition PlcClient_anyTagBusy :: "plc_client \<Rightarrow> bool" where
  "PlcClient_anyTagBusy plc \<longleftrightarrow>
     (\<exists>i \<in> set [0..<plc_kMaxTags]. plc_inUse plc ! i \<and> Tag_status (plc_tags plc ! i) = Pending)"

definition PlcClient_createTag ::
  "cstring option \<Rightarrow> u32 \<Rightarrow> plc_client \<Rightarrow> int \<times> plc_client" where
  "PlcClient_createTag name elementCount plc =
     (case name of
        None \<Rightarrow> (Status_code InvalidArg, plc)
      | Some nm \<Rightarrow>
          if nm = [] \<or> plc_kMaxTagName \<le> length nm then (Status_code InvalidArg, plc)
          else
            (let h = PlcClient_findFreeTag plc in
             if h < 0 then (Status_code NoMemory, plc)
             else
               (h, plc\<lparr>plc_tagNames := (plc_tagNames plc)[nat h := name_slot nm],
                       plc_tagElemCount := (plc_tagElemCount plc)[nat h := elementCount],
                       plc_tagPrevStatus := (plc_tagPrevStatus plc)[nat h := NotReady],
                       plc_inUse := (plc_inUse plc)[nat h := True]\<rparr>)))"

definition PlcClient_destroyTag :: "int \<Rightarrow> plc_client \<Rightarrow> Status \<times> plc_client" where
  "PlcClient_destroyTag handle plc =
     (if \<not> PlcClient_validHandle handle plc then (InvalidArg, plc)
      else (Ok, plc\<lparr>plc_inUse := (plc_inUse plc)[nat handle := False]\<rparr>))"

definition PlcClient_read ::
  "'w os \<Rightarrow> int \<Rightarrow> u32 \<Rightarrow> plc_client \<Rightarrow> 'w net \<Rightarrow> Status \<times> plc_client \<times> 'w net" where
  "PlcClient_read os handle timeoutMs plc net =
     (if \<not> PlcClient_validHandle handle plc then (InvalidArg, plc, net)
      else if plc_state plc \<noteq> PlcReady then (NotReady, plc, net)
      else if PlcClient_anyTagBusy plc then (Busy, plc, net)
      else
        (let i = nat handle in
         case Tag_read os (plc_tcp plc) (ses_handle (plc_session plc))
                (Some (c_string (plc_tagNames plc ! i))) (plc_tagElemCount plc ! i) timeoutMs
                (plc_tags plc ! i) (plc_msg plc) net of
           (st, t, msg, net1) \<Rightarrow>
             (st, plc\<lparr>plc_tags := (plc_tags plc)[i := t], plc_msg := msg\<rparr>, net1)))"

definition PlcClient_write ::
  "'w os \<Rightarrow> int \<Rightarrow> u32 \<Rightarrow> plc_client \<Rightarrow> 'w net \<Rightarrow> Status \<times> plc_client \<times> 'w net" where
  "PlcClient_write os handle timeoutMs plc net =
     (if \<not> PlcClient_validHandle handle plc then (InvalidArg, plc, net)
      else if plc_state plc \<noteq> PlcReady then (NotReady, plc, net)
      else if PlcClient_anyTagBusy plc then (Busy, plc, net)
      else
        (let i = nat handle in
         case Tag_write os (plc_tcp plc) (ses_handle (plc_session plc))
                (Some (c_string (plc_tagNames plc ! i))) (plc_tagElemCount plc ! i) timeoutMs
                (plc_tags plc ! i) (plc_msg plc) net of
           (st, t, msg, net1) \<Rightarrow>
             (st, plc\<lparr>plc_tags := (plc_tags plc)[i := t], plc_msg := msg\<rparr>, net1)))"

definition PlcClient_tagStatus :: "int \<Rightarrow> plc_client \<Rightarrow> Status" where
  "PlcClient_tagStatus handle plc =
     (if \<not> PlcClient_validHandle handle plc then InvalidArg
      else Tag_status (plc_tags plc ! nat handle))"

text \<open>\<open>tag()\<close>: the index of the tag it returns a pointer to, \<open>None\<close> for the null pointer.\<close>

definition PlcClient_tag :: "int \<Rightarrow> plc_client \<Rightarrow> nat option" where
  "PlcClient_tag handle plc =
     (if \<not> PlcClient_validHandle handle plc then None else Some (nat handle))"

definition PlcClient_abortTag :: "int \<Rightarrow> plc_client \<Rightarrow> Status \<times> plc_client" where
  "PlcClient_abortTag handle plc =
     (if \<not> PlcClient_validHandle handle plc then (InvalidArg, plc)
      else
        (let i = nat handle in
         case Tag_abort (plc_tags plc ! i) (plc_msg plc) of (t, msg) \<Rightarrow>
           (Ok, plc\<lparr>plc_tags := (plc_tags plc)[i := t], plc_msg := msg,
                    plc_tagPrevStatus := (plc_tagPrevStatus plc)[i := NotReady]\<rparr>)))"

definition PlcClient_setTagCallback :: "nat option \<Rightarrow> nat \<Rightarrow> plc_client \<Rightarrow> plc_client" where
  "PlcClient_setTagCallback f userData plc =
     plc\<lparr>plc_tagCallback := f, plc_tagUserData := userData\<rparr>"

definition PlcClient_setStateCallback :: "nat option \<Rightarrow> nat \<Rightarrow> plc_client \<Rightarrow> plc_client" where
  "PlcClient_setStateCallback f userData plc =
     plc\<lparr>plc_stateCallback := f, plc_stateUserData := userData\<rparr>"

definition PlcClient_ready :: "plc_client \<Rightarrow> bool" where
  "PlcClient_ready plc \<longleftrightarrow> plc_state plc = PlcReady"

definition PlcClient_sessionHandle :: "plc_client \<Rightarrow> u32" where
  "PlcClient_sessionHandle plc = ses_handle (plc_session plc)"

definition PlcClient_tagCount :: "plc_client \<Rightarrow> nat" where
  "PlcClient_tagCount plc = foldl (\<lambda>n u. if u then n + 1 else n) 0 (plc_inUse plc)"

end
