(* ===== verification/PlcInv.thy ===== *)
theory PlcInv
  imports PlcClient
begin

text \<open>
  The invariant of the client, the calls a sketch and its callbacks can make, and the states they
  reach. The invariant holds across every public operation, with callbacks that call back into the
  client in the middle of a poll.
\<close>

subsection \<open>What the operations on the connection leave alone\<close>

lemma nth_update_if: "xs[k := v] ! i = (if i = k \<and> k < length xs then v else xs ! i)"
  by (cases "k < length xs") (auto simp: nth_list_update list_update_beyond)

lemma tcp_fault [simp]:
  "net_fault (TcpConnection_close os c net) = net_fault net"
  by (simp add: TcpConnection_close_def Let_def)

lemma TcpConnection_connect_fault:
  "TcpConnection_connect os c ip port t net = (st, net') \<Longrightarrow> net_fault net' = net_fault net"
  by (auto simp: TcpConnection_connect_def Let_def millis_def split: prod.splits if_splits)

lemma TcpConnection_poll_fault:
  "TcpConnection_poll os c net = (st, net') \<Longrightarrow> net_fault net' = net_fault net"
  by (auto simp: TcpConnection_poll_def Let_def millis_def split: prod.splits if_splits)

lemma Session_open_fault:
  assumes "Session_open os c t s net = (st, s', net')"
  shows "net_fault net' = net_fault net"
  using Session_open_net [OF assms] millis_fault by blast

lemma ExplicitMessage_send_fault:
  assumes "ExplicitMessage_send os c h service path pathLen data dataLen timeoutMs m net = (st, m', net')"
  shows "net_fault net' = net_fault net"
  using ExplicitMessage_send_net [OF assms] millis_fault by blast

lemma Tag_read_fault:
  assumes "Tag_read os c h name n timeoutMs t msg net = (st, t', msg', net')"
  shows "net_fault net' = net_fault net"
  using assms ExplicitMessage_send_fault
  by (fastforce simp: Tag_read_def Tag_startRead_def Let_def split: option.splits if_splits prod.splits)

lemma Tag_write_fault:
  assumes "Tag_write os c h name n timeoutMs t msg net = (st, t', msg', net')"
  shows "net_fault net' = net_fault net"
  using assms ExplicitMessage_send_fault
  by (fastforce simp: Tag_write_def Tag_startWrite_def Let_def split: option.splits if_splits prod.splits)

lemma Tag_poll_fault:
  assumes "em_inv msg" and "Tag_poll os t msg net = (st, t', msg', net')"
  shows "net_fault net' = net_fault net"
proof (cases "tag_waiting t")
  case False
  with assms(2) Tag_poll_settled [OF False, of os msg net] show ?thesis
    by simp
next
  case True
  then obtain st0 where "ExplicitMessage_poll os msg net = (st0, msg', net')"
    using assms(2) by (auto simp: Tag_poll_finish split: prod.splits)
  with ExplicitMessage_poll_frame [OF assms(1)] show ?thesis
    by (fastforce simp: conn_frame_def)
qed

subsection \<open>The invariant\<close>

text \<open>A tag in use whose last polled status is \<open>Pending\<close> is still in flight.\<close>

definition plc_prev :: "plc_client \<Rightarrow> bool" where
  "plc_prev plc \<longleftrightarrow>
     (\<forall>i < 8. plc_inUse plc ! i \<longrightarrow> plc_tagPrevStatus plc ! i = Pending \<longrightarrow>
        tag_waiting (plc_tags plc ! i))"

text \<open>The pool: eight slots, names of 64 bytes, every tag in order, and the message owned by at most one of them.\<close>

definition plc_pool :: "plc_client \<Rightarrow> bool" where
  "plc_pool plc \<longleftrightarrow>
     length (plc_tags plc) = 8 \<and> length (plc_inUse plc) = 8 \<and> length (plc_tagNames plc) = 8 \<and>
     length (plc_tagElemCount plc) = 8 \<and> length (plc_tagPrevStatus plc) = 8 \<and>
     (\<forall>s \<in> set (plc_tagNames plc). length s = 64) \<and>
     em_inv (plc_msg plc) \<and> (\<forall>t \<in> set (plc_tags plc). tag_inv t) \<and>
     owned tag_waiting em_busy (plc_tags plc) (plc_msg plc) \<and> plc_prev plc"

text \<open>The phase of the client and the phase of its session agree.\<close>

definition plc_phase :: "PlcState \<Rightarrow> SessionState \<Rightarrow> bool" where
  "plc_phase p s \<longleftrightarrow>
     (p = PlcReady \<longrightarrow> s = SesRegistered) \<and>
     (p = PlcRegistering \<longrightarrow> s \<in> {SesRegistering, SesFailed}) \<and>
     (p = PlcDisconnecting \<longrightarrow> s \<in> {SesUnregistering, SesFailed})"

definition plc_inv :: "plc_client \<Rightarrow> 'w net \<Rightarrow> bool" where
  "plc_inv plc net \<longleftrightarrow>
     plc_pool plc \<and> Session_inv (plc_session plc) \<and>
     plc_phase (plc_state plc) (ses_state (plc_session plc)) \<and> \<not> net_fault net"

lemma plc_phase_other [simp]:
  "p \<in> {PlcIdle, PlcEthernet, PlcConnecting, PlcFailed} \<Longrightarrow> plc_phase p s"
  by (auto simp: plc_phase_def)

lemma plc_inv_net: "plc_inv plc net \<Longrightarrow> net_fault net' = net_fault net \<Longrightarrow> plc_inv plc net'"
  by (simp add: plc_inv_def)

text \<open>Changes the pool does not see, and changes of one tag and the message.\<close>

lemma plc_pool_cong:
  "plc_tags plc' = plc_tags plc \<Longrightarrow> plc_inUse plc' = plc_inUse plc \<Longrightarrow>
    plc_tagNames plc' = plc_tagNames plc \<Longrightarrow> plc_tagElemCount plc' = plc_tagElemCount plc \<Longrightarrow>
    plc_tagPrevStatus plc' = plc_tagPrevStatus plc \<Longrightarrow> plc_msg plc' = plc_msg plc \<Longrightarrow>
    plc_pool plc' = plc_pool plc"
  by (simp add: plc_pool_def plc_prev_def)

lemma set_list_update_all: "(\<forall>x \<in> set xs. P x) \<Longrightarrow> P y \<Longrightarrow> \<forall>x \<in> set (xs[i := y]). P x"
  using set_update_subset_insert [of xs i y] by auto

lemma plc_pool_tag:
  assumes "plc_pool plc" and "em_inv msg" and "tag_inv t"
    and "owned tag_waiting em_busy ((plc_tags plc)[i := t]) msg"
    and "plc_tags plc' = (plc_tags plc)[i := t]" and "plc_msg plc' = msg"
    and "plc_inUse plc' = plc_inUse plc" and "plc_tagNames plc' = plc_tagNames plc"
    and "plc_tagElemCount plc' = plc_tagElemCount plc"
    and "length (plc_tagPrevStatus plc') = length (plc_tagPrevStatus plc)" and "plc_prev plc'"
  shows "plc_pool plc'"
  using assms set_list_update_all [of "plc_tags plc" tag_inv t i] by (simp add: plc_pool_def)

lemma plc_pool_started:
  assumes "plc_pool plc" and "i < 8" and "tag_started st (plc_tags plc ! i) t (plc_msg plc) msg"
  shows "plc_pool (plc\<lparr>plc_tags := (plc_tags plc)[i := t], plc_msg := msg\<rparr>)"
proof -
  have i: "i < length (plc_tags plc)" "tag_inv (plc_tags plc ! i)"
    using assms(1,2) by (simp_all add: plc_pool_def)
  have o0: "owned tag_waiting em_busy (plc_tags plc) (plc_msg plc)"
    using assms(1) by (simp add: plc_pool_def)
  have "owned tag_waiting em_busy ((plc_tags plc)[i := t]) msg"
  proof (cases "st = Pending")
    case True
    with assms(3) show ?thesis
      by (intro owned_start [OF o0 i(1)]) (auto simp: tag_started_def)
  next
    case False
    with assms(3) show ?thesis
      by (intro owned_same [OF o0 i(1)]) (auto simp: tag_started_def)
  qed
  moreover have "plc_prev (plc\<lparr>plc_tags := (plc_tags plc)[i := t], plc_msg := msg\<rparr>)"
    using assms by (auto simp: plc_pool_def plc_prev_def nth_update_if tag_started_def)
  ultimately show ?thesis
    using assms i by (intro plc_pool_tag [OF assms(1)]) (auto simp: tag_started_def)
qed

subsection \<open>The calls\<close>

text \<open>
  Through the pointer \<open>tag()\<close> returns, the sketch sets the data type and the data of a tag.
\<close>

definition tag_edit :: "(tag \<Rightarrow> tag) \<Rightarrow> bool" where
  "tag_edit f \<longleftrightarrow> (\<forall>t. tag_state (f t) = tag_state t \<and> (tag_inv t \<longrightarrow> tag_inv (f t)))"

datatype plc_call =
    PcBegin client_config | PcConnect IPAddress u16 u32 | PcDisconnect
  | PcCreateTag "cstring option" u32 | PcDestroyTag int | PcRead int u32 | PcWrite int u32
  | PcAbortTag int | PcEditTag int "tag \<Rightarrow> tag" | PcSetTagCallback "nat option" nat
  | PcSetStateCallback "nat option" nat

fun plc_call_ok :: "plc_call \<Rightarrow> bool" where
  "plc_call_ok (PcEditTag h f) = tag_edit f"
| "plc_call_ok _ = True"

fun PlcClient_call ::
  "'w os \<Rightarrow> 'w eth \<Rightarrow> plc_call \<Rightarrow> plc_client \<times> 'w net \<Rightarrow> plc_client \<times> 'w net" where
  "PlcClient_call os eth (PcBegin cfg) (plc, net) = snd (PlcClient_begin eth cfg plc net)"
| "PlcClient_call os eth (PcConnect ip port t) (plc, net) = snd (PlcClient_connect os ip port t plc net)"
| "PlcClient_call os eth PcDisconnect (plc, net) = snd (PlcClient_disconnect os plc net)"
| "PlcClient_call os eth (PcCreateTag name n) (plc, net) = (snd (PlcClient_createTag name n plc), net)"
| "PlcClient_call os eth (PcDestroyTag h) (plc, net) = (snd (PlcClient_destroyTag h plc), net)"
| "PlcClient_call os eth (PcRead h t) (plc, net) = snd (PlcClient_read os h t plc net)"
| "PlcClient_call os eth (PcWrite h t) (plc, net) = snd (PlcClient_write os h t plc net)"
| "PlcClient_call os eth (PcAbortTag h) (plc, net) = (snd (PlcClient_abortTag h plc), net)"
| "PlcClient_call os eth (PcEditTag h f) (plc, net) =
     (case PlcClient_tag h plc of
        None \<Rightarrow> (plc, net)
      | Some i \<Rightarrow> (plc\<lparr>plc_tags := (plc_tags plc)[i := f (plc_tags plc ! i)]\<rparr>, net))"
| "PlcClient_call os eth (PcSetTagCallback f u) (plc, net) = (PlcClient_setTagCallback f u plc, net)"
| "PlcClient_call os eth (PcSetStateCallback f u) (plc, net) = (PlcClient_setStateCallback f u plc, net)"

lemma plc_handle:
  assumes "plc_pool plc" and "PlcClient_validHandle h plc"
  shows "nat h < 8"
  using assms(2) by (auto simp: PlcClient_validHandle_def)

lemma plc_pool_i:
  assumes "plc_pool plc" and "i < 8"
  shows "i < length (plc_tags plc)" "tag_inv (plc_tags plc ! i)" "em_inv (plc_msg plc)"
    "owned tag_waiting em_busy (plc_tags plc) (plc_msg plc)"
  using assms by (simp_all add: plc_pool_def)

lemma find_free_range:
  "find_free us i = h \<Longrightarrow> h \<noteq> -1 \<Longrightarrow> int i \<le> h \<and> h < int (i + length us) \<and> \<not> us ! (nat h - i)"
  by (induction us arbitrary: i) (force split: if_splits simp: nth_Cons' not_le)+

lemma PlcClient_read_pool:
  assumes "plc_pool plc" and "PlcClient_read os h t plc net = (st, plc', net')"
  shows "plc_pool plc'" and "plc_session plc' = plc_session plc" and "plc_state plc' = plc_state plc"
    and "net_fault net' = net_fault net"
proof -
  show "plc_session plc' = plc_session plc" "plc_state plc' = plc_state plc"
    using assms(2) by (auto simp: PlcClient_read_def Let_def split: if_splits prod.splits)
  show "net_fault net' = net_fault net"
    using assms(2) Tag_read_fault
    by (fastforce simp: PlcClient_read_def Let_def split: if_splits prod.splits)
  show "plc_pool plc'"
  proof (cases "PlcClient_validHandle h plc \<and> plc_state plc = PlcReady \<and> \<not> PlcClient_anyTagBusy plc")
    case False
    with assms show ?thesis
      by (auto simp: PlcClient_read_def split: if_splits)
  next
    case True
    obtain st1 tg msg net1 where r: "Tag_read os (plc_tcp plc) (ses_handle (plc_session plc))
        (Some (c_string (plc_tagNames plc ! nat h))) (plc_tagElemCount plc ! nat h) t
        (plc_tags plc ! nat h) (plc_msg plc) net = (st1, tg, msg, net1)"
      by (metis prod_cases4)
    have i: "nat h < 8"
      using assms(1) True plc_handle by blast
    have "plc' = plc\<lparr>plc_tags := (plc_tags plc)[nat h := tg], plc_msg := msg\<rparr>"
      using assms(2) True r by (auto simp: PlcClient_read_def)
    with plc_pool_started [OF assms(1) i Tag_read_started [OF plc_pool_i(3) [OF assms(1) i] r]]
    show ?thesis by simp
  qed
qed

lemma PlcClient_write_pool:
  assumes "plc_pool plc" and "PlcClient_write os h t plc net = (st, plc', net')"
  shows "plc_pool plc'" and "plc_session plc' = plc_session plc" and "plc_state plc' = plc_state plc"
    and "net_fault net' = net_fault net"
proof -
  show "plc_session plc' = plc_session plc" "plc_state plc' = plc_state plc"
    using assms(2) by (auto simp: PlcClient_write_def Let_def split: if_splits prod.splits)
  show "net_fault net' = net_fault net"
    using assms(2) Tag_write_fault
    by (fastforce simp: PlcClient_write_def Let_def split: if_splits prod.splits)
  show "plc_pool plc'"
  proof (cases "PlcClient_validHandle h plc \<and> plc_state plc = PlcReady \<and> \<not> PlcClient_anyTagBusy plc")
    case False
    with assms show ?thesis
      by (auto simp: PlcClient_write_def split: if_splits)
  next
    case True
    obtain st1 tg msg net1 where r: "Tag_write os (plc_tcp plc) (ses_handle (plc_session plc))
        (Some (c_string (plc_tagNames plc ! nat h))) (plc_tagElemCount plc ! nat h) t
        (plc_tags plc ! nat h) (plc_msg plc) net = (st1, tg, msg, net1)"
      by (metis prod_cases4)
    have i: "nat h < 8"
      using assms(1) True plc_handle by blast
    note p = plc_pool_i [OF assms(1) i]
    have "plc' = plc\<lparr>plc_tags := (plc_tags plc)[nat h := tg], plc_msg := msg\<rparr>"
      using assms(2) True r by (auto simp: PlcClient_write_def)
    with plc_pool_started [OF assms(1) i Tag_write_started [OF p(3,2) r]] show ?thesis
      by simp
  qed
qed

lemma PlcClient_createTag_pool:
  assumes "plc_pool plc" and "PlcClient_createTag name n plc = (h, plc')"
  shows "plc_pool plc' \<and> plc_session plc' = plc_session plc \<and> plc_state plc' = plc_state plc"
  using assms set_list_update_all [of "plc_tagNames plc" "\<lambda>s. length s = 64" "name_slot _"]
  by (auto simp: PlcClient_createTag_def plc_pool_def plc_prev_def nth_update_if Let_def
      split: option.splits if_split_asm)

lemma PlcClient_abortTag_pool:
  assumes "plc_pool plc" and "PlcClient_abortTag h plc = (st, plc')"
  shows "plc_pool plc'" and "plc_session plc' = plc_session plc" and "plc_state plc' = plc_state plc"
proof -
  show "plc_session plc' = plc_session plc" "plc_state plc' = plc_state plc"
    using assms(2) by (auto simp: PlcClient_abortTag_def Let_def split: if_splits prod.splits)
  show "plc_pool plc'"
  proof (cases "PlcClient_validHandle h plc")
    case False
    with assms show ?thesis
      by (simp add: PlcClient_abortTag_def)
  next
    case True
    obtain tg msg where a: "Tag_abort (plc_tags plc ! nat h) (plc_msg plc) = (tg, msg)"
      by fastforce
    have i: "nat h < 8"
      using assms(1) True plc_handle by blast
    note p = plc_pool_i [OF assms(1) i]
    have "plc' = plc\<lparr>plc_tags := (plc_tags plc)[nat h := tg], plc_msg := msg,
        plc_tagPrevStatus := (plc_tagPrevStatus plc)[nat h := NotReady]\<rparr>"
      using assms(2) True a by (auto simp: PlcClient_abortTag_def Let_def)
    moreover have "owned tag_waiting em_busy ((plc_tags plc)[nat h := tg]) msg"
      using tag_pool.owned_cabort [where os = loopback_os, OF p(4) _ p(1) a] p(3) by simp
    moreover from calculation(1) have "plc_prev plc'"
      using assms(1) by (auto simp: plc_pool_def plc_prev_def nth_update_if)
    ultimately show ?thesis
      using Tag_abort_inv [OF p(3,2) a] by (intro plc_pool_tag [OF assms(1)]) simp_all
  qed
qed

lemma PlcClient_edit_pool:
  assumes "plc_pool plc" and "tag_edit f" and "i < 8"
  shows "plc_pool (plc\<lparr>plc_tags := (plc_tags plc)[i := f (plc_tags plc ! i)]\<rparr>)"
proof -
  note p = plc_pool_i [OF assms(1,3)]
  have "owned tag_waiting em_busy ((plc_tags plc)[i := f (plc_tags plc ! i)]) (plc_msg plc)"
    using assms(2) by (intro owned_same [OF p(4,1)]) (auto simp: tag_edit_def tag_waiting_def)
  moreover have "plc_prev (plc\<lparr>plc_tags := (plc_tags plc)[i := f (plc_tags plc ! i)]\<rparr>)"
    using assms by (auto simp: plc_pool_def plc_prev_def nth_update_if tag_edit_def tag_waiting_def)
  ultimately show ?thesis
    using p assms(2) by (intro plc_pool_tag [OF assms(1)]) (auto simp: tag_edit_def)
qed

text \<open>Every call keeps the invariant.\<close>

lemma plc_phase_session:
  "plc_phase p s \<Longrightarrow> p \<noteq> PlcReady \<Longrightarrow> p \<noteq> PlcRegistering \<Longrightarrow> p \<noteq> PlcDisconnecting \<Longrightarrow> plc_phase p s'"
  by (simp add: plc_phase_def)

lemma PlcClient_begin_inv:
  assumes "plc_inv plc net" and "PlcClient_begin eth cfg plc net = (st, plc', net')"
  shows "plc_inv plc' net'"
proof -
  obtain cl where b: "Client_begin eth cfg (plc_eth plc) net = (st, cl, net')"
    and plc': "plc' = plc\<lparr>plc_state := PlcEthernet, plc_wantConnect := False, plc_eth := cl\<rparr>"
    using assms(2) by (auto simp: PlcClient_begin_def Let_def split: prod.splits)
  have "plc_pool plc' = plc_pool plc"
    by (rule plc_pool_cong) (simp_all add: plc')
  with assms(1) Client_begin_only_os [OF b] show ?thesis
    by (simp add: plc_inv_def plc' only_os_def)
qed

lemma PlcClient_connect_inv:
  assumes "plc_inv plc net" and "PlcClient_connect os ip port t plc net = (st, plc', net')"
  shows "plc_inv plc' net'"
proof -
  have pool: "plc_pool plc' = plc_pool plc"
    using assms(2) by (intro plc_pool_cong) (auto simp: PlcClient_connect_def Let_def split: prod.splits if_splits)
  have "plc_state plc' \<in> {PlcEthernet, PlcConnecting, PlcFailed}"
    using assms(2) by (auto simp: PlcClient_connect_def Let_def split: prod.splits if_splits)
  moreover have "Session_inv (plc_session plc')"
    using assms Session_abort_inv
    by (auto simp: plc_inv_def PlcClient_connect_def Let_def split: prod.splits if_splits)
  moreover have "net_fault net' = net_fault net"
    using assms(2) TcpConnection_connect_fault
    by (fastforce simp: PlcClient_connect_def Let_def millis_def split: prod.splits if_splits)
  ultimately show ?thesis
    using assms(1) pool by (auto simp: plc_inv_def)
qed

lemma PlcClient_disconnect_inv:
  assumes "plc_inv plc net" and "PlcClient_disconnect os plc net = (st, plc', net')"
  shows "plc_inv plc' net'"
proof -
  have pool: "plc_pool plc' = plc_pool plc"
    using assms(2) by (intro plc_pool_cong) (auto simp: PlcClient_disconnect_def split: prod.splits if_splits)
  show ?thesis
  proof (cases "plc_state plc = PlcReady")
    case True
    obtain s1 ses where c: "Session_close (plc_session plc) = (s1, ses)" by fastforce
    have "ses_state (plc_session plc) = SesRegistered"
      using assms(1) True by (simp add: plc_inv_def plc_phase_def)
    with c have "ses_state ses = SesUnregistering"
      by (auto simp: Session_close_def Session_startUnregister_def Let_def)
    with assms True c pool Session_close_inv [OF _ c] show ?thesis
      by (auto simp: PlcClient_disconnect_def plc_inv_def plc_phase_def)
  next
    case False
    with assms pool Session_abort_inv show ?thesis
      by (auto simp: PlcClient_disconnect_def plc_inv_def)
  qed
qed

lemma PlcClient_call_inv:
  assumes "plc_inv plc net" and "plc_call_ok call"
    and "PlcClient_call os eth call (plc, net) = (plc', net')"
  shows "plc_inv plc' net'"
proof (cases call)
  case (PcBegin cfg)
  obtain st p1 n1 where "PlcClient_begin eth cfg plc net = (st, p1, n1)"
    by (metis prod_cases3)
  with PlcClient_begin_inv [OF assms(1) this] assms(3) PcBegin show ?thesis by simp
next
  case (PcConnect ip port t)
  obtain st p1 n1 where "PlcClient_connect os ip port t plc net = (st, p1, n1)"
    by (metis prod_cases3)
  with PlcClient_connect_inv [OF assms(1) this] assms(3) PcConnect show ?thesis by simp
next
  case PcDisconnect
  obtain st p1 n1 where "PlcClient_disconnect os plc net = (st, p1, n1)"
    by (metis prod_cases3)
  with PlcClient_disconnect_inv [OF assms(1) this] assms(3) PcDisconnect show ?thesis by simp
next
  case (PcCreateTag name n)
  obtain h p1 where "PlcClient_createTag name n plc = (h, p1)" by fastforce
  with PlcClient_createTag_pool [OF _ this] assms PcCreateTag show ?thesis
    by (simp add: plc_inv_def)
next
  case (PcDestroyTag h)
  with assms show ?thesis
    by (auto simp: PlcClient_destroyTag_def plc_inv_def plc_pool_def plc_prev_def nth_update_if
        split: if_splits)
next
  case (PcRead h t)
  obtain st p1 n1 where r: "PlcClient_read os h t plc net = (st, p1, n1)"
    by (metis prod_cases3)
  have P: "plc_pool plc"
    using assms(1) by (simp add: plc_inv_def)
  from PlcClient_read_pool [OF P r] assms r PcRead show ?thesis
    by (simp add: plc_inv_def)
next
  case (PcWrite h t)
  obtain st p1 n1 where r: "PlcClient_write os h t plc net = (st, p1, n1)"
    by (metis prod_cases3)
  have P: "plc_pool plc"
    using assms(1) by (simp add: plc_inv_def)
  from PlcClient_write_pool [OF P r] assms r PcWrite show ?thesis
    by (simp add: plc_inv_def)
next
  case (PcAbortTag h)
  obtain st p1 where r: "PlcClient_abortTag h plc = (st, p1)" by fastforce
  have P: "plc_pool plc"
    using assms(1) by (simp add: plc_inv_def)
  from PlcClient_abortTag_pool [OF P r] assms r PcAbortTag show ?thesis
    by (simp add: plc_inv_def)
next
  case (PcEditTag h f)
  have P: "plc_pool plc"
    using assms(1) by (simp add: plc_inv_def)
  have "nat h < 8" if "PlcClient_validHandle h plc"
    using P that by (rule plc_handle)
  with PlcClient_edit_pool [OF P, of f "nat h"] assms PcEditTag show ?thesis
    by (auto simp: plc_inv_def PlcClient_tag_def split: if_splits)
next
  case (PcSetTagCallback f u)
  with assms plc_pool_cong [of plc' plc] show ?thesis
    by (auto simp: plc_inv_def PlcClient_setTagCallback_def)
next
  case (PcSetStateCallback f u)
  with assms plc_pool_cong [of plc' plc] show ?thesis
    by (auto simp: plc_inv_def PlcClient_setStateCallback_def)
qed

text \<open>
  One step of the sketch: a call, or time passing in the world. A callback is any finite number of
  them. It does not call \<open>poll()\<close>, which is what calls it.
\<close>

inductive plc_step :: "'w os \<Rightarrow> 'w eth \<Rightarrow> plc_client \<times> 'w net \<Rightarrow> plc_client \<times> 'w net \<Rightarrow> bool"
  for os eth where
  call: "plc_call_ok call \<Longrightarrow> plc_step os eth s (PlcClient_call os eth call s)"
| world: "plc_step os eth (plc, net) (plc, net\<lparr>net_os := w\<rparr>)"

definition callbacks_ok :: "'w os \<Rightarrow> 'w eth \<Rightarrow> 'w callbacks \<Rightarrow> bool" where
  "callbacks_ok os eth cb \<longleftrightarrow>
     (\<forall>f h st u s. (plc_step os eth)\<^sup>*\<^sup>* s (cb_tag cb f h st u s)) \<and>
     (\<forall>f st u s. (plc_step os eth)\<^sup>*\<^sup>* s (cb_state cb f st u s))"

lemma plc_step_inv: "plc_step os eth s s' \<Longrightarrow> plc_inv (fst s) (snd s) \<Longrightarrow> plc_inv (fst s') (snd s')"
  by (induction rule: plc_step.induct)
    (auto intro: PlcClient_call_inv [rotated 2] plc_inv_net simp: prod_eq_iff)

lemma plc_steps_inv:
  "(plc_step os eth)\<^sup>*\<^sup>* s s' \<Longrightarrow> plc_inv (fst s) (snd s) \<Longrightarrow> plc_inv (fst s') (snd s')"
  by (induction rule: rtranclp_induct) (auto intro: plc_step_inv)

lemma call_tag_inv:
  assumes "callbacks_ok os eth cb" and "plc_inv plc net" and "call_tag cb i st (plc, net) = (plc', net')"
  shows "plc_inv plc' net'"
proof -
  have "(plc_step os eth)\<^sup>*\<^sup>* (plc, net) (plc', net')"
    using assms(1,3) unfolding callbacks_ok_def call_tag_def
    by (cases "plc_tagCallback plc") (auto, metis)
  from plc_steps_inv [OF this] assms(2) show ?thesis by simp
qed

lemma call_state_inv:
  assumes "callbacks_ok os eth cb" and "plc_inv plc net" and "call_state cb st (plc, net) = (plc', net')"
  shows "plc_inv plc' net'"
proof -
  have "(plc_step os eth)\<^sup>*\<^sup>* (plc, net) (plc', net')"
    using assms(1,3) unfolding callbacks_ok_def call_state_def
    by (cases "plc_stateCallback plc") (auto, metis)
  from plc_steps_inv [OF this] assms(2) show ?thesis by simp
qed

subsection \<open>Poll\<close>

text \<open>What one turn of the loop over the pool does, before the callback.\<close>

lemma PlcClient_pollTag_unfold:
  assumes "plc_inv plc net" and "socket_contract os" and "i < 8" and "plc_inUse plc ! i"
    and "Tag_poll os (plc_tags plc ! i) (plc_msg plc) net = (st, t, msg, net1)"
    and "plc1 = plc\<lparr>plc_tags := (plc_tags plc)[i := t], plc_msg := msg,
                     plc_tagPrevStatus := (plc_tagPrevStatus plc)[i := st]\<rparr>"
  shows "PlcClient_pollTag os cb i (d, plc, net) =
      (d \<or> st = Closed, if plc_tagPrevStatus plc ! i = Pending \<and> st \<noteq> Pending
                        then call_tag cb i st (plc1, net1) else (plc1, net1))"
    and "plc_inv plc1 net1" and "st = Pending \<longleftrightarrow> tag_waiting t"
proof -
  show "PlcClient_pollTag os cb i (d, plc, net) =
      (d \<or> st = Closed, if plc_tagPrevStatus plc ! i = Pending \<and> st \<noteq> Pending
                        then call_tag cb i st (plc1, net1) else (plc1, net1))"
    using assms(4-6) by (simp add: PlcClient_pollTag_def Let_def)
  have P: "plc_pool plc"
    using assms(1) by (simp add: plc_inv_def)
  note p = plc_pool_i [OF P assms(3)]
  have o1: "owned tag_waiting em_busy ((plc_tags plc)[i := t]) msg \<and> (socket_contract os \<and> em_inv msg) \<and>
      (st = Pending \<longleftrightarrow> tag_waiting t)"
    using tag_pool.owned_cpoll [OF p(4) _ p(1) assms(5)] assms(2) p(3) by blast
  then show "st = Pending \<longleftrightarrow> tag_waiting t" by blast
  have "plc_prev plc1"
    using P o1 assms(3,6) by (auto simp: plc_pool_def plc_prev_def nth_update_if)
  then have "plc_pool plc1"
    using o1 Tag_poll_inv [OF assms(2) p(3,2) assms(5)] assms(6)
    by (intro plc_pool_tag [OF P]) auto
  with assms(1,6) Tag_poll_fault [OF p(3) assms(5)] show "plc_inv plc1 net1"
    by (simp add: plc_inv_def)
qed

lemma PlcClient_pollTag_inv:
  assumes "callbacks_ok os eth cb" and "socket_contract os" and "plc_inv plc net" and "i < 8"
    and "PlcClient_pollTag os cb i (d, plc, net) = (d', plc', net')"
  shows "plc_inv plc' net'"
proof (cases "plc_inUse plc ! i")
  case False
  with assms(3,5) show ?thesis
    by (simp add: PlcClient_pollTag_def)
next
  case True
  obtain st t msg net1 where r: "Tag_poll os (plc_tags plc ! i) (plc_msg plc) net = (st, t, msg, net1)"
    by (metis prod_cases4)
  note u = PlcClient_pollTag_unfold [OF assms(3,2,4) True r refl]
  show ?thesis
    using assms(5) u(2) call_tag_inv [OF assms(1) u(2)] by (auto simp: u(1) split: if_splits)
qed

lemma PlcClient_pollTags_inv:
  assumes "callbacks_ok os eth cb" and "socket_contract os" and "plc_inv plc net" and "\<forall>i \<in> set is. i < 8"
    and "fold (PlcClient_pollTag os cb) is (d, plc, net) = (d', plc', net')"
  shows "plc_inv plc' net'"
  using assms(3-5)
proof (induction "is" arbitrary: d plc net)
  case Nil
  then show ?case by simp
next
  case (Cons i rest)
  obtain d1 plc1 net1 where r: "PlcClient_pollTag os cb i (d, plc, net) = (d1, plc1, net1)"
    by (metis prod_cases3)
  have "plc_inv plc1 net1"
    using PlcClient_pollTag_inv [OF assms(1,2) Cons.prems(1) _ r] Cons.prems(2) by simp
  with Cons.IH [OF this, of d1] Cons.prems(2,3) r show ?case
    by simp
qed

lemma PlcClient_pollReady_inv:
  assumes "callbacks_ok os eth cb" and "socket_contract os" and "plc_inv plc net"
    and "PlcClient_pollReady os cb plc net = (st, plc', net')"
  shows "plc_inv plc' net'"
proof -
  obtain d plc1 net1 where f: "fold (PlcClient_pollTag os cb) [0..<plc_kMaxTags] (False, plc, net) =
      (d, plc1, net1)"
    by (metis prod_cases3)
  have I: "plc_inv plc1 net1"
    using PlcClient_pollTags_inv [OF assms(1-3) _ f] by simp
  let ?p = "plc1\<lparr>plc_session := Session_abort (plc_session plc1), plc_state := PlcIdle\<rparr>"
  have "plc_pool ?p = plc_pool plc1"
    by (rule plc_pool_cong) simp_all
  then have C: "plc_inv ?p (TcpConnection_close os (plc_tcp plc1) net1)"
    using I Session_abort_inv by (simp add: plc_inv_def)
  have "(plc', net') = (if d then call_state cb Closed (?p, TcpConnection_close os (plc_tcp plc1) net1)
      else (plc1, net1))"
    using assms(4) [unfolded PlcClient_pollReady_def f prod.case] by (auto split: if_splits)
  with I call_state_inv [OF assms(1) C] show ?thesis
    by (auto split: if_splits)
qed

lemma PlcClient_pollEthernet_inv:
  assumes "plc_inv plc net" and "plc_state plc = PlcEthernet"
    and "PlcClient_pollEthernet os eth plc net = (st, plc', net')"
  shows "plc_inv plc' net'"
proof -
  obtain st1 cl net1 where p: "Client_poll eth (plc_eth plc) net = (st1, cl, net1)"
    by (metis prod_cases3)
  obtain now net2 where m: "millis os net1 = (now, net2)" by fastforce
  obtain cst net3 where c: "TcpConnection_connect os (plc_tcp plc) (plc_remoteIp plc)
      (plc_remotePort plc) (plc_connectTimeoutMs plc) net2 = (cst, net3)" by fastforce
  have I: "Session_inv (plc_session plc)" "\<not> net_fault net" "plc_pool plc"
    using assms(1) by (simp_all add: plc_inv_def)
  have fault: "\<not> net_fault net1" "\<not> net_fault net3"
    using I(2) Client_poll_only_os [OF p] millis_fault [OF m] TcpConnection_connect_fault [OF c]
    by (simp_all add: only_os_def)
  have "plc_pool plc' = plc_pool plc" and "plc_session plc' = plc_session plc"
    and "plc_state plc' \<in> {PlcEthernet, PlcConnecting, PlcFailed}" and "net' \<in> {net1, net3}"
    using assms(2,3) p m c
    by (auto simp: PlcClient_pollEthernet_def Let_def plc_pool_def plc_prev_def split: if_splits)
  with I fault show ?thesis
    by (auto simp: plc_inv_def)
qed

lemma PlcClient_pollConnecting_inv:
  assumes "plc_inv plc net" and "plc_state plc = PlcConnecting"
    and "PlcClient_pollConnecting os plc net = (st, plc', net')"
  shows "plc_inv plc' net'"
proof -
  obtain now net0 where m: "millis os net = (now, net0)" by fastforce
  obtain st1 net1 where p: "TcpConnection_poll os (plc_tcp plc) net0 = (st1, net1)" by fastforce
  obtain now2 net2 where m2: "millis os net1 = (now2, net2)" by fastforce
  obtain st3 ses net3 where o: "Session_open os (plc_tcp plc) (plc_deadline plc - now2)
      (plc_session plc) net2 = (st3, ses, net3)"
    by (metis prod_cases3)
  note run = assms(3) [unfolded PlcClient_pollConnecting_def m p m2 o prod.case Let_def]
  have I: "Session_inv (plc_session plc)" "\<not> net_fault net" "plc_pool plc"
    using assms(1) by (simp_all add: plc_inv_def)
  have fault: "\<not> net_fault net0" "\<not> net_fault net1" "\<not> net_fault net2" "\<not> net_fault net3"
    using I(2) millis_fault [OF m] TcpConnection_poll_fault [OF p] millis_fault [OF m2]
      Session_open_fault [OF o] by simp_all
  have I1: "Session_inv ses"
    using I(1) o by (rule Session_open_inv)
  have R: "ses_state ses = SesRegistering" if "st3 = Pending"
    using Session_open_registering(2) [OF I(1)] o that by blast
  have pool: "plc_pool (plc\<lparr>plc_state := x\<rparr>)" "plc_pool (plc\<lparr>plc_session := ses, plc_state := x\<rparr>)" for x
    using I(3) by (simp_all add: plc_pool_def plc_prev_def)
  show ?thesis
    using run fault I I1 R pool assms(2)
    by (auto simp: plc_inv_def plc_phase_def split: if_splits)
qed

lemma Session_poll_registering_cases:
  assumes "socket_contract os" and "Session_inv s" and "ses_state s \<in> {SesRegistering, SesFailed}"
    and "Session_poll os s net = (st, s', net')"
  shows "if st = Ok then ses_state s' = SesRegistered else ses_state s' \<in> {SesRegistering, SesFailed}"
  using Session_poll_spec [OF assms(1,2,4)] assms(3)
  by (auto elim: session_spec.cases)

lemma Session_poll_unregistering_cases:
  assumes "socket_contract os" and "Session_inv s" and "ses_state s \<in> {SesUnregistering, SesFailed}"
    and "Session_poll os s net = (st, s', net')"
  shows "st = Ok \<or> ses_state s' \<in> {SesUnregistering, SesFailed}"
  using Session_poll_spec [OF assms(1,2,4)] assms(3)
  by (auto elim: session_spec.cases)

lemma PlcClient_pollRegistering_inv:
  assumes "callbacks_ok os eth cb" and "socket_contract os" and "plc_inv plc net"
    and "plc_state plc = PlcRegistering" and "PlcClient_pollRegistering os cb plc net = (st, plc', net')"
  shows "plc_inv plc' net'"
proof -
  obtain now net0 where m: "millis os net = (now, net0)" by fastforce
  obtain st1 ses net1 where p: "Session_poll os (plc_session plc) net0 = (st1, ses, net1)"
    by (metis prod_cases3)
  have I: "Session_inv (plc_session plc)" "ses_state (plc_session plc) \<in> {SesRegistering, SesFailed}"
    using assms(3,4) by (auto simp: plc_inv_def plc_phase_def)
  have fault: "net_fault net0 = net_fault net" "net_fault net1 = net_fault net"
    using millis_fault [OF m] Session_poll_fault [OF I(1) p] by simp_all
  have I1: "Session_inv ses"
    using Session_poll_inv [OF assms(2) I(1) p] .
  note ph = Session_poll_registering_cases [OF assms(2) I p]
  have pool: "plc_pool (plc\<lparr>plc_session := ses, plc_state := x\<rparr>)" "plc_pool (plc\<lparr>plc_state := x\<rparr>)"
      "plc_pool (plc\<lparr>plc_session := ses\<rparr>)" for x
    using assms(3) by (auto simp: plc_inv_def plc_pool_def plc_prev_def)
  have base: "\<not> net_fault net" "plc_pool plc"
    using assms(3) by (simp_all add: plc_inv_def)
  show ?thesis
  proof (cases "expired now (plc_deadline plc)")
    case True
    with assms(5) m I fault pool base show ?thesis
      by (auto simp: PlcClient_pollRegistering_def plc_inv_def)
  next
    case late: False
    show ?thesis
    proof (cases "st1 = Ok")
      case True
      have R: "plc_inv (plc\<lparr>plc_session := ses, plc_state := PlcReady\<rparr>) net1"
        using I1 ph True pool fault base by (simp add: plc_inv_def plc_phase_def)
      have "call_state cb Ok (plc\<lparr>plc_session := ses, plc_state := PlcReady\<rparr>, net1) = (plc', net')"
        using assms(5) m p late True by (auto simp: PlcClient_pollRegistering_def)
      from call_state_inv [OF assms(1) R this] show ?thesis .
    next
      case False
      with assms(4,5) m p late I1 ph pool fault base show ?thesis
        by (auto simp: PlcClient_pollRegistering_def plc_inv_def plc_phase_def Let_def split: if_splits)
    qed
  qed
qed

lemma PlcClient_pollDisconnecting_inv:
  assumes "callbacks_ok os eth cb" and "socket_contract os" and "plc_inv plc net"
    and "plc_state plc = PlcDisconnecting"
    and "PlcClient_pollDisconnecting os cb plc net = (st, plc', net')"
  shows "plc_inv plc' net'"
proof -
  obtain st1 ses net1 where p: "Session_poll os (plc_session plc) net = (st1, ses, net1)"
    by (metis prod_cases3)
  have I: "Session_inv (plc_session plc)" "ses_state (plc_session plc) \<in> {SesUnregistering, SesFailed}"
    using assms(3,4) by (auto simp: plc_inv_def plc_phase_def)
  have fault: "net_fault net1 = net_fault net"
    using Session_poll_fault [OF I(1) p] .
  have I1: "Session_inv ses"
    using Session_poll_inv [OF assms(2) I(1) p] .
  note ph = Session_poll_unregistering_cases [OF assms(2) I p]
  have pool: "plc_pool (plc\<lparr>plc_session := ses, plc_state := x\<rparr>)" "plc_pool (plc\<lparr>plc_session := ses\<rparr>)" for x
    using assms(3) by (auto simp: plc_inv_def plc_pool_def plc_prev_def)
  show ?thesis
  proof (cases "st1 = Ok \<or> st1 = Closed")
    case True
    let ?p = "plc\<lparr>plc_session := ses, plc_state := PlcIdle\<rparr>"
    have C: "plc_inv ?p (TcpConnection_close os (plc_tcp plc) net1)"
      using assms(3) I1 pool fault by (simp add: plc_inv_def)
    have "call_state cb Closed (?p, TcpConnection_close os (plc_tcp plc) net1) = (plc', net')"
      using assms(5) p True by (auto simp: PlcClient_pollDisconnecting_def Let_def)
    from call_state_inv [OF assms(1) C this] show ?thesis .
  next
    case False
    with assms p I1 ph pool fault show ?thesis
      by (auto simp: PlcClient_pollDisconnecting_def plc_inv_def plc_phase_def Let_def)
  qed
qed

lemma PlcClient_poll_inv:
  assumes "callbacks_ok os eth cb" and "socket_contract os" and "plc_inv plc net"
    and "PlcClient_poll os eth cb plc net = (st, plc', net')"
  shows "plc_inv plc' net'"
  using assms(3,4) PlcClient_pollEthernet_inv PlcClient_pollConnecting_inv
    PlcClient_pollRegistering_inv [OF assms(1-3)] PlcClient_pollReady_inv [OF assms(1-3)]
    PlcClient_pollDisconnecting_inv [OF assms(1-3)]
  by (cases "plc_state plc") (auto simp: PlcClient_poll_def)

subsection \<open>Reachable clients\<close>

definition plc_fresh :: "plc_client \<Rightarrow> bool" where
  "plc_fresh plc \<longleftrightarrow>
     (\<exists>eth tcp stx srx mtx mrx bufs names.
        plc = PlcClient_new (Client_new eth) tcp (Session_new stx srx) (ExplicitMessage_new mtx mrx)
                (map Tag_new bufs) names \<and>
        length stx = 536 \<and> length srx = 536 \<and> length mtx = 296 \<and> length mrx = 296 \<and>
        length bufs = 8 \<and> (\<forall>b \<in> set bufs. length b = 256) \<and> length names = 8 \<and>
        (\<forall>s \<in> set names. length s = 64))"

inductive plc_reach :: "'w os \<Rightarrow> 'w eth \<Rightarrow> 'w callbacks \<Rightarrow> plc_client \<times> 'w net \<Rightarrow> bool"
  for os eth cb where
  fresh: "plc_fresh plc \<Longrightarrow> \<not> net_fault net \<Longrightarrow> plc_reach os eth cb (plc, net)"
| step: "plc_reach os eth cb s \<Longrightarrow> plc_step os eth s s' \<Longrightarrow> plc_reach os eth cb s'"
| poll: "plc_reach os eth cb (plc, net) \<Longrightarrow> PlcClient_poll os eth cb plc net = (st, plc', net') \<Longrightarrow>
    plc_reach os eth cb (plc', net')"

lemma plc_fresh_inv: "plc_fresh plc \<Longrightarrow> \<not> net_fault net \<Longrightarrow> plc_inv plc net"
  using ExplicitMessage_new_inv
  by (auto simp: plc_fresh_def plc_inv_def plc_pool_def plc_prev_def PlcClient_new_def Session_new_inv
      Tag_new_def tag_inv_def owned_def tag_waiting_def)
    (auto simp: em_busy_def ExplicitMessage_new_def)

lemma plc_reach_inv:
  assumes "callbacks_ok os eth cb" and "socket_contract os" and "plc_reach os eth cb s"
  shows "plc_inv (fst s) (snd s)"
  using assms(3)
proof (induction rule: plc_reach.induct)
  case (fresh plc net)
  then show ?case
    by (simp add: plc_fresh_inv)
next
  case (step s s')
  then show ?case
    using plc_step_inv by blast
next
  case (poll plc net st plc' net')
  then show ?case
    using PlcClient_poll_inv [OF assms(1,2)] by simp
qed

end
