(* ===== verification/PlcReady.thy ===== *)
theory PlcReady
  imports PlcInv
begin

text \<open>
  The poll of a client that is ready: eight tags of which at most one is in flight. The turns of
  the loop over the settled tags only note their status, so the poll is one poll of the tag in
  flight, if there is one.
\<close>

subsection \<open>The turns over settled tags\<close>

definition tag_quiet :: "plc_client \<Rightarrow> nat \<Rightarrow> bool" where
  "tag_quiet plc i \<longleftrightarrow>
     plc_inUse plc ! i \<longrightarrow> \<not> tag_waiting (plc_tags plc ! i) \<and> plc_tagPrevStatus plc ! i \<noteq> Pending"

text \<open>What such turns leave in \<open>tagPrevStatus_\<close>.\<close>

definition noted :: "plc_client \<Rightarrow> nat list \<Rightarrow> Status list \<Rightarrow> bool" where
  "noted plc is prev \<longleftrightarrow>
     length prev = length (plc_tagPrevStatus plc) \<and>
     (\<forall>i < length prev. prev ! i =
        (if i \<in> set is \<and> plc_inUse plc ! i then Tag_status (plc_tags plc ! i)
         else plc_tagPrevStatus plc ! i))"

lemma noted_eq: "noted plc is prev \<Longrightarrow> noted plc is prev' \<Longrightarrow> prev = prev'"
  by (auto simp: noted_def intro: nth_equalityI)

lemma list_update_same_nth: "xs ! i = x \<Longrightarrow> xs[i := x] = xs"
  by auto

lemma Tag_status_settled [simp]: "Tag_status t \<noteq> Closed" "Tag_status t \<noteq> Timeout"
  by (cases "tag_state t"; simp add: Tag_status_def)+

lemma quiet_turn:
  assumes "tag_quiet plc i"
  shows "PlcClient_pollTag os cb i (d, plc, net) =
    (d, if plc_inUse plc ! i
        then plc\<lparr>plc_tagPrevStatus := (plc_tagPrevStatus plc)[i := Tag_status (plc_tags plc ! i)]\<rparr>
        else plc, net)"
  using assms by (auto simp: PlcClient_pollTag_def tag_quiet_def Tag_poll_settled Let_def)

lemma quiet_turns:
  assumes "\<forall>i \<in> set is. tag_quiet plc i" and "distinct is"
  shows "\<exists>prev. fold (PlcClient_pollTag os cb) is (d, plc, net) =
      (d, plc\<lparr>plc_tagPrevStatus := prev\<rparr>, net) \<and> noted plc is prev"
  using assms
proof (induction "is" arbitrary: plc)
  case Nil
  then show ?case
    by (intro exI [of _ "plc_tagPrevStatus plc"]) (simp add: noted_def)
next
  case (Cons i rest)
  let ?p = "if plc_inUse plc ! i
      then plc\<lparr>plc_tagPrevStatus := (plc_tagPrevStatus plc)[i := Tag_status (plc_tags plc ! i)]\<rparr> else plc"
  have q: "\<forall>j \<in> set rest. tag_quiet ?p j"
    using Cons.prems by (auto simp: tag_quiet_def nth_update_if)
  obtain prev where f: "fold (PlcClient_pollTag os cb) rest (d, ?p, net) =
      (d, ?p\<lparr>plc_tagPrevStatus := prev\<rparr>, net)" and n: "noted ?p rest prev"
    using Cons.IH [OF q] Cons.prems(2) by auto
  have "noted plc (i # rest) prev"
    using n Cons.prems(2) by (auto simp: noted_def nth_update_if split: if_splits)
  with f quiet_turn [of plc i os cb d net] Cons.prems(1) show ?case
    by (intro exI [of _ prev]) auto
qed

subsection \<open>One tag in flight\<close>

lemma plc_others_quiet:
  assumes "plc_pool plc" and "h < 8" and "tag_waiting (plc_tags plc ! h)" and "i < 8" and "i \<noteq> h"
  shows "tag_quiet plc i"
proof -
  have "\<not> tag_waiting (plc_tags plc ! i)"
    using assms owned_unique [of tag_waiting em_busy "plc_tags plc" "plc_msg plc" i h]
    by (auto simp: plc_pool_def)
  with assms(1,4) show ?thesis
    by (auto simp: tag_quiet_def plc_pool_def plc_prev_def)
qed

lemma plc_idle_quiet:
  assumes "plc_pool plc" and "\<not> em_busy (plc_msg plc)" and "i < 8"
  shows "tag_quiet plc i"
proof -
  have "\<not> tag_waiting (plc_tags plc ! i)"
    using assms owned_idle [of tag_waiting em_busy "plc_tags plc" "plc_msg plc" i]
    by (auto simp: plc_pool_def)
  with assms(1,3) show ?thesis
    by (auto simp: tag_quiet_def plc_pool_def plc_prev_def)
qed

text \<open>Nothing in flight: a poll notes the status of the tags, and does nothing else.\<close>

lemma PlcClient_pollReady_idle:
  assumes "plc_pool plc" and "\<not> em_busy (plc_msg plc)"
  obtains prev where "PlcClient_pollReady os cb plc net = (Ok, plc\<lparr>plc_tagPrevStatus := prev\<rparr>, net)"
    and "noted plc [0..<8] prev"
proof -
  have "\<forall>i \<in> set [0..<8]. tag_quiet plc i"
    using plc_idle_quiet [OF assms] by simp
  from quiet_turns [OF this, of os cb False net] that show thesis
    by (auto simp: PlcClient_pollReady_def)
qed

text \<open>
  One tag in flight, number \<open>h\<close>: the turn of \<open>h\<close> is the only one that does anything; the callback is
  called if this tag was \<open>Pending\<close> before.
\<close>

lemma PlcClient_pollTags_one:
  assumes "plc_pool plc" and "h < 8" and "plc_inUse plc ! h" and "tag_waiting (plc_tags plc ! h)"
    and "Tag_poll os (plc_tags plc ! h) (plc_msg plc) net = (st, t, msg, net1)"
  obtains prev where
    "fold (PlcClient_pollTag os cb) [0..<8] (False, plc, net) =
      fold (PlcClient_pollTag os cb) [Suc h..<8]
        (st = Closed,
         let plc1 = plc\<lparr>plc_tags := (plc_tags plc)[h := t], plc_msg := msg,
                        plc_tagPrevStatus := prev[h := st]\<rparr>
         in if plc_tagPrevStatus plc ! h = Pending \<and> st \<noteq> Pending
            then call_tag cb h st (plc1, net1) else (plc1, net1))"
    and "noted plc [0..<h] prev"
proof -
  have q: "\<forall>i \<in> set [0..<h]. tag_quiet plc i"
    using plc_others_quiet [OF assms(1,2,4)] assms(2) by simp
  obtain prev where f: "fold (PlcClient_pollTag os cb) [0..<h] (False, plc, net) =
      (False, plc\<lparr>plc_tagPrevStatus := prev\<rparr>, net)" and n: "noted plc [0..<h] prev"
    using quiet_turns [OF q] by (metis distinct_upt)
  have len: "length (plc_tagPrevStatus plc) = 8"
    using assms(1) by (simp add: plc_pool_def)
  have h: "prev ! h = plc_tagPrevStatus plc ! h"
    using n assms(2) len by (simp add: noted_def)
  have s: "[0..<8] = [0..<h] @ h # [Suc h..<8]"
    using assms(2) upt_add_eq_append [of 0 h "8 - h"] upt_conv_Cons [of h 8] by simp
  have "PlcClient_pollTag os cb h (False, plc\<lparr>plc_tagPrevStatus := prev\<rparr>, net) =
        (st = Closed,
         let plc1 = plc\<lparr>plc_tags := (plc_tags plc)[h := t], plc_msg := msg,
                        plc_tagPrevStatus := prev[h := st]\<rparr>
         in if plc_tagPrevStatus plc ! h = Pending \<and> st \<noteq> Pending
            then call_tag cb h st (plc1, net1) else (plc1, net1))"
    using assms(3,5) h by (simp add: PlcClient_pollTag_def Let_def)
  with f n s that show thesis
    by simp
qed

text \<open>The turns after it.\<close>

lemma plc_rest_quiet:
  assumes "plc_pool plc" and "h < 8" and "tag_waiting (plc_tags plc ! h)" and n0: "noted plc [0..<h] prev"
    and p: "p = plc\<lparr>plc_tags := (plc_tags plc)[h := t], plc_msg := msg, plc_tagPrevStatus := prev[h := st]\<rparr>"
  shows "\<forall>i \<in> set [Suc h..<8]. tag_quiet p i"
proof
  fix i assume i: "i \<in> set [Suc h..<8]"
  have len: "length (plc_tagPrevStatus plc) = 8" "length prev = 8" "length (plc_tags plc) = 8"
    using assms(1) n0 by (simp_all add: plc_pool_def noted_def)
  from i have "tag_quiet plc i"
    using plc_others_quiet [OF assms(1-3)] by simp
  with i n0 len show "tag_quiet p i"
    by (auto simp: tag_quiet_def noted_def nth_update_if p)
qed

lemma PlcClient_pollTags_rest:
  assumes "plc_pool plc" and "h < 8" and "tag_waiting (plc_tags plc ! h)" and n0: "noted plc [0..<h] prev"
    and p: "p = plc\<lparr>plc_tags := (plc_tags plc)[h := t], plc_msg := msg, plc_tagPrevStatus := prev[h := st]\<rparr>"
  obtains prev2 where "fold (PlcClient_pollTag os cb) [Suc h..<8] (d, p, net) =
      (d, p\<lparr>plc_tagPrevStatus := prev2\<rparr>, net)"
    and "length prev2 = 8" and "prev2 ! h = st"
    and "\<forall>i < 8. i \<noteq> h \<longrightarrow> plc_inUse plc ! i \<longrightarrow> prev2 ! i = Tag_status (plc_tags plc ! i)"
proof -
  have len: "length (plc_tagPrevStatus plc) = 8" "length prev = 8" "length (plc_tags plc) = 8"
    using assms(1) n0 by (simp_all add: plc_pool_def noted_def)
  have q: "\<forall>i \<in> set [Suc h..<8]. tag_quiet p i"
    using assms by (rule plc_rest_quiet)
  obtain prev2 where f: "fold (PlcClient_pollTag os cb) [Suc h..<8] (d, p, net) =
      (d, p\<lparr>plc_tagPrevStatus := prev2\<rparr>, net)" and n: "noted p [Suc h..<8] prev2"
    using quiet_turns [OF q] by (metis distinct_upt)
  show thesis
  proof (rule that [OF f])
    show "length prev2 = 8" "prev2 ! h = st"
      using n len assms(2) by (simp_all add: noted_def p)
    show "\<forall>i < 8. i \<noteq> h \<longrightarrow> plc_inUse plc ! i \<longrightarrow> prev2 ! i = Tag_status (plc_tags plc ! i)"
      using n n0 len assms(2) by (auto simp: noted_def nth_update_if p)
  qed
qed

lemma PlcClient_pollReady_one:
  assumes "plc_pool plc" and "socket_contract os" and "h < 8" and "plc_inUse plc ! h"
    and "tag_waiting (plc_tags plc ! h)"
    and "Tag_poll os (plc_tags plc ! h) (plc_msg plc) net = (st, t, msg, net1)"
    and "plc_tagPrevStatus plc ! h = Pending \<longrightarrow> st = Pending"
  obtains prev where "length prev = 8" and "prev ! h = st"
    and "\<forall>i < 8. i \<noteq> h \<longrightarrow> plc_inUse plc ! i \<longrightarrow> prev ! i = Tag_status (plc_tags plc ! i)"
    and "PlcClient_pollReady os cb plc net =
      (let plc1 = plc\<lparr>plc_tags := (plc_tags plc)[h := t], plc_msg := msg, plc_tagPrevStatus := prev\<rparr> in
       if st = Closed
       then (Closed, call_state cb Closed
               (plc1\<lparr>plc_session := Session_abort (plc_session plc), plc_state := PlcIdle\<rparr>,
                TcpConnection_close os (plc_tcp plc) net1))
       else (Ok, plc1, net1))"
proof -
  obtain prev0 where f0: "fold (PlcClient_pollTag os cb) [0..<8] (False, plc, net) =
      fold (PlcClient_pollTag os cb) [Suc h..<8]
        (st = Closed, plc\<lparr>plc_tags := (plc_tags plc)[h := t], plc_msg := msg,
                        plc_tagPrevStatus := prev0[h := st]\<rparr>, net1)"
    and n0: "noted plc [0..<h] prev0"
    by (rule PlcClient_pollTags_one [OF assms(1,3-6), of cb]) (use assms(7) in \<open>auto simp: Let_def\<close>)
  let ?p = "plc\<lparr>plc_tags := (plc_tags plc)[h := t], plc_msg := msg, plc_tagPrevStatus := prev0[h := st]\<rparr>"
  obtain prev where f: "fold (PlcClient_pollTag os cb) [Suc h..<8] (st = Closed, ?p, net1) =
      (st = Closed, ?p\<lparr>plc_tagPrevStatus := prev\<rparr>, net1)" and "length prev = 8" "prev ! h = st"
    and "\<forall>i < 8. i \<noteq> h \<longrightarrow> plc_inUse plc ! i \<longrightarrow> prev ! i = Tag_status (plc_tags plc ! i)"
    by (rule PlcClient_pollTags_rest [OF assms(1,3,5) n0 refl])
  moreover have "PlcClient_pollReady os cb plc net =
      (let plc1 = plc\<lparr>plc_tags := (plc_tags plc)[h := t], plc_msg := msg, plc_tagPrevStatus := prev\<rparr> in
       if st = Closed
       then (Closed, call_state cb Closed
               (plc1\<lparr>plc_session := Session_abort (plc_session plc), plc_state := PlcIdle\<rparr>,
                TcpConnection_close os (plc_tcp plc) net1))
       else (Ok, plc1, net1))"
    using f0 f by (simp add: PlcClient_pollReady_def Let_def)
  ultimately show thesis
    using that by blast
qed

end
