(* ===== verification/TagProperties.thy ===== *)
theory TagProperties
  imports Tag
begin

text \<open>
  The properties of tags, with the examples that apply them. The definitions and the lemmas are in
  \<open>Tag.thy\<close>.
\<close>

text \<open>
  C24. A read that ends well: after \<open>read()\<close> and any run of polls ending in \<open>Ok\<close>, the
  connection has sent exactly one Read Tag request for the tag's name and count, and received
  exactly one packet, a successful reply to it; the tag has the type and the data of that reply,
  byte for byte. (A reply of fewer than two data bytes is accepted, and leaves a tag with no data.)
\<close>

theorem Tag_read_exchange:
  assumes "socket_contract os" and "em_inv msg" and "tag_inv t"
    and "Tag_read os c h (Some name) n timeoutMs t msg net = (Pending, t1, msg1, net1)"
    and "tag_run os t1 msg1 net1 Ok t2 msg2 net2"
  shows "Tag_status t2 = Ok \<and>
    net_sent net2 c = net_sent net c @
      rr_request h (em_context msg) 0x4C (symbolic_segment name) (leU16 (ucast n)) \<and>
    (\<exists>p service d. net_rcvd net2 c = net_rcvd net c @ p \<and> packet p \<and>
       rr_parse (em_context msg) p = Some (service, 0, d) \<and>
       (if 2 \<le> length d then tag_holds d t2 else tag_dataLen t2 = 0))"
proof -
  let ?req = "rr_request h (em_context msg) 0x4C (symbolic_segment name) (leU16 (ucast n))"
  obtain now where m: "millis os net = (now, net1)"
    and s: "em_started c (now + timeoutMs) ?req msg msg1"
    and t1: "t1 = t\<lparr>tag_dataLen := 0, tag_resultCode := 0, tag_state := TagReading\<rparr>"
    using Tag_read_pending [OF assms(2,4)] by blast
  have w: "tag_waiting t1" "tag_inv t1" "tag_state t1 = TagReading" "tag_dataLen t1 = 0"
    using assms(3) by (simp_all add: t1 tag_waiting_def tag_inv_def)
  obtain st0 where r: "em_run os msg1 net1 st0 msg2 net2" and f: "tag_finish st0 msg2 t1 = (Ok, t2)"
    using tag_run_em_run [OF assms(5) w(1)] by blast
  note ok = tag_finish_Ok [OF f]
  note x = em_started_exchange [OF assms(1) s m r [unfolded conjunct1 [OF ok]]]
  have "em_dataLen msg2 \<le> 256"
    using em_reply_small x by blast
  then have d: "if 2 \<le> length d then tag_holds d t2 else tag_dataLen t2 = 0"
    if "d = take (em_dataLen msg2) (ExplicitMessage_data msg2)" for d
    using tag_finish_read [OF w(2,3) f [unfolded conjunct1 [OF ok]] that] x w(4)
    by (auto simp: em_reply_def split: if_splits)
  let ?d = "take (em_dataLen msg2) (ExplicitMessage_data msg2)"
  obtain p where "net_rcvd net2 c = net_rcvd net c @ p" "packet p"
    "rr_parse (em_context msg) p = Some (em_replyService msg2, em_resultCode msg2, ?d)"
    using x by blast
  with x ok d [of ?d] show ?thesis
    by (intro conjI exI [of _ p] exI [of _ "em_replyService msg2"] exI [of _ ?d])
      (simp_all add: Tag_status_def)
qed

text \<open>
  A write that ends well: the connection has sent exactly one Write Tag request, with the
  count, the type and the bytes of the tag's buffer, as many as the type and the count call for,
  and has received exactly one packet, a successful reply to it. The tag's data are not changed.
\<close>

theorem Tag_write_exchange:
  assumes "socket_contract os" and "em_inv msg" and "tag_inv t"
    and "Tag_write os c h (Some name) n timeoutMs t msg net = (Pending, t1, msg1, net1)"
    and "tag_run os t1 msg1 net1 Ok t2 msg2 net2"
  shows "Tag_status t2 = Ok \<and> tag_data t2 = tag_data t \<and>
    (\<exists>len. Tag_writeLength n t = Some len \<and>
       net_sent net2 c = net_sent net c @
         rr_request h (em_context msg) 0x4D (symbolic_segment name)
           (write_data n (tag_dataType t) (take len (tag_data t)))) \<and>
    (\<exists>p service d. net_rcvd net2 c = net_rcvd net c @ p \<and> packet p \<and>
       rr_parse (em_context msg) p = Some (service, 0, d))"
proof -
  obtain now len where m: "millis os net = (now, net1)" and len: "Tag_writeLength n t = Some len"
    and s: "em_started c (now + timeoutMs) (rr_request h (em_context msg) 0x4D (symbolic_segment name)
        (write_data n (tag_dataType t) (take len (tag_data t)))) msg msg1"
    and t1: "t1 = t\<lparr>tag_state := TagWriting\<rparr>"
    using Tag_write_pending [OF assms(2-4)] by blast
  have w: "tag_waiting t1" "tag_state t1 \<noteq> TagReading"
    by (simp_all add: t1 tag_waiting_def)
  obtain st0 where r: "em_run os msg1 net1 st0 msg2 net2" and f: "tag_finish st0 msg2 t1 = (Ok, t2)"
    using tag_run_em_run [OF assms(5) w(1)] by blast
  note ok = tag_finish_Ok [OF f]
  note x = em_started_exchange [OF assms(1) s m r [unfolded conjunct1 [OF ok]]]
  have "tag_data t2 = tag_data t1"
    using f w(2) by (auto simp: tag_finish_def Let_def split: if_splits)
  with x ok len show ?thesis
    by (auto simp: Tag_status_def t1)
qed

text \<open>Examples over the loopback.\<close>

definition demo_tag :: tag where
  "demo_tag = Tag_new (replicate 256 0)"

lemma demo_context: "em_context demo_message = 1"
  by (simp add: demo_message_def ExplicitMessage_new_def)

lemma demo_tag_inv: "tag_inv demo_tag"
  by (simp add: demo_tag_def Tag_new_def tag_inv_def)

definition demo_name :: cstring where
  "demo_name = [0x54, 0x61, 0x67]"

text \<open>A read or a write that is started over the loopback, and its reply when it is polled.\<close>

lemma loopback_finish:
  assumes "em_started 0 (now + 1000) req msg msg1" and "em_context msg = ctx" and "length d \<le> 252"
    and "tag_waiting t1"
    and "Tag_poll loopback_os t1 msg1 (loopback_net now (rr_reply h ctx service code d)) = (st, t2, msg2, net2)"
  shows "(st, t2) = tag_finish Ok msg2 t1 \<and> em_resultCode msg2 = code \<and> em_dataLen msg2 = length d \<and>
    take (length d) (ExplicitMessage_data msg2) = d \<and> em_inv msg2"
proof -
  let ?p = "rr_reply h ctx service code d"
  obtain st0 m2 n2 where p: "ExplicitMessage_poll loopback_os msg1 (loopback_net now ?p) = (st0, m2, n2)"
    by (metis prod_cases3)
  have b: "em_inv msg1" "em_busy msg1" "em_conn msg1 = Some 0" "em_rxLen msg1 = 0"
      "em_deadline msg1 = now + 1000" "em_sentContext msg1 = ctx"
    using assms(1,2) by (simp_all add: em_started_def em_busy_def)
  have "\<not> expired now (now + 1000)"
    using expired_within_half [of 1000 0 now] by simp
  then have "st0 = Ok \<and> em_resultCode m2 = code \<and> em_dataLen m2 = length d \<and>
      take (length d) (ExplicitMessage_data m2) = d"
    using ExplicitMessage_poll_live [OF loopback_stream_contract b(1,2) _ _ rr_parse_reply(2) _ _ _ p,
        of d h ctx service code "[]"] b assms(3) rr_parse_reply(1,3) [of d]
    by (simp add: conn_queue_def)
  moreover have "em_inv m2"
    using ExplicitMessage_poll_inv [OF loopback_socket_contract b(1) p] .
  ultimately show ?thesis
    using assms(4,5) p by (auto simp: Tag_poll_finish split: prod.splits)
qed

lemma demo_tag_read:
  obtains t1 msg1 where "Tag_read loopback_os 0 9 (Some demo_name) 1 1000 demo_tag demo_message
      (loopback_net 0 q) = (Pending, t1, msg1, loopback_net 0 q)"
    and "t1 = demo_tag\<lparr>tag_dataLen := 0, tag_resultCode := 0, tag_state := TagReading\<rparr>"
    and "em_started 0 1000 (rr_request 9 1 0x4C (symbolic_segment demo_name) (leU16 1)) demo_message msg1"
proof -
  obtain st t1 msg1 net1 where r: "Tag_read loopback_os 0 9 (Some demo_name) 1 1000 demo_tag demo_message
      (loopback_net 0 q) = (st, t1, msg1, net1)"
    by (metis prod_cases4)
  have "em_context demo_message = 1" "st = Pending"
    using r by (auto simp: demo_message_def ExplicitMessage_new_def Tag_read_def demo_tag_def Tag_new_def
        Tag_startRead_def ExplicitMessage_send_def appendSymbolic_def demo_name_def kMaxSymbolicName_def Let_def)
  with Tag_read_pending [OF demo_message_inv, of loopback_os 0 9 demo_name 1 1000 demo_tag
      "loopback_net 0 q" t1 msg1 net1] r that [of t1 msg1]
  show thesis
    by auto
qed

theorem Tag_read_exchange_witness:
  "\<exists>t2 (net2 :: loopback net).
     net_sent net2 0 = rr_request 9 1 0x4C (symbolic_segment demo_name) (leU16 1) \<and>
     Tag_status t2 = Ok \<and> Tag_getInt16 0 t2 = 513"
proof -
  let ?q = "rr_reply 9 1 0xCC 0 [0xC3, 0, 1, 2]"
  obtain t1 msg1 where r: "Tag_read loopback_os 0 9 (Some demo_name) 1 1000 demo_tag demo_message
      (loopback_net 0 ?q) = (Pending, t1, msg1, loopback_net 0 ?q)"
    and t1: "t1 = demo_tag\<lparr>tag_dataLen := 0, tag_resultCode := 0, tag_state := TagReading\<rparr>"
    and s: "em_started 0 1000 (rr_request 9 1 0x4C (symbolic_segment demo_name) (leU16 1)) demo_message msg1"
    by (rule demo_tag_read)
  obtain st t2 msg2 net2 where p: "Tag_poll loopback_os t1 msg1 (loopback_net 0 ?q) = (st, t2, msg2, net2)"
    by (metis prod_cases4)
  have w: "tag_waiting t1"
    by (simp add: t1 tag_waiting_def)
  have f: "(st, t2) = tag_finish Ok msg2 t1" "em_resultCode msg2 = 0" "em_dataLen msg2 = 4"
      "take 4 (ExplicitMessage_data msg2) = [0xC3, 0, 1, 2]"
    using loopback_finish [where now = 0, simplified, OF s demo_context _ w p]
    by (simp_all add: eval_nat_numeral)
  have d: "take 2 (drop 2 (ExplicitMessage_data msg2)) = [1, 2]"
    using arg_cong [OF f(4), of "drop 2"] by (simp add: drop_take)
  have st: "st = Ok" "tag_data t2 = poke 0 [1, 2] (tag_data demo_tag)"
    using f(1-3) d by (auto simp: tag_finish_def Let_def t1)
  have v: "Tag_getInt16 0 t2 = 513"
    by (simp add: Tag_getInt16_def Tag_inBounds_iff Tag_at_def st(2) poke_def demo_tag_def Tag_new_def
        getU16_def)
  show ?thesis
    using Tag_read_exchange [OF loopback_socket_contract demo_message_inv demo_tag_inv r
        tag_run.last [OF p [unfolded st(1)]]] v demo_context
    by (intro exI [of _ t2] exI [of _ net2]) simp
qed

text \<open>The example's write: two INTs.\<close>

definition demo_write_tag :: tag where
  "demo_write_tag = Tag_setInt16 2 (-2) (Tag_setInt16 0 1 (Tag_setDataType 0xC3 demo_tag))"

lemma demo_write_tag_inv: "tag_inv demo_write_tag"
  unfolding demo_write_tag_def
  by (intro acc_int16.set_inv)
    (simp_all add: demo_tag_inv [unfolded tag_inv_def] Tag_setDataType_def tag_inv_def sint_range_def)

lemma demo_write_tag_facts:
  "tag_dataType demo_write_tag = 0xC3" "\<not> tag_waiting demo_write_tag"
  "take 4 (tag_data demo_write_tag) = [1, 0, 0xFE, 0xFF]" "Tag_writeLength 2 demo_write_tag = Some 4"
  by (simp_all add: demo_write_tag_def Tag_setInt16_def Tag_inBounds_iff Tag_setDataType_def demo_tag_def
      Tag_new_def tag_waiting_def putU16_def leU16_def poke_def Tag_writeLength_def DataType_cast_def Let_def)

lemma demo_tag_write:
  obtains t1 msg1 where "Tag_write loopback_os 0 9 (Some demo_name) 2 1000 demo_write_tag demo_message
      (loopback_net 0 q) = (Pending, t1, msg1, loopback_net 0 q)"
    and "t1 = demo_write_tag\<lparr>tag_state := TagWriting\<rparr>"
    and "em_started 0 1000 (rr_request 9 1 0x4D (symbolic_segment demo_name)
      (write_data 2 0xC3 [1, 0, 0xFE, 0xFF])) demo_message msg1"
proof -
  obtain st t1 msg1 net1 where r: "Tag_write loopback_os 0 9 (Some demo_name) 2 1000 demo_write_tag
      demo_message (loopback_net 0 q) = (st, t1, msg1, net1)"
    by (metis prod_cases4)
  have "st = Pending"
    using r demo_write_tag_facts
    by (auto simp: demo_message_def ExplicitMessage_new_def Tag_write_def tag_waiting_def
        Tag_startWrite_def ExplicitMessage_send_def appendSymbolic_def demo_name_def kMaxSymbolicName_def Let_def)
  with Tag_write_pending [OF demo_message_inv demo_write_tag_inv, of loopback_os 0 9 demo_name 2 1000
      "loopback_net 0 q" t1 msg1 net1] r that [of t1 msg1] demo_write_tag_facts demo_context
  show thesis
    by auto
qed

theorem Tag_write_exchange_witness:
  "\<exists>net2 :: loopback net. net_sent net2 0 = rr_request 9 1 0x4D (symbolic_segment demo_name)
     (write_data 2 0xC3 [1, 0, 0xFE, 0xFF])"
proof -
  let ?q = "rr_reply 9 1 0xCD 0 []"
  obtain t1 msg1 where r: "Tag_write loopback_os 0 9 (Some demo_name) 2 1000 demo_write_tag demo_message
      (loopback_net 0 ?q) = (Pending, t1, msg1, loopback_net 0 ?q)"
    and t1: "t1 = demo_write_tag\<lparr>tag_state := TagWriting\<rparr>"
    and s: "em_started 0 1000 (rr_request 9 1 0x4D (symbolic_segment demo_name)
      (write_data 2 0xC3 [1, 0, 0xFE, 0xFF])) demo_message msg1"
    by (rule demo_tag_write)
  obtain st t2 msg2 net2 where p: "Tag_poll loopback_os t1 msg1 (loopback_net 0 ?q) = (st, t2, msg2, net2)"
    by (metis prod_cases4)
  have w: "tag_waiting t1"
    by (simp add: t1 tag_waiting_def)
  have "(st, t2) = tag_finish Ok msg2 t1" "em_resultCode msg2 = 0"
    using loopback_finish [where now = 0, simplified, OF s demo_context _ w p] by simp_all
  then have st: "st = Ok"
    by (auto simp: tag_finish_def Let_def t1)
  show ?thesis
    using Tag_write_exchange [OF loopback_socket_contract demo_message_inv demo_write_tag_inv r
        tag_run.last [OF p [unfolded st]]] demo_write_tag_facts demo_context
    by (intro exI [of _ net2]) simp
qed

text \<open>
  C26. Typed accessors round trip, for all eleven types: a value of the type written at an offset
  in bounds is read back, with its sign.
\<close>

theorem Tag_accessors_roundtrip:
  assumes "tag_inv t"
  shows "(Tag_inBounds off 1 \<longrightarrow> Tag_getBool off (Tag_setBool off b t) = b) \<and>
    (Tag_inBounds off 1 \<longrightarrow> sint_range 8 i8 \<longrightarrow> Tag_getInt8 off (Tag_setInt8 off i8 t) = i8) \<and>
    (Tag_inBounds off 2 \<longrightarrow> sint_range 16 i16 \<longrightarrow> Tag_getInt16 off (Tag_setInt16 off i16 t) = i16) \<and>
    (Tag_inBounds off 4 \<longrightarrow> sint_range 32 i32 \<longrightarrow> Tag_getInt32 off (Tag_setInt32 off i32 t) = i32) \<and>
    (Tag_inBounds off 8 \<longrightarrow> sint_range 64 i64 \<longrightarrow> Tag_getInt64 off (Tag_setInt64 off i64 t) = i64) \<and>
    (Tag_inBounds off 1 \<longrightarrow> Tag_getUint8 off (Tag_setUint8 off v8 t) = v8) \<and>
    (Tag_inBounds off 2 \<longrightarrow> Tag_getUint16 off (Tag_setUint16 off v16 t) = v16) \<and>
    (Tag_inBounds off 4 \<longrightarrow> Tag_getUint32 off (Tag_setUint32 off v32 t) = v32) \<and>
    (Tag_inBounds off 8 \<longrightarrow> Tag_getUint64 off (Tag_setUint64 off v64 t) = v64) \<and>
    (Tag_inBounds off 4 \<longrightarrow> length f32 = 4 \<longrightarrow> Tag_getFloat32 off (Tag_setFloat32 off f32 t) = f32) \<and>
    (Tag_inBounds off 8 \<longrightarrow> length f64 = 8 \<longrightarrow> Tag_getFloat64 off (Tag_setFloat64 off f64 t) = f64)"
  using acc_bool.get_set [OF assms] acc_int8.get_set [OF assms] acc_int16.get_set [OF assms]
    acc_int32.get_set [OF assms] acc_int64.get_set [OF assms] acc_uint8.get_set [OF assms]
    acc_uint16.get_set [OF assms] acc_uint32.get_set [OF assms] acc_uint64.get_set [OF assms]
    acc_float32.get_set [OF assms] acc_float64.get_set [OF assms]
  by simp

theorem Tag_accessors_roundtrip_witness:
  "Tag_getInt32 252 (Tag_setInt32 252 (-5) demo_tag) = -5"
proof -
  have "Tag_inBounds 252 4" "sint_range 32 (-5)"
    by (simp_all add: Tag_inBounds_iff sint_range_def)
  with Tag_accessors_roundtrip [OF demo_tag_inv, of 252 undefined undefined undefined "-5"] show ?thesis
    by blast
qed

text \<open>
  Accessors keep to their bytes. The bounds test is exact: an offset near \<open>2 ^ 32\<close> does
  not wrap into range. Every setter changes at most its own window of the data buffer, which lies
  inside the 256 bytes, and nothing else of the tag; out of bounds it changes nothing and a getter
  reads zero.
\<close>

theorem Tag_accessors_frame:
  assumes "tag_inv t" and "sint_range 8 i8" and "sint_range 16 i16" and "sint_range 32 i32"
    and "sint_range 64 i64" and "length f32 = 4" and "length f64 = 8"
  shows "(Tag_inBounds off sz \<longleftrightarrow> unat off + unat sz \<le> 256) \<and>
    tag_writes off 1 t (Tag_setBool off b t) \<and> tag_writes off 1 t (Tag_setInt8 off i8 t) \<and>
    tag_writes off 2 t (Tag_setInt16 off i16 t) \<and> tag_writes off 4 t (Tag_setInt32 off i32 t) \<and>
    tag_writes off 8 t (Tag_setInt64 off i64 t) \<and> tag_writes off 1 t (Tag_setUint8 off v8 t) \<and>
    tag_writes off 2 t (Tag_setUint16 off v16 t) \<and> tag_writes off 4 t (Tag_setUint32 off v32 t) \<and>
    tag_writes off 8 t (Tag_setUint64 off v64 t) \<and> tag_writes off 4 t (Tag_setFloat32 off f32 t) \<and>
    tag_writes off 8 t (Tag_setFloat64 off f64 t) \<and>
    (\<not> Tag_inBounds off 4 \<longrightarrow> Tag_getInt32 off t = 0 \<and> Tag_setInt32 off i32 t = t)"
  using assms Tag_inBounds_iff acc_bool.set_writes acc_int8.set_writes acc_int16.set_writes
    acc_int32.set_writes acc_int64.set_writes acc_uint8.set_writes acc_uint16.set_writes
    acc_uint32.set_writes acc_uint64.set_writes acc_float32.set_writes acc_float64.set_writes
    acc_int32.out_of_bounds
  by simp

theorem Tag_accessors_frame_witness:
  "\<not> Tag_inBounds 0xFFFFFFFE 4 \<and> Tag_setInt32 0xFFFFFFFE 7 demo_tag = demo_tag"
proof -
  have "sint_range 8 0" "sint_range 16 0" "sint_range 32 7" "sint_range 64 0"
    by (simp_all add: sint_range_def)
  moreover have "\<not> unat (0xFFFFFFFE :: size_t) + unat (4 :: size_t) \<le> 256"
    by simp
  moreover have "length (replicate 4 (0::byte)) = 4" "length (replicate 8 (0::byte)) = 8"
    by simp_all
  ultimately show ?thesis
    using Tag_accessors_frame [OF demo_tag_inv, where off = "0xFFFFFFFE" and sz = 4 and ?i8.0 = 0
        and ?i16.0 = 0 and ?i32.0 = 7 and ?i64.0 = 0 and ?f32.0 = "replicate 4 0"
        and ?f64.0 = "replicate 8 0"]
    by blast
qed

text \<open>
  The string accessors round trip: what \<open>setString\<close> stores, cut to 252 characters,
  \<open>getString\<close> returns, terminated, in a buffer that is large enough.
\<close>

theorem Tag_string_roundtrip:
  assumes "tag_inv t" and "length buf = bufLen" and "min 252 (length s) < bufLen"
  shows "\<exists>buf'. Tag_getString (Some buf) bufLen (Tag_setString (Some s) t) =
      (min 252 (length s), Some buf') \<and>
    take (min 252 (length s)) buf' = take 252 s \<and> buf' ! min 252 (length s) = 0 \<and> length buf' = bufLen"
proof -
  define k where "k = min 252 (length s)"
  let ?d = "putU32 0 (of_nat k) (tag_data t)"
  have t': "Tag_setString (Some s) t = t\<lparr>tag_data := poke 4 (take k s) ?d, tag_dataLen := 4 + k\<rparr>"
    by (auto simp: Tag_setString_def Let_def k_def min_def)
  have k: "k \<le> 252" "k \<le> length s"
    by (simp_all add: k_def)
  have len: "length (tag_data t) = 256"
    using assms(1) by (simp add: tag_inv_def)
  have all: "poke 4 (take k s) ?d = poke 0 (leU32 (of_nat k) @ take k s) (tag_data t)"
    using len k by (simp add: putU32_def poke_poke_adjacent)
  have u: "unat (of_nat k :: u32) = k"
    using k(1) by (intro small_size) simp
  have g: "getU32 (poke 4 (take k s) ?d) = of_nat k"
    unfolding all by (simp add: poke_def)
  have d: "take k (drop 4 (poke 4 (take k s) ?d)) = take k s"
    unfolding all using k by (simp add: poke_def)
  define b1 where "b1 = poke 0 (take k s) buf"
  have "k < bufLen"
    using assms(3) by (simp add: k_def)
  then have b1: "length b1 = bufLen" "take k b1 = take k s"
    using k assms(2) by (simp_all add: b1_def take_poke_extend)
  have "Tag_getString (Some buf) bufLen (Tag_setString (Some s) t) = (k, Some (poke k [0] b1))"
    using \<open>k < bufLen\<close> by (simp add: Tag_getString_def t' g u d b1_def Let_def)
  moreover have "take k (poke k [0] b1) = take k s" "poke k [0] b1 ! k = 0" "length (poke k [0] b1) = bufLen"
    using \<open>k < bufLen\<close> b1 k by (simp_all add: poke_def nth_append min_def)
  moreover have "take k s = take 252 s"
    by (auto simp: k_def min_def)
  ultimately show ?thesis
    unfolding k_def by auto
qed

theorem Tag_string_roundtrip_witness:
  "\<exists>b. Tag_getString (Some (replicate 10 1)) 10 (Tag_setString (Some [0x68, 0x69]) demo_tag) = (2, Some b)"
  using Tag_string_roundtrip [OF demo_tag_inv, of "replicate 10 1" 10 "[0x68, 0x69]"] by auto

text \<open>
  C27. \<open>getString\<close> is bounded: whatever the tag holds (the length word comes from the
  network), it returns fewer characters than the buffer length it is given, and writes no byte at
  or past that length.
\<close>

theorem Tag_getString_bounded:
  assumes "tag_inv t" and "bufLen \<le> length buf"
    and "Tag_getString (Some buf) bufLen t = (n, buf')"
  shows "(n = 0 \<or> n < bufLen) \<and> n \<le> 252 \<and>
    (\<exists>b. buf' = Some b \<and> length b = length buf \<and> drop bufLen b = drop bufLen buf)"
proof (cases "tag_dataLen t < 4 \<or> bufLen = 0")
  case True
  with assms(3) show ?thesis
    by (auto simp: Tag_getString_def)
next
  case False
  let ?len = "unat (getU32 (tag_data t))"
  have n: "n = min (bufLen - 1) (min ?len (tag_dataLen t - 4))"
      "buf' = Some (poke n [0] (poke 0 (take n (drop 4 (tag_data t))) buf))"
    using assms(3) False by (auto simp: Tag_getString_def Let_def min_def split: if_splits)
  have b: "n < bufLen" "n \<le> 252"
    using n(1) False assms(1) by (auto simp: tag_inv_def)
  let ?b = "poke n [0] (poke 0 (take n (drop 4 (tag_data t))) buf)"
  have l: "length (take n (drop 4 (tag_data t))) \<le> n"
    by simp
  have "length ?b = length buf" "drop bufLen ?b = drop bufLen buf"
    using l b(1) assms(2) by (simp_all add: drop_poke_after)
  with b n(2) show ?thesis
    by blast
qed

theorem Tag_getString_bounded_witness:
  "fst (Tag_getString (Some [1, 1, 1]) 2 (Tag_setString (Some [0x68, 0x69]) demo_tag)) < 2"
proof -
  have I: "tag_inv (Tag_setString (Some [0x68, 0x69]) demo_tag)"
    by (simp add: tag_inv_def Tag_setString_def demo_tag_def Tag_new_def)
  obtain n b where r: "Tag_getString (Some [1, 1, 1]) 2 (Tag_setString (Some [0x68, 0x69]) demo_tag) = (n, b)"
    by fastforce
  from Tag_getString_bounded [OF I _ r] r show ?thesis
    by auto
qed

text \<open>
  What a write can carry. A tag that may write, over an idle message and a connected socket,
  starts the exchange exactly if its name segment, its data and ten bytes more fit into the 256
  bytes of a message. So the buffer of 256 bytes can never be written in full: the largest write
  is of 246 bytes less the name, and anything larger is \<open>InvalidArg\<close>.
\<close>

theorem Tag_write_capacity:
  assumes "em_inv msg" and "\<not> em_busy msg" and "tag_inv t" and "\<not> tag_waiting t"
    and "TcpConnection_connected c net" and "length name \<le> 120" and "tag_dataType t \<noteq> 0"
    and "Tag_writeLength n t = Some len"
    and "Tag_write os c h (Some name) n timeoutMs t msg net = (st, t', msg', net')"
  shows "st = (if length (symbolic_segment name) + len + 6 \<le> 256 then Pending else InvalidArg)"
proof -
  have r: "Tag_startWrite os c h name n timeoutMs t msg net = (st, t', msg', net')"
    using assms(4,6,7,9) by (simp add: Tag_write_def tag_waiting_def kMaxSymbolicName_def)
  show ?thesis
  proof (rule Tag_startWrite_sends [OF assms(3,8) r])
    fix path pathLen wdata
    assume s: "ExplicitMessage_send os c h (TagService_code TsWrite) (Some path) (of_nat pathLen)
        (Some wdata) (of_nat (4 + len)) timeoutMs msg net = (st, msg', net')"
      and A: "em_args (Some path) (of_nat pathLen) (Some wdata) (of_nat (4 + len))"
      and l: "pathLen = length (symbolic_segment name)"
    have u: "unat (of_nat (length (symbolic_segment name)) :: size_t) = length (symbolic_segment name)"
        "unat (of_nat (4 + len) :: size_t) = 4 + len"
      using symbolic_segment_bounds(3) [of name] Tag_writeLength_le [OF assms(8)]
      by (intro small_size; simp)+
    show ?thesis
      using ExplicitMessage_send_decides [OF assms(2,5) A s] symbolic_segment_bounds(1)
      unfolding l u by (simp add: ac_simps)
  qed
qed

theorem Tag_write_capacity_witness:
  "fst (Tag_write loopback_os 0 9 (Some demo_name) 64 1000 (Tag_setDataType 0xC4 demo_tag) demo_message
     (loopback_net 0 [])) = InvalidArg"
proof -
  let ?t = "Tag_setDataType 0xC4 demo_tag"
  obtain st t1 msg1 net1 where r: "Tag_write loopback_os 0 9 (Some demo_name) 64 1000 ?t demo_message
      (loopback_net 0 []) = (st, t1, msg1, net1)"
    by (metis prod_cases4)
  have I: "tag_inv ?t" "\<not> tag_waiting ?t" "tag_dataType ?t = 0xC4" "\<not> em_busy demo_message"
    by (simp_all add: Tag_setDataType_def tag_inv_def demo_tag_def Tag_new_def tag_waiting_def
        em_busy_def demo_message_def ExplicitMessage_new_def)
  have "Tag_writeLength 64 ?t = Some 256"
    by (simp add: Tag_writeLength_def I DataType_cast_def Let_def)
  from Tag_write_capacity [OF demo_message_inv I(4,1,2) loopback_connected _ _ this r] r I(3)
  show ?thesis
    by (simp add: demo_name_def)
qed

text \<open>
  A read asks for the count modulo \<open>2 ^ 16\<close>: the 32-bit count of the interface is cut
  to the 16 bits of the request without a check, so a read of \<open>n + 65536\<close> elements is, call
  for call, a read of \<open>n\<close>. A write of a type with a fixed size checks its count.
\<close>

theorem Tag_read_count_wraps:
  "Tag_read os c h name (n + 65536) timeoutMs t msg net = Tag_read os c h name n timeoutMs t msg net"
proof -
  have "(ucast (n + 65536) :: u16) = ucast n"
    by transfer (simp add: take_bit_eq_mod mod_mod_cancel)
  then show ?thesis
    by (cases name) (simp_all add: Tag_read_def Tag_startRead_def)
qed

text \<open>
  The status of a tag is one of four: \<open>NotReady\<close>, \<open>Pending\<close>, \<open>Ok\<close> and
  \<open>Error\<close>. A poll that ends an exchange with \<open>Timeout\<close>, \<open>Closed\<close> or
  \<open>InvalidArg\<close> leaves a tag whose status is \<open>Error\<close>: the cause is only in the return
  value of that poll. (The troubleshooting section of the README has \<open>tagStatus()\<close> return
  \<open>Timeout\<close>.)
\<close>

theorem Tag_status_after_poll:
  assumes "Tag_poll os t msg net = (st, t', msg', net')"
  shows "Tag_status t' \<in> {NotReady, Pending, Ok, Error} \<and>
    (st = Pending \<longrightarrow> Tag_status t' = Pending) \<and> (st = Ok \<longrightarrow> Tag_status t' = Ok) \<and>
    (tag_waiting t \<longrightarrow> st \<noteq> Pending \<longrightarrow> st \<noteq> Ok \<longrightarrow> Tag_status t' = Error)"
proof (cases "tag_waiting t")
  case False
  with assms Tag_poll_settled [OF False, of os msg net] show ?thesis
    by (cases "tag_state t") (auto simp: Tag_status_def)
next
  case True
  with assms show ?thesis
    by (cases "tag_state t'")
      (auto simp: Tag_poll_finish tag_finish_def Tag_status_def tag_waiting_def Let_def
        split: prod.splits if_splits)
qed

theorem Tag_status_after_poll_witness:
  "\<exists>t msg. Tag_poll loopback_os t msg (loopback_net 5000 []) =
      (Timeout, t\<lparr>tag_state := TagFailed\<rparr>, msg\<lparr>em_state := EmFailed\<rparr>, loopback_net 5000 []) \<and>
    Tag_status (t\<lparr>tag_state := TagFailed\<rparr>) = Error"
proof -
  let ?t = "demo_tag\<lparr>tag_state := TagReading\<rparr>" and ?m = "demo_message\<lparr>em_state := EmSending\<rparr>"
  have "Tag_poll loopback_os ?t ?m (loopback_net 5000 []) =
      (Timeout, ?t\<lparr>tag_state := TagFailed\<rparr>, ?m\<lparr>em_state := EmFailed\<rparr>, loopback_net 5000 [])"
    by (simp add: Tag_poll_def ExplicitMessage_poll_def demo_message_def ExplicitMessage_new_def expired_def)
  with Tag_status_after_poll [OF this] show ?thesis
    by (intro exI [of _ ?t] exI [of _ ?m]) (simp add: tag_waiting_def)
qed

text \<open>A read of an idle tag over an idle message and a connected socket starts.\<close>

lemma Tag_read_starts:
  assumes "\<not> em_busy msg" and "\<not> tag_waiting t" and "TcpConnection_connected c net" and "length name \<le> 120"
    and run: "Tag_read os c h (Some name) n timeoutMs t msg net = (st, t', msg', net')"
  shows "st = Pending"
proof -
  obtain path pathLen where a: "appendSymbolic 0 name (replicate 128 0) = (path, pathLen)"
    by fastforce
  let ?count = "putU16 0 (ucast n) (replicate 2 0)"
  have A: "em_args (Some path) (of_nat pathLen) (Some ?count) 2"
    using symbolic_em_args [OF a, of 2 ?count] by simp
  have len: "unat (of_nat pathLen :: size_t) = length (symbolic_segment name)"
    using symbolic_argument [OF a] by simp
  obtain st1 m1 n1 where s: "ExplicitMessage_send os c h (TagService_code TsRead) (Some path)
      (of_nat pathLen) (Some ?count) 2 timeoutMs msg net = (st1, m1, n1)"
    by (metis prod_cases3)
  have "st1 = Pending"
    using ExplicitMessage_send_decides [OF assms(1,3) A s] len symbolic_segment_bounds [of name] by simp
  with run a s assms(2,4) show ?thesis
    by (simp add: Tag_read_def Tag_startRead_def tag_waiting_def kMaxSymbolicName_def)
qed

end
