(* ===== verification/PlcProperties.thy ===== *)
theory PlcProperties
  imports PlcReady TagProperties
begin

text \<open>
  The properties of the client: what every reachable client keeps, the operations of the tag pool,
  and the exchanges from a call to the data, through all layers.
\<close>

subsection \<open>Safety of every reachable client\<close>

text \<open>
  C1. Whatever a sketch does with a client, with callbacks that call back into it, and whatever
  the network sends: of the eight tags at most one is in flight, the shared message carries an
  exchange exactly while one is, and a client that is ready has a registered session with a handle
  that is not zero. No member buffer is overrun, and none of the cursors into one leaves it: the
  transmit and receive buffers of the session and of the message, the result the message points at,
  the data of the tags, their names, and the arrays of the pool. No null connection is dereferenced.
\<close>

theorem PlcClient_reachable_safe:
  assumes "callbacks_ok os eth cb" and "socket_contract os" and "plc_reach os eth cb (plc, net)"
  shows "(\<forall>i < 8. \<forall>j < 8. tag_waiting (plc_tags plc ! i) \<longrightarrow> tag_waiting (plc_tags plc ! j) \<longrightarrow> i = j) \<and>
    (em_busy (plc_msg plc) \<longleftrightarrow> (\<exists>i < 8. tag_waiting (plc_tags plc ! i))) \<and>
    (PlcClient_ready plc \<longrightarrow> Session_registered (plc_session plc) \<and> PlcClient_sessionHandle plc \<noteq> 0) \<and>
    length (ses_tx (plc_session plc)) = 536 \<and> ses_txSent (plc_session plc) \<le> ses_txLen (plc_session plc) \<and>
    ses_txLen (plc_session plc) \<le> 536 \<and>
    length (ses_rx (plc_session plc)) = 536 \<and> ses_rxLen (plc_session plc) \<le> ses_rxExpected (plc_session plc) \<and>
    ses_rxExpected (plc_session plc) \<le> 536 \<and>
    length (em_tx (plc_msg plc)) = 296 \<and> em_txSent (plc_msg plc) \<le> em_txLen (plc_msg plc) \<and>
    em_txLen (plc_msg plc) \<le> 296 \<and>
    length (em_rx (plc_msg plc)) = 296 \<and> em_rxLen (plc_msg plc) \<le> em_rxExpected (plc_msg plc) \<and>
    em_rxExpected (plc_msg plc) \<le> 296 \<and>
    (case em_data (plc_msg plc) of None \<Rightarrow> em_dataLen (plc_msg plc) = 0
     | Some off \<Rightarrow> off + em_dataLen (plc_msg plc) \<le> 296) \<and>
    (\<forall>t \<in> set (plc_tags plc). length (tag_data t) = 256 \<and> tag_dataLen t \<le> 256) \<and>
    (\<forall>s \<in> set (plc_tagNames plc). length s = 64) \<and>
    length (plc_tags plc) = 8 \<and> length (plc_inUse plc) = 8 \<and> length (plc_tagNames plc) = 8 \<and>
    length (plc_tagElemCount plc) = 8 \<and> length (plc_tagPrevStatus plc) = 8 \<and> \<not> net_fault net"
proof -
  have I: "plc_inv plc net"
    using plc_reach_inv [OF assms] by simp
  then have P: "plc_pool plc" and S: "Session_inv (plc_session plc)" and F: "\<not> net_fault net"
    and R: "plc_state plc = PlcReady \<longrightarrow> ses_state (plc_session plc) = SesRegistered"
    by (auto simp: plc_inv_def plc_phase_def)
  note session = S [unfolded Session_inv_def Session_buffers_def rx_wf_def ses_kMaxBodySize_def]
  from P have M: "em_inv (plc_msg plc)"
    by (simp add: plc_pool_def)
  note message = M [unfolded em_inv_def em_buffers_def em_result_def rx_wf_def em_kMaxCipData_def]
  show ?thesis
    using P session message F R
    by (auto simp: plc_pool_def owned_def tag_inv_def PlcClient_ready_def PlcClient_sessionHandle_def
        Session_registered_def split: option.splits)
qed

subsection \<open>The example client\<close>

definition demo_registered :: session where
  "demo_registered = demo_session\<lparr>ses_state := SesRegistered, ses_handle := 9, ses_conn := Some 0\<rparr>"

definition demo_new :: plc_client where
  "demo_new = PlcClient_new (Client_new 0) 0 demo_session demo_message
     (map Tag_new (replicate 8 (replicate 256 0))) (replicate 8 (replicate 64 0))"

text \<open>Connected, with one tag, number 0.\<close>

definition demo_plc :: plc_client where
  "demo_plc = (snd (PlcClient_createTag (Some demo_name) 1 demo_new))
     \<lparr>plc_state := PlcReady, plc_session := demo_registered\<rparr>"

lemma demo_new_fresh: "plc_fresh demo_new"
  unfolding plc_fresh_def demo_new_def demo_session_def demo_message_def
  by (intro exI conjI) (rule refl, simp_all)

lemma demo_new_inv: "plc_inv demo_new (loopback_net now q)"
  by (rule plc_fresh_inv [OF demo_new_fresh]) simp

lemma demo_name_string: "c_string (name_slot demo_name) = demo_name"
  by (simp add: c_string_def name_slot_def demo_name_def)

lemma demo_plc_facts [simp]:
  "plc_state demo_plc = PlcReady" "plc_session demo_plc = demo_registered" "plc_msg demo_plc = demo_message"
  "plc_tcp demo_plc = 0" "plc_tagNames demo_plc ! 0 = name_slot demo_name" "plc_tagElemCount demo_plc ! 0 = 1"
  "plc_inUse demo_plc ! 0" "plc_tags demo_plc ! 0 = demo_tag" "PlcClient_validHandle 0 demo_plc"
  by (simp_all add: demo_plc_def demo_new_def PlcClient_new_def PlcClient_createTag_def demo_name_def
      PlcClient_findFreeTag_def PlcClient_validHandle_def demo_tag_def Let_def eval_nat_numeral)

lemma demo_plc_inv: "plc_inv demo_plc (loopback_net now q)"
proof -
  obtain h p where c: "PlcClient_createTag (Some demo_name) 1 demo_new = (h, p)" by fastforce
  have "plc_pool p"
    using PlcClient_createTag_pool [OF _ c] demo_new_inv by (simp add: plc_inv_def)
  then have "plc_pool demo_plc"
    using c by (simp add: demo_plc_def plc_pool_def plc_prev_def)
  moreover have "Session_inv demo_registered"
    using demo_session_inv by (simp add: demo_registered_def Session_inv_defs)
  ultimately show ?thesis
    by (simp add: plc_inv_def plc_phase_def demo_registered_def)
qed

subsection \<open>From the call to the data\<close>

text \<open>A message that has been started, when the reply is there in time.\<close>

lemma em_started_reply:
  assumes "stream_contract os q" and s: "em_started c deadline req m m1"
    and "conn_up (Some c) net" and "\<not> expired (fst (millis os net)) deadline" and "length d \<le> 252"
    and "conn_queue q (Some c) net = rr_reply h (em_context m) service code d @ rest"
    and run: "ExplicitMessage_poll os m1 net = (st, m2, net')"
  shows "st = Ok \<and> em_resultCode m2 = code \<and> em_dataLen m2 = length d \<and>
    take (length d) (ExplicitMessage_data m2) = d \<and> conn_queue q (Some c) net' = rest \<and>
    net_sent net' c = net_sent net c @ req \<and> em_state m2 = EmDone"
proof -
  let ?p = "rr_reply h (em_context m) service code d"
  have b: "em_inv m1" "em_busy m1" "em_conn m1 = Some c" "em_rxLen m1 = 0" "em_deadline m1 = deadline"
      "em_sentContext m1 = em_context m" "em_txSent m1 = 0" "take (em_txLen m1) (em_tx m1) = req"
    using s unfolding em_started_def em_busy_def by blast+
  note r = rr_parse_reply [of d]
  have ok: "st = Ok \<and> em_resultCode m2 = code \<and> em_dataLen m2 = length d \<and>
      take (length d) (ExplicitMessage_data m2) = d \<and> conn_queue q (Some c) net' = rest"
    using ExplicitMessage_poll_live [OF assms(1) b(1,2) _ _ r(2) _ _ _ run, of h "em_context m" service code rest]
      b assms(3-6) r(1,3) by simp
  have C: "socket_contract os"
    using assms(1) by (simp add: stream_contract_def)
  have "em_exchange (net_sent net c) (net_rcvd net c) m1 net"
    using b by (simp add: exchange_def conn_out_def conn_in_def)
  with ExplicitMessage_poll_spec [OF C b(1,2) run, of "net_sent net c" "net_rcvd net c"] ok b
  have "net_sent net' c = net_sent net c @ req"
    by (auto simp: exchange_def conn_out_def em_same_request_def)
  with ok ExplicitMessage_poll_spec [OF C b(1,2) run, of "[]" "[]"] show ?thesis by auto
qed

lemma plc_idle_free:
  assumes "plc_pool plc" and "\<not> em_busy (plc_msg plc)"
  shows "\<not> PlcClient_anyTagBusy plc"
  using assms by (auto simp: PlcClient_anyTagBusy_def plc_pool_def owned_def)

text \<open>A poll that ends the exchange of tag \<open>h\<close> with a reply.\<close>

lemma PlcClient_poll_reply:
  assumes "stream_contract os q" and "plc_pool plc" and "plc_state plc = PlcReady" and "h < 8"
    and "plc_inUse plc ! h" and "tag_waiting (plc_tags plc ! h)" and "plc_tagPrevStatus plc ! h \<noteq> Pending"
    and "em_started c deadline req m (plc_msg plc)" and "plc_tcp plc = c"
    and "conn_up (Some c) net" and "\<not> expired (fst (millis os net)) deadline" and "length d \<le> 252"
    and "conn_queue q (Some c) net = rr_reply s (em_context m) service code d @ rest"
    and "PlcClient_poll os eth cb plc net = (st, plc', net')"
  obtains msg prev t where "st = Ok" and "em_state msg = EmDone" and "em_resultCode msg = code" and "em_dataLen msg = length d"
    and "take (length d) (ExplicitMessage_data msg) = d" and "tag_finish Ok msg (plc_tags plc ! h) = (fst (tag_finish Ok msg (plc_tags plc ! h)), t)"
    and "plc' = plc\<lparr>plc_tags := (plc_tags plc)[h := t], plc_msg := msg, plc_tagPrevStatus := prev\<rparr>"
    and "prev ! h = fst (tag_finish Ok msg (plc_tags plc ! h))"
    and "conn_queue q (Some c) net' = rest" and "net_sent net' c = net_sent net c @ req"
proof -
  obtain st0 msg net0 where p: "ExplicitMessage_poll os (plc_msg plc) net = (st0, msg, net0)"
    by (metis prod_cases3)
  note x = em_started_reply [OF assms(1,8,10-13) p]
  obtain st1 t where f: "tag_finish Ok msg (plc_tags plc ! h) = (st1, t)" by fastforce
  have tp: "Tag_poll os (plc_tags plc ! h) (plc_msg plc) net = (st1, t, msg, net0)"
    using Tag_poll_finish [OF assms(6), of os "plc_msg plc" net] p x f by simp
  have C: "socket_contract os"
    using assms(1) by (simp add: stream_contract_def)
  have "st1 \<noteq> Closed"
    using f by (auto simp: tag_finish_def Let_def split: if_splits)
  with PlcClient_pollReady_one [OF assms(2) C assms(4-6) tp, of cb] assms(3,7,14)
  obtain prev where "prev ! h = st1"
    "(st, plc', net') = (Ok, plc\<lparr>plc_tags := (plc_tags plc)[h := t], plc_msg := msg, plc_tagPrevStatus := prev\<rparr>, net0)"
    by (auto simp: PlcClient_poll_def Let_def)
  with x f show thesis
    by (intro that [of msg t prev]) simp_all
qed

text \<open>An operation that starts, on an idle client.\<close>

lemma PlcClient_read_starts:
  assumes "plc_pool plc" and "plc_state plc = PlcReady" and "PlcClient_validHandle h plc"
    and "\<not> em_busy (plc_msg plc)" and "PlcClient_read os h timeoutMs plc net = (Pending, plc1, net1)"
  obtains msg t where "em_started (plc_tcp plc) (fst (millis os net) + timeoutMs)
      (rr_request (ses_handle (plc_session plc)) (em_context (plc_msg plc)) 0x4C
        (symbolic_segment (c_string (plc_tagNames plc ! nat h)))
        (leU16 (ucast (plc_tagElemCount plc ! nat h)))) (plc_msg plc) msg"
    and "plc1 = plc\<lparr>plc_tags := (plc_tags plc)[nat h := t], plc_msg := msg\<rparr>"
    and "t = (plc_tags plc ! nat h)\<lparr>tag_dataLen := 0, tag_resultCode := 0, tag_state := TagReading\<rparr>"
proof -
  obtain st t msg net2 where r: "Tag_read os (plc_tcp plc) (ses_handle (plc_session plc))
      (Some (c_string (plc_tagNames plc ! nat h))) (plc_tagElemCount plc ! nat h) timeoutMs
      (plc_tags plc ! nat h) (plc_msg plc) net = (st, t, msg, net2)"
    by (metis prod_cases4)
  have e: "st = Pending" "plc1 = plc\<lparr>plc_tags := (plc_tags plc)[nat h := t], plc_msg := msg\<rparr>" "net2 = net1"
    using assms(5) r assms(2,3) plc_idle_free [OF assms(1,4)] by (auto simp: PlcClient_read_def)
  have "em_inv (plc_msg plc)"
    using assms(1) by (simp add: plc_pool_def)
  then obtain now where "millis os net = (now, net2)" "em_started (plc_tcp plc) (now + timeoutMs)
      (rr_request (ses_handle (plc_session plc)) (em_context (plc_msg plc)) 0x4C
        (symbolic_segment (c_string (plc_tagNames plc ! nat h)))
        (leU16 (ucast (plc_tagElemCount plc ! nat h)))) (plc_msg plc) msg"
    "t = (plc_tags plc ! nat h)\<lparr>tag_dataLen := 0, tag_resultCode := 0, tag_state := TagReading\<rparr>"
    using Tag_read_pending [OF _ r [unfolded e(1)]] by blast
  with e(2) show thesis
    by (intro that) simp_all
qed

lemma PlcClient_write_starts:
  assumes "plc_pool plc" and "plc_state plc = PlcReady" and "PlcClient_validHandle h plc"
    and "\<not> em_busy (plc_msg plc)" and "PlcClient_write os h timeoutMs plc net = (Pending, plc1, net1)"
  obtains msg t len where "Tag_writeLength (plc_tagElemCount plc ! nat h) (plc_tags plc ! nat h) = Some len"
    and "em_started (plc_tcp plc) (fst (millis os net) + timeoutMs)
      (rr_request (ses_handle (plc_session plc)) (em_context (plc_msg plc)) 0x4D
        (symbolic_segment (c_string (plc_tagNames plc ! nat h)))
        (write_data (plc_tagElemCount plc ! nat h) (tag_dataType (plc_tags plc ! nat h))
          (take len (tag_data (plc_tags plc ! nat h))))) (plc_msg plc) msg"
    and "plc1 = plc\<lparr>plc_tags := (plc_tags plc)[nat h := t], plc_msg := msg\<rparr>"
    and "t = (plc_tags plc ! nat h)\<lparr>tag_state := TagWriting\<rparr>"
proof -
  obtain st t msg net2 where r: "Tag_write os (plc_tcp plc) (ses_handle (plc_session plc))
      (Some (c_string (plc_tagNames plc ! nat h))) (plc_tagElemCount plc ! nat h) timeoutMs
      (plc_tags plc ! nat h) (plc_msg plc) net = (st, t, msg, net2)"
    by (metis prod_cases4)
  have e: "st = Pending" "plc1 = plc\<lparr>plc_tags := (plc_tags plc)[nat h := t], plc_msg := msg\<rparr>" "net2 = net1"
    using assms(5) r assms(2,3) plc_idle_free [OF assms(1,4)] by (auto simp: PlcClient_write_def)
  have "em_inv (plc_msg plc)" "tag_inv (plc_tags plc ! nat h)"
    using assms(1) plc_handle [OF assms(1,3)] by (simp_all add: plc_pool_def)
  then obtain now len where "millis os net = (now, net2)"
    "Tag_writeLength (plc_tagElemCount plc ! nat h) (plc_tags plc ! nat h) = Some len"
    "em_started (plc_tcp plc) (now + timeoutMs)
      (rr_request (ses_handle (plc_session plc)) (em_context (plc_msg plc)) 0x4D
        (symbolic_segment (c_string (plc_tagNames plc ! nat h)))
        (write_data (plc_tagElemCount plc ! nat h) (tag_dataType (plc_tags plc ! nat h))
          (take len (tag_data (plc_tags plc ! nat h))))) (plc_msg plc) msg"
    "t = (plc_tags plc ! nat h)\<lparr>tag_state := TagWriting\<rparr>"
    using Tag_write_pending [OF _ _ r [unfolded e(1)]] by blast
  with e(2) show thesis
    by (intro that) simp_all
qed

text \<open>An idle client over a connected socket starts a read.\<close>

lemma Tag_read_accepts:
  assumes "\<not> em_busy msg" and "\<not> tag_waiting t" and "TcpConnection_connected c net" and "length nm < 64"
    and "Tag_read os c h (Some nm) n timeoutMs t msg net = (st, t', msg', net')"
  shows "st = Pending"
proof -
  obtain path pathLen where a: "appendSymbolic 0 nm (replicate 128 0) = (path, pathLen)"
    by fastforce
  let ?count = "putU16 0 (ucast n) (replicate 2 0)"
  have A: "em_args (Some path) (of_nat pathLen) (Some ?count) 2"
    using symbolic_em_args [OF a, of 2 ?count] by simp
  obtain st1 m1 n1 where s: "ExplicitMessage_send os c h (TagService_code TsRead) (Some path)
      (of_nat pathLen) (Some ?count) 2 timeoutMs msg net = (st1, m1, n1)"
    by (metis prod_cases3)
  have l: "pathLen = length (symbolic_segment nm)"
    using symbolic_argument [OF a] by simp
  have "length (symbolic_segment nm) \<le> 122" "even (length (symbolic_segment nm))"
    using symbolic_segment_bounds [of nm] by simp_all
  moreover have "unat (of_nat pathLen :: size_t) = pathLen"
    using calculation(1) l by (intro small_size) simp
  ultimately have "st1 = Pending"
    using ExplicitMessage_send_decides [OF assms(1,3) A s] l by simp
  moreover have "Tag_startRead os c h nm n timeoutMs t msg net = (st, t', msg', net')"
    using assms(2,4,5) by (simp add: Tag_read_def tag_waiting_def kMaxSymbolicName_def)
  ultimately show ?thesis
    using s a by (auto simp: Tag_startRead_def Let_def)
qed

lemma PlcClient_read_accepts:
  assumes "plc_pool plc" and "plc_state plc = PlcReady" and "PlcClient_validHandle h plc"
    and "\<not> em_busy (plc_msg plc)" and "TcpConnection_connected (plc_tcp plc) net"
    and "length (c_string (plc_tagNames plc ! nat h)) < 64"
    and "PlcClient_read os h timeoutMs plc net = (st, plc1, net1)"
  shows "st = Pending"
proof -
  obtain st1 t msg net2 where r: "Tag_read os (plc_tcp plc) (ses_handle (plc_session plc))
      (Some (c_string (plc_tagNames plc ! nat h))) (plc_tagElemCount plc ! nat h) timeoutMs
      (plc_tags plc ! nat h) (plc_msg plc) net = (st1, t, msg, net2)"
    by (metis prod_cases4)
  have "\<not> tag_waiting (plc_tags plc ! nat h)"
    using assms(1,3,4) plc_handle [OF assms(1,3)] by (auto simp: plc_pool_def owned_def)
  from Tag_read_accepts [OF assms(4) this assms(5,6) r] assms(2,3,7) r plc_idle_free [OF assms(1,4)]
  show ?thesis
    by (simp add: PlcClient_read_def)
qed

text \<open>The reply to a read or a write settles the tag.\<close>

lemma tag_finish_reply:
  assumes "tag_inv t" and "tag_waiting t" and "em_resultCode msg = code" and "em_dataLen msg = length d"
    and "take (length d) (ExplicitMessage_data msg) = d" and "length d \<le> 252"
    and "tag_finish Ok msg t = (st, t')"
  shows "st = (if code = 0 then Ok else Error) \<and> Tag_status t' = st \<and> tag_resultCode t' = code \<and>
    (tag_state t = TagReading \<longrightarrow> code = 0 \<longrightarrow> 2 \<le> length d \<longrightarrow> tag_holds d t') \<and>
    (tag_state t = TagWriting \<longrightarrow> tag_data t' = tag_data t)"
proof -
  have "tag_holds d t'" if "tag_state t = TagReading" "code = 0" "2 \<le> length d"
  proof -
    have "st = Ok"
      using assms(3,7) that(2) by (auto simp: tag_finish_def Let_def)
    moreover have "length d \<le> length (ExplicitMessage_data msg)"
      using arg_cong [OF assms(5), of length] by simp
    ultimately show ?thesis
      using tag_finish_read [OF assms(1) that(1), of msg t' d] assms(4-7) that(3) by simp
  qed
  moreover have "st = (if code = 0 then Ok else Error) \<and> Tag_status t' = st \<and> tag_resultCode t' = code"
    using assms(3,7) by (auto simp: tag_finish_def Tag_status_def Let_def split: if_splits)
  moreover have "tag_state t = TagWriting \<longrightarrow> tag_data t' = tag_data t"
    using assms(7) by (auto simp: tag_finish_def Let_def split: if_splits)
  ultimately show ?thesis by blast
qed

lemma PlcClient_started_reply:
  assumes "stream_contract os q" and "plc_pool plc" and "plc_state plc = PlcReady"
    and "PlcClient_validHandle h plc" and "\<not> em_busy (plc_msg plc)"
    and s: "em_started (plc_tcp plc) deadline req (plc_msg plc) msg"
    and plc1: "plc1 = plc\<lparr>plc_tags := (plc_tags plc)[nat h := t], plc_msg := msg\<rparr>"
    and t: "tag_inv t" "tag_waiting t"
    and "conn_up (Some (plc_tcp plc)) net2" and "\<not> expired (fst (millis os net2)) deadline"
    and "length d \<le> 252"
    and "conn_queue q (Some (plc_tcp plc)) net2 =
      rr_reply s' (em_context (plc_msg plc)) service code d @ rest"
    and "PlcClient_poll os eth cb plc1 net2 = (st2, plc2, net3)"
  shows "st2 = Ok \<and> PlcClient_ready plc2 \<and> PlcClient_validHandle h plc2 \<and>
    PlcClient_tagStatus h plc2 = (if code = 0 then Ok else Error) \<and>
    tag_resultCode (plc_tags plc2 ! nat h) = code \<and>
    plc_tagPrevStatus plc2 ! nat h = PlcClient_tagStatus h plc2 \<and>
    (tag_state t = TagReading \<longrightarrow> code = 0 \<longrightarrow> 2 \<le> length d \<longrightarrow> tag_holds d (plc_tags plc2 ! nat h)) \<and>
    (tag_state t = TagWriting \<longrightarrow> tag_data (plc_tags plc2 ! nat h) = tag_data t) \<and>
    \<not> em_busy (plc_msg plc2) \<and>
    conn_queue q (Some (plc_tcp plc)) net3 = rest \<and>
    net_sent net3 (plc_tcp plc) = net_sent net2 (plc_tcp plc) @ req"
proof -
  have h: "nat h < 8" "0 \<le> h" "plc_inUse plc ! nat h" "int (nat h) = h"
    using assms(4) by (auto simp: PlcClient_validHandle_def)
  have len: "length (plc_tags plc) = 8" "em_inv (plc_msg plc)"
    using assms(2) by (simp_all add: plc_pool_def)
  have i: "em_inv msg" "em_busy msg"
    using s unfolding em_started_def em_busy_def by blast+
  have P1: "plc_pool plc1"
    unfolding plc1
    using t i assms(5) assms(2) h(1) by (intro plc_pool_started [OF assms(2) h(1), of Pending])
      (auto simp: tag_started_def plc_pool_def owned_def)
  have q1: "plc_tagPrevStatus plc1 ! nat h \<noteq> Pending"
    using plc_idle_quiet [OF assms(2,5) h(1)] h(3) by (simp add: tag_quiet_def plc1)
  have p1: "plc_tags plc1 ! nat h = t" "plc_inUse plc1 ! nat h" "plc_state plc1 = PlcReady" "plc_tcp plc1 = plc_tcp plc"
      "plc_msg plc1 = msg"
    using h len assms(3) by (simp_all add: plc1)
  note pr = PlcClient_poll_reply [OF assms(1) P1 p1(3) h(1) p1(2) _ q1 _ p1(4) assms(10-14), unfolded p1, OF t(2) s]
  obtain msg2 prev t2 where m: "st2 = Ok" and dn: "em_state msg2 = EmDone" and c2: "em_resultCode msg2 = code" "em_dataLen msg2 = length d"
      "take (length d) (ExplicitMessage_data msg2) = d"
    and f: "tag_finish Ok msg2 t = (fst (tag_finish Ok msg2 t), t2)"
    and p2: "plc2 = plc1\<lparr>plc_tags := (plc_tags plc1)[nat h := t2], plc_msg := msg2, plc_tagPrevStatus := prev\<rparr>"
    and pv: "prev ! nat h = fst (tag_finish Ok msg2 t)"
    and n: "conn_queue q (Some (plc_tcp plc)) net3 = rest"
      "net_sent net3 (plc_tcp plc) = net_sent net2 (plc_tcp plc) @ req"
    by (rule pr)
  note fin = tag_finish_reply [OF t c2 assms(12) f]
  have "plc_tags plc2 ! nat h = t2" "PlcClient_validHandle h plc2" "PlcClient_ready plc2"
    using h len assms(3,4) by (simp_all add: p2 plc1 PlcClient_validHandle_def PlcClient_ready_def)
  moreover have "\<not> em_busy msg2"
    using dn by (simp add: em_busy_def)
  ultimately show ?thesis
    using fin m n pv by (auto simp: PlcClient_tagStatus_def p2)
qed

text \<open>
  C2. A read delivers, through all layers: a ready client with nothing in flight, over a
  connected socket, accepts a read of a tag it has created; if the reply is there when it is
  polled before the deadline, the client has sent one Read Tag request for the name, the count and
  the registered session handle, stays ready, the tag is settled with the status of the reply, and
  a success gives the tag the type and the data of the reply. The bytes after it stay in the socket.
\<close>

theorem PlcClient_read_delivers:
  assumes "stream_contract os q" and "plc_inv plc net" and "plc_state plc = PlcReady"
    and "PlcClient_validHandle h plc" and "\<not> em_busy (plc_msg plc)"
    and "plc_tagNames plc ! nat h = name_slot nm" and "0 \<notin> set nm" and "length nm < 64"
    and "TcpConnection_connected (plc_tcp plc) net"
    and "PlcClient_read os h timeoutMs plc net = (st1, plc1, net1)"
    and "conn_up (Some (plc_tcp plc)) net2"
    and "\<not> expired (fst (millis os net2)) (fst (millis os net) + timeoutMs)"
    and "conn_queue q (Some (plc_tcp plc)) net2 =
      rr_reply s (em_context (plc_msg plc)) service code d @ rest" and "length d \<le> 252"
    and "PlcClient_poll os eth cb plc1 net2 = (st2, plc2, net3)"
  shows "st1 = Pending \<and> st2 = Ok \<and> PlcClient_ready plc2 \<and>
    PlcClient_tagStatus h plc2 = (if code = 0 then Ok else Error) \<and>
    tag_resultCode (plc_tags plc2 ! nat h) = code \<and>
    (code = 0 \<longrightarrow> 2 \<le> length d \<longrightarrow> tag_holds d (plc_tags plc2 ! nat h)) \<and>
    net_sent net3 (plc_tcp plc) = net_sent net2 (plc_tcp plc) @
      rr_request (PlcClient_sessionHandle plc) (em_context (plc_msg plc)) 0x4C (symbolic_segment nm)
        (leU16 (ucast (plc_tagElemCount plc ! nat h))) \<and>
    conn_queue q (Some (plc_tcp plc)) net3 = rest"
proof -
  have P: "plc_pool plc"
    using assms(2) by (simp add: plc_inv_def)
  have nm: "c_string (plc_tagNames plc ! nat h) = nm"
    using assms(6-8) c_string_slot by simp
  have st: "st1 = Pending"
    using PlcClient_read_accepts [OF P assms(3-5,9) _ assms(10)] nm assms(8) by simp
  obtain msg t where s: "em_started (plc_tcp plc) (fst (millis os net) + timeoutMs)
      (rr_request (ses_handle (plc_session plc)) (em_context (plc_msg plc)) 0x4C
        (symbolic_segment nm) (leU16 (ucast (plc_tagElemCount plc ! nat h)))) (plc_msg plc) msg"
    and p1: "plc1 = plc\<lparr>plc_tags := (plc_tags plc)[nat h := t], plc_msg := msg\<rparr>"
    and t: "t = (plc_tags plc ! nat h)\<lparr>tag_dataLen := 0, tag_resultCode := 0, tag_state := TagReading\<rparr>"
    by (rule PlcClient_read_starts [OF P assms(3-5) assms(10) [unfolded st], unfolded nm])
  have w: "tag_inv t" "tag_waiting t" "tag_state t = TagReading"
    using P plc_handle [OF P assms(4)] by (simp_all add: t tag_waiting_def tag_inv_def plc_pool_def)
  from PlcClient_started_reply [OF assms(1) P assms(3-5) s p1 w(1,2) assms(11,12,14,13,15)] st w(3)
  show ?thesis
    by (simp add: PlcClient_sessionHandle_def)
qed

lemma demo_idle [simp]: "\<not> em_busy demo_message" "em_context demo_message = 1"
  by (simp_all add: demo_message_def ExplicitMessage_new_def em_busy_def)

text \<open>Callbacks that do nothing.\<close>

definition demo_cb :: "'w callbacks" where
  "demo_cb = \<lparr>cb_tag = (\<lambda>f h st u s. s), cb_state = (\<lambda>f st u s. s)\<rparr>"

theorem PlcClient_read_delivers_witness:
  "\<exists>plc1 plc2 (net1 :: loopback net) net3.
     PlcClient_read loopback_os 0 1000 demo_plc (loopback_net 0 []) = (Pending, plc1, net1) \<and>
     PlcClient_poll loopback_os demo_eth demo_cb plc1
       (loopback_net 5 (rr_reply 9 1 0xCC 0 [0xC3, 0, 1, 2])) = (Ok, plc2, net3) \<and>
     PlcClient_tagStatus 0 plc2 = Ok \<and> tag_holds [0xC3, 0, 1, 2] (plc_tags plc2 ! 0) \<and>
     net_sent net3 0 = rr_request 9 1 0x4C (symbolic_segment demo_name) [1, 0]"
proof -
  let ?q = "rr_reply 9 1 0xCC 0 [0xC3, 0, 1, 2]"
  obtain st1 plc1 and net1 :: "loopback net" where r: "PlcClient_read loopback_os 0 1000 demo_plc
      (loopback_net 0 []) = (st1, plc1, net1)"
    by (metis prod_cases3)
  obtain st2 plc2 and net3 :: "loopback net" where p: "PlcClient_poll loopback_os demo_eth demo_cb plc1
      (loopback_net 5 ?q) = (st2, plc2, net3)"
    by (metis prod_cases3)
  have n: "0 \<notin> set demo_name" "length demo_name < 64"
    by (simp_all add: demo_name_def)
  have w: "leU16 (ucast (1 :: u32)) = [1, 0]"
    by (simp add: leU16_def)
  have "PlcClient_sessionHandle demo_plc = 9"
    by (simp add: PlcClient_sessionHandle_def demo_registered_def)
  with PlcClient_read_delivers [OF loopback_stream_contract demo_plc_inv demo_plc_facts(1,9) _ _ n _ r _ _ _ _ p,
      where s = 9 and service = "0xCC" and code = 0 and d = "[0xC3, 0, 1, 2]" and rest = "[]"] r p w
  show ?thesis
    by (auto simp: expired_def conn_queue_def)
qed

text \<open>
  C3. A write delivers, in the same way: the request carries the count, the type and the bytes
  of the tag's buffer, which the write leaves as they are.
\<close>

theorem PlcClient_write_delivers:
  assumes "stream_contract os q" and "plc_inv plc net" and "plc_state plc = PlcReady"
    and "PlcClient_validHandle h plc" and "\<not> em_busy (plc_msg plc)"
    and "plc_tagNames plc ! nat h = name_slot nm" and "0 \<notin> set nm" and "length nm < 64"
    and "PlcClient_write os h timeoutMs plc net = (Pending, plc1, net1)"
    and "conn_up (Some (plc_tcp plc)) net2"
    and "\<not> expired (fst (millis os net2)) (fst (millis os net) + timeoutMs)"
    and "conn_queue q (Some (plc_tcp plc)) net2 =
      rr_reply s (em_context (plc_msg plc)) service code d @ rest" and "length d \<le> 252"
    and "PlcClient_poll os eth cb plc1 net2 = (st2, plc2, net3)"
  shows "st2 = Ok \<and> PlcClient_ready plc2 \<and>
    PlcClient_tagStatus h plc2 = (if code = 0 then Ok else Error) \<and>
    tag_resultCode (plc_tags plc2 ! nat h) = code \<and>
    tag_data (plc_tags plc2 ! nat h) = tag_data (plc_tags plc ! nat h) \<and>
    (\<exists>len. Tag_writeLength (plc_tagElemCount plc ! nat h) (plc_tags plc ! nat h) = Some len \<and>
      net_sent net3 (plc_tcp plc) = net_sent net2 (plc_tcp plc) @
        rr_request (PlcClient_sessionHandle plc) (em_context (plc_msg plc)) 0x4D (symbolic_segment nm)
          (write_data (plc_tagElemCount plc ! nat h) (tag_dataType (plc_tags plc ! nat h))
            (take len (tag_data (plc_tags plc ! nat h))))) \<and>
    conn_queue q (Some (plc_tcp plc)) net3 = rest"
proof -
  have P: "plc_pool plc"
    using assms(2) by (simp add: plc_inv_def)
  have nm: "c_string (plc_tagNames plc ! nat h) = nm"
    using assms(6-8) c_string_slot by simp
  obtain msg t len where len: "Tag_writeLength (plc_tagElemCount plc ! nat h) (plc_tags plc ! nat h) = Some len"
    and s: "em_started (plc_tcp plc) (fst (millis os net) + timeoutMs)
      (rr_request (ses_handle (plc_session plc)) (em_context (plc_msg plc)) 0x4D
        (symbolic_segment nm)
        (write_data (plc_tagElemCount plc ! nat h) (tag_dataType (plc_tags plc ! nat h))
          (take len (tag_data (plc_tags plc ! nat h))))) (plc_msg plc) msg"
    and p1: "plc1 = plc\<lparr>plc_tags := (plc_tags plc)[nat h := t], plc_msg := msg\<rparr>"
    and t: "t = (plc_tags plc ! nat h)\<lparr>tag_state := TagWriting\<rparr>"
    by (rule PlcClient_write_starts [OF P assms(3-5,9), unfolded nm])
  have w: "tag_inv t" "tag_waiting t" "tag_state t = TagWriting" "tag_data t = tag_data (plc_tags plc ! nat h)"
    using P plc_handle [OF P assms(4)] by (simp_all add: t tag_waiting_def tag_inv_def plc_pool_def)
  from PlcClient_started_reply [OF assms(1) P assms(3-5) s p1 w(1,2) assms(10,11,13,12,14)] w(3,4) len
  show ?thesis
    by (simp add: PlcClient_sessionHandle_def)
qed

text \<open>The example's tag, with data to write.\<close>

definition demo_plc_write :: plc_client where
  "demo_plc_write = demo_plc\<lparr>plc_tags := (plc_tags demo_plc)[0 := Tag_setInt16 0 7 (Tag_setDataType 0xC3 demo_tag)]\<rparr>"

lemma demo_write_edit: "tag_edit (\<lambda>t. Tag_setInt16 0 7 (Tag_setDataType 0xC3 t))"
proof -
  have "tag_inv (Tag_setInt16 0 7 (Tag_setDataType 0xC3 t))" if "tag_inv t" for t
    using that by (intro acc_int16.set_inv) (simp_all add: Tag_setDataType_def tag_inv_def sint_range_def)
  then show ?thesis
    by (simp add: tag_edit_def Tag_setInt16_def Tag_setDataType_def)
qed

lemma demo_plc_write_facts [simp]:
  "plc_state demo_plc_write = PlcReady" "plc_session demo_plc_write = demo_registered"
  "plc_msg demo_plc_write = demo_message" "plc_tcp demo_plc_write = 0"
  "plc_tagNames demo_plc_write ! 0 = name_slot demo_name" "plc_tagElemCount demo_plc_write ! 0 = 1"
  "PlcClient_validHandle 0 demo_plc_write" "plc_inv demo_plc_write (loopback_net now q)"
proof -
  show "plc_inv demo_plc_write (loopback_net now q)"
    using demo_plc_inv [of now q] PlcClient_edit_pool [OF _ demo_write_edit, of demo_plc 0]
    by (simp add: plc_inv_def demo_plc_write_def)
qed (simp_all add: demo_plc_write_def PlcClient_validHandle_def)

theorem PlcClient_write_delivers_witness:
  "\<exists>plc1 plc2 (net1 :: loopback net) net3.
     PlcClient_write loopback_os 0 1000 demo_plc_write (loopback_net 0 []) = (Pending, plc1, net1) \<and>
     PlcClient_poll loopback_os demo_eth demo_cb plc1 (loopback_net 5 (rr_reply 9 1 0xCD 0 [])) =
       (Ok, plc2, net3) \<and>
     net_sent net3 0 = rr_request 9 1 0x4D (symbolic_segment demo_name) [1, 0, 0xC3, 0, 7, 0]"
proof -
  let ?t = "plc_tags demo_plc_write ! 0"
  have len: "length (plc_tags demo_plc) = 8"
    using demo_plc_inv [of 0 "[]"] by (simp add: plc_inv_def plc_pool_def)
  have t: "?t = Tag_setInt16 0 7 (Tag_setDataType 0xC3 demo_tag)"
    by (simp add: demo_plc_write_def len)
  have tt: "tag_dataType ?t = 0xC3" "take 2 (tag_data ?t) = [7, 0]" "Tag_writeLength 1 ?t = Some 2"
      "\<not> tag_waiting ?t"
    unfolding t
    by (simp_all add: Tag_setInt16_def Tag_inBounds_iff Tag_setDataType_def demo_tag_def
      Tag_new_def tag_waiting_def putU16_def leU16_def poke_def Tag_writeLength_def DataType_cast_def Let_def)
  obtain st1 plc1 and net1 :: "loopback net" where r: "PlcClient_write loopback_os 0 1000 demo_plc_write
      (loopback_net 0 []) = (st1, plc1, net1)"
    by (metis prod_cases3)
  have n: "0 \<notin> set demo_name" "length demo_name < 64"
    by (simp_all add: demo_name_def)
  have "PlcClient_anyTagBusy demo_plc_write = False"
    using plc_idle_free [of demo_plc_write] demo_plc_write_facts(8) [of 0 "[]"] by (simp add: plc_inv_def)
  moreover obtain sw tw mw and nw :: "loopback net" where wr: "Tag_write loopback_os 0 9 (Some demo_name) 1 1000
      ?t demo_message (loopback_net 0 []) = (sw, tw, mw, nw)"
    by (metis prod_cases4)
  moreover from wr have "sw = Pending"
    using tt by (auto simp: Tag_write_def tag_waiting_def Tag_startWrite_def ExplicitMessage_send_def
        demo_message_def ExplicitMessage_new_def appendSymbolic_def demo_name_def kMaxSymbolicName_def Let_def)
  ultimately have "st1 = Pending"
    using r by (simp add: PlcClient_write_def demo_name_string demo_registered_def)
  obtain st2 plc2 and net3 :: "loopback net" where p: "PlcClient_poll loopback_os demo_eth demo_cb plc1
      (loopback_net 5 (rr_reply 9 1 0xCD 0 [])) = (st2, plc2, net3)"
    by (metis prod_cases3)
  have "write_data 1 0xC3 [7, 0] = [1, 0, 0xC3, 0, 7, 0]"
    by (simp add: write_data_def leU16_def)
  moreover have "PlcClient_sessionHandle demo_plc_write = 9"
    by (simp add: PlcClient_sessionHandle_def demo_registered_def)
  ultimately show ?thesis
    using PlcClient_write_delivers [OF loopback_stream_contract demo_plc_write_facts(8,1,7) _ _ n
        r [unfolded \<open>st1 = Pending\<close>] _ _ _ _ p,
        where s = 9 and service = "0xCD" and code = 0 and d = "[]" and rest = "[]"] r p tt \<open>st1 = Pending\<close>
    by (auto simp: expired_def conn_queue_def)
qed

subsection \<open>The tag pool\<close>

text \<open>
  What the pool is to its user: a map from handles to a name and a count. The lowest free handle is
  the one a new tag gets.
\<close>

definition pool_map :: "plc_client \<Rightarrow> nat \<Rightarrow> (cstring \<times> u32) option" where
  "pool_map plc i =
     (if i < 8 \<and> plc_inUse plc ! i then Some (c_string (plc_tagNames plc ! i), plc_tagElemCount plc ! i)
      else None)"

definition pool_free :: "(nat \<Rightarrow> (cstring \<times> u32) option) \<Rightarrow> nat option" where
  "pool_free M = find (\<lambda>i. M i = None) [0..<8]"

fun pool_step :: "plc_call \<Rightarrow> (nat \<Rightarrow> (cstring \<times> u32) option) \<Rightarrow> nat \<Rightarrow> (cstring \<times> u32) option" where
  "pool_step (PcCreateTag (Some nm) n) M =
     (if nm = [] \<or> 64 \<le> length nm then M
      else case pool_free M of None \<Rightarrow> M | Some i \<Rightarrow> M(i \<mapsto> (nm, n)))"
| "pool_step (PcDestroyTag h) M = (if 0 \<le> h then M(nat h := None) else M)"
| "pool_step _ M = M"

text \<open>The code's search agrees.\<close>

lemma find_free_find:
  "find_free us k = (case find (\<lambda>i. \<not> us ! (i - k)) [k..<k + length us] of None \<Rightarrow> -1 | Some i \<Rightarrow> int i)"
proof (induction us arbitrary: k)
  case Nil
  then show ?case by simp
next
  case (Cons u us)
  have s: "[k..<k + length (u # us)] = k # [Suc k..<Suc k + length us]"
    by (subst upt_conv_Cons) simp_all
  have "find (\<lambda>i. \<not> (u # us) ! (i - k)) [Suc k..<Suc k + length us] =
      find (\<lambda>i. \<not> us ! (i - Suc k)) [Suc k..<Suc k + length us]"
    by (rule find_cong) (auto simp: nth_Cons' Suc_diff_Suc)
  with Cons.IH [of "Suc k"] show ?case
    unfolding s by (cases u) (simp_all del: upt_Suc)
qed

lemma findFreeTag_pool:
  assumes "length (plc_inUse plc) = 8"
  shows "PlcClient_findFreeTag plc = (case pool_free (pool_map plc) of None \<Rightarrow> -1 | Some i \<Rightarrow> int i)"
proof -
  have "find (\<lambda>i. \<not> plc_inUse plc ! i) [0..<8] = find (\<lambda>i. pool_map plc i = None) [0..<8]"
    by (rule find_cong) (auto simp: pool_map_def)
  with assms find_free_find [of "plc_inUse plc" 0] show ?thesis
    by (simp add: PlcClient_findFreeTag_def pool_free_def)
qed

lemma pool_free_Some: "pool_free M = Some i \<Longrightarrow> i < 8 \<and> M i = None"
  by (auto simp: pool_free_def find_Some_iff)

lemma pool_free_None: "pool_free M = None \<longleftrightarrow> (\<forall>i < 8. M i \<noteq> None)"
  by (auto simp: pool_free_def find_None_iff)

lemma createTag_pool_map:
  assumes "plc_pool plc" and "nm \<noteq> []" and "length nm < 64" and "0 \<notin> set nm"
    and "PlcClient_createTag (Some nm) n plc = (h, plc')"
  shows "pool_map plc' = pool_step (PcCreateTag (Some nm) n) (pool_map plc) \<and>
    h = (case pool_free (pool_map plc) of None \<Rightarrow> Status_code NoMemory | Some i \<Rightarrow> int i)"
proof (cases "pool_free (pool_map plc)")
  case None
  with assms findFreeTag_pool [of plc] show ?thesis
    by (auto simp: PlcClient_createTag_def plc_pool_def)
next
  case (Some i)
  have f: "PlcClient_findFreeTag plc = int i" and len: "length (plc_inUse plc) = 8"
      "length (plc_tagNames plc) = 8" "length (plc_tagElemCount plc) = 8"
    using Some assms(1) findFreeTag_pool [of plc] by (simp_all add: plc_pool_def)
  have "h = int i" and p: "plc' = plc\<lparr>plc_tagNames := (plc_tagNames plc)[i := name_slot nm],
      plc_tagElemCount := (plc_tagElemCount plc)[i := n],
      plc_tagPrevStatus := (plc_tagPrevStatus plc)[i := NotReady],
      plc_inUse := (plc_inUse plc)[i := True]\<rparr>"
    using assms f by (auto simp: PlcClient_createTag_def Let_def)
  moreover have "pool_map plc' = (pool_map plc)(i \<mapsto> (nm, n))"
    using pool_free_Some [OF Some] len c_string_slot [OF assms(4,3)]
    by (auto simp: fun_eq_iff pool_map_def p nth_update_if)
  ultimately show ?thesis
    using Some assms(2,3) by simp
qed

text \<open>Only creating and destroying change the map.\<close>

lemma pool_map_cong:
  "plc_inUse plc' = plc_inUse plc \<Longrightarrow> plc_tagNames plc' = plc_tagNames plc \<Longrightarrow>
    plc_tagElemCount plc' = plc_tagElemCount plc \<Longrightarrow> pool_map plc' = pool_map plc"
  by (simp add: pool_map_def fun_eq_iff)

lemma pool_map_call_other:
  assumes "\<forall>name n. call \<noteq> PcCreateTag name n" and "\<forall>h. call \<noteq> PcDestroyTag h"
    and "PlcClient_call os eth call (plc, net) = (plc', net')"
  shows "pool_map plc' = pool_map plc"
proof (cases call)
  case (PcRead h t)
  with assms(3) show ?thesis
    by (intro pool_map_cong) (auto simp: PlcClient_read_def Let_def split: if_splits prod.splits)
next
  case (PcWrite h t)
  with assms(3) show ?thesis
    by (intro pool_map_cong) (auto simp: PlcClient_write_def Let_def split: if_splits prod.splits)
next
  case (PcBegin cfg)
  with assms(3) show ?thesis
    by (intro pool_map_cong) (auto simp: PlcClient_begin_def Let_def split: prod.splits)
next
  case (PcConnect ip port t)
  with assms(3) show ?thesis
    by (intro pool_map_cong) (auto simp: PlcClient_connect_def Let_def split: if_splits prod.splits)
next
  case PcDisconnect
  with assms(3) show ?thesis
    by (intro pool_map_cong) (auto simp: PlcClient_disconnect_def Let_def split: if_splits prod.splits)
next
  case (PcAbortTag h)
  with assms(3) show ?thesis
    by (intro pool_map_cong) (auto simp: PlcClient_abortTag_def Let_def split: if_splits prod.splits)
next
  case (PcEditTag h f)
  with assms(3) show ?thesis
    by (intro pool_map_cong) (auto split: option.splits)
qed (use assms in \<open>auto intro!: pool_map_cong simp: PlcClient_setTagCallback_def PlcClient_setStateCallback_def\<close>)

lemma destroyTag_pool_map:
  assumes "plc_pool plc" and "PlcClient_destroyTag h plc = (st, plc')"
  shows "pool_map plc' = pool_step (PcDestroyTag h) (pool_map plc) \<and>
    st = (if 0 \<le> h \<and> pool_map plc (nat h) \<noteq> None then Ok else InvalidArg)"
  using assms
  by (auto simp: PlcClient_destroyTag_def PlcClient_validHandle_def pool_map_def fun_eq_iff nth_update_if
      plc_pool_def split: if_split_asm)

lemma foldl_count: "foldl (\<lambda>n u. if u then n + 1 else n) k us = k + length (filter (\<lambda>u. u) us)"
  by (induction us arbitrary: k) simp_all

lemma tagCount_card:
  assumes "plc_pool plc"
  shows "PlcClient_tagCount plc = card (dom (pool_map plc))"
proof -
  have "dom (pool_map plc) = {i. i < length (plc_inUse plc) \<and> plc_inUse plc ! i}"
    using assms by (auto simp: pool_map_def dom_def plc_pool_def)
  then show ?thesis
    by (simp add: PlcClient_tagCount_def foldl_count length_filter_conv_card)
qed

text \<open>The names of the calls are C strings.\<close>

fun call_name_ok :: "plc_call \<Rightarrow> bool" where
  "call_name_ok (PcCreateTag (Some nm) n) = (0 \<notin> set nm)"
| "call_name_ok _ = True"

lemma PlcClient_call_pool_map:
  assumes P: "plc_pool plc" and "call_name_ok call"
    and "PlcClient_call os eth call (plc, net) = (plc', net')"
  shows "pool_map plc' = pool_step call (pool_map plc)"
proof (cases call)
  case (PcCreateTag name n)
  show ?thesis
  proof (cases name)
    case None
    with PcCreateTag assms(3) show ?thesis
      by (auto simp: PlcClient_createTag_def)
  next
    case (Some nm)
    show ?thesis
    proof (cases "nm = [] \<or> 64 \<le> length nm")
      case True
      with PcCreateTag Some assms(3) show ?thesis
        by (auto simp: PlcClient_createTag_def)
    next
      case False
      obtain h p where r: "PlcClient_createTag (Some nm) n plc = (h, p)" by fastforce
      from createTag_pool_map [OF P _ _ _ r] False assms(2,3) PcCreateTag Some r show ?thesis
        by simp
    qed
  qed
next
  case (PcDestroyTag h)
  obtain st p where r: "PlcClient_destroyTag h plc = (st, p)" by fastforce
  from destroyTag_pool_map [OF P r] assms(3) PcDestroyTag r show ?thesis
    by simp
qed (use pool_map_call_other [OF _ _ assms(3)] in simp_all)

text \<open>
  C16. The pool refines a map from handles to names and counts. Every call of the client is the
  corresponding step of the map: \<open>createTag()\<close> enters the lowest free handle, and nothing if
  the name is empty or too long or the eight handles are taken, \<open>destroyTag()\<close> removes one, no
  other call changes it. The handle \<open>createTag()\<close> returns is the entered one or
  \<open>NoMemory\<close>; a handle is valid exactly if the map has it, and \<open>tagCount()\<close> is the number
  of its entries.
\<close>

theorem PlcClient_pool_refines:
  assumes "plc_inv plc net" and "call_name_ok call"
    and "PlcClient_call os eth call (plc, net) = (plc', net')"
  shows "pool_map plc' = pool_step call (pool_map plc) \<and>
    (\<forall>nm n. call = PcCreateTag (Some nm) n \<and> nm \<noteq> [] \<and> length nm < 64 \<longrightarrow>
       fst (PlcClient_createTag (Some nm) n plc) =
         (case pool_free (pool_map plc) of None \<Rightarrow> Status_code NoMemory | Some i \<Rightarrow> int i)) \<and>
    (\<forall>h. PlcClient_validHandle h plc' \<longleftrightarrow> 0 \<le> h \<and> nat h \<in> dom (pool_map plc')) \<and>
    PlcClient_tagCount plc = card (dom (pool_map plc))"
proof -
  have P: "plc_pool plc"
    using assms(1) by (simp add: plc_inv_def)
  have v: "PlcClient_validHandle h plc' \<longleftrightarrow> 0 \<le> h \<and> nat h \<in> dom (pool_map plc')" for h
    by (auto simp: PlcClient_validHandle_def pool_map_def dom_def split: if_splits)
  note c = PlcClient_call_pool_map [OF P assms(2,3)]
  have h: "fst (PlcClient_createTag (Some nm) n plc) =
      (case pool_free (pool_map plc) of None \<Rightarrow> Status_code NoMemory | Some i \<Rightarrow> int i)"
    if "call = PcCreateTag (Some nm) n" "nm \<noteq> []" "length nm < 64" for nm n
    using createTag_pool_map [OF P that(2,3)] assms(2) that(1)
    by (metis call_name_ok.simps(1) prod.collapse)
  show ?thesis
    using c v h tagCount_card [OF P] by blast
qed

theorem PlcClient_pool_refines_witness:
  "fst (PlcClient_createTag (Some demo_name) 4 demo_plc) = 1 \<and>
   pool_map (snd (PlcClient_createTag (Some demo_name) 4 demo_plc)) =
     [0 \<mapsto> (demo_name, 1), 1 \<mapsto> (demo_name, 4)]"
proof -
  have "demo_name \<noteq> []" "length demo_name < 64" "call_name_ok (PcCreateTag (Some demo_name) 4)"
    by (simp_all add: demo_name_def)
  moreover have "plc_inUse demo_plc = [True, False, False, False, False, False, False, False]"
    by (simp add: demo_plc_def demo_new_def PlcClient_new_def PlcClient_createTag_def demo_name_def
        PlcClient_findFreeTag_def Let_def eval_nat_numeral)
  then have m: "pool_map demo_plc = [0 \<mapsto> (demo_name, 1)]"
    by (auto simp: pool_map_def fun_eq_iff demo_name_string nth_Cons' split: if_splits)
  moreover have "pool_free [0 \<mapsto> (demo_name, 1)] = Some 1"
    by (simp add: pool_free_def eval_nat_numeral upt_conv_Cons)
  moreover obtain p n1 where "PlcClient_call loopback_os demo_eth (PcCreateTag (Some demo_name) 4)
      (demo_plc, loopback_net 0 []) = (p, n1)"
    by fastforce
  ultimately show ?thesis
    using PlcClient_pool_refines [OF demo_plc_inv, where call = "PcCreateTag (Some demo_name) 4"]
    by auto
qed

end
