(* ===== verification/PlcLife.thy ===== *)
theory PlcLife
  imports PlcProperties
begin

text \<open>
  The life of a client: its state machine, from the connect to the loss of the connection, the
  callbacks, and the corners where the state of one layer outlives that of another.
\<close>

subsection \<open>The state machine\<close>

text \<open>
  What a sketch without callbacks may expect of \<open>poll()\<close>: the status, and the phase before and
  after.
\<close>

inductive plc_spec :: "Status \<Rightarrow> PlcState \<Rightarrow> PlcState \<Rightarrow> bool" where
  idle: "plc_spec NotReady PlcIdle PlcIdle"
| failed: "plc_spec Error PlcFailed PlcFailed"
| wait: "s \<in> {PlcEthernet, PlcConnecting, PlcRegistering, PlcDisconnecting} \<Longrightarrow> plc_spec Pending s s"
| ethernet_up: "plc_spec Ok PlcEthernet PlcEthernet"
| connecting: "plc_spec Pending PlcEthernet PlcConnecting"
| ethernet_failed: "st \<in> {Error, InvalidArg} \<Longrightarrow> plc_spec st PlcEthernet PlcFailed"
| connected: "plc_spec Pending PlcConnecting PlcRegistering"
| connect_failed: "st \<in> {Timeout, Error, Busy, NotReady} \<Longrightarrow> plc_spec st PlcConnecting PlcFailed"
| registered: "plc_spec Ok PlcRegistering PlcReady"
| register_failed: "st \<in> {Timeout, Error} \<Longrightarrow> plc_spec st PlcRegistering PlcFailed"
| ready: "plc_spec Ok PlcReady PlcReady"
| lost: "plc_spec Closed PlcReady PlcIdle"
| disconnected: "plc_spec Ok PlcDisconnecting PlcIdle"

inductive_cases plc_spec_ready: "plc_spec st PlcReady s"

lemma pollTag_silent:
  assumes "plc_tagCallback plc = None" and "PlcClient_pollTag os cb i (d, plc, net) = (d', plc', net')"
  shows "plc_state plc' = plc_state plc \<and> plc_tagCallback plc' = None \<and>
    plc_stateCallback plc' = plc_stateCallback plc"
  using assms by (auto simp: PlcClient_pollTag_def call_tag_def Let_def split: if_splits prod.splits)

lemma pollTags_silent:
  assumes "plc_tagCallback plc = None" and "fold (PlcClient_pollTag os cb) is (d, plc, net) = (d', plc', net')"
  shows "plc_state plc' = plc_state plc \<and> plc_tagCallback plc' = None \<and>
    plc_stateCallback plc' = plc_stateCallback plc"
  using assms
proof (induction "is" arbitrary: d plc net)
  case Nil
  then show ?case by simp
next
  case (Cons i rest)
  obtain d1 plc1 net1 where r: "PlcClient_pollTag os cb i (d, plc, net) = (d1, plc1, net1)"
    by (metis prod_cases3)
  note s = pollTag_silent [OF Cons.prems(1) r]
  from Cons.IH [of plc1 d1 net1] s Cons.prems(2) r show ?case
    by simp
qed

lemma TcpConnection_connect_status:
  "TcpConnection_connect os c ip port t net = (st, net') \<Longrightarrow> st \<in> {Pending, Error, InvalidArg}"
  by (auto simp: TcpConnection_connect_def Let_def split: prod.splits if_splits)

lemma Session_open_status:
  "Session_open os c t s net = (st, s', net') \<Longrightarrow> st \<in> {Pending, Busy, NotReady}"
  by (auto simp: Session_open_def Session_startRegister_def Let_def split: prod.splits if_splits)

lemma Client_poll_status:
  "Client_poll eth cl net = (st, cl', net') \<Longrightarrow> st \<in> {Ok, Error, NotReady, Pending}"
  by (auto simp: Client_poll_def split: prod.splits if_splits)

text \<open>
  C9. The client refines that state machine: without callbacks, every \<open>poll()\<close> is one
  of its steps.
\<close>

theorem PlcClient_poll_refines:
  assumes "plc_tagCallback plc = None" and "plc_stateCallback plc = None"
    and "PlcClient_poll os eth cb plc net = (st, plc', net')"
  shows "plc_spec st (plc_state plc) (plc_state plc')"
proof (cases "plc_state plc")
  case PlcEthernet
  obtain st1 cl net1 where p: "Client_poll eth (plc_eth plc) net = (st1, cl, net1)"
    by (metis prod_cases3)
  obtain now net2 where m: "millis os net1 = (now, net2)" by fastforce
  obtain cst net3 where c: "TcpConnection_connect os (plc_tcp plc) (plc_remoteIp plc)
      (plc_remotePort plc) (plc_connectTimeoutMs plc) net2 = (cst, net3)" by fastforce
  from PlcEthernet assms(3) p m c TcpConnection_connect_status [OF c] show ?thesis
    by (auto simp: PlcClient_poll_def PlcClient_pollEthernet_def Let_def split: if_splits
        intro: plc_spec.intros)
next
  case PlcConnecting
  obtain now net0 where m: "millis os net = (now, net0)" by fastforce
  obtain st1 net1 where p: "TcpConnection_poll os (plc_tcp plc) net0 = (st1, net1)" by fastforce
  obtain now2 net2 where m2: "millis os net1 = (now2, net2)" by fastforce
  obtain st3 ses net3 where o: "Session_open os (plc_tcp plc) (plc_deadline plc - now2)
      (plc_session plc) net2 = (st3, ses, net3)"
    by (metis prod_cases3)
  from PlcConnecting assms(3) m p m2 o Session_open_status [OF o] show ?thesis
    by (auto simp: PlcClient_poll_def PlcClient_pollConnecting_def Let_def split: if_splits
        intro: plc_spec.intros)
next
  case PlcRegistering
  obtain now net0 where m: "millis os net = (now, net0)" by fastforce
  obtain st1 ses net1 where p: "Session_poll os (plc_session plc) net0 = (st1, ses, net1)"
    by (metis prod_cases3)
  from PlcRegistering assms(2,3) m p show ?thesis
    by (auto simp: PlcClient_poll_def PlcClient_pollRegistering_def call_state_def Let_def
        split: if_splits intro: plc_spec.intros)
next
  case PlcReady
  obtain d plc1 net1 where f: "fold (PlcClient_pollTag os cb) [0..<plc_kMaxTags] (False, plc, net) =
      (d, plc1, net1)"
    by (metis prod_cases3)
  from pollTags_silent [OF assms(1) f] PlcReady assms(2,3) f show ?thesis
    by (auto simp: PlcClient_poll_def PlcClient_pollReady_def call_state_def
        split: if_splits intro: plc_spec.intros)
next
  case PlcDisconnecting
  obtain st1 ses net1 where p: "Session_poll os (plc_session plc) net = (st1, ses, net1)"
    by (metis prod_cases3)
  from PlcDisconnecting assms(2,3) p show ?thesis
    by (auto simp: PlcClient_poll_def PlcClient_pollDisconnecting_def call_state_def Let_def
        split: if_splits intro: plc_spec.intros)
qed (use assms(3) in \<open>auto simp: PlcClient_poll_def intro: plc_spec.intros\<close>)

lemma demo_no_callbacks [simp]: "plc_tagCallback demo_plc = None" "plc_stateCallback demo_plc = None"
  by (simp_all add: demo_plc_def demo_new_def PlcClient_new_def PlcClient_createTag_def demo_name_def
      PlcClient_findFreeTag_def Let_def)

theorem PlcClient_poll_refines_witness:
  "\<exists>st plc' (net' :: loopback net).
     PlcClient_poll loopback_os demo_eth demo_cb demo_plc (loopback_net 0 []) = (st, plc', net') \<and>
     plc_spec st PlcReady (plc_state plc')"
proof -
  obtain st plc' and net' :: "loopback net" where r:
    "PlcClient_poll loopback_os demo_eth demo_cb demo_plc (loopback_net 0 []) = (st, plc', net')"
    by (metis prod_cases3)
  from PlcClient_poll_refines [OF demo_no_callbacks r] r show ?thesis
    by simp
qed

subsection \<open>Connecting\<close>

lemma TcpConnection_poll_Ok: "TcpConnection_poll os c net = (Ok, net') \<Longrightarrow> TcpConnection_connected c net'"
  by (auto simp: TcpConnection_poll_def TcpConnection_connected_def put_tcp_def Let_def
      split: prod.splits if_splits)

text \<open>The two polls of a connect.\<close>

lemma PlcClient_pollConnecting_up:
  assumes "plc_state plc = PlcConnecting" and "ses_state (plc_session plc) = SesClosed"
    and "\<not> expired (fst (millis os net)) (plc_deadline plc)"
    and "TcpConnection_poll os (plc_tcp plc) (snd (millis os net)) = (Ok, net1)"
    and "PlcClient_poll os eth cb plc net = (st, plc', net')"
  obtains ses where "st = Pending" and "plc' = plc\<lparr>plc_session := ses, plc_state := PlcRegistering\<rparr>"
    and "Session_open os (plc_tcp plc) (plc_deadline plc - fst (millis os net1)) (plc_session plc)
      (snd (millis os net1)) = (Pending, ses, net')"
proof -
  obtain now net0 where m: "millis os net = (now, net0)" by fastforce
  obtain now2 net2 where m2: "millis os net1 = (now2, net2)" by fastforce
  obtain st3 ses net3 where o: "Session_open os (plc_tcp plc) (plc_deadline plc - now2)
      (plc_session plc) net2 = (st3, ses, net3)"
    by (metis prod_cases3)
  have "net_tcp net2 = net_tcp net1"
    using m2 by (auto simp: millis_def sys_def split: prod.splits)
  then have "st3 = Pending"
    using o assms(2) TcpConnection_poll_Ok [OF assms(4)] by (auto simp: Session_open_def Session_startRegister_def
        TcpConnection_connected_def Let_def split: prod.splits)
  with assms m m2 o that show thesis
    by (auto simp: PlcClient_poll_def PlcClient_pollConnecting_def Let_def)
qed

lemma PlcClient_connect_pending:
  assumes "Client_ready (plc_eth plc)"
    and "PlcClient_connect os ip port timeoutMs plc net = (Pending, plc', net')"
  shows "plc_state plc' = PlcConnecting \<and> plc_session plc' = Session_abort (plc_session plc) \<and>
    plc_tcp plc' = plc_tcp plc \<and> plc_tags plc' = plc_tags plc \<and> plc_msg plc' = plc_msg plc \<and>
    plc_inUse plc' = plc_inUse plc \<and> plc_tagNames plc' = plc_tagNames plc \<and>
    plc_tagElemCount plc' = plc_tagElemCount plc \<and> plc_tagPrevStatus plc' = plc_tagPrevStatus plc \<and>
    plc_stateCallback plc' = plc_stateCallback plc \<and>
    tcp_state (net_tcp net' (plc_tcp plc)) = Pending \<and> 0 \<le> tcp_fd (net_tcp net' (plc_tcp plc))"
  using assms
  by (auto simp: PlcClient_connect_def TcpConnection_connect_def put_tcp_def Let_def
      split: prod.splits if_splits)

text \<open>
  A run of a reconnect: the call, and polls until the client is ready.
\<close>

inductive plc_reconnect ::
  "'w os \<Rightarrow> 'w eth \<Rightarrow> 'w callbacks \<Rightarrow> plc_client \<Rightarrow> plc_client \<Rightarrow> bool" for os eth cb where
  connect: "PlcClient_connect os ip port timeoutMs plc net = (st, plc', net') \<Longrightarrow>
    plc_reconnect os eth cb plc plc'"
| poll: "plc_reconnect os eth cb plc plc1 \<Longrightarrow> plc_state plc1 \<noteq> PlcReady \<Longrightarrow>
    PlcClient_poll os eth cb plc1 net = (st, plc', net') \<Longrightarrow> plc_reconnect os eth cb plc plc'"

lemma PlcClient_connect_polls:
  assumes "stream_contract os q" and "plc_inv plc net" and "Client_ready (plc_eth plc)"
    and "PlcClient_connect os ip port timeoutMs plc net = (Pending, plc1, net1)"
    and "\<not> expired (fst (millis os net2)) (plc_deadline plc1)"
    and "TcpConnection_poll os (plc_tcp plc1) (snd (millis os net2)) = (Ok, net3)"
    and "PlcClient_poll os eth cb plc1 net2 = (st2, plc2, net4)"
    and "conn_up (Some (plc_tcp plc2)) net5"
    and "\<not> expired (fst (millis os net5)) (plc_deadline plc2)"
    and "\<not> expired (fst (millis os (snd (millis os net5)))) (ses_deadline (plc_session plc2))"
    and "conn_queue q (Some (plc_tcp plc2)) net5 = p @ rest" and "register_reply p h"
    and "PlcClient_poll os eth cb plc2 net5 = (st3, plc3, net6)" and "plc_stateCallback plc = None"
  shows "st2 = Pending \<and> st3 = Ok \<and> PlcClient_ready plc3 \<and> PlcClient_sessionHandle plc3 = h \<and>
    plc_reconnect os eth cb plc plc3 \<and> conn_queue q (Some (plc_tcp plc3)) net6 = rest"
proof -
  have I: "Session_inv (plc_session plc1)"
    using PlcClient_connect_inv [OF assms(2,4)] by (simp add: plc_inv_def)
  note c = PlcClient_connect_pending [OF assms(3,4)]
  have cl: "ses_state (plc_session plc1) = SesClosed"
    using c by (simp add: Session_abort_def)
  obtain ses where p2: "st2 = Pending" "plc2 = plc1\<lparr>plc_session := ses, plc_state := PlcRegistering\<rparr>"
    and o: "Session_open os (plc_tcp plc1) (plc_deadline plc1 - fst (millis os net3)) (plc_session plc1)
      (snd (millis os net3)) = (Pending, ses, net4)"
    by (rule PlcClient_pollConnecting_up [OF _ cl assms(5-7)]) (use c in simp)
  note op = Session_open_registering [OF I o]
  have rx: "ses_rxLen ses = 0"
    using o by (auto simp: Session_open_def Session_startRegister_def Let_def split: if_splits prod.splits)
  obtain now net5' where m: "millis os net5 = (now, net5')" by fastforce
  obtain st4 ses4 net7 where sp: "Session_poll os ses net5' = (st4, ses4, net7)"
    by (metis prod_cases3)
  have up: "conn_up (ses_conn ses) net5'" and qu: "conn_queue q (ses_conn ses) net5' = p @ rest"
    using op(3) p2(2) assms(8,11) stream_millis [OF assms(1) m] by simp_all
  have ok: "st4 = Ok \<and> ses_state ses4 = SesRegistered \<and> ses_handle ses4 = h \<and>
      conn_queue q (ses_conn ses) net7 = rest"
    using Session_poll_registers [OF assms(1) op(1,2) up _ assms(12) _ _ sp, of rest] qu rx p2(2) m assms(10)
    by simp
  then have "PlcClient_poll os eth cb plc2 net5 =
      (Ok, call_state cb Ok (plc2\<lparr>plc_session := ses4, plc_state := PlcReady\<rparr>, net7))"
    using p2(2) m sp assms(9)
    by (simp add: PlcClient_poll_def PlcClient_pollRegistering_def Let_def)
  moreover from this have "plc_reconnect os eth cb plc plc3"
    using assms(13) p2(2) c
    by (intro plc_reconnect.poll [OF plc_reconnect.poll [OF plc_reconnect.connect [OF assms(4)] _ assms(7)] _ assms(13)])
      simp_all
  ultimately show ?thesis
    using assms(13,14) ok p2 op(3) c
    by (auto simp: call_state_def PlcClient_ready_def PlcClient_sessionHandle_def)
qed

text \<open>
  C29. A connect succeeds: when Ethernet is ready and \<open>connect()\<close> has reported
  \<open>Pending\<close>, a poll that finds the TCP connection up before the deadline starts the
  registration, and a poll that finds the reply to it before the deadlines makes the client ready,
  with the session handle of the reply; whatever session the client had before.
\<close>

theorem PlcClient_connects:
  assumes "stream_contract os q" and "plc_inv plc net" and "Client_ready (plc_eth plc)"
    and "PlcClient_connect os ip port timeoutMs plc net = (Pending, plc1, net1)"
    and "\<not> expired (fst (millis os net2)) (plc_deadline plc1)"
    and "TcpConnection_poll os (plc_tcp plc1) (snd (millis os net2)) = (Ok, net3)"
    and "PlcClient_poll os eth cb plc1 net2 = (st2, plc2, net4)"
    and "conn_up (Some (plc_tcp plc2)) net5"
    and "\<not> expired (fst (millis os net5)) (plc_deadline plc2)"
    and "\<not> expired (fst (millis os (snd (millis os net5)))) (ses_deadline (plc_session plc2))"
    and "conn_queue q (Some (plc_tcp plc2)) net5 = p @ rest" and "register_reply p h"
    and "PlcClient_poll os eth cb plc2 net5 = (st3, plc3, net6)" and "plc_stateCallback plc = None"
  shows "st2 = Pending \<and> st3 = Ok \<and> PlcClient_ready plc3 \<and> PlcClient_sessionHandle plc3 = h \<and>
    conn_queue q (Some (plc_tcp plc3)) net6 = rest"
  using PlcClient_connect_polls [OF assms] by blast

lemma loopback_connects:
  assumes I: "plc_inv plc (loopback_net 0 [])" and up: "Client_ready (plc_eth plc)" "plc_stateCallback plc = None"
    "plc_tcp plc = 0"
  obtains plc1 net1 plc2 net4 plc3 net6 w where
    "PlcClient_connect loopback_os (10, 0, 0, 1) 44818 5000 plc (loopback_net 0 []) = (Pending, plc1, net1)"
    "PlcClient_poll loopback_os demo_eth demo_cb plc1 net1 = (Pending, plc2, net4)"
    "PlcClient_poll loopback_os demo_eth demo_cb plc2 (net4\<lparr>net_os := w\<rparr>) = (Ok, plc3, net6)"
    "\<not> expired (fst (millis loopback_os net1)) (plc_deadline plc1)"
    "TcpConnection_poll loopback_os (plc_tcp plc1) (snd (millis loopback_os net1)) = (Ok, snd (TcpConnection_poll loopback_os (plc_tcp plc1) net1))"
    "conn_up (Some (plc_tcp plc2)) (net4\<lparr>net_os := w\<rparr>)"
    "\<not> expired (fst (millis loopback_os (net4\<lparr>net_os := w\<rparr>))) (plc_deadline plc2)"
    "\<not> expired (fst (millis loopback_os (snd (millis loopback_os (net4\<lparr>net_os := w\<rparr>))))) (ses_deadline (plc_session plc2))"
    "conn_queue (\<lambda>w fd. lb_queue w) (Some (plc_tcp plc2)) (net4\<lparr>net_os := w\<rparr>) = demo_reply @ []"
    "PlcClient_ready plc3" "plc_reconnect loopback_os demo_eth demo_cb plc plc3"
proof -
  let ?w = "\<lparr> lb_now = 10, lb_random = 7, lb_queue = demo_reply \<rparr>"
  obtain st1 plc1 and net1 :: "loopback net" where c: "PlcClient_connect loopback_os (10, 0, 0, 1) 44818 5000
      plc (loopback_net 0 []) = (st1, plc1, net1)"
    by (metis prod_cases3)
  have c1: "st1 = Pending" "plc_deadline plc1 = 5000" "lb_now (net_os net1) = 0" "plc_tcp plc1 = 0"
      "tcp_fd (net_tcp net1 0) = 3" "tcp_state (net_tcp net1 0) = Pending" "plc_state plc1 = PlcConnecting"
    using c up by (auto simp: PlcClient_connect_def TcpConnection_connect_def TcpConnection_close_def put_tcp_def
        sys_def IPAddress_any_def Let_def)
  obtain st net3 where t: "TcpConnection_poll loopback_os (plc_tcp plc1) net1 = (st, net3)" by fastforce
  have t1: "st = Ok" "lb_now (net_os net3) = 0" "tcp_fd (net_tcp net3 0) = 3" "tcp_state (net_tcp net3 0) = Ok"
    using t c1 by (auto simp: TcpConnection_poll_def sys_def put_tcp_def Let_def)
  obtain st2 plc2 net4 where p: "PlcClient_poll loopback_os demo_eth demo_cb plc1 net1 = (st2, plc2, net4)"
    by (metis prod_cases3)
  have s1: "ses_state (plc_session plc1) = SesClosed"
    using PlcClient_connect_pending [OF up(1) c [unfolded c1(1)]] by (simp add: Session_abort_def)
  have p1: "st2 = Pending \<and> plc_deadline plc2 = 5000 \<and> ses_deadline (plc_session plc2) = 5000 \<and> plc_tcp plc2 = 0 \<and>
      net_tcp net4 = net_tcp net3"
  proof (rule PlcClient_pollConnecting_up [OF c1(7) s1 _ _ p])
    fix ses
    assume r: "st2 = Pending" "plc2 = plc1\<lparr>plc_session := ses, plc_state := PlcRegistering\<rparr>"
      and o: "Session_open loopback_os (plc_tcp plc1) (plc_deadline plc1 - fst (millis loopback_os net3))
        (plc_session plc1) (snd (millis loopback_os net3)) = (Pending, ses, net4)"
    show ?thesis
      using r o c1 t1 by (auto simp: Session_open_def Session_startRegister_def Let_def split: if_splits prod.splits)
  qed (use c1 t t1 in \<open>simp_all add: expired_def\<close>)
  obtain st3 plc3 net6 where q: "PlcClient_poll loopback_os demo_eth demo_cb plc2 (net4\<lparr>net_os := ?w\<rparr>) = (st3, plc3, net6)"
    by (metis prod_cases3)
  let ?n = "net4\<lparr>net_os := ?w\<rparr>"
  have h: "\<not> expired (fst (millis loopback_os net1)) (plc_deadline plc1)"
    "TcpConnection_poll loopback_os (plc_tcp plc1) (snd (millis loopback_os net1)) = (Ok, net3)"
    "conn_up (Some (plc_tcp plc2)) ?n" "\<not> expired (fst (millis loopback_os ?n)) (plc_deadline plc2)"
    "\<not> expired (fst (millis loopback_os (snd (millis loopback_os ?n)))) (ses_deadline (plc_session plc2))"
    "conn_queue (\<lambda>w fd. lb_queue w) (Some (plc_tcp plc2)) ?n = demo_reply @ []"
    using p1 c1 t t1 by (simp_all add: expired_def conn_up_def conn_queue_def)
  have r: "st2 = Pending \<and> st3 = Ok \<and> PlcClient_ready plc3 \<and> plc_reconnect loopback_os demo_eth demo_cb plc plc3"
    using PlcClient_connect_polls [OF loopback_stream_contract I up(1) c [unfolded c1(1)] h(1,2) p h(3-6)
        demo_reply_registers q up(2)] by blast
  show thesis
    by (rule that [OF c [unfolded c1(1)], of plc2 net4 ?w plc3 net6]) (use p q r h c1 t t1 in simp_all)
qed

text \<open>Ethernet is up.\<close>

definition demo_eth_up :: "plc_client \<Rightarrow> plc_client" where
  "demo_eth_up plc = plc\<lparr>plc_eth := (Client_new 0)\<lparr>cl_started := True, cl_ready := True\<rparr>\<rparr>"

lemma demo_eth_up_inv: "plc_inv plc net \<Longrightarrow> plc_inv (demo_eth_up plc) net"
  using plc_pool_cong [of "demo_eth_up plc" plc] by (simp add: plc_inv_def demo_eth_up_def)

lemma demo_eth_up_facts [simp]:
  "Client_ready (plc_eth (demo_eth_up plc))" "plc_stateCallback (demo_eth_up plc) = plc_stateCallback plc"
  "plc_tcp (demo_eth_up plc) = plc_tcp plc" "PlcClient_tagStatus h (demo_eth_up plc) = PlcClient_tagStatus h plc"
  "PlcClient_validHandle h (demo_eth_up plc) = PlcClient_validHandle h plc"
  "plc_inUse (demo_eth_up plc) = plc_inUse plc"
  by (simp_all add: demo_eth_up_def Client_ready_def PlcClient_tagStatus_def PlcClient_validHandle_def)

theorem PlcClient_connects_witness:
  "\<exists>plc3 (net :: loopback net) net6. \<exists>plc2.
     PlcClient_poll loopback_os demo_eth demo_cb plc2 net = (Ok, plc3, net6) \<and> PlcClient_ready plc3 \<and>
     PlcClient_sessionHandle plc3 = 0x13572468"
proof -
  have new: "plc_stateCallback demo_new = None" "plc_tcp demo_new = 0"
    by (simp_all add: demo_new_def PlcClient_new_def)
  obtain plc1 net1 plc2 net4 plc3 net6 w where l:
    "PlcClient_connect loopback_os (10, 0, 0, 1) 44818 5000 (demo_eth_up demo_new) (loopback_net 0 []) = (Pending, plc1, net1)"
    "PlcClient_poll loopback_os demo_eth demo_cb plc1 net1 = (Pending, plc2, net4)"
    "PlcClient_poll loopback_os demo_eth demo_cb plc2 (net4\<lparr>net_os := w\<rparr>) = (Ok, plc3, net6)"
    "\<not> expired (fst (millis loopback_os net1)) (plc_deadline plc1)"
    "TcpConnection_poll loopback_os (plc_tcp plc1) (snd (millis loopback_os net1)) = (Ok, snd (TcpConnection_poll loopback_os (plc_tcp plc1) net1))"
    "conn_up (Some (plc_tcp plc2)) (net4\<lparr>net_os := w\<rparr>)"
    "\<not> expired (fst (millis loopback_os (net4\<lparr>net_os := w\<rparr>))) (plc_deadline plc2)"
    "\<not> expired (fst (millis loopback_os (snd (millis loopback_os (net4\<lparr>net_os := w\<rparr>))))) (ses_deadline (plc_session plc2))"
    "conn_queue (\<lambda>w fd. lb_queue w) (Some (plc_tcp plc2)) (net4\<lparr>net_os := w\<rparr>) = demo_reply @ []"
    by (rule loopback_connects [OF demo_eth_up_inv [OF demo_new_inv]]) (use new in simp_all)
  from PlcClient_connects [OF loopback_stream_contract demo_eth_up_inv [OF demo_new_inv] _ l(1,4,5,2,6-9)
      demo_reply_registers l(3)] l(3) new
  show ?thesis
    by auto
qed

text \<open>A sketch that begins, waits for Ethernet, connects and registers.\<close>

theorem PlcClient_reachable_safe_witness:
  "\<exists>plc net. plc_reach loopback_os demo_eth demo_cb (plc, net) \<and> PlcClient_ready plc \<and>
    Session_registered (plc_session plc) \<and> length (ses_rx (plc_session plc)) = 536 \<and>
    \<not> net_fault net"
proof -
  let ?R = "plc_reach loopback_os demo_eth demo_cb" and ?n = "loopback_net 0 []"
  have cb: "callbacks_ok loopback_os demo_eth demo_cb"
    by (simp add: callbacks_ok_def demo_cb_def)
  obtain p1 where b: "PlcClient_call loopback_os demo_eth (PcBegin (Config_default 0)) (demo_new, ?n) = (p1, ?n)"
      "plc_state p1 = PlcEthernet" "\<not> plc_wantConnect p1" "plc_stateCallback p1 = None" "plc_tcp p1 = 0"
      "cl_started (plc_eth p1)" "\<not> cl_failed (plc_eth p1)"
    by (simp add: PlcClient_begin_def Client_begin_def demo_new_def PlcClient_new_def Client_new_def demo_eth_def
        sys_def eth_act_def Let_def)
  obtain st p2 and net2 :: "loopback net" where e: "PlcClient_poll loopback_os demo_eth demo_cb p1 ?n = (st, p2, net2)"
    by (metis prod_cases3)
  have p2: "net2 = ?n" "Client_ready (plc_eth p2)" "plc_stateCallback p2 = None" "plc_tcp p2 = 0"
    using e b(2-7)
    by (auto simp: PlcClient_poll_def PlcClient_pollEthernet_def Client_poll_def Client_ready_def demo_eth_def sys_def
        split: if_splits)
  have r0: "?R (demo_new, ?n)"
    by (rule plc_reach.fresh [OF demo_new_fresh]) simp
  have r1: "?R (p1, ?n)"
    using plc_reach.step [OF r0 plc_step.call [of "PcBegin (Config_default 0)"]] unfolding b(1) by simp
  have r2: "?R (p2, ?n)"
    using plc_reach.poll [OF r1 e] p2(1) by simp
  have I2: "plc_inv p2 ?n"
    using plc_reach_inv [OF cb loopback_socket_contract r2] by simp
  obtain q1 net3 q2 net4 plc net6 w where q:
    "PlcClient_connect loopback_os (10, 0, 0, 1) 44818 5000 p2 ?n = (Pending, q1, net3)"
    "PlcClient_poll loopback_os demo_eth demo_cb q1 net3 = (Pending, q2, net4)"
    "PlcClient_poll loopback_os demo_eth demo_cb q2 (net4\<lparr>net_os := w\<rparr>) = (Ok, plc, net6)" "PlcClient_ready plc"
    by (rule loopback_connects [OF I2 p2(2-4)])
  have r3: "?R (q1, net3)"
    using plc_reach.step [OF r2 plc_step.call [of "PcConnect (10, 0, 0, 1) 44818 5000"]] q(1) by simp
  have r4: "?R (q2, net4\<lparr>net_os := w\<rparr>)"
    by (rule plc_reach.step [OF plc_reach.poll [OF r3 q(2)] plc_step.world])
  have r5: "?R (plc, net6)"
    by (rule plc_reach.poll [OF r4 q(3)])
  from PlcClient_reachable_safe [OF cb loopback_socket_contract r5] r5 q(4) show ?thesis
    by blast
qed

subsection \<open>Disconnecting\<close>

text \<open>
  A graceful disconnect ends: a ready client whose session deadline has not passed reports
  \<open>Pending\<close>, and the poll that finds a whole reply to its UnregisterSession request closes the
  socket and leaves the client idle.
\<close>

theorem PlcClient_disconnects:
  assumes "stream_contract os q" and "plc_inv plc net" and "plc_state plc = PlcReady"
    and "PlcClient_disconnect os plc net = (st1, plc1, net1)"
    and "conn_up (ses_conn (plc_session plc)) net2"
    and "\<not> expired (fst (millis os net2)) (ses_deadline (plc_session plc))"
    and "conn_queue q (ses_conn (plc_session plc)) net2 = p @ rest" and "packet p" and "length p \<le> 536"
    and "PlcClient_poll os eth cb plc1 net2 = (st2, plc2, net3)" and "plc_stateCallback plc = None"
  shows "st1 = Pending \<and> st2 = Ok \<and> plc_state plc2 = PlcIdle \<and>
    ses_state (plc_session plc2) = SesClosed \<and> \<not> TcpConnection_connected (plc_tcp plc) net3"
proof -
  have I: "Session_inv (plc_session plc)" and R: "Session_registered (plc_session plc)"
    using assms(2,3) by (auto simp: plc_inv_def plc_phase_def Session_registered_def)
  obtain sc ses where c: "Session_close (plc_session plc) = (sc, ses)" by fastforce
  note cl = Session_close_unregistering [OF I R c]
  have rx: "ses_rxLen ses = 0"
    using c R by (auto simp: Session_close_def Session_registered_def Session_startUnregister_def Let_def)
  have p1: "st1 = Pending" "plc1 = plc\<lparr>plc_state := PlcDisconnecting, plc_session := ses\<rparr>"
    using assms(3,4) c by (auto simp: PlcClient_disconnect_def)
  obtain st3 ses3 net4 where sp: "Session_poll os ses net2 = (st3, ses3, net4)"
    by (metis prod_cases3)
  have "st3 = Ok \<and> ses_state ses3 = SesClosed"
    using Session_poll_unregisters [OF assms(1) cl(2,3) _ _ assms(8) _ _ _ sp, of rest] cl(5,6) assms(5-9) rx
    by simp
  with assms(10,11) p1 sp show ?thesis
    by (auto simp: PlcClient_poll_def PlcClient_pollDisconnecting_def call_state_def Let_def
        TcpConnection_connected_def TcpConnection_close_def put_tcp_def)
qed

text \<open>
  C34. A disconnect can hang for ever. \<open>close()\<close> of the session keeps the deadline of the
  registration, so a client that is disconnected after it has passed (with a timeout of five
  seconds, any client connected for longer) fails to unregister at the first poll; the client
  treats that as \<open>Pending\<close>, keeps the socket open, never calls the state callback, and is stuck:
  every later poll is \<open>Pending\<close> and changes nothing.
\<close>

theorem PlcClient_disconnect_hangs:
  assumes "plc_inv plc net" and "plc_state plc = PlcReady"
    and "PlcClient_disconnect os plc net = (st1, plc1, net1)"
    and "expired (fst (millis os net2)) (ses_deadline (plc_session plc))"
    and "PlcClient_poll os eth cb plc1 net2 = (st2, plc2, net3)"
  shows "st1 = Pending \<and> st2 = Pending \<and> plc_state plc2 = PlcDisconnecting \<and>
    net3 = snd (millis os net2) \<and> (\<forall>net4. PlcClient_poll os eth cb plc2 net4 = (Pending, plc2, net4))"
proof -
  have I: "Session_inv (plc_session plc)" and R: "Session_registered (plc_session plc)"
    using assms(1,2) by (auto simp: plc_inv_def plc_phase_def Session_registered_def)
  obtain sc ses where c: "Session_close (plc_session plc) = (sc, ses)" by fastforce
  note cl = Session_close_unregistering [OF I R c]
  have p1: "st1 = Pending" "plc1 = plc\<lparr>plc_state := PlcDisconnecting, plc_session := ses\<rparr>"
    using assms(2,3) c by (auto simp: PlcClient_disconnect_def)
  obtain now net' where m: "millis os net2 = (now, net')" by fastforce
  have "Session_poll os ses net2 = (Timeout, ses\<lparr>ses_state := SesFailed\<rparr>, net')"
    using Session_poll_late [OF _ m, of ses] cl(3,6) assms(4) m by (simp add: Session_busy_def)
  then have p2: "st2 = Pending" "plc2 = plc1\<lparr>plc_session := ses\<lparr>ses_state := SesFailed\<rparr>\<rparr>" "net3 = net'"
    using assms(5) p1(2) by (auto simp: PlcClient_poll_def PlcClient_pollDisconnecting_def Let_def)
  then show ?thesis
    using p1 m by (auto simp: PlcClient_poll_def PlcClient_pollDisconnecting_def Session_poll_def Let_def)
qed

lemma demo_registered_facts [simp]:
  "ses_conn demo_registered = Some 0" "ses_deadline demo_registered = 0" "ses_state demo_registered = SesRegistered"
  "ses_handle demo_registered = 9"
  by (simp_all add: demo_registered_def demo_session_def Session_new_def)

text \<open>Connected at time 0 with a timeout of 5 seconds.\<close>

definition demo_plc_5s :: plc_client where
  "demo_plc_5s = demo_plc\<lparr>plc_session := demo_registered\<lparr>ses_deadline := 5000\<rparr>\<rparr>"

lemma demo_plc_5s_facts [simp]:
  "plc_state demo_plc_5s = PlcReady" "plc_stateCallback demo_plc_5s = None" "plc_tcp demo_plc_5s = 0"
  "ses_conn (plc_session demo_plc_5s) = Some 0" "ses_deadline (plc_session demo_plc_5s) = 5000"
  "plc_inv demo_plc_5s (loopback_net now q)"
proof -
  show "plc_inv demo_plc_5s (loopback_net now q)"
    using demo_plc_inv [of now q] plc_pool_cong [of demo_plc_5s demo_plc]
    by (auto simp: plc_inv_def demo_plc_5s_def Session_inv_defs)
qed (simp_all add: demo_plc_5s_def)

theorem PlcClient_disconnects_witness:
  "\<exists>plc1 (net1 :: loopback net) plc2 net3.
     PlcClient_disconnect loopback_os demo_plc_5s (loopback_net 100 []) = (Pending, plc1, net1) \<and>
     PlcClient_poll loopback_os demo_eth demo_cb plc1 (loopback_net 110 demo_unregister_reply) = (Ok, plc2, net3) \<and>
     plc_state plc2 = PlcIdle"
proof -
  obtain st1 plc1 and net1 :: "loopback net" where d: "PlcClient_disconnect loopback_os demo_plc_5s
      (loopback_net 100 []) = (st1, plc1, net1)"
    by (metis prod_cases3)
  obtain st2 plc2 net3 where p: "PlcClient_poll loopback_os demo_eth demo_cb plc1
      (loopback_net 110 demo_unregister_reply) = (st2, plc2, net3)"
    by (metis prod_cases3)
  have pk: "packet demo_unregister_reply" "length demo_unregister_reply \<le> 536"
    by (simp_all add: demo_unregister_reply_def packet_def header.dec_enc_exact)
  from PlcClient_disconnects [OF loopback_stream_contract demo_plc_5s_facts(6,1) d _ _ _ pk p, of "[]"] d p
  show ?thesis
    by (auto simp: expired_def conn_queue_def)
qed

theorem PlcClient_disconnect_hangs_witness:
  "\<exists>plc1 (net1 :: loopback net) plc2 net3.
     PlcClient_disconnect loopback_os demo_plc_5s (loopback_net 60000 []) = (Pending, plc1, net1) \<and>
     PlcClient_poll loopback_os demo_eth demo_cb plc1 (loopback_net 60010 demo_unregister_reply) = (Pending, plc2, net3) \<and>
     PlcClient_poll loopback_os demo_eth demo_cb plc2 (loopback_net 4000000 demo_unregister_reply) =
       (Pending, plc2, loopback_net 4000000 demo_unregister_reply)"
proof -
  obtain st1 plc1 and net1 :: "loopback net" where d: "PlcClient_disconnect loopback_os demo_plc_5s
      (loopback_net 60000 []) = (st1, plc1, net1)"
    by (metis prod_cases3)
  obtain st2 plc2 net3 where p: "PlcClient_poll loopback_os demo_eth demo_cb plc1
      (loopback_net 60010 demo_unregister_reply) = (st2, plc2, net3)"
    by (metis prod_cases3)
  from PlcClient_disconnect_hangs [OF demo_plc_5s_facts(6,1) d _ p] d p show ?thesis
    by (auto simp: expired_def)
qed

subsection \<open>Losing the connection\<close>

lemma plc_waiting_tag:
  assumes "plc_pool plc" and "PlcClient_validHandle h plc" and "PlcClient_tagStatus h plc = Pending"
  shows "nat h < 8" and "plc_inUse plc ! nat h" and "tag_waiting (plc_tags plc ! nat h)"
    and "em_busy (plc_msg plc)" and "int (nat h) = h"
  using assms plc_handle [OF assms(1,2)]
  by (auto simp: PlcClient_tagStatus_def PlcClient_validHandle_def plc_pool_def owned_def)

text \<open>The poll that finds the peer gone.\<close>

lemma PlcClient_poll_closed:
  assumes P: "plc_pool plc" and h: "PlcClient_validHandle h plc" "PlcClient_tagStatus h plc = Pending"
    and p: "ExplicitMessage_poll os (plc_msg plc) net = (Closed, msg, net1)"
    and cb: "plc_tagCallback plc = None" "plc_stateCallback plc = None"
    and run: "PlcClient_pollReady os cb plc net = (st, plc', net')"
  shows "st = Closed \<and> plc_state plc' = PlcIdle \<and> ses_state (plc_session plc') = SesClosed \<and>
       PlcClient_sessionHandle plc' = 0 \<and> PlcClient_tagStatus h plc' = Error \<and>
       net' = TcpConnection_close os (plc_tcp plc) net1"
proof -
  note w = plc_waiting_tag [OF P h]
  let ?t = "(plc_tags plc ! nat h)\<lparr>tag_state := TagFailed\<rparr>"
  have tp: "Tag_poll os (plc_tags plc ! nat h) (plc_msg plc) net = (Closed, ?t, msg, net1)"
    by (simp add: Tag_poll_finish [OF w(3)] p tag_finish_def)
  obtain prev where f: "fold (PlcClient_pollTag os cb) [0..<8] (False, plc, net) =
      fold (PlcClient_pollTag os cb) [Suc (nat h)..<8]
        (True, plc\<lparr>plc_tags := (plc_tags plc)[nat h := ?t], plc_msg := msg,
                   plc_tagPrevStatus := prev[nat h := Closed]\<rparr>, net1)"
    and n: "noted plc [0..<nat h] prev"
    by (rule PlcClient_pollTags_one [OF P w(1-3) tp, of cb]) (simp add: call_tag_def cb(1) Let_def)
  let ?p = "plc\<lparr>plc_tags := (plc_tags plc)[nat h := ?t], plc_msg := msg,
                plc_tagPrevStatus := prev[nat h := Closed]\<rparr>"
  obtain prev2 where g: "fold (PlcClient_pollTag os cb) [Suc (nat h)..<8] (True, ?p, net1) =
      (True, ?p\<lparr>plc_tagPrevStatus := prev2\<rparr>, net1)"
    by (rule PlcClient_pollTags_rest [OF P w(1,3) n refl])
  have e: "st = Closed" "net' = TcpConnection_close os (plc_tcp plc) net1"
    "plc' = ?p\<lparr>plc_tagPrevStatus := prev2, plc_session := Session_abort (plc_session plc), plc_state := PlcIdle\<rparr>"
    using run f g cb(2) by (auto simp: PlcClient_pollReady_def call_state_def)
  moreover have "plc_tags plc' ! nat h = ?t"
    using e(3) w(1) P by (simp add: plc_pool_def)
  moreover have "PlcClient_validHandle h plc'"
    using h(1) e(3) by (simp add: PlcClient_validHandle_def)
  ultimately show ?thesis
    by (simp add: Session_abort_def PlcClient_sessionHandle_def PlcClient_tagStatus_def Tag_status_def)
qed

text \<open>
  C35. The loss of the connection is noticed by the tag in flight: if the poll of its message
  finds the peer gone, the client's poll reports \<open>Closed\<close>, fails the tag, drops the session,
  closes the socket and is idle, from where \<open>poll()\<close> and every operation report
  \<open>NotReady\<close>. With nothing in flight the client does not look at the socket, and stays ready.
\<close>

theorem PlcClient_connection_lost:
  assumes "plc_inv plc net" and "plc_state plc = PlcReady"
    and "plc_tagCallback plc = None" and "plc_stateCallback plc = None"
    and "PlcClient_poll os eth cb plc net = (st, plc', net')"
  shows "(\<forall>h net1 msg. PlcClient_validHandle h plc \<and> PlcClient_tagStatus h plc = Pending \<and>
       ExplicitMessage_poll os (plc_msg plc) net = (Closed, msg, net1) \<longrightarrow>
       st = Closed \<and> plc_state plc' = PlcIdle \<and> ses_state (plc_session plc') = SesClosed \<and>
       PlcClient_sessionHandle plc' = 0 \<and> PlcClient_tagStatus h plc' = Error \<and>
       net' = TcpConnection_close os (plc_tcp plc) net1 \<and>
       (\<forall>k t net2. PlcClient_validHandle k plc' \<longrightarrow> fst (PlcClient_read os k t plc' net2) = NotReady) \<and>
       (\<forall>net2. PlcClient_poll os eth cb plc' net2 = (NotReady, plc', net2))) \<and>
    (\<not> em_busy (plc_msg plc) \<longrightarrow> st = Ok \<and> PlcClient_ready plc' \<and> net' = net)"
proof -
  have P: "plc_pool plc"
    using assms(1) by (simp add: plc_inv_def)
  have run: "PlcClient_pollReady os cb plc net = (st, plc', net')"
    using assms(2,5) by (simp add: PlcClient_poll_def)
  have idle: "st = Ok \<and> PlcClient_ready plc' \<and> net' = net" if "\<not> em_busy (plc_msg plc)"
    by (rule PlcClient_pollReady_idle [OF P that, of os cb net])
      (use run assms(2) in \<open>auto simp: PlcClient_ready_def\<close>)
  have lost: "st = Closed \<and> plc_state plc' = PlcIdle \<and> ses_state (plc_session plc') = SesClosed \<and>
       PlcClient_sessionHandle plc' = 0 \<and> PlcClient_tagStatus h plc' = Error \<and>
       net' = TcpConnection_close os (plc_tcp plc) net1"
    if "PlcClient_validHandle h plc" "PlcClient_tagStatus h plc = Pending"
      "ExplicitMessage_poll os (plc_msg plc) net = (Closed, msg, net1)" for h net1 msg
    using PlcClient_poll_closed [OF P that assms(3,4) run] .
  have after: "(\<forall>k t net2. PlcClient_validHandle k plc' \<longrightarrow> fst (PlcClient_read os k t plc' net2) = NotReady) \<and>
      (\<forall>net2. PlcClient_poll os eth cb plc' net2 = (NotReady, plc', net2))" if "plc_state plc' = PlcIdle"
    using that by (simp add: PlcClient_read_def PlcClient_poll_def)
  from idle lost after show ?thesis
    by blast
qed

text \<open>The example client, with a read of its tag in flight since time 0, and no reply yet.\<close>

definition demo_reading :: plc_client where
  "demo_reading = fst (snd (PlcClient_read loopback_os 0 1000 demo_plc (loopback_net 0 [])))"

lemma demo_reading_starts:
  obtains net1 :: "loopback net" where
    "PlcClient_read loopback_os 0 1000 demo_plc (loopback_net 0 []) = (Pending, demo_reading, net1)"
proof -
  obtain st plc1 and net1 :: "loopback net" where r: "PlcClient_read loopback_os 0 1000 demo_plc
      (loopback_net 0 []) = (st, plc1, net1)"
    by (metis prod_cases3)
  have "plc_pool demo_plc"
    using demo_plc_inv [of 0 "[]"] by (simp add: plc_inv_def)
  moreover have "length (c_string (plc_tagNames demo_plc ! nat 0)) < 64"
    by (simp add: demo_name_string) (simp add: demo_name_def)
  ultimately have "st = Pending"
    using PlcClient_read_accepts [OF _ demo_plc_facts(1,9) _ _ _ r] by simp
  with r that show thesis
    by (simp add: demo_reading_def)
qed

lemma demo_reading_facts [simp]:
  "plc_inv demo_reading (loopback_net now q)" "plc_state demo_reading = PlcReady"
  "PlcClient_validHandle 0 demo_reading" "PlcClient_tagStatus 0 demo_reading = Pending"
  "plc_tagCallback demo_reading = None" "plc_stateCallback demo_reading = None"
  "plc_session demo_reading = demo_registered" "plc_tcp demo_reading = 0"
  "em_deadline (plc_msg demo_reading) = 1000" "em_conn (plc_msg demo_reading) = Some 0"
  "em_context (plc_msg demo_reading) = 2" "em_sentContext (plc_msg demo_reading) = 1"
  "em_rxLen (plc_msg demo_reading) = 0" "em_busy (plc_msg demo_reading)"
  "em_txSent (plc_msg demo_reading) < em_txLen (plc_msg demo_reading)"
  "tag_waiting (plc_tags demo_reading ! 0)"
proof -
  obtain net1 :: "loopback net" where r: "PlcClient_read loopback_os 0 1000 demo_plc (loopback_net 0 []) =
      (Pending, demo_reading, net1)"
    by (rule demo_reading_starts)
  have P: "plc_pool demo_plc"
    using demo_plc_inv [of 0 "[]"] by (simp add: plc_inv_def)
  obtain msg t where s: "em_started 0 1000 (rr_request 9 1 0x4C (symbolic_segment demo_name) (leU16 (ucast (1 :: u32))))
      demo_message msg"
    and p1: "demo_reading = demo_plc\<lparr>plc_tags := (plc_tags demo_plc)[0 := t], plc_msg := msg\<rparr>"
    and t: "t = demo_tag\<lparr>tag_dataLen := 0, tag_resultCode := 0, tag_state := TagReading\<rparr>"
    by (rule PlcClient_read_starts [OF P _ _ _ r]) (simp_all add: demo_name_string)
  have len: "length (plc_tags demo_plc) = 8"
    using P by (simp add: plc_pool_def)
  have "0 < length (rr_request 9 1 0x4C (symbolic_segment demo_name) (leU16 (ucast (1 :: u32))))"
    by (simp add: rr_request_def rr_packet_def)
  then have m: "em_deadline msg = 1000" "em_conn msg = Some 0" "em_context msg = 2" "em_sentContext msg = 1"
      "em_rxLen msg = 0" "em_busy msg" "em_txSent msg < em_txLen msg"
    using s by (auto simp: em_started_def em_busy_def)
  note pr = PlcClient_read_pool [OF P r]
  show "plc_inv demo_reading (loopback_net now q)"
    using pr demo_plc_inv [of now q] by (simp add: plc_inv_def)
  have "plc_tags demo_reading ! 0 = t" "tag_waiting t"
    using len by (simp_all add: p1 t tag_waiting_def)
  then show "tag_waiting (plc_tags demo_reading ! 0)" "PlcClient_tagStatus 0 demo_reading = Pending"
    by (simp_all add: PlcClient_tagStatus_def PlcClient_validHandle_def p1)
  show "plc_state demo_reading = PlcReady" "PlcClient_validHandle 0 demo_reading"
    "plc_tagCallback demo_reading = None" "plc_stateCallback demo_reading = None"
    "plc_session demo_reading = demo_registered" "plc_tcp demo_reading = 0"
    "em_deadline (plc_msg demo_reading) = 1000" "em_conn (plc_msg demo_reading) = Some 0"
    "em_context (plc_msg demo_reading) = 2" "em_sentContext (plc_msg demo_reading) = 1"
    "em_rxLen (plc_msg demo_reading) = 0" "em_busy (plc_msg demo_reading)"
    "em_txSent (plc_msg demo_reading) < em_txLen (plc_msg demo_reading)"
    using m by (simp_all add: p1 PlcClient_validHandle_def)
qed

text \<open>A message over a connection that is not up.\<close>

lemma ExplicitMessage_poll_down:
  assumes "em_busy m" and "em_conn m = Some c" and "em_txSent m < em_txLen m"
    and "\<not> expired (fst (millis os net)) (em_deadline m)" and "tcp_state (net_tcp net c) \<noteq> Ok"
  shows "ExplicitMessage_poll os m net = (Closed, m\<lparr>em_state := EmFailed\<rparr>, snd (millis os net))"
proof -
  obtain now net0 where m: "millis os net = (now, net0)" by fastforce
  have "net_tcp net0 = net_tcp net"
    using m by (auto simp: millis_def sys_def split: prod.splits)
  then have "conn_write os (em_conn m) bs net0 = (-1, net0)" for bs
    using assms(2,5) by (simp add: conn_write_def TcpConnection_write_def)
  then have "ExplicitMessage_writePending os m net0 = (Closed, m, net0)"
    using assms(3) by (simp add: ExplicitMessage_writePending_def write_loop.simps [of _ _ _ "em_txSent m"])
  with assms(1,4) m show ?thesis
    by (auto simp: ExplicitMessage_poll_def em_busy_def)
qed

theorem PlcClient_connection_lost_witness:
  "\<exists>plc' net'. PlcClient_poll loopback_os demo_eth demo_cb demo_reading
     ((loopback_net 0 [])\<lparr>net_tcp := (\<lambda>c. up_tcp\<lparr>tcp_state := Closed\<rparr>)\<rparr>) = (Closed, plc', net') \<and>
     plc_state plc' = PlcIdle"
proof -
  let ?n = "(loopback_net 0 [])\<lparr>net_tcp := (\<lambda>c. up_tcp\<lparr>tcp_state := Closed\<rparr>)\<rparr>"
  have I: "plc_inv demo_reading ?n"
    by (rule plc_inv_net [OF demo_reading_facts(1) [of 0 "[]"]]) simp
  have "ExplicitMessage_poll loopback_os (plc_msg demo_reading) ?n =
      (Closed, (plc_msg demo_reading)\<lparr>em_state := EmFailed\<rparr>, ?n)"
    by (subst ExplicitMessage_poll_down) (simp_all add: expired_def)
  moreover obtain st plc' net' where p: "PlcClient_poll loopback_os demo_eth demo_cb demo_reading ?n = (st, plc', net')"
    by (metis prod_cases3)
  ultimately show ?thesis
    using PlcClient_connection_lost [OF I demo_reading_facts(2,5,6) p] p demo_reading_facts(3,4) by blast
qed

subsection \<open>What outlives what\<close>

text \<open>
  Starting Ethernet again under a connected client makes the next connect fail:
  \<open>begin()\<close> leaves the session registered, and a connect that is queued until Ethernet is up
  does not drop it (a direct one does). When the TCP connection comes up, \<open>open()\<close> of the
  session reports \<open>Busy\<close>, and the client has failed.
\<close>

theorem PlcClient_begin_connected_fails:
  assumes "plc_inv plc net" and "plc_state plc = PlcReady"
    and "PlcClient_begin eth cfg plc net = (st1, plc1, net1)"
    and "PlcClient_connect os ip port timeoutMs plc1 net2 = (st2, plc2, net3)"
    and "Client_poll eth (plc_eth plc2) net4 = (Ok, cl, net5)"
    and "PlcClient_poll os eth cb plc2 net4 = (Pending, plc3, net6)"
    and "\<not> expired (fst (millis os net7)) (plc_deadline plc3)"
    and "TcpConnection_poll os (plc_tcp plc3) (snd (millis os net7)) = (Ok, net8)"
    and "PlcClient_poll os eth cb plc3 net7 = (st4, plc4, net9)"
  shows "st2 = Pending \<and> plc_state plc3 = PlcConnecting \<and> st4 = Busy \<and> plc_state plc4 = PlcFailed \<and>
    Session_registered (plc_session plc4)"
proof -
  have R: "ses_state (plc_session plc) = SesRegistered"
    using assms(1,2) by (simp add: plc_inv_def plc_phase_def)
  have p1: "plc_state plc1 = PlcEthernet" "plc_session plc1 = plc_session plc" "\<not> Client_ready (plc_eth plc1)"
    using assms(3) by (auto simp: PlcClient_begin_def Client_begin_def Client_ready_def Let_def
        split: prod.splits if_splits)
  have p2: "st2 = Pending" "plc_state plc2 = PlcEthernet" "plc_wantConnect plc2" "plc_session plc2 = plc_session plc"
    using assms(4) p1 by (auto simp: PlcClient_connect_def Let_def)
  have p3: "plc_state plc3 = PlcConnecting" "plc_session plc3 = plc_session plc" "plc_tcp plc3 = plc_tcp plc2"
    using assms(5,6) p2 by (auto simp: PlcClient_poll_def PlcClient_pollEthernet_def Let_def
        split: prod.splits if_splits)
  obtain now net0 where m: "millis os net7 = (now, net0)" by fastforce
  obtain now2 net10 where m2: "millis os net8 = (now2, net10)" by fastforce
  obtain st5 ses net11 where o: "Session_open os (plc_tcp plc3) (plc_deadline plc3 - now2) (plc_session plc3)
      net10 = (st5, ses, net11)"
    by (metis prod_cases3)
  have "st5 = Busy" "ses = plc_session plc3"
    using o p3(2) R by (auto simp: Session_open_def)
  with assms(7-9) p2 p3 m m2 o R show ?thesis
    by (auto simp: PlcClient_poll_def PlcClient_pollConnecting_def Session_registered_def Let_def)
qed

theorem PlcClient_begin_connected_fails_witness:
  "\<exists>plc1 (net1 :: loopback net) plc2 net3 plc3 net6 plc4 net9.
     PlcClient_begin demo_eth (Config_default 0) demo_plc (loopback_net 0 []) = (Pending, plc1, net1) \<and>
     PlcClient_connect loopback_os (10, 0, 0, 1) 44818 5000 plc1 net1 = (Pending, plc2, net3) \<and>
     PlcClient_poll loopback_os demo_eth demo_cb plc2 net3 = (Pending, plc3, net6) \<and>
     PlcClient_poll loopback_os demo_eth demo_cb plc3 net6 = (Busy, plc4, net9) \<and> plc_state plc4 = PlcFailed"
proof -
  obtain st1 plc1 and net1 :: "loopback net" where b: "PlcClient_begin demo_eth (Config_default 0) demo_plc
      (loopback_net 0 []) = (st1, plc1, net1)"
    by (metis prod_cases3)
  have b1: "st1 = Pending" "cl_started (plc_eth plc1)" "\<not> cl_failed (plc_eth plc1)" "\<not> cl_ready (plc_eth plc1)"
      "plc_tcp plc1 = 0" "lb_now (net_os net1) = 0"
    using b by (auto simp: PlcClient_begin_def Client_begin_def demo_eth_def sys_def eth_act_def Let_def
        split: if_splits)
  obtain st2 plc2 net3 where c: "PlcClient_connect loopback_os (10, 0, 0, 1) 44818 5000 plc1 net1 = (st2, plc2, net3)"
    by (metis prod_cases3)
  have c1: "st2 = Pending" "net3 = net1" "plc_eth plc2 = plc_eth plc1" "plc_tcp plc2 = 0" "plc_state plc2 = PlcEthernet"
      "plc_wantConnect plc2" "plc_remoteIp plc2 = (10, 0, 0, 1)" "plc_remotePort plc2 = 44818"
      "plc_connectTimeoutMs plc2 = 5000"
    using c b1 by (auto simp: PlcClient_connect_def Client_ready_def)
  have e: "Client_poll demo_eth (plc_eth plc2) net3 = (Ok, (plc_eth plc2)\<lparr>cl_ready := True\<rparr>, net3)"
    using b1 c1 by (simp add: Client_poll_def demo_eth_def sys_def)
  obtain st3 plc3 net6 where p: "PlcClient_poll loopback_os demo_eth demo_cb plc2 net3 = (st3, plc3, net6)"
    by (metis prod_cases3)
  have p1: "st3 = Pending" "plc_deadline plc3 = 5000" "plc_tcp plc3 = 0" "lb_now (net_os net6) = 0"
      "tcp_fd (net_tcp net6 0) = 3" "tcp_state (net_tcp net6 0) = Pending"
    using p e c1 b1 by (auto simp: PlcClient_poll_def PlcClient_pollEthernet_def TcpConnection_connect_def
        TcpConnection_close_def put_tcp_def sys_def IPAddress_any_def Let_def split: if_splits)
  obtain st net8 where t: "TcpConnection_poll loopback_os (plc_tcp plc3) net6 = (st, net8)" by fastforce
  have "st = Ok"
    using t p1 by (auto simp: TcpConnection_poll_def sys_def put_tcp_def Let_def)
  moreover obtain st4 plc4 net9 where q: "PlcClient_poll loopback_os demo_eth demo_cb plc3 net6 = (st4, plc4, net9)"
    by (metis prod_cases3)
  ultimately show ?thesis
    using PlcClient_begin_connected_fails [OF demo_plc_inv demo_plc_facts(1) b c e p [unfolded p1(1)] _ _ q, of net8]
      t p1 b1(1) c1(1) b c p q
    by (simp add: expired_def)
qed

text \<open>
  An operation in flight survives the connection it was started on. Neither \<open>connect()\<close> nor
  a poll of a client that is not ready touches the tags or the message, so after a reconnect the
  tag is still \<open>Pending\<close> and every \<open>read()\<close> is \<open>Busy\<close>: the next poll goes on with the old
  request, under the old session handle, on the new connection (the bytes of it that were not sent
  yet are the first to go out), and then waits for a reply that cannot come.
\<close>

lemma plc_reconnect_keeps:
  assumes "plc_reconnect os eth cb plc plc'" and "plc_stateCallback plc = None"
  shows "plc_msg plc' = plc_msg plc \<and> plc_tags plc' = plc_tags plc \<and> plc_inUse plc' = plc_inUse plc \<and>
    plc_stateCallback plc' = None"
  using assms
proof (induction rule: plc_reconnect.induct)
  case (connect ip port timeoutMs plc net st plc' net')
  then show ?case
    by (auto simp: PlcClient_connect_def Let_def split: if_splits prod.splits)
next
  case (poll plc plc1 net st plc' net')
  then have "plc_stateCallback plc1 = None" by simp
  with poll(2,3) have "plc_msg plc' = plc_msg plc1 \<and> plc_tags plc' = plc_tags plc1 \<and>
      plc_inUse plc' = plc_inUse plc1 \<and> plc_stateCallback plc' = None"
    by (cases "plc_state plc1")
      (auto simp: PlcClient_poll_def PlcClient_pollEthernet_def PlcClient_pollConnecting_def
        PlcClient_pollRegistering_def PlcClient_pollDisconnecting_def call_state_def Let_def
        split: if_splits prod.splits)
  with poll show ?case by simp
qed

theorem PlcClient_reconnect_keeps_flight:
  assumes "plc_inv plc net" and "PlcClient_validHandle h plc" and "PlcClient_tagStatus h plc = Pending"
    and "plc_stateCallback plc = None"
    and "plc_reconnect os eth cb plc plc'" and "PlcClient_ready plc'" and "PlcClient_validHandle k plc'"
  shows "plc_msg plc' = plc_msg plc \<and> PlcClient_tagStatus h plc' = Pending \<and>
    PlcClient_read os k t plc' net' = (Busy, plc', net') \<and>
    PlcClient_write os k t plc' net' = (Busy, plc', net')"
proof -
  note r = plc_reconnect_keeps [OF assms(5,4)]
  have P: "plc_pool plc"
    using assms(1) by (simp add: plc_inv_def)
  note w = plc_waiting_tag [OF P assms(2,3)]
  have "PlcClient_anyTagBusy plc'"
    using w r by (auto simp: PlcClient_anyTagBusy_def)
  moreover have "PlcClient_tagStatus h plc' = Pending"
    using r assms(2,3) by (simp add: PlcClient_tagStatus_def PlcClient_validHandle_def)
  ultimately show ?thesis
    using r assms(6,7) by (simp add: PlcClient_read_def PlcClient_write_def PlcClient_ready_def)
qed

theorem PlcClient_reconnect_keeps_flight_witness:
  "\<exists>plc'. plc_reconnect loopback_os demo_eth demo_cb (demo_eth_up demo_reading) plc' \<and> PlcClient_ready plc' \<and>
     (\<forall>net :: loopback net. PlcClient_read loopback_os 0 1000 plc' net = (Busy, plc', net))"
proof -
  have I: "plc_inv (demo_eth_up demo_reading) (loopback_net 0 [])"
    by (intro demo_eth_up_inv) simp
  obtain plc' where r: "PlcClient_ready plc'" "plc_reconnect loopback_os demo_eth demo_cb (demo_eth_up demo_reading) plc'"
    by (rule loopback_connects [OF I]) (simp_all)
  have "plc_inUse plc' = plc_inUse demo_reading"
    using plc_reconnect_keeps [OF r(2)] by simp
  then have "PlcClient_validHandle 0 plc'"
    using demo_reading_facts(3) by (simp add: PlcClient_validHandle_def)
  with PlcClient_reconnect_keeps_flight [OF I _ _ _ r(2,1), of 0 0] r show ?thesis
    by (intro exI [of _ plc']) simp
qed

end
