(* ===== verification/PlcCallbacks.thy ===== *)
theory PlcCallbacks
  imports PlcLife
begin

text \<open>
  One operation at a time, and who is told when it ends: the tag callback, and the corner where the
  slot of an operation in flight is given away.
\<close>

subsection \<open>One operation at a time\<close>

text \<open>
  Single in flight: while a tag of the pool is \<open>Pending\<close>, a read or a write of any valid
  handle of a ready client is refused with \<open>Busy\<close>, and changes nothing; before that come
  \<open>InvalidArg\<close> for a handle that is not valid and \<open>NotReady\<close> for a client that is not
  ready. \<open>abortTag()\<close> ends the operation, frees the message, and leaves the tag
  \<open>NotReady\<close>.
\<close>

theorem PlcClient_single_flight:
  assumes "plc_inv plc net" and "PlcClient_validHandle h plc" and "PlcClient_tagStatus h plc = Pending"
    and "PlcClient_abortTag h plc = (st, plc')"
  shows "PlcClient_read os k t plc net' =
      (if \<not> PlcClient_validHandle k plc then InvalidArg
       else if \<not> PlcClient_ready plc then NotReady else Busy, plc, net') \<and>
    PlcClient_write os k t plc net' =
      (if \<not> PlcClient_validHandle k plc then InvalidArg
       else if \<not> PlcClient_ready plc then NotReady else Busy, plc, net') \<and>
    st = Ok \<and> \<not> em_busy (plc_msg plc') \<and> PlcClient_tagStatus h plc' = NotReady \<and>
    \<not> PlcClient_anyTagBusy plc'"
proof -
  have P: "plc_pool plc"
    using assms(1) by (simp add: plc_inv_def)
  note w = plc_waiting_tag [OF P assms(2,3)]
  have "PlcClient_anyTagBusy plc"
    using w by (auto simp: PlcClient_anyTagBusy_def)
  then have rw: "PlcClient_read os k t plc net' =
      (if \<not> PlcClient_validHandle k plc then InvalidArg
       else if \<not> PlcClient_ready plc then NotReady else Busy, plc, net')"
    "PlcClient_write os k t plc net' =
      (if \<not> PlcClient_validHandle k plc then InvalidArg
       else if \<not> PlcClient_ready plc then NotReady else Busy, plc, net')"
    by (simp_all add: PlcClient_read_def PlcClient_write_def PlcClient_ready_def)
  let ?t = "(plc_tags plc ! nat h)\<lparr>tag_state := TagIdle, tag_dataLen := 0\<rparr>"
  have p': "st = Ok" "plc' = plc\<lparr>plc_tags := (plc_tags plc)[nat h := ?t],
      plc_msg := ExplicitMessage_abort (plc_msg plc),
      plc_tagPrevStatus := (plc_tagPrevStatus plc)[nat h := NotReady]\<rparr>"
    using assms(2,4) w(3) by (auto simp: PlcClient_abortTag_def Tag_abort_def tag_waiting_def Let_def)
  have idle: "\<not> em_busy (plc_msg plc')"
    by (simp add: p' ExplicitMessage_abort_def em_busy_def)
  have "plc_pool plc'"
    using PlcClient_abortTag_pool [OF P assms(4)] by simp
  moreover have "PlcClient_tagStatus h plc' = NotReady"
    using assms(2) w(1) P by (simp add: p' PlcClient_tagStatus_def PlcClient_validHandle_def Tag_status_def
        plc_pool_def)
  ultimately show ?thesis
    using rw p'(1) idle plc_idle_free by blast
qed

theorem PlcClient_single_flight_witness:
  "PlcClient_read loopback_os 0 1000 demo_reading (loopback_net 1 []) = (Busy, demo_reading, loopback_net 1 []) \<and>
   \<not> PlcClient_anyTagBusy (snd (PlcClient_abortTag 0 demo_reading))"
proof -
  obtain st plc' where a: "PlcClient_abortTag 0 demo_reading = (st, plc')" by fastforce
  from PlcClient_single_flight [OF demo_reading_facts(1,3,4) a, of loopback_os 0 1000 "loopback_net 1 []"] a
  show ?thesis
    by (simp add: PlcClient_ready_def)
qed

lemma PlcClient_read_message_busy:
  assumes "PlcClient_validHandle k plc" and "plc_state plc = PlcReady" and "em_busy (plc_msg plc)"
    and "\<not> PlcClient_anyTagBusy plc" and "\<not> tag_waiting (plc_tags plc ! nat k)"
    and "length (plc_tagNames plc ! nat k) = 64"
  shows "fst (PlcClient_read os k t plc net) = Busy"
proof -
  have "length (c_string (plc_tagNames plc ! nat k)) \<le> 120"
    using length_takeWhile_le [of "\<lambda>b. b \<noteq> 0" "plc_tagNames plc ! nat k"] assms(6)
    by (simp add: c_string_def)
  with assms show ?thesis
    by (auto simp: PlcClient_read_def Tag_read_def Tag_startRead_def tag_waiting_def kMaxSymbolicName_def
        ExplicitMessage_send_def em_busy_def Let_def split: prod.splits)
qed

text \<open>
  The slot of an operation in flight: \<open>destroyTag()\<close> does not end it. The message stays
  busy with an exchange no tag of the pool owns, so no poll ever ends it, every read of every other
  tag is \<open>Busy\<close> for ever, and the next tag created in that slot is born \<open>Pending\<close>, with the
  type and the data of the old one, and is given the old one's reply.
\<close>

theorem PlcClient_destroy_in_flight:
  assumes "plc_inv plc net" and "plc_state plc = PlcReady" and "PlcClient_validHandle h plc"
    and "PlcClient_tagStatus h plc = Pending" and "PlcClient_destroyTag h plc = (st, plc1)"
    and "PlcClient_poll os eth cb plc1 net1 = (st2, plc2, net2)"
  shows "st = Ok \<and> st2 = Ok \<and> net2 = net1 \<and> plc_inUse plc2 = (plc_inUse plc)[nat h := False] \<and>
    plc_msg plc2 = plc_msg plc \<and> em_busy (plc_msg plc2) \<and>
    \<not> PlcClient_anyTagBusy plc2 \<and>
    (\<forall>k t net3. PlcClient_validHandle k plc2 \<longrightarrow> fst (PlcClient_read os k t plc2 net3) = Busy) \<and>
    (\<forall>name n plc3. PlcClient_createTag name n plc2 = (h, plc3) \<longrightarrow>
       PlcClient_tagStatus h plc3 = Pending \<and> plc_tags plc3 ! nat h = plc_tags plc ! nat h)"
proof -
  have P: "plc_pool plc"
    using assms(1) by (simp add: plc_inv_def)
  note w = plc_waiting_tag [OF P assms(3,4)]
  have p1: "st = Ok" "plc1 = plc\<lparr>plc_inUse := (plc_inUse plc)[nat h := False]\<rparr>"
    using assms(3,5) by (auto simp: PlcClient_destroyTag_def)
  have len: "length (plc_inUse plc) = 8"
    using P by (simp add: plc_pool_def)
  have "\<forall>i \<in> set [0..<8]. tag_quiet plc1 i"
  proof
    fix i assume "i \<in> set [0..<8]"
    then show "tag_quiet plc1 i"
      using plc_others_quiet [OF P w(1,3), of i] w(1) len
      by (cases "i = nat h") (auto simp: tag_quiet_def p1)
  qed
  then obtain prev where f: "fold (PlcClient_pollTag os cb) [0..<8] (False, plc1, net1) =
      (False, plc1\<lparr>plc_tagPrevStatus := prev\<rparr>, net1)"
    using quiet_turns [of "[0..<8]" plc1 os cb False net1] by (metis distinct_upt)
  have p2: "st2 = Ok" "net2 = net1" "plc2 = plc1\<lparr>plc_tagPrevStatus := prev\<rparr>"
    using assms(2,6) f p1(2) by (auto simp: PlcClient_poll_def PlcClient_pollReady_def)
  have others: "\<not> tag_waiting (plc_tags plc2 ! i)" if "i < 8" "plc_inUse plc2 ! i" for i
    using plc_others_quiet [OF P w(1,3) that(1)] that p1(2) p2(3) w(1) len
    by (cases "i = nat h") (auto simp: tag_quiet_def)
  have free: "\<not> PlcClient_anyTagBusy plc2"
    using others by (auto simp: PlcClient_anyTagBusy_def)
  have busy: "fst (PlcClient_read os k t plc2 net3) = Busy" if k: "PlcClient_validHandle k plc2" for k t net3
  proof -
    have k8: "nat k < 8" "plc_inUse plc2 ! nat k"
      using k by (auto simp: PlcClient_validHandle_def)
    have "plc_tagNames plc ! nat k \<in> set (plc_tagNames plc)"
      using P k8(1) by (simp add: plc_pool_def)
    then have "length (plc_tagNames plc2 ! nat k) = 64"
      using P p1(2) p2(3) by (simp add: plc_pool_def)
    with others [OF k8] k free assms(2) p1(2) p2(3) w(4) show ?thesis
      by (intro PlcClient_read_message_busy) simp_all
  qed
  have again: "PlcClient_tagStatus h plc3 = Pending \<and> plc_tags plc3 ! nat h = plc_tags plc ! nat h"
    if "PlcClient_createTag name n plc2 = (h, plc3)" for name n plc3
    using that w len p1(2) p2(3) assms(3)
    by (auto simp: PlcClient_createTag_def PlcClient_tagStatus_def PlcClient_validHandle_def
        Let_def split: option.splits if_splits)
  show ?thesis
    using p1 p2 free busy again w(4) by auto
qed

theorem PlcClient_destroy_in_flight_witness:
  "\<exists>plc1 plc2 plc3. PlcClient_destroyTag 0 demo_reading = (Ok, plc1) \<and>
     PlcClient_poll loopback_os demo_eth demo_cb plc1 (loopback_net 9000 []) = (Ok, plc2, loopback_net 9000 []) \<and>
     PlcClient_createTag (Some demo_name) 1 plc2 = (0, plc3) \<and> PlcClient_tagStatus 0 plc3 = Pending"
proof -
  obtain st plc1 where d: "PlcClient_destroyTag 0 demo_reading = (st, plc1)" by fastforce
  obtain st2 plc2 and net2 :: "loopback net" where p: "PlcClient_poll loopback_os demo_eth demo_cb plc1
      (loopback_net 9000 []) = (st2, plc2, net2)"
    by (metis prod_cases3)
  note t = PlcClient_destroy_in_flight [OF demo_reading_facts(1-4) d p]
  have "length (plc_inUse demo_reading) = 8"
    using demo_reading_facts(1) [of 0 "[]"] by (simp add: plc_inv_def plc_pool_def)
  then obtain u us where "plc_inUse demo_reading = u # us"
    by (cases "plc_inUse demo_reading") auto
  then have "PlcClient_findFreeTag plc2 = 0"
    using t by (simp add: PlcClient_findFreeTag_def)
  then obtain plc3 where c: "PlcClient_createTag (Some demo_name) 1 plc2 = (0, plc3)"
    by (simp add: PlcClient_createTag_def demo_name_def)
  with t d p show ?thesis
    by auto
qed

subsection \<open>The tag callback\<close>

text \<open>Callbacks that tell the outside world, and leave the client alone.\<close>

definition observer :: "(nat \<Rightarrow> int \<Rightarrow> Status \<Rightarrow> nat \<Rightarrow> 'w \<Rightarrow> 'w) \<Rightarrow> 'w callbacks" where
  "observer tell =
     \<lparr> cb_tag = (\<lambda>f h st u s. (fst s, (snd s)\<lparr>net_os := tell f h st u (net_os (snd s))\<rparr>)),
       cb_state = (\<lambda>f st u s. s) \<rparr>"

text \<open>
  C30. The tag callback is called when an operation ends that an earlier poll has seen
  \<open>Pending\<close>: exactly once, in the poll that ends it, with the handle, the status of that poll and
  the user data, however it ends. A poll that does not end it calls nothing. When it ends because
  the connection is lost, the callback is told \<open>Closed\<close> first, and then the client closes the socket,
  is idle, and its poll answers \<open>Closed\<close>; every other poll answers \<open>Ok\<close>.
\<close>

theorem PlcClient_callback_once:
  assumes "plc_inv plc net" and "socket_contract os" and "plc_state plc = PlcReady"
    and "PlcClient_validHandle h plc" and "plc_tagPrevStatus plc ! nat h = Pending"
    and "plc_tagCallback plc = Some f"
    and "Tag_poll os (plc_tags plc ! nat h) (plc_msg plc) net = (st, t, msg, net1)"
    and "told = net1\<lparr>net_os := tell f h st (plc_tagUserData plc) (net_os net1)\<rparr>"
    and "PlcClient_poll os eth (observer tell) plc net = (st', plc', net')"
  shows "PlcClient_tagStatus h plc' = Tag_status t \<and> plc_tagPrevStatus plc' ! nat h = st \<and>
    (if st = Pending then st' = Ok \<and> net' = net1
     else if st = Closed
     then st' = Closed \<and> plc_state plc' = PlcIdle \<and> net' = TcpConnection_close os (plc_tcp plc) told
     else st' = Ok \<and> net' = told)"
proof -
  have P: "plc_pool plc"
    using assms(1) by (simp add: plc_inv_def)
  have h: "nat h < 8" "plc_inUse plc ! nat h" "int (nat h) = h"
    using assms(4) by (auto simp: PlcClient_validHandle_def)
  have w: "tag_waiting (plc_tags plc ! nat h)"
    using P h assms(5) by (auto simp: plc_pool_def plc_prev_def)
  let ?net = "if st = Pending then net1 else told"
  have call: "call_tag (observer tell) (nat h) st (p, net1) = (p, told)"
    if "plc_tagCallback p = plc_tagCallback plc" "plc_tagUserData p = plc_tagUserData plc" for p
    using that assms(6,8) h(3) by (simp add: call_tag_def observer_def)
  obtain prev where g: "fold (PlcClient_pollTag os (observer tell)) [0..<8] (False, plc, net) =
      fold (PlcClient_pollTag os (observer tell)) [Suc (nat h)..<8]
        (st = Closed, plc\<lparr>plc_tags := (plc_tags plc)[nat h := t], plc_msg := msg,
                     plc_tagPrevStatus := prev[nat h := st]\<rparr>, ?net)"
    and n: "noted plc [0..<nat h] prev"
    by (rule PlcClient_pollTags_one [OF P h(1,2) w assms(7), of "observer tell"])
      (use assms(5) call in \<open>cases "st = Pending"; simp add: Let_def\<close>)
  let ?p = "plc\<lparr>plc_tags := (plc_tags plc)[nat h := t], plc_msg := msg, plc_tagPrevStatus := prev[nat h := st]\<rparr>"
  obtain prev2 where q: "fold (PlcClient_pollTag os (observer tell)) [Suc (nat h)..<8] (st = Closed, ?p, ?net) =
      (st = Closed, ?p\<lparr>plc_tagPrevStatus := prev2\<rparr>, ?net)" and n2: "prev2 ! nat h = st"
    by (rule PlcClient_pollTags_rest [OF P h(1) w n refl])
  have cs: "call_state (observer tell) s x = x" for s x
    by (cases x) (simp add: call_state_def observer_def split: option.split)
  have "PlcClient_pollReady os (observer tell) plc net = (st', plc', net')"
    using assms(3,9) by (simp add: PlcClient_poll_def)
  then have e: "(st', plc', net') =
      (if st = Closed
       then (Closed, ?p\<lparr>plc_tagPrevStatus := prev2, plc_session := Session_abort (plc_session plc), plc_state := PlcIdle\<rparr>,
             TcpConnection_close os (plc_tcp plc) ?net)
       else (Ok, ?p\<lparr>plc_tagPrevStatus := prev2\<rparr>, ?net))"
    using g q by (simp add: PlcClient_pollReady_def cs split: if_splits)
  have "length (plc_tags plc) = 8"
    using P by (simp add: plc_pool_def)
  with e h n2 assms(4) show ?thesis
    by (auto simp: PlcClient_tagStatus_def PlcClient_validHandle_def split: if_splits)
qed

text \<open>The example client, whose read has been polled once, and times out.\<close>

definition demo_polled :: plc_client where
  "demo_polled = demo_reading\<lparr>plc_tagPrevStatus := (plc_tagPrevStatus demo_reading)[0 := Pending],
     plc_tagCallback := Some 1, plc_tagUserData := 5\<rparr>"

lemma demo_reading_late:
  "Tag_poll loopback_os (plc_tags demo_reading ! 0) (plc_msg demo_reading) (loopback_net 5000 []) =
    (Timeout, (plc_tags demo_reading ! 0)\<lparr>tag_state := TagFailed\<rparr>,
     (plc_msg demo_reading)\<lparr>em_state := EmFailed\<rparr>, loopback_net 5000 [])"
  using ExplicitMessage_poll_late [of "plc_msg demo_reading" loopback_os "loopback_net 5000 []" 5000]
  by (simp add: Tag_poll_finish tag_finish_def expired_def)

definition demo_tell :: "nat \<Rightarrow> int \<Rightarrow> Status \<Rightarrow> nat \<Rightarrow> loopback \<Rightarrow> loopback" where
  "demo_tell f h st u w =
     (if f = 1 \<and> h = 0 \<and> u = 5
      then (if st = Timeout then w\<lparr>lb_random := 99\<rparr> else if st = Closed then w\<lparr>lb_random := 98\<rparr> else w)
      else w)"

lemma demo_polled_facts:
  "plc_state demo_polled = PlcReady" "PlcClient_validHandle 0 demo_polled"
  "plc_tagPrevStatus demo_polled ! nat 0 = Pending" "plc_tagCallback demo_polled = Some 1"
  "plc_tagUserData demo_polled = 5" "plc_tcp demo_polled = 0"
  "plc_inv demo_polled (loopback_net now q)"
proof -
  have P: "plc_pool demo_reading"
    using demo_reading_facts(1) [of 0 "[]"] by (simp add: plc_inv_def)
  then show "plc_state demo_polled = PlcReady" "PlcClient_validHandle 0 demo_polled"
    "plc_tagPrevStatus demo_polled ! nat 0 = Pending" "plc_tagCallback demo_polled = Some 1"
    "plc_tagUserData demo_polled = 5" "plc_tcp demo_polled = 0"
    using demo_reading_facts(3,8) by (simp_all add: demo_polled_def PlcClient_validHandle_def plc_pool_def)
  have "plc_pool demo_polled"
    using P by (auto simp: plc_pool_def plc_prev_def demo_polled_def nth_update_if)
  then show "plc_inv demo_polled (loopback_net now q)"
    using demo_reading_facts(1) [of now q] by (simp add: plc_inv_def demo_polled_def)
qed

text \<open>The loopback network whose peer has closed every connection.\<close>

definition demo_lost :: "loopback net" where
  "demo_lost = (loopback_net 0 [])\<lparr>net_tcp := (\<lambda>c. up_tcp\<lparr>tcp_state := Closed\<rparr>)\<rparr>"

lemma demo_reading_lost:
  "Tag_poll loopback_os (plc_tags demo_reading ! 0) (plc_msg demo_reading) demo_lost =
    (Closed, (plc_tags demo_reading ! 0)\<lparr>tag_state := TagFailed\<rparr>,
     (plc_msg demo_reading)\<lparr>em_state := EmFailed\<rparr>, demo_lost)"
proof -
  have "ExplicitMessage_poll loopback_os (plc_msg demo_reading) demo_lost =
      (Closed, (plc_msg demo_reading)\<lparr>em_state := EmFailed\<rparr>, demo_lost)"
    by (subst ExplicitMessage_poll_down) (simp_all add: expired_def demo_lost_def)
  then show ?thesis
    by (simp add: Tag_poll_finish tag_finish_def)
qed

theorem PlcClient_callback_once_witness:
  "(\<exists>plc' net'. PlcClient_poll loopback_os demo_eth (observer demo_tell) demo_polled (loopback_net 5000 []) =
      (Ok, plc', net') \<and> lb_random (net_os net') = 99) \<and>
   (\<exists>plc' net'. PlcClient_poll loopback_os demo_eth (observer demo_tell) demo_polled demo_lost =
      (Closed, plc', net') \<and> lb_random (net_os net') = 98 \<and> tcp_fd (net_tcp net' 0) = -1 \<and> plc_state plc' = PlcIdle)"
proof -
  note f = demo_polled_facts
  have same: "plc_tags demo_polled = plc_tags demo_reading" "plc_msg demo_polled = plc_msg demo_reading"
    by (simp_all add: demo_polled_def)
  have I: "plc_inv demo_polled demo_lost"
    by (rule plc_inv_net [OF f(7) [of 0 "[]"]]) (simp add: demo_lost_def)
  have late: "Tag_poll loopback_os (plc_tags demo_polled ! nat 0) (plc_msg demo_polled) (loopback_net 5000 []) =
    (Timeout, (plc_tags demo_reading ! 0)\<lparr>tag_state := TagFailed\<rparr>,
     (plc_msg demo_reading)\<lparr>em_state := EmFailed\<rparr>, loopback_net 5000 [])"
    using demo_reading_late by (simp add: same)
  have lost: "Tag_poll loopback_os (plc_tags demo_polled ! nat 0) (plc_msg demo_polled) demo_lost =
    (Closed, (plc_tags demo_reading ! 0)\<lparr>tag_state := TagFailed\<rparr>,
     (plc_msg demo_reading)\<lparr>em_state := EmFailed\<rparr>, demo_lost)"
    using demo_reading_lost by (simp add: same)
  obtain st1 plc1 net1 where p1: "PlcClient_poll loopback_os demo_eth (observer demo_tell) demo_polled
      (loopback_net 5000 []) = (st1, plc1, net1)"
    by (metis prod_cases3)
  obtain st2 plc2 net2 where p2: "PlcClient_poll loopback_os demo_eth (observer demo_tell) demo_polled
      demo_lost = (st2, plc2, net2)"
    by (metis prod_cases3)
  have "st1 = Ok \<and> net1 = (loopback_net 5000 [])\<lparr>net_os := demo_tell 1 0 Timeout (plc_tagUserData demo_polled)
      (net_os (loopback_net 5000 []))\<rparr>"
    using PlcClient_callback_once [OF f(7) loopback_socket_contract f(1-4) late refl p1] by simp
  moreover have "st2 = Closed \<and> plc_state plc2 = PlcIdle \<and> net2 = TcpConnection_close loopback_os (plc_tcp demo_polled)
      (demo_lost\<lparr>net_os := demo_tell 1 0 Closed (plc_tagUserData demo_polled) (net_os demo_lost)\<rparr>)"
    using PlcClient_callback_once [OF I loopback_socket_contract f(1-4) lost refl p2] by simp
  ultimately show ?thesis
    using p1 p2 f(5,6)
    by (simp add: demo_tell_def demo_lost_def TcpConnection_close_def up_tcp_def put_tcp_def Let_def)
qed

text \<open>Polls that call no callback are the same for all callbacks.\<close>

lemma quiet_turns_cb:
  assumes "\<forall>i \<in> set is. tag_quiet plc i" and "distinct is"
  shows "fold (PlcClient_pollTag os cb) is (d, plc, net) = fold (PlcClient_pollTag os cb') is (d, plc, net)"
proof -
  obtain prev prev' where "fold (PlcClient_pollTag os cb) is (d, plc, net) = (d, plc\<lparr>plc_tagPrevStatus := prev\<rparr>, net)"
    "noted plc is prev"
    "fold (PlcClient_pollTag os cb') is (d, plc, net) = (d, plc\<lparr>plc_tagPrevStatus := prev'\<rparr>, net)"
    "noted plc is prev'"
    using quiet_turns [OF assms, of os cb d net] quiet_turns [OF assms, of os cb' d net] by blast
  with noted_eq [of plc "is" prev prev'] show ?thesis
    by simp
qed

lemma PlcClient_pollReady_idle_cb:
  assumes "\<forall>i < 8. tag_quiet plc i"
  shows "PlcClient_pollReady os cb plc net = PlcClient_pollReady os cb' plc net"
proof -
  have q: "\<forall>i \<in> set [0..<8]. tag_quiet plc i"
    using assms by simp
  obtain prev where "fold (PlcClient_pollTag os cb) [0..<8] (False, plc, net) =
      (False, plc\<lparr>plc_tagPrevStatus := prev\<rparr>, net)"
    using quiet_turns [OF q] by (metis distinct_upt)
  moreover from this have "fold (PlcClient_pollTag os cb') [0..<8] (False, plc, net) =
      (False, plc\<lparr>plc_tagPrevStatus := prev\<rparr>, net)"
    using quiet_turns_cb [OF q distinct_upt, of os cb False net cb'] by simp
  ultimately show ?thesis
    by (simp add: PlcClient_pollReady_def)
qed

lemma PlcClient_pollReady_one_cb:
  assumes P: "plc_pool plc" and C: "socket_contract os" and h: "h < 8" "plc_inUse plc ! h"
    and w: "tag_waiting (plc_tags plc ! h)" and v: "plc_tagPrevStatus plc ! h \<noteq> Pending"
    and run: "PlcClient_pollReady os cb plc net = (Ok, plc', net')"
  shows "PlcClient_pollReady os cb' plc net = (Ok, plc', net')" and "plc_state plc' = plc_state plc"
    and "plc_inUse plc' = plc_inUse plc"
    and "Tag_status (plc_tags plc' ! h) \<noteq> Pending \<Longrightarrow> \<forall>i < 8. tag_quiet plc' i"
proof -
  obtain st t msg net1 where tp: "Tag_poll os (plc_tags plc ! h) (plc_msg plc) net = (st, t, msg, net1)"
    by (metis prod_cases4)
  have len: "length (plc_tags plc) = 8"
    using P by (simp add: plc_pool_def)
  have st: "st = Pending \<longleftrightarrow> tag_waiting t"
    using tag_pool.owned_cpoll [OF plc_pool_i(4) [OF P h(1)] _ plc_pool_i(1) [OF P h(1)] tp] C
      plc_pool_i(3) [OF P h(1)] by blast
  obtain prev where pv: "prev ! h = st"
      "\<forall>i < 8. i \<noteq> h \<longrightarrow> plc_inUse plc ! i \<longrightarrow> prev ! i = Tag_status (plc_tags plc ! i)"
    and r: "PlcClient_pollReady os cb plc net =
      (let plc1 = plc\<lparr>plc_tags := (plc_tags plc)[h := t], plc_msg := msg, plc_tagPrevStatus := prev\<rparr> in
       if st = Closed
       then (Closed, call_state cb Closed
               (plc1\<lparr>plc_session := Session_abort (plc_session plc), plc_state := PlcIdle\<rparr>,
                TcpConnection_close os (plc_tcp plc) net1))
       else (Ok, plc1, net1))"
    by (rule PlcClient_pollReady_one [OF P C h w tp]) (use v in auto)
  have nc: "st \<noteq> Closed"
    and p': "plc' = plc\<lparr>plc_tags := (plc_tags plc)[h := t], plc_msg := msg, plc_tagPrevStatus := prev\<rparr>"
    using r run by (auto simp: Let_def split: if_splits)
  then show "plc_state plc' = plc_state plc" "plc_inUse plc' = plc_inUse plc"
    by simp_all
  show "\<forall>i < 8. tag_quiet plc' i" if "Tag_status (plc_tags plc' ! h) \<noteq> Pending"
  proof (intro allI impI)
    fix i :: nat assume "i < 8"
    then show "tag_quiet plc' i"
      using that pv st len p' plc_others_quiet [OF P h(1) w, of i]
      by (cases "i = h") (auto simp: tag_quiet_def)
  qed
  let ?p = "\<lambda>prev. plc\<lparr>plc_tags := (plc_tags plc)[h := t], plc_msg := msg, plc_tagPrevStatus := prev[h := st]\<rparr>"
  obtain p1 where f1: "fold (PlcClient_pollTag os cb) [0..<8] (False, plc, net) =
      fold (PlcClient_pollTag os cb) [Suc h..<8] (st = Closed, ?p p1, net1)" and n1: "noted plc [0..<h] p1"
    by (rule PlcClient_pollTags_one [OF P h w tp, of cb]) (use v in \<open>auto simp: Let_def\<close>)
  obtain p2 where f2: "fold (PlcClient_pollTag os cb') [0..<8] (False, plc, net) =
      fold (PlcClient_pollTag os cb') [Suc h..<8] (st = Closed, ?p p2, net1)" and n2: "noted plc [0..<h] p2"
    by (rule PlcClient_pollTags_one [OF P h w tp, of cb']) (use v in \<open>auto simp: Let_def\<close>)
  have "fold (PlcClient_pollTag os cb) [0..<8] (False, plc, net) =
      fold (PlcClient_pollTag os cb') [0..<8] (False, plc, net)"
    unfolding f1 f2 noted_eq [OF n1 n2]
    using plc_rest_quiet [OF P h(1) w n2 refl] by (intro quiet_turns_cb) simp_all
  moreover obtain d plc1 net2 where "fold (PlcClient_pollTag os cb') [0..<8] (False, plc, net) = (d, plc1, net2)"
    by (metis prod_cases3)
  ultimately show "PlcClient_pollReady os cb' plc net = (Ok, plc', net')"
    using run by (simp add: PlcClient_pollReady_def split: if_splits)
qed

lemma PlcClient_started_cb:
  assumes "plc_pool plc" and "plc_state plc = PlcReady" and "PlcClient_validHandle h plc"
    and "\<not> em_busy (plc_msg plc)"
    and "PlcClient_read os h timeoutMs plc net = (Pending, plc1, net1) \<or>
      PlcClient_write os h timeoutMs plc net = (Pending, plc1, net1)"
  shows "plc_pool plc1 \<and> plc_state plc1 = PlcReady \<and> plc_inUse plc1 = plc_inUse plc \<and>
    plc_tagPrevStatus plc1 = plc_tagPrevStatus plc \<and> tag_waiting (plc_tags plc1 ! nat h)"
  using assms(5)
proof
  assume r: "PlcClient_read os h timeoutMs plc net = (Pending, plc1, net1)"
  show ?thesis
    by (rule PlcClient_read_starts [OF assms(1-4) r])
      (use PlcClient_read_pool [OF assms(1) r] plc_handle [OF assms(1,3)] assms(1,2)
        in \<open>simp add: tag_waiting_def plc_pool_def\<close>)
next
  assume r: "PlcClient_write os h timeoutMs plc net = (Pending, plc1, net1)"
  show ?thesis
    by (rule PlcClient_write_starts [OF assms(1-4) r])
      (use PlcClient_write_pool [OF assms(1) r] plc_handle [OF assms(1,3)] assms(1,2)
        in \<open>simp add: tag_waiting_def plc_pool_def\<close>)
qed

text \<open>
  The tag callback can be missed. An operation that ends in the first poll after
  \<open>read()\<close> or \<open>write()\<close> calls no callback, then or later: the poll, and the next ones, are
  the same whatever the callbacks do. (\<open>PlcClient.h\<close> and the README promise one call when a
  tag's read or write completes, and recommend chaining the next operation from it.)
\<close>

theorem PlcClient_callback_missed:
  assumes "plc_inv plc net" and "socket_contract os" and "plc_state plc = PlcReady"
    and "PlcClient_validHandle h plc" and "\<not> em_busy (plc_msg plc)"
    and "PlcClient_read os h timeoutMs plc net = (Pending, plc1, net1) \<or>
      PlcClient_write os h timeoutMs plc net = (Pending, plc1, net1)"
    and "PlcClient_poll os eth cb plc1 net2 = (Ok, plc2, net3)"
    and "PlcClient_tagStatus h plc2 \<noteq> Pending"
  shows "PlcClient_poll os eth cb' plc1 net2 = (Ok, plc2, net3) \<and>
    PlcClient_poll os eth cb' plc2 net4 = PlcClient_poll os eth cb plc2 net4"
proof -
  have P: "plc_pool plc"
    using assms(1) by (simp add: plc_inv_def)
  have h: "nat h < 8" "plc_inUse plc ! nat h"
    using assms(4) by (auto simp: PlcClient_validHandle_def)
  note s = PlcClient_started_cb [OF P assms(3-6)]
  have v: "plc_tagPrevStatus plc1 ! nat h \<noteq> Pending"
    using plc_idle_quiet [OF P assms(5) h(1)] h(2) s by (simp add: tag_quiet_def)
  have run: "PlcClient_pollReady os cb plc1 net2 = (Ok, plc2, net3)"
    using assms(7) s by (simp add: PlcClient_poll_def)
  have s': "plc_pool plc1" "plc_inUse plc1 ! nat h" "tag_waiting (plc_tags plc1 ! nat h)" "plc_state plc1 = PlcReady"
    using s h by simp_all
  note one = PlcClient_pollReady_one_cb [OF s'(1) assms(2) h(1) s'(2,3) v run]
  have "PlcClient_validHandle h plc2"
    using one(3) s assms(4) by (simp add: PlcClient_validHandle_def)
  then have "\<forall>i < 8. tag_quiet plc2 i"
    using assms(8) one(4) by (simp add: PlcClient_tagStatus_def)
  from PlcClient_pollReady_idle_cb [OF this, of os cb' net4 cb] one(1) [of cb'] one(2) s'(4)
  show ?thesis
    by (simp add: PlcClient_poll_def)
qed

theorem PlcClient_callback_missed_witness:
  "\<exists>plc2. \<forall>cb. PlcClient_poll loopback_os demo_eth cb demo_reading (loopback_net 5000 []) =
     (Ok, plc2, loopback_net 5000 []) \<and> PlcClient_tagStatus 0 plc2 = Error"
proof -
  obtain net1 :: "loopback net" where r: "PlcClient_read loopback_os 0 1000 demo_plc (loopback_net 0 []) =
      (Pending, demo_reading, net1)"
    by (rule demo_reading_starts)
  have P: "plc_pool demo_reading"
    using demo_reading_facts(1) [of 0 "[]"] by (simp add: plc_inv_def)
  have u: "plc_inUse demo_reading ! 0" "length (plc_tags demo_reading) = 8"
    using demo_reading_facts(3) P by (simp_all add: PlcClient_validHandle_def plc_pool_def)
  have "plc_pool demo_plc"
    using demo_plc_inv [of 0 "[]"] by (simp add: plc_inv_def)
  then have v: "plc_tagPrevStatus demo_reading ! 0 \<noteq> Pending"
    using PlcClient_started_cb [of demo_plc 0 loopback_os 1000 "loopback_net 0 []" demo_reading net1] r
      plc_idle_quiet [of demo_plc 0] by (simp add: tag_quiet_def)
  obtain prev where "PlcClient_pollReady loopback_os demo_cb demo_reading (loopback_net 5000 []) =
      (let plc1 = demo_reading\<lparr>plc_tags := (plc_tags demo_reading)[0 := (plc_tags demo_reading ! 0)\<lparr>tag_state := TagFailed\<rparr>],
          plc_msg := (plc_msg demo_reading)\<lparr>em_state := EmFailed\<rparr>, plc_tagPrevStatus := prev\<rparr> in
       if Timeout = Closed
       then (Closed, call_state demo_cb Closed
               (plc1\<lparr>plc_session := Session_abort (plc_session demo_reading), plc_state := PlcIdle\<rparr>,
                TcpConnection_close loopback_os (plc_tcp demo_reading) (loopback_net 5000 [])))
       else (Ok, plc1, loopback_net 5000 []))"
    by (rule PlcClient_pollReady_one [OF P loopback_socket_contract _ u(1) _ demo_reading_late]) (use v in auto)
  then obtain plc2 where p: "PlcClient_poll loopback_os demo_eth demo_cb demo_reading (loopback_net 5000 []) =
      (Ok, plc2, loopback_net 5000 [])"
    and t: "plc_tags plc2 ! 0 = (plc_tags demo_reading ! 0)\<lparr>tag_state := TagFailed\<rparr>"
      "plc_inUse plc2 = plc_inUse demo_reading"
    using u by (auto simp: PlcClient_poll_def Let_def)
  have "PlcClient_tagStatus 0 plc2 = Error"
    using t u by (simp add: PlcClient_tagStatus_def PlcClient_validHandle_def Tag_status_def)
  moreover from this have "PlcClient_poll loopback_os demo_eth cb demo_reading (loopback_net 5000 []) =
      (Ok, plc2, loopback_net 5000 [])" for cb
    using PlcClient_callback_missed [OF demo_plc_inv loopback_socket_contract demo_plc_facts(1,9) _ disjI1 [OF r] p, of cb]
    by simp
  ultimately show ?thesis
    by blast
qed

end
