(* ===== verification/Connection.thy ===== *)
theory Connection
  imports ExplicitMessage
begin

text \<open>
  A connected CIP connection, \<open>src/src/cip/Connection.h\<close> and \<open>Connection.cpp\<close>: a Forward
  Open and a Forward Close through an explicit message of its own, and between them SendUnitData
  exchanges that carry the connection ID and a sequence number. As in \<open>ExplicitMessage\<close>, the
  pointer \<open>data_\<close> is an offset into the receive buffer.
\<close>

definition cn_kMaxDataSize :: nat where
  "cn_kMaxDataSize = 256"

lemma cn_kMaxDataSize [simp]: "cn_kMaxDataSize = 256"
  by (simp add: cn_kMaxDataSize_def)

datatype CnState = CnIdle | CnOpening | CnOpen | CnSending | CnClosing | CnClosed | CnFailed

record cip_connection =
  cn_fwd :: explicit_message
  cn_conn :: "conn_ref option"
  cn_state :: CnState
  cn_otConnId :: u32
  cn_toConnId :: u32
  cn_sequence :: u16
  cn_tagName :: "byte list"
  cn_tx :: "byte list"
  cn_txLen :: nat
  cn_txSent :: nat
  cn_rx :: "byte list"
  cn_rxLen :: nat
  cn_rxExpected :: nat
  cn_replyService :: byte
  cn_resultCode :: byte
  cn_data :: "nat option"
  cn_dataLen :: nat
  cn_deadline :: u32
  cn_context :: u64
  cn_sentContext :: u64
  cn_sentSequence :: u16

definition Connection_new :: "explicit_message \<Rightarrow> byte list \<Rightarrow> byte list \<Rightarrow> cip_connection" where
  "Connection_new fwd tx rx =
     \<lparr> cn_fwd = fwd, cn_conn = None, cn_state = CnIdle, cn_otConnId = 0, cn_toConnId = 0,
       cn_sequence = 1, cn_tagName = replicate 64 0, cn_tx = tx, cn_txLen = 0, cn_txSent = 0,
       cn_rx = rx, cn_rxLen = 0, cn_rxExpected = 0, cn_replyService = 0, cn_resultCode = 0,
       cn_data = None, cn_dataLen = 0, cn_deadline = 0, cn_context = 1, cn_sentContext = 0,
       cn_sentSequence = 0 \<rparr>"

definition Connection_isOpen :: "cip_connection \<Rightarrow> bool" where
  "Connection_isOpen m \<longleftrightarrow> cn_state m = CnOpen"

definition Connection_data :: "cip_connection \<Rightarrow> byte list" where
  "Connection_data m = (case cn_data m of None \<Rightarrow> [] | Some off \<Rightarrow> drop off (cn_rx m))"

definition Connection_end :: "cip_connection \<Rightarrow> cip_connection" where
  "Connection_end m = m\<lparr>cn_state := CnIdle\<rparr>"

subsection \<open>Starting\<close>

text \<open>
  The request path to the Connection Manager, and the local array \<open>data\<close>, of which only the
  bytes written are passed on.
\<close>

definition cn_reqPath :: "byte list" where
  "cn_reqPath = [0x20, 0x06, 0x24, 0x01]"

definition Connection_startOpen ::
  "'w os \<Rightarrow> conn_ref \<Rightarrow> u32 \<Rightarrow> cstring \<Rightarrow> u32 \<Rightarrow> cip_connection \<Rightarrow> 'w net
     \<Rightarrow> Status \<times> cip_connection \<times> 'w net" where
  "Connection_startOpen os conn sessionHandle tagName timeoutMs m net =
     (case sys (os_random os) net of (r, net1) \<Rightarrow>
        (let ot = (if r = 0 then 1 else r);
             m1 = m\<lparr>cn_otConnId := ot, cn_toConnId := 0, cn_tagName := name_slot tagName\<rparr>;
             d0 = replicate 128 0;
             d1 = poke 0 [0x0A] d0;
             d2 = poke 1 [0x0E] d1;
             d3 = putU32 2 (cn_otConnId m1) d2;
             d4 = putU32 6 0 d3;
             d5 = putU16 10 1 d4;
             d6 = putU16 12 0x0001 d5;
             d7 = putU32 14 0x00000001 d6;
             d8 = poke 18 [0x03] d7;
             d9 = poke 21 [0] (poke 20 [0] (poke 19 [0] d8));
             d10 = putU32 22 10000 d9;
             d11 = putU16 26 0x4200 d10;
             d12 = putU32 28 10000 d11;
             d13 = putU16 32 0x4200 d12;
             d14 = poke 34 [0xA3] d13
         in case appendSymbolic 36 (c_string (cn_tagName m1)) d14 of (d15, pathLen) \<Rightarrow>
              (let d16 = poke 35 [of_nat (pathLen div 2)] d15; d = 35 + (1 + pathLen) in
               case ExplicitMessage_send os conn sessionHandle 0x54 (Some cn_reqPath) 4 (Some d16)
                      (of_nat d) timeoutMs (cn_fwd m1) net1 of
                 (st, fwd, net2) \<Rightarrow>
                   if st \<noteq> Pending then (st, m1\<lparr>cn_fwd := fwd\<rparr>, net2)
                   else (Pending, m1\<lparr>cn_fwd := fwd, cn_state := CnOpening\<rparr>, net2))))"

definition Connection_startClose ::
  "'w os \<Rightarrow> conn_ref \<Rightarrow> u32 \<Rightarrow> u32 \<Rightarrow> cip_connection \<Rightarrow> 'w net
     \<Rightarrow> Status \<times> cip_connection \<times> 'w net" where
  "Connection_startClose os conn sessionHandle timeoutMs m net =
     (case appendSymbolic 1 (c_string (cn_tagName m)) (replicate 128 0) of (d1, pathLen) \<Rightarrow>
        (let d2 = poke 0 [of_nat (pathLen div 2)] d1;
             d = 1 + pathLen;
             d3 = putU16 d 1 d2;
             d4 = putU16 (d + 2) 0x0001 d3;
             d5 = putU32 (d + 4) 0x00000001 d4
         in case ExplicitMessage_send os conn sessionHandle 0x4E (Some cn_reqPath) 4 (Some d5)
                   (of_nat (d + 8)) timeoutMs (cn_fwd m) net of
              (st, fwd, net1) \<Rightarrow>
                if st \<noteq> Pending then (st, m\<lparr>cn_fwd := fwd\<rparr>, net1)
                else (Pending, m\<lparr>cn_fwd := fwd, cn_state := CnClosing\<rparr>, net1)))"

definition Connection_startSend ::
  "'w os \<Rightarrow> conn_ref \<Rightarrow> u32 \<Rightarrow> byte \<Rightarrow> byte list option \<Rightarrow> size_t \<Rightarrow> byte list option \<Rightarrow> size_t \<Rightarrow> u32
     \<Rightarrow> cip_connection \<Rightarrow> 'w net \<Rightarrow> Status \<times> cip_connection \<times> 'w net" where
  "Connection_startSend os conn sessionHandle service path pathLen data dataLen timeoutMs m net =
     (let cipLen = 2 + pathLen + dataLen in
      if of_nat cn_kMaxDataSize < cipLen \<or> odd pathLen \<or> (0 < pathLen \<and> path = None) \<or>
         (0 < dataLen \<and> data = None)
      then (InvalidArg, m, net)
      else
        (let m0 = m\<lparr>cn_conn := Some conn\<rparr>;
             h = \<lparr> eh_command = Command_code SendUnitData, eh_length = ucast (22 + cipLen),
                   eh_session = sessionHandle, eh_status = 0, eh_context = cn_context m0,
                   eh_options = 0 \<rparr>;
             body = kEncapsulationHeaderSize;
             t1 = encodeHeader h (cn_tx m0);
             t2 = putU32 body 0 t1;
             t3 = putU16 (body + 4) 0 t2;
             t4 = putU16 (body + 6) 2 t3;
             t5 = putU16 (body + 8) 0x00A1 t4;
             t6 = putU16 (body + 10) 4 t5;
             t7 = putU32 (body + 12) (cn_otConnId m0) t6;
             t8 = putU16 (body + 16) 0x00B1 t7;
             t9 = putU16 (body + 18) (ucast (2 + cipLen)) t8;
             t10 = putU16 (body + 20) (cn_sequence m0) t9;
             cip = body + 22;
             t11 = poke cip [service] t10;
             t12 = poke (cip + 1) [ucast (pathLen div 2)] t11;
             t13 = (if pathLen \<noteq> 0 then poke (cip + 2) (take (unat pathLen) (the path)) t12 else t12);
             t14 = (if dataLen \<noteq> 0
                    then poke (cip + 2 + unat pathLen) (take (unat dataLen) (the data)) t13 else t13)
         in case millis os net of (now, net1) \<Rightarrow>
              (Pending,
               m0\<lparr>cn_tx := t14, cn_txLen := kEncapsulationHeaderSize + 22 + unat cipLen,
                  cn_txSent := 0, cn_rxLen := 0, cn_rxExpected := kEncapsulationHeaderSize,
                  cn_sentContext := cn_context m0, cn_sentSequence := cn_sequence m0,
                  cn_context := cn_context m0 + 1, cn_sequence := cn_sequence m0 + 1,
                  cn_deadline := now + timeoutMs, cn_state := CnSending\<rparr>,
               net1)))"

definition Connection_open ::
  "'w os \<Rightarrow> conn_ref \<Rightarrow> u32 \<Rightarrow> cstring option \<Rightarrow> u32 \<Rightarrow> cip_connection \<Rightarrow> 'w net
     \<Rightarrow> Status \<times> cip_connection \<times> 'w net" where
  "Connection_open os conn sessionHandle tagName timeoutMs m net =
     (case tagName of
        None \<Rightarrow> (InvalidArg, m, net)
      | Some name \<Rightarrow>
          if 64 \<le> length name then (InvalidArg, m, net)
          else if cn_state m = CnOpening \<or> cn_state m = CnSending \<or> cn_state m = CnClosing
          then (Busy, m, net)
          else Connection_startOpen os conn sessionHandle name timeoutMs m net)"

definition Connection_send ::
  "'w os \<Rightarrow> conn_ref \<Rightarrow> u32 \<Rightarrow> byte \<Rightarrow> byte list option \<Rightarrow> size_t \<Rightarrow> byte list option \<Rightarrow> size_t \<Rightarrow> u32
     \<Rightarrow> cip_connection \<Rightarrow> 'w net \<Rightarrow> Status \<times> cip_connection \<times> 'w net" where
  "Connection_send os conn sessionHandle service path pathLen data dataLen timeoutMs m net =
     (if cn_state m \<noteq> CnOpen then (NotReady, m, net)
      else Connection_startSend os conn sessionHandle service path pathLen data dataLen timeoutMs m net)"

definition Connection_close ::
  "'w os \<Rightarrow> conn_ref \<Rightarrow> u32 \<Rightarrow> u32 \<Rightarrow> cip_connection \<Rightarrow> 'w net
     \<Rightarrow> Status \<times> cip_connection \<times> 'w net" where
  "Connection_close os conn sessionHandle timeoutMs m net =
     (if cn_state m \<noteq> CnOpen then (NotReady, m, net)
      else Connection_startClose os conn sessionHandle timeoutMs m net)"

subsection \<open>Polling\<close>

definition Connection_writePending ::
  "'w os \<Rightarrow> cip_connection \<Rightarrow> 'w net \<Rightarrow> Status \<times> cip_connection \<times> 'w net" where
  "Connection_writePending os m net =
     (case write_loop (conn_write os (cn_conn m)) (cn_tx m) (cn_txLen m) (cn_txSent m) net of
        (st, sent, net1) \<Rightarrow> (st, m\<lparr>cn_txSent := sent\<rparr>, net1))"

definition Connection_readResponse ::
  "'w os \<Rightarrow> cip_connection \<Rightarrow> 'w net \<Rightarrow> Status \<times> cip_connection \<times> 'w net" where
  "Connection_readResponse os m net =
     (case read_loop (conn_read os (cn_conn m)) (22 + cn_kMaxDataSize) (cn_rx m) (cn_rxLen m)
        (cn_rxExpected m) net of
        (st, rx, rxLen, rxExpected, net1) \<Rightarrow>
          (st, m\<lparr>cn_rx := rx, cn_rxLen := rxLen, cn_rxExpected := rxExpected\<rparr>, net1))"

text \<open>
  The loop over the items of a reply. The connection ID (\<open>None\<close> while \<open>haveConnId\<close> is false)
  and the connected data (offset and length) are those of the last item of their type. The result
  is \<open>None\<close> for a malformed packet.
\<close>

fun parse_connected ::
  "byte list \<Rightarrow> nat \<Rightarrow> nat \<Rightarrow> nat \<Rightarrow> u32 option \<Rightarrow> (nat \<times> nat) option
     \<Rightarrow> (u32 option \<times> (nat \<times> nat) option) option" where
  "parse_connected rx 0 p remaining connId cd = Some (connId, cd)"
| "parse_connected rx (Suc n) p remaining connId cd =
     (if remaining < 4 then None
      else
        (let type = getU16 (drop p rx); len = unat (getU16 (drop (p + 2) rx));
             p1 = p + 4; remaining1 = remaining - 4
         in if remaining1 < len then None
            else if type = 0x00A1 then
              (if len < 4 then None
               else parse_connected rx n (p1 + len) (remaining1 - len) (Some (getU32 (drop p1 rx))) cd)
            else if type = 0x00B1 then
              parse_connected rx n (p1 + len) (remaining1 - len) connId (Some (p1, len))
            else parse_connected rx n (p1 + len) (remaining1 - len) connId cd))"

definition Connection_parseConnectedResponse :: "cip_connection \<Rightarrow> Status \<times> cip_connection" where
  "Connection_parseConnectedResponse m =
     (let h = decodeHeader (cn_rx m) in
      if eh_command h \<noteq> Command_code SendUnitData \<or> eh_status h \<noteq> 0 then (Error, m)
      else if eh_context h \<noteq> cn_sentContext m then (Error, m)
      else
        (let body = kEncapsulationHeaderSize;
             bodyLen = cn_rxLen m - kEncapsulationHeaderSize
         in if bodyLen < 8 then (Error, m)
            else
              (let itemCount = unat (getU16 (drop (body + 6) (cn_rx m))) in
               case parse_connected (cn_rx m) itemCount (body + 8) (bodyLen - 8) None None of
                 Some (Some connId, Some (connData, connDataLen)) \<Rightarrow>
                   if connDataLen < 4 then (Error, m)
                   else if connId \<noteq> cn_toConnId m then (Error, m)
                   else if getU16 (drop connData (cn_rx m)) \<noteq> cn_sentSequence m then (Error, m)
                   else
                     (let cip = connData + 2; cipLen = connDataLen - 2 in
                      if cipLen < 4 then (Error, m)
                      else (Ok, m\<lparr>cn_replyService := cn_rx m ! cip,
                                  cn_resultCode := cn_rx m ! (cip + 2),
                                  cn_data := Some (cip + 4), cn_dataLen := cipLen - 4\<rparr>))
               | _ \<Rightarrow> (Error, m))))"

definition Connection_pollOpening ::
  "'w os \<Rightarrow> cip_connection \<Rightarrow> 'w net \<Rightarrow> Status \<times> cip_connection \<times> 'w net" where
  "Connection_pollOpening os m net =
     (case ExplicitMessage_poll os (cn_fwd m) net of (st, fwd, net1) \<Rightarrow>
        (let m1 = m\<lparr>cn_fwd := fwd\<rparr> in
         if st = Pending then (Pending, m1, net1)
         else if st \<noteq> Ok then (st, m1\<lparr>cn_state := CnFailed\<rparr>, net1)
         else if em_resultCode fwd \<noteq> 0 \<or> em_dataLen fwd < 12
         then (Error, m1\<lparr>cn_state := CnFailed\<rparr>, net1)
         else
           (let ot = getU32 (ExplicitMessage_data fwd); to = getU32 (drop 4 (ExplicitMessage_data fwd))
            in if ot = 0 \<or> to = 0 then (Error, m1\<lparr>cn_state := CnFailed\<rparr>, net1)
               else if ot \<noteq> cn_otConnId m1 then (Error, m1\<lparr>cn_state := CnFailed\<rparr>, net1)
               else (Ok, m1\<lparr>cn_toConnId := to, cn_state := CnOpen\<rparr>, net1))))"

definition Connection_pollSending ::
  "'w os \<Rightarrow> cip_connection \<Rightarrow> 'w net \<Rightarrow> Status \<times> cip_connection \<times> 'w net" where
  "Connection_pollSending os m net =
     (case millis os net of (now, net0) \<Rightarrow>
        if expired now (cn_deadline m) then (Timeout, m\<lparr>cn_state := CnFailed\<rparr>, net0)
        else
          (case Connection_writePending os m net0 of (st, m1, net1) \<Rightarrow>
             if st \<noteq> Ok then (st, if st \<noteq> Pending then m1\<lparr>cn_state := CnFailed\<rparr> else m1, net1)
             else
               (case Connection_readResponse os m1 net1 of (st2, m2, net2) \<Rightarrow>
                  if st2 = Pending then (Pending, m2, net2)
                  else if st2 \<noteq> Ok then (st2, m2\<lparr>cn_state := CnFailed\<rparr>, net2)
                  else
                    (case Connection_parseConnectedResponse m2 of (st3, m3) \<Rightarrow>
                       (st3, m3\<lparr>cn_state := (if st3 = Ok then CnOpen else CnFailed)\<rparr>, net2)))))"

definition Connection_pollClosing ::
  "'w os \<Rightarrow> cip_connection \<Rightarrow> 'w net \<Rightarrow> Status \<times> cip_connection \<times> 'w net" where
  "Connection_pollClosing os m net =
     (case ExplicitMessage_poll os (cn_fwd m) net of (st, fwd, net1) \<Rightarrow>
        (let m1 = m\<lparr>cn_fwd := fwd\<rparr> in
         if st = Pending then (Pending, m1, net1)
         else if st \<noteq> Ok then (st, m1\<lparr>cn_state := CnFailed\<rparr>, net1)
         else (Ok, m1\<lparr>cn_state := CnClosed\<rparr>, net1)))"

definition Connection_poll ::
  "'w os \<Rightarrow> cip_connection \<Rightarrow> 'w net \<Rightarrow> Status \<times> cip_connection \<times> 'w net" where
  "Connection_poll os m net =
     (case cn_state m of
        CnOpening \<Rightarrow> Connection_pollOpening os m net
      | CnSending \<Rightarrow> Connection_pollSending os m net
      | CnClosing \<Rightarrow> Connection_pollClosing os m net
      | CnOpen \<Rightarrow> (Ok, m, net)
      | CnClosed \<Rightarrow> (Closed, m, net)
      | CnFailed \<Rightarrow> (Error, m, net)
      | CnIdle \<Rightarrow> (NotReady, m, net))"

subsection \<open>Parsing the reply\<close>

definition short_addr :: "cpf_item list \<Rightarrow> bool" where
  "short_addr items \<longleftrightarrow> (\<exists>(t, d) \<in> set items. t = CpfItemType_code ConnectedAddress \<and> length d < 4)"

lemma short_addr_simps [simp]:
  "short_addr [] = False"
  "short_addr ((t, d) # items) \<longleftrightarrow> t = 0x00A1 \<and> length d < 4 \<or> short_addr items"
  by (auto simp: short_addr_def)

text \<open>
  The loop of \<open>parseConnectedResponse\<close>: it fails on a malformed packet or a connected-address
  item of less than four bytes, else it has the identifier and the data of the last items.
\<close>

lemma parse_connected_located:
  assumes "p + remaining \<le> length rx"
  shows "case cpf_decode n (subbuf p remaining rx) of
      None \<Rightarrow> parse_connected rx n p remaining connId cd = None
    | Some items \<Rightarrow>
        if short_addr items then parse_connected rx n p remaining connId cd = None
        else \<exists>loc. parse_connected rx n p remaining connId cd =
            Some (case last_item 0x00A1 items of None \<Rightarrow> connId | Some d \<Rightarrow> Some (getU32 d), loc) \<and>
          located rx (p + remaining) cd loc (last_item 0x00B1 items)"
  using assms
proof (induction n arbitrary: p remaining connId cd)
  case 0
  then show ?case by (simp add: located_def)
next
  case (Suc n)
  define l where "l = unat (getU16 (drop (p + 2) rx))"
  define t where "t = getU16 (drop p rx)"
  consider "remaining < 4" | "4 \<le> remaining" "remaining - 4 < l"
    | (short) "4 \<le> remaining" "l \<le> remaining - 4" "t = 0x00A1" "l < 4"
    | (fits) "4 \<le> remaining" "l \<le> remaining - 4" "t = 0x00A1 \<Longrightarrow> 4 \<le> l"
    by linarith
  then show ?case
  proof cases
    case short
    have "length (subbuf (p + 4) l rx) = l"
      using short Suc.prems by simp
    with short show ?thesis
      unfolding cpf_decode_step [OF Suc.prems]
      by (simp add: Let_def l_def [symmetric, simplified] t_def [symmetric] split: option.split)
  next
    case fits
    let ?conn = "if t = 0x00A1 then Some (getU32 (drop (p + 4) rx)) else connId"
    let ?cd = "if t = 0x00B1 then Some (p + 4, l) else cd"
    have fit: "p + 4 + l + (remaining - 4 - l) = p + remaining" "p + 4 + l \<le> p + remaining"
      using fits by linarith+
    have ln: "length (subbuf (p + 4) l rx) = l"
      using fit Suc.prems by simp
    have id: "getU32 (subbuf (p + 4) l rx) = getU32 (drop (p + 4) rx)" if "t = 0x00A1"
      using fits fit(2) Suc.prems that by (simp add: subbuf_def u32.dec_take)
    have step: "parse_connected rx (Suc n) p remaining connId cd =
        parse_connected rx n (p + 4 + l) (remaining - 4 - l) ?conn ?cd"
      using fits by (auto simp: Let_def l_def [symmetric, simplified] t_def [symmetric])
    show ?thesis
    proof (cases "cpf_decode n (subbuf (p + 4 + l) (remaining - 4 - l) rx)")
      case None
      with Suc.IH [of "p + 4 + l" "remaining - 4 - l" ?conn ?cd] Suc.prems fits fit(1) show ?thesis
        unfolding cpf_decode_step [OF Suc.prems] step by (simp add: Let_def l_def)
    next
      case (Some items)
      note IH = Suc.IH [of "p + 4 + l" "remaining - 4 - l" ?conn ?cd]
      have dec: "cpf_decode (Suc n) (subbuf p remaining rx) = Some ((t, subbuf (p + 4) l rx) # items)"
        using Some fits unfolding cpf_decode_step [OF Suc.prems]
        by (simp add: Let_def l_def [symmetric, simplified] t_def [symmetric])
      have sh: "short_addr ((t, subbuf (p + 4) l rx) # items) = short_addr items"
        using fits(3) ln by auto
      show ?thesis
      proof (cases "short_addr items")
        case True
        with IH Suc.prems fit(1) Some show ?thesis
          unfolding dec step option.case sh by simp
      next
        case False
        with IH Suc.prems fit(1) Some
        obtain loc where loc: "parse_connected rx n (p + 4 + l) (remaining - 4 - l) ?conn ?cd =
              Some (case last_item 0x00A1 items of None \<Rightarrow> ?conn | Some d \<Rightarrow> Some (getU32 d), loc)"
            "located rx (p + remaining) ?cd loc (last_item 0x00B1 items)"
          by auto
        have "(case last_item 0x00A1 items of None \<Rightarrow> ?conn | Some d \<Rightarrow> Some (getU32 d)) =
          (case last_item 0x00A1 ((t, subbuf (p + 4) l rx) # items) of None \<Rightarrow> connId
           | Some d \<Rightarrow> Some (getU32 d))"
          using id by (simp split: option.split)
        with located_cons [OF loc(2) fit(2) Suc.prems] loc(1) False show ?thesis
          unfolding dec step option.case sh by (simp del: last_item.simps)
      qed
    qed
  qed (simp_all add: cpf_decode_step [OF Suc.prems] Let_def l_def del: cpf_decode.simps)
qed

definition cn_buffers :: "cip_connection \<Rightarrow> bool" where
  "cn_buffers m \<longleftrightarrow>
     length (cn_tx m) = 24 + 22 + cn_kMaxDataSize \<and> cn_txSent m \<le> cn_txLen m \<and>
     cn_txLen m \<le> length (cn_tx m) \<and>
     rx_wf (22 + cn_kMaxDataSize) (cn_rx m) (cn_rxLen m) (cn_rxExpected m)"

lemma Connection_parseConnectedResponse_spec:
  assumes B: "cn_buffers m" and l: "24 \<le> cn_rxLen m"
  shows "case ud_parse (cn_sentContext m) (cn_toConnId m) (cn_sentSequence m)
        (take (cn_rxLen m) (cn_rx m)) of
      None \<Rightarrow> Connection_parseConnectedResponse m = (Error, m)
    | Some (service, code, d) \<Rightarrow> \<exists>off.
        Connection_parseConnectedResponse m =
          (Ok, m\<lparr>cn_replyService := service, cn_resultCode := code, cn_data := Some off,
                 cn_dataLen := length d\<rparr>) \<and>
        subbuf off (length d) (cn_rx m) = d \<and> off + length d \<le> cn_rxLen m"
proof -
  define rx where "rx = cn_rx m"
  define p where "p = take (cn_rxLen m) rx"
  note parse = Connection_parseConnectedResponse_def [of m, unfolded Let_def, folded rx_def]
  have len: "cn_rxLen m \<le> length rx"
    using B by (auto simp: cn_buffers_def rx_wf_def rx_def)
  have hd: "decodeHeader p = decodeHeader rx"
    using l len by (simp add: p_def header.dec_take)
  let ?bad = "eh_command (decodeHeader p) \<noteq> Command_code SendUnitData \<or>
      eh_status (decodeHeader p) \<noteq> 0 \<or> eh_context (decodeHeader p) \<noteq> cn_sentContext m"
  show ?thesis
  proof (cases "?bad \<or> cn_rxLen m - 24 < 8")
    case True
    moreover from this have "ud_parse (cn_sentContext m) (cn_toConnId m) (cn_sentSequence m) p = None"
      using len by (auto simp: ud_parse_def Let_def p_def)
    ultimately show ?thesis
      by (auto simp: parse hd simp flip: rx_def p_def)
  next
    case False
    let ?n = "unat (getU16 (drop 30 rx))"
    have "32 \<le> cn_rxLen m"
      using False by linarith
    note parts = cpf_reply_parts [OF this len, folded p_def]
    have fit: "32 + (cn_rxLen m - 32) \<le> length rx"
      using False len by linarith
    note walk = parse_connected_located [OF fit, of ?n None None]
    have ud: "ud_parse (cn_sentContext m) (cn_toConnId m) (cn_sentSequence m) p =
      (case cpf_decode ?n (subbuf 32 (cn_rxLen m - 32) rx) of
         None \<Rightarrow> None
       | Some items \<Rightarrow>
           if short_addr items then None
           else
             (case (last_item 0x00A1 items, last_item 0x00B1 items) of
                (Some addr, Some d) \<Rightarrow>
                  if getU32 addr \<noteq> cn_toConnId m \<or> length d < 6 \<or> getU16 d \<noteq> cn_sentSequence m then None
                  else Some (d ! 2, d ! 4, drop 6 d)
              | _ \<Rightarrow> None))"
      using False unfolding ud_parse_def Let_def parts(2-) short_addr_def [symmetric]
      unfolding CpfItemType_code.simps
      by simp
    have run: "Connection_parseConnectedResponse m =
      (case parse_connected rx ?n 32 (cn_rxLen m - 32) None None of
         Some (Some connId, Some (cd, n)) \<Rightarrow>
           if n < 4 \<or> connId \<noteq> cn_toConnId m \<or> getU16 (drop cd rx) \<noteq> cn_sentSequence m \<or> n - 2 < 4
           then (Error, m)
           else (Ok, m\<lparr>cn_replyService := rx ! (cd + 2), cn_resultCode := rx ! (cd + 2 + 2),
                       cn_data := Some (cd + 2 + 4), cn_dataLen := n - 2 - 4\<rparr>)
       | _ \<Rightarrow> (Error, m))"
      using False unfolding parse hd by (simp split: option.splits prod.splits)
    show ?thesis
    proof (cases "cpf_decode ?n (subbuf 32 (cn_rxLen m - 32) rx)")
      case None
      with walk show ?thesis
        unfolding rx_def [symmetric] p_def [symmetric] ud run by simp
    next
      case items: (Some items)
      show ?thesis
      proof (cases "short_addr items")
        case True
        with walk items show ?thesis
          unfolding rx_def [symmetric] p_def [symmetric] ud run by simp
      next
        case False
        with walk items obtain loc where
          loc: "located rx (32 + (cn_rxLen m - 32)) None loc (last_item 0x00B1 items)"
          and w: "parse_connected rx ?n 32 (cn_rxLen m - 32) None None =
            Some (case last_item 0x00A1 items of None \<Rightarrow> None | Some d \<Rightarrow> Some (getU32 d), loc)"
          by auto
        show ?thesis
        proof (cases "last_item 0x00A1 items = None \<or> last_item 0x00B1 items = None")
          case True
          then have "last_item 0x00A1 items = None \<or> last_item 0x00B1 items = None \<and> loc = None"
            using loc by (auto simp: located_def)
          with w have "\<exists>c. parse_connected rx ?n 32 (cn_rxLen m - 32) None None = Some c \<and>
              (fst c = None \<or> snd c = None)"
            by auto
          then have "Connection_parseConnectedResponse m = (Error, m)"
            unfolding run by (auto split: option.split)
          moreover have "ud_parse (cn_sentContext m) (cn_toConnId m) (cn_sentSequence m) p = None"
            using True items unfolding ud by (auto split: option.split)
          ultimately show ?thesis
            by (simp flip: rx_def p_def)
        next
          case full: False
          then obtain addr d where d: "last_item 0x00A1 items = Some addr" "last_item 0x00B1 items = Some d"
            by auto
          with loc obtain off where off: "loc = Some (off, length d)" "subbuf off (length d) rx = d"
              "off + length d \<le> cn_rxLen m"
            using \<open>32 \<le> cn_rxLen m\<close> by (auto simp: located_def)
          note at = located_bytes [OF off(2) order.trans [OF off(3) len]]
          show ?thesis
          proof (cases "getU32 addr \<noteq> cn_toConnId m \<or> length d < 6 \<or> getU16 d \<noteq> cn_sentSequence m")
            case True
            have "length d < 4 \<or> getU32 addr \<noteq> cn_toConnId m \<or> getU16 (drop off rx) \<noteq> cn_sentSequence m \<or>
                length d - 2 < 4"
              using True at(3) by (cases "length d < 6") auto
            with True items d off(1) w False show ?thesis
              unfolding rx_def [symmetric] p_def [symmetric] ud run by simp
          next
            case ok: False
            then have f: "getU16 (drop off rx) = getU16 d" "rx ! (off + 2) = d ! 2" "rx ! (off + 2 + 2) = d ! 4"
                "subbuf (off + 6) (length d - 6) rx = drop 6 d" "off + 2 + 4 = off + 6"
                "\<not> length d < 4" "\<not> length d - 2 < 4" "length d - 2 - 4 = length (drop 6 d)"
              using at(1) [of 2] at(1) [of 4] at(2) [of 6] at(3) by (auto simp: numeral_eq_Suc)
            have ok': "getU32 addr = cn_toConnId m" "getU16 d = cn_sentSequence m"
              using ok by simp_all
            have "Connection_parseConnectedResponse m =
                (Ok, m\<lparr>cn_replyService := d ! 2, cn_resultCode := d ! 4, cn_data := Some (off + 6),
                       cn_dataLen := length (drop 6 d)\<rparr>)"
              unfolding run w using ok by (simp only: d off(1) option.case prod.case f ok' simp_thms if_False)
            moreover have "ud_parse (cn_sentContext m) (cn_toConnId m) (cn_sentSequence m) p =
                Some (d ! 2, d ! 4, drop 6 d)"
              using ok d items False unfolding ud by simp
            ultimately show ?thesis
              using f(4) off(3) ok
              unfolding rx_def [symmetric] p_def [symmetric] by (auto intro!: exI [of _ "off + 6"])
          qed
        qed
      qed
    qed
  qed
qed

subsection \<open>The invariant\<close>

text \<open>
  Cursors stay within the buffers; a send in flight has a connection and a framed receive buffer;
  the inner message is in flight exactly while a Forward Open or a Forward Close is awaited; the data
  pointer, when set, points at \<open>dataLen_\<close> bytes inside the receive buffer; the stored tag name is
  terminated.
\<close>

definition cn_framed :: "cip_connection \<Rightarrow> bool" where
  "cn_framed m \<longleftrightarrow>
     cn_conn m \<noteq> None \<and>
     rx_framed (22 + cn_kMaxDataSize) (cn_rx m) (cn_rxLen m) (cn_rxExpected m)"

definition cn_result :: "cip_connection \<Rightarrow> bool" where
  "cn_result m \<longleftrightarrow>
     (case cn_data m of None \<Rightarrow> cn_dataLen m = 0 | Some off \<Rightarrow> off + cn_dataLen m \<le> length (cn_rx m))"

definition cn_forwarding :: "cip_connection \<Rightarrow> bool" where
  "cn_forwarding m \<longleftrightarrow> cn_state m = CnOpening \<or> cn_state m = CnClosing"

definition cn_named :: "cip_connection \<Rightarrow> bool" where
  "cn_named m \<longleftrightarrow> length (cn_tagName m) = 64 \<and> cn_tagName m ! 63 = 0"

definition cn_inv :: "cip_connection \<Rightarrow> bool" where
  "cn_inv m \<longleftrightarrow>
     cn_buffers m \<and> em_inv (cn_fwd m) \<and> (cn_state m = CnSending \<longrightarrow> cn_framed m) \<and>
     (em_busy (cn_fwd m) \<longleftrightarrow> cn_forwarding m) \<and> cn_result m \<and> cn_named m"

lemmas cn_inv_defs = cn_inv_def cn_buffers_def cn_framed_def cn_forwarding_def cn_result_def cn_named_def

lemma Connection_new_inv:
  assumes "em_inv fwd" and "\<not> em_busy fwd" and "length tx = 302" and "length rx = 302"
  shows "cn_inv (Connection_new fwd tx rx)"
  using assms by (simp add: cn_inv_defs Connection_new_def rx_wf_def)

lemma c_string_short:
  assumes "length s = 64" and "s ! 63 = 0"
  shows "length (c_string s) < 64"
proof -
  have "s ! 63 \<in> set s"
    using assms(1) by simp
  then have "takeWhile (\<lambda>b. b \<noteq> 0) s \<noteq> s"
    using assms(2) set_takeWhileD [of "s ! 63" "\<lambda>b. b \<noteq> 0" s] by auto
  then have "length (takeWhile (\<lambda>b. b \<noteq> 0) s) \<noteq> length s"
    by (metis takeWhile_eq_take take_all order_refl)
  with length_takeWhile_le [of "\<lambda>b. b \<noteq> 0" s] assms(1) show ?thesis
    by (simp add: c_string_def)
qed

lemma cn_name_short: "cn_named m \<Longrightarrow> length (symbolic_segment (c_string (cn_tagName m))) \<le> 66"
  using c_string_short symbolic_segment_short by (simp add: cn_named_def)

subsection \<open>Forward Open and Forward Close\<close>

text \<open>The data of the two requests, and the random identifier, which is never zero.\<close>

definition cn_id :: "u32 \<Rightarrow> u32" where
  "cn_id r = (if r = 0 then 1 else r)"

lemma cn_id_nonzero [simp]: "cn_id r \<noteq> 0"
  by (simp add: cn_id_def)

definition forward_open_data :: "u32 \<Rightarrow> cstring \<Rightarrow> byte list" where
  "forward_open_data ot name =
     [0x0A, 0x0E] @ leU32 ot @ leU32 0 @ leU16 1 @ leU16 1 @ leU32 1 @ [3, 0, 0, 0] @
     leU32 10000 @ leU16 0x4200 @ leU32 10000 @ leU16 0x4200 @ [0xA3] @
     [of_nat (length (symbolic_segment name) div 2)] @ symbolic_segment name"

definition forward_close_data :: "cstring \<Rightarrow> byte list" where
  "forward_close_data name =
     [of_nat (length (symbolic_segment name) div 2)] @ symbolic_segment name @
     leU16 1 @ leU16 1 @ leU32 1"


lemma length_forward_open_data [simp]:
  "length (forward_open_data ot name) = 36 + length (symbolic_segment name)"
  by (simp add: forward_open_data_def)

lemma length_forward_close_data [simp]:
  "length (forward_close_data name) = 9 + length (symbolic_segment name)"
  by (simp add: forward_close_data_def)

lemma poke_poke_prepend:
  assumes "off2 = off + length xs" and "off2 \<le> length buf"
  shows "poke off xs (poke off2 ys buf) = poke off (xs @ ys) buf"
  using assms by (simp add: poke_def add.assoc)

definition cn_opening :: "u32 \<Rightarrow> cstring \<Rightarrow> cip_connection \<Rightarrow> cip_connection" where
  "cn_opening ot name m = m\<lparr>cn_otConnId := ot, cn_toConnId := 0, cn_tagName := name_slot name\<rparr>"

lemma Connection_startOpen_send:
  assumes "length name < 64" and "0 \<notin> set name" and "sys (os_random os) net = (r, net1)"
  shows "\<exists>d. em_args (Some cn_reqPath) 4 (Some d) (of_nat (36 + length (symbolic_segment name))) \<and>
    arg_bytes (Some d) (of_nat (36 + length (symbolic_segment name))) =
      forward_open_data (cn_id r) name \<and>
    Connection_startOpen os c h name t m net =
      (case ExplicitMessage_send os c h 0x54 (Some cn_reqPath) 4 (Some d)
              (of_nat (36 + length (symbolic_segment name))) t (cn_fwd m) net1 of
         (st, fwd, net2) \<Rightarrow>
           (st, (cn_opening (cn_id r) name m)
              \<lparr>cn_fwd := fwd, cn_state := (if st = Pending then CnOpening else cn_state m)\<rparr>, net2))"
proof -
  define ot where "ot = (if r = 0 then 1 else r)"
  define seg where "seg = symbolic_segment name"
  have seg: "length seg \<le> 66"
    using assms(1) symbolic_segment_short by (simp add: seg_def)
  have nm: "c_string (name_slot name) = name"
    using assms(1,2) by (simp add: c_string_slot)
  let ?d14 = "poke 0 (take 35 (forward_open_data ot name)) (replicate 128 0)"
  let ?d = "poke 0 (forward_open_data ot name) (replicate 128 0)"
  have lay: "poke 34 [0xA3] (putU16 32 0x4200 (putU32 28 10000 (putU16 26 0x4200 (putU32 22 10000
      (poke 21 [0] (poke 20 [0] (poke 19 [0] (poke 18 [0x03] (putU32 14 0x00000001
      (putU16 12 0x0001 (putU16 10 1 (putU32 6 0 (putU32 2 ot (poke 1 [0x0E]
      (poke 0 [0x0A] (replicate 128 0)))))))))))))))) = ?d14"
    by (simp add: putU16_def putU32_def poke_poke_adjacent forward_open_data_def)
  have app: "appendSymbolic 36 name ?d14 = (poke 36 seg ?d14, length seg)"
    using seg unfolding seg_def by (intro appendSymbolic_segment) simp
  have fin: "poke 35 [of_nat (length seg div 2)] (poke 36 seg ?d14) = ?d"
    using seg by (simp add: poke_poke_prepend poke_poke_adjacent forward_open_data_def seg_def)
  have sum: "35 + (1 + length seg) = 36 + length seg"
    by simp
  have sel: "cn_otConnId (m\<lparr>cn_otConnId := ot, cn_toConnId := 0, cn_tagName := name_slot name\<rparr>) = ot"
      "cn_tagName (m\<lparr>cn_otConnId := ot, cn_toConnId := 0, cn_tagName := name_slot name\<rparr>) = name_slot name"
      "cn_fwd (m\<lparr>cn_otConnId := ot, cn_toConnId := 0, cn_tagName := name_slot name\<rparr>) = cn_fwd m"
    by simp_all
  have run: "Connection_startOpen os c h name t m net =
      (case ExplicitMessage_send os c h 0x54 (Some cn_reqPath) 4 (Some ?d) (of_nat (36 + length seg)) t
              (cn_fwd m) net1 of
         (st, fwd, net2) \<Rightarrow>
           (st, (cn_opening ot name m)
              \<lparr>cn_fwd := fwd, cn_state := (if st = Pending then CnOpening else cn_state m)\<rparr>, net2))"
    unfolding Connection_startOpen_def assms(3) prod.case Let_def ot_def [symmetric]
      sel nm lay app fin sum
    by (auto simp: cn_opening_def split: prod.split)
  have u: "unat (of_nat (36 + length seg) :: size_t) = 36 + length seg"
    using seg by (simp only: unat_of_nat) simp
  have "em_args (Some cn_reqPath) 4 (Some ?d) (of_nat (36 + length seg))"
    using seg u by (simp add: em_args_def cn_reqPath_def seg_def)
  moreover have "arg_bytes (Some ?d) (of_nat (36 + length seg)) = forward_open_data ot name"
    using seg unfolding arg_bytes_def u by (simp add: take_poke_extend seg_def)
  ultimately show ?thesis
    using run unfolding ot_def seg_def cn_id_def by blast
qed


lemma Connection_startClose_send:
  assumes "cn_named m"
  defines "name \<equiv> c_string (cn_tagName m)"
  shows "\<exists>d. em_args (Some cn_reqPath) 4 (Some d) (of_nat (9 + length (symbolic_segment name))) \<and>
    arg_bytes (Some d) (of_nat (9 + length (symbolic_segment name))) = forward_close_data name \<and>
    Connection_startClose os c h t m net =
      (case ExplicitMessage_send os c h 0x4E (Some cn_reqPath) 4 (Some d)
              (of_nat (9 + length (symbolic_segment name))) t (cn_fwd m) net of
         (st, fwd, net1) \<Rightarrow>
           (st, m\<lparr>cn_fwd := fwd, cn_state := (if st = Pending then CnClosing else cn_state m)\<rparr>, net1))"
proof -
  define seg where "seg = symbolic_segment name"
  have seg: "length seg \<le> 66"
    using assms(1) cn_name_short by (simp add: seg_def name_def)
  let ?d = "poke 0 (forward_close_data name) (replicate 128 0)"
  have app: "appendSymbolic 1 name (replicate 128 0) = (poke 1 seg (replicate 128 0), length seg)"
    using seg unfolding seg_def by (intro appendSymbolic_segment) simp
  have fin: "putU32 (1 + length seg + 4) 0x00000001 (putU16 (1 + length seg + 2) 0x0001
      (putU16 (1 + length seg) 1 (poke 0 [of_nat (length seg div 2)] (poke 1 seg (replicate 128 0))))) = ?d"
    using seg
    by (simp add: putU16_def putU32_def poke_poke_prepend poke_poke_adjacent forward_close_data_def
        flip: seg_def)
  have sum: "1 + length seg + 8 = 9 + length seg"
    by simp
  have run: "Connection_startClose os c h t m net =
      (case ExplicitMessage_send os c h 0x4E (Some cn_reqPath) 4 (Some ?d) (of_nat (9 + length seg)) t
              (cn_fwd m) net of
         (st, fwd, net1) \<Rightarrow>
           (st, m\<lparr>cn_fwd := fwd, cn_state := (if st = Pending then CnClosing else cn_state m)\<rparr>, net1))"
    unfolding Connection_startClose_def Let_def name_def [symmetric] app prod.case fin sum
    by (auto split: prod.split)
  have u: "unat (of_nat (9 + length seg) :: size_t) = 9 + length seg"
    using seg by (simp only: unat_of_nat) simp
  have "em_args (Some cn_reqPath) 4 (Some ?d) (of_nat (9 + length seg))"
    using seg u by (simp add: em_args_def cn_reqPath_def seg_def)
  moreover have "arg_bytes (Some ?d) (of_nat (9 + length seg)) = forward_close_data name"
    using seg unfolding arg_bytes_def u by (simp add: take_poke_extend seg_def)
  ultimately show ?thesis
    using run unfolding seg_def by blast
qed

text \<open>The inner message takes the request, as it is idle and the request is short.\<close>

lemma cn_forward_send:
  assumes "em_inv fwd" and "\<not> em_busy fwd" and "n \<le> 102"
    and "em_args (Some cn_reqPath) 4 (Some d) (of_nat n)"
    and "ExplicitMessage_send os c h service (Some cn_reqPath) 4 (Some d) (of_nat n) t fwd net = (st, fwd', net')"
  obtains "st = NotReady" "fwd' = fwd" "net' = net" "\<not> TcpConnection_connected c net"
  | now where "st = Pending" "TcpConnection_connected c net" "millis os net = (now, net')"
      "em_started c (now + t) (rr_request h (em_context fwd) service cn_reqPath (arg_bytes (Some d) (of_nat n)))
         fwd fwd'"
proof -
  have u: "unat (of_nat n :: size_t) = n"
    using assms(3) by (simp add: unat_of_nat)
  have st: "st = Pending" if "TcpConnection_connected c net"
    using ExplicitMessage_send_decides [OF assms(2) that assms(4,5)] u assms(3) by simp
  have path: "arg_bytes (Some cn_reqPath) 4 = cn_reqPath"
    by (simp add: arg_bytes_def cn_reqPath_def)
  show thesis
  proof (cases "TcpConnection_connected c net")
    case False
    with assms(2,5) that(1) show thesis
      by (auto simp: ExplicitMessage_send_def em_busy_def)
  next
    case True
    with st assms(5) have run: "ExplicitMessage_send os c h service (Some cn_reqPath) 4 (Some d)
        (of_nat n) t fwd net = (Pending, fwd', net')"
      by simp
    from ExplicitMessage_send_pending [OF assms(1,4) run] path True st that(2) show thesis
      by metis
  qed
qed

lemma Connection_open_spec:
  assumes I: "cn_inv m" and nul: "\<And>nm. tagName = Some nm \<Longrightarrow> 0 \<notin> set nm"
    and run: "Connection_open os c h tagName t m net = (st, m', net')"
  obtains "st = InvalidArg" "m' = m" "net' = net" "\<forall>nm. tagName = Some nm \<longrightarrow> 64 \<le> length nm"
  | "st = Busy" "m' = m" "net' = net" "cn_state m = CnSending \<or> cn_forwarding m"
  | nm r where "st = NotReady" "tagName = Some nm" "length nm < 64" "\<not> TcpConnection_connected c net'"
      "cn_state m \<noteq> CnSending" "\<not> cn_forwarding m" "sys (os_random os) net = (r, net')"
      "m' = cn_opening (cn_id r) nm m"
  | nm r net1 now fwd where "st = Pending" "tagName = Some nm" "length nm < 64"
      "cn_state m \<noteq> CnSending" "\<not> cn_forwarding m"
      "sys (os_random os) net = (r, net1)" "millis os net1 = (now, net')"
      "TcpConnection_connected c net1"
      "em_started c (now + t) (rr_request h (em_context (cn_fwd m)) 0x54 cn_reqPath
         (forward_open_data (cn_id r) nm)) (cn_fwd m) fwd"
      "m' = (cn_opening (cn_id r) nm m)\<lparr>cn_fwd := fwd, cn_state := CnOpening\<rparr>"
proof -
  consider (bad) "\<forall>nm. tagName = Some nm \<longrightarrow> 64 \<le> length nm"
    | (busy) nm where "tagName = Some nm" "length nm < 64" "cn_state m = CnSending \<or> cn_forwarding m"
    | (go) nm where "tagName = Some nm" "length nm < 64" "cn_state m \<noteq> CnSending" "\<not> cn_forwarding m"
    by (meson not_less)
  then show thesis
  proof cases
    case bad
    with run have "st = InvalidArg" "m' = m" "net' = net"
      by (auto simp: Connection_open_def split: option.splits)
    with bad that(1) show thesis
      by blast
  next
    case busy
    with run have "st = Busy" "m' = m" "net' = net"
      by (auto simp: Connection_open_def cn_forwarding_def)
    with busy that(2) show thesis
      by blast
  next
    case go
    obtain r net1 where r: "sys (os_random os) net = (r, net1)" by fastforce
    let ?n = "36 + length (symbolic_segment nm)"
    obtain d where d: "em_args (Some cn_reqPath) 4 (Some d) (of_nat ?n)"
        "arg_bytes (Some d) (of_nat ?n) = forward_open_data (cn_id r) nm"
      and start: "Connection_startOpen os c h nm t m net =
        (case ExplicitMessage_send os c h 0x54 (Some cn_reqPath) 4 (Some d) (of_nat ?n) t (cn_fwd m) net1 of
           (st, fwd, net2) \<Rightarrow>
             (st, (cn_opening (cn_id r) nm m)
                \<lparr>cn_fwd := fwd, cn_state := (if st = Pending then CnOpening else cn_state m)\<rparr>, net2))"
      using Connection_startOpen_send [OF go(2) nul [OF go(1)] r] by blast
    obtain st0 fwd net2 where s: "ExplicitMessage_send os c h 0x54 (Some cn_reqPath) 4 (Some d)
        (of_nat ?n) t (cn_fwd m) net1 = (st0, fwd, net2)"
      by (metis prod_cases3)
    have res: "st = st0" "net' = net2" "m' = (cn_opening (cn_id r) nm m)
        \<lparr>cn_fwd := fwd, cn_state := (if st0 = Pending then CnOpening else cn_state m)\<rparr>"
      using run go start s by (auto simp: Connection_open_def cn_forwarding_def)
    have idle: "em_inv (cn_fwd m)" "\<not> em_busy (cn_fwd m)" "?n \<le> 102"
      using I go(2,4) symbolic_segment_short by (auto simp: cn_inv_def)
    show thesis
    proof (rule cn_forward_send [OF idle d(1) s])
      assume n: "st0 = NotReady" "fwd = cn_fwd m" "net2 = net1" "\<not> TcpConnection_connected c net1"
      have "m' = cn_opening (cn_id r) nm m"
        using n(1,2) res(3) by (simp add: cn_opening_def)
      with n go r res that(3) show thesis
        by blast
    next
      fix now
      assume p: "st0 = Pending" "TcpConnection_connected c net1" "millis os net1 = (now, net2)"
        "em_started c (now + t) (rr_request h (em_context (cn_fwd m)) 0x54 cn_reqPath
           (arg_bytes (Some d) (of_nat ?n))) (cn_fwd m) fwd"
      have "m' = (cn_opening (cn_id r) nm m)\<lparr>cn_fwd := fwd, cn_state := CnOpening\<rparr>"
        using p(1) res(3) by simp
      with p go r res d(2) that(4) show thesis
        by (metis (no_types))
    qed
  qed
qed

end
