(* ===== verification/ConnectionSteps.thy ===== *)
theory ConnectionSteps
  imports Connection
begin

text \<open>
  What the calls of a connected CIP connection do: \<open>close()\<close> and \<open>send()\<close> as they start, one
  \<open>poll()\<close> in each phase, and the invariant over any sequence of calls.
\<close>

lemma Connection_close_spec:
  assumes I: "cn_inv m" and run: "Connection_close os c h t m net = (st, m', net')"
  obtains "st = NotReady" "m' = m" "net' = net"
      "cn_state m \<noteq> CnOpen \<or> \<not> TcpConnection_connected c net"
  | now fwd where "st = Pending" "cn_state m = CnOpen" "TcpConnection_connected c net"
      "millis os net = (now, net')"
      "em_started c (now + t) (rr_request h (em_context (cn_fwd m)) 0x4E cn_reqPath
         (forward_close_data (c_string (cn_tagName m)))) (cn_fwd m) fwd"
      "m' = m\<lparr>cn_fwd := fwd, cn_state := CnClosing\<rparr>"
proof (cases "cn_state m = CnOpen")
  case False
  with run that(1) show thesis
    by (simp add: Connection_close_def)
next
  case True
  let ?nm = "c_string (cn_tagName m)"
  let ?n = "9 + length (symbolic_segment ?nm)"
  have named: "cn_named m"
    using I by (simp add: cn_inv_def)
  obtain d where d: "em_args (Some cn_reqPath) 4 (Some d) (of_nat ?n)"
      "arg_bytes (Some d) (of_nat ?n) = forward_close_data ?nm"
    and start: "Connection_startClose os c h t m net =
      (case ExplicitMessage_send os c h 0x4E (Some cn_reqPath) 4 (Some d) (of_nat ?n) t (cn_fwd m) net of
         (st, fwd, net1) \<Rightarrow>
           (st, m\<lparr>cn_fwd := fwd, cn_state := (if st = Pending then CnClosing else cn_state m)\<rparr>, net1))"
    using Connection_startClose_send [OF named] by blast
  obtain st0 fwd net1 where s: "ExplicitMessage_send os c h 0x4E (Some cn_reqPath) 4 (Some d)
      (of_nat ?n) t (cn_fwd m) net = (st0, fwd, net1)"
    by (metis prod_cases3)
  have res: "st = st0" "net' = net1"
      "m' = m\<lparr>cn_fwd := fwd, cn_state := (if st0 = Pending then CnClosing else cn_state m)\<rparr>"
    using run True start s by (auto simp: Connection_close_def)
  have "em_inv (cn_fwd m)" "\<not> em_busy (cn_fwd m)" "?n \<le> 102"
    using I True cn_name_short [OF named] by (auto simp: cn_inv_def cn_forwarding_def)
  then show thesis
    by (rule cn_forward_send [OF _ _ _ d(1) s]) (use res d(2) True that in auto)
qed

subsection \<open>A connected send\<close>

definition ud_packet :: "u32 \<Rightarrow> u64 \<Rightarrow> cpf_item list \<Rightarrow> byte list" where
  "ud_packet session ctx items =
     header_bytes \<lparr> eh_command = Command_code SendUnitData,
       eh_length = of_nat (8 + length (cpf_bytes items)), eh_session = session, eh_status = 0,
       eh_context = ctx, eh_options = 0 \<rparr>
     @ leU32 0 @ leU16 0 @ leU16 (of_nat (length items)) @ cpf_bytes items"

definition ud_request ::
  "u32 \<Rightarrow> u64 \<Rightarrow> u32 \<Rightarrow> u16 \<Rightarrow> byte \<Rightarrow> byte list \<Rightarrow> byte list \<Rightarrow> byte list" where
  "ud_request session ctx connId sequence service path data =
     ud_packet session ctx
       [(CpfItemType_code ConnectedAddress, leU32 connId),
        (CpfItemType_code ConnectedData, leU16 sequence @ cip_request service path data)]"

lemma ud_request_bytes:
  "ud_request session ctx connId sequence service path data =
     header_bytes \<lparr> eh_command = Command_code SendUnitData,
       eh_length = of_nat (24 + length path + length data), eh_session = session, eh_status = 0,
       eh_context = ctx, eh_options = 0 \<rparr>
     @ leU32 0 @ leU16 0 @ leU16 2 @ leU16 0x00A1 @ leU16 4 @ leU32 connId
     @ leU16 0x00B1 @ leU16 (of_nat (4 + length path + length data)) @ leU16 sequence
     @ [service] @ [of_nat (length path div 2)] @ path @ data"
  by (simp add: ud_request_def ud_packet_def cpf_bytes_def cip_request_def ac_simps)

lemma cn_layout:
  assumes "length tx = 302" and "2 + length P + length D \<le> 256"
  shows "poke (kEncapsulationHeaderSize + 22 + 2 + length P) D
    (poke (kEncapsulationHeaderSize + 22 + 2) P
    (poke (kEncapsulationHeaderSize + 22 + 1) [of_nat (length P div 2)]
    (poke (kEncapsulationHeaderSize + 22) [service]
    (putU16 (kEncapsulationHeaderSize + 20) sequence
    (putU16 (kEncapsulationHeaderSize + 18) (of_nat (4 + length P + length D))
    (putU16 (kEncapsulationHeaderSize + 16) 0x00B1
    (putU32 (kEncapsulationHeaderSize + 12) connId
    (putU16 (kEncapsulationHeaderSize + 10) 4
    (putU16 (kEncapsulationHeaderSize + 8) 0x00A1
    (putU16 (kEncapsulationHeaderSize + 6) 2
    (putU16 (kEncapsulationHeaderSize + 4) 0
    (putU32 kEncapsulationHeaderSize 0
    (encodeHeader \<lparr> eh_command = Command_code SendUnitData,
       eh_length = of_nat (24 + length P + length D), eh_session = session, eh_status = 0,
       eh_context = ctx, eh_options = 0 \<rparr> tx))))))))))))) =
    poke 0 (ud_request session ctx connId sequence service P D) tx"
  using assms
  by (simp add: ud_request_bytes encodeHeader_poke putU16_def putU32_def poke_poke_adjacent
      del: append_assoc append_Cons) simp

definition cn_started ::
  "conn_ref \<Rightarrow> u32 \<Rightarrow> byte list \<Rightarrow> cip_connection \<Rightarrow> cip_connection \<Rightarrow> bool" where
  "cn_started c deadline request m m' \<longleftrightarrow>
     cn_conn m' = Some c \<and> cn_state m' = CnSending \<and> cn_deadline m' = deadline \<and>
     cn_sentContext m' = cn_context m \<and> cn_context m' = cn_context m + 1 \<and>
     cn_sentSequence m' = cn_sequence m \<and> cn_sequence m' = cn_sequence m + 1 \<and>
     cn_otConnId m' = cn_otConnId m \<and> cn_toConnId m' = cn_toConnId m \<and>
     cn_fwd m' = cn_fwd m \<and> cn_tagName m' = cn_tagName m \<and>
     take (cn_txLen m') (cn_tx m') = request \<and> cn_txLen m' = length request \<and>
     cn_txSent m' = 0 \<and> cn_rxLen m' = 0 \<and> cn_inv m'"

lemma Connection_send_spec:
  assumes I: "cn_inv m" and A: "em_args path pathLen data dataLen"
    and run: "Connection_send os c h service path pathLen data dataLen t m net = (st, m', net')"
  obtains "st = NotReady" "m' = m" "net' = net" "cn_state m \<noteq> CnOpen"
  | "st = InvalidArg" "m' = m" "net' = net" "cn_state m = CnOpen"
      "\<not> (even (unat pathLen) \<and> 2 + unat pathLen + unat dataLen \<le> 256 \<and>
          (0 < pathLen \<longrightarrow> path \<noteq> None) \<and> (0 < dataLen \<longrightarrow> data \<noteq> None))"
  | now where "st = Pending" "cn_state m = CnOpen" "millis os net = (now, net')"
      "even (unat pathLen)" "2 + unat pathLen + unat dataLen \<le> 256"
      "cn_started c (now + t) (ud_request h (cn_context m) (cn_otConnId m) (cn_sequence m) service
         (arg_bytes path pathLen) (arg_bytes data dataLen)) m m'"
proof -
  let ?bad = "of_nat cn_kMaxDataSize < 2 + pathLen + dataLen \<or> odd pathLen \<or>
      (0 < pathLen \<and> path = None) \<or> (0 < dataLen \<and> data = None)"
  have big: "of_nat cn_kMaxDataSize < 2 + pathLen + dataLen \<longleftrightarrow> 256 < 2 + unat pathLen + unat dataLen"
    using em_args_sum [OF A] by (simp add: word_less_nat_alt)
  have "even (of_nat (unat pathLen) :: size_t) \<longleftrightarrow> even (unat pathLen)"
    by (rule even_of_nat)
  then have ev: "even pathLen \<longleftrightarrow> even (unat pathLen)"
    by simp
  consider (closed) "cn_state m \<noteq> CnOpen" | (bad) "cn_state m = CnOpen" ?bad | (ok) "cn_state m = CnOpen" "\<not> ?bad"
    by blast
  then show thesis
  proof cases
    case closed
    with run that(1) show thesis
      by (auto simp: Connection_send_def)
  next
    case bad
    then have "Connection_send os c h service path pathLen data dataLen t m net = (InvalidArg, m, net)"
      unfolding Connection_send_def Connection_startSend_def Let_def by auto
    moreover have "\<not> (even (unat pathLen) \<and> 2 + unat pathLen + unat dataLen \<le> 256 \<and>
          (0 < pathLen \<longrightarrow> path \<noteq> None) \<and> (0 < dataLen \<longrightarrow> data \<noteq> None))"
      using bad(2) big ev by auto
    ultimately show thesis
      using run bad(1) that(2) by auto
  next
    case ok
    define P where "P = arg_bytes path pathLen"
    define D where "D = arg_bytes data dataLen"
    have "\<not> (of_nat em_kMaxCipData < 2 + pathLen + dataLen \<or> odd pathLen \<or>
      (0 < pathLen \<and> path = None) \<or> (0 < dataLen \<and> data = None))"
      using ok(2) by simp
    note size = em_args_sizes [OF A this, folded P_def D_def]
    obtain now net1 where m: "millis os net = (now, net1)" by fastforce
    have len: "length (cn_tx m) = 302"
      using I by (simp add: cn_inv_defs)
    have "unat (pathLen div 2) = length P div 2"
      by (simp add: size unat_div_distrib)
    then have half: "(ucast (pathLen div 2) :: byte) = of_nat (length P div 2)"
      by (metis of_nat_unat)
    have u: "unat (2 + pathLen + dataLen) = 2 + length P + length D"
      using size by simp
    have "unat (2 + (2 + pathLen + dataLen)) = 4 + length P + length D"
      using u size unat_add_lem [of "2 :: 32 word" "2 + pathLen + dataLen"] by simp
    then have clen: "(ucast (2 + (2 + pathLen + dataLen)) :: u16) = of_nat (4 + length P + length D)"
      by (metis of_nat_unat)
    have "unat (22 + (2 + pathLen + dataLen)) = 24 + length P + length D"
      using u size unat_add_lem [of "22 :: 32 word" "2 + pathLen + dataLen"] by simp
    then have hlen: "(ucast (22 + (2 + pathLen + dataLen)) :: u16) = of_nat (24 + length P + length D)"
      by (metis of_nat_unat)
    have skip: "(if pathLen \<noteq> 0 then poke k (take (unat pathLen) (the path)) t else t) = poke k P t"
      "(if dataLen \<noteq> 0 then poke k (take (unat dataLen) (the data)) t else t) = poke k D t"
      for k and t :: "byte list"
      by (simp_all add: P_def D_def arg_bytes_def)
    have len': "length (cn_tx (m\<lparr>cn_conn := Some c\<rparr>)) = 302"
      using len by simp
    have fit: "2 + length P + length D \<le> 256"
      using size by simp
    let ?req = "ud_request h (cn_context m) (cn_otConnId m) (cn_sequence m) service P D"
    have req: "length ?req = 48 + length P + length D"
      by (simp add: ud_request_bytes)
    have st: "\<not> cn_state m \<noteq> CnOpen"
      using ok(1) by simp
    have eqs: "st = Pending" "net' = net1"
      "m' = m\<lparr>cn_conn := Some c, cn_tx := poke 0 ?req (cn_tx m), cn_txLen := length ?req,
          cn_txSent := 0, cn_rxLen := 0, cn_rxExpected := 24, cn_sentContext := cn_context m,
          cn_sentSequence := cn_sequence m, cn_context := cn_context m + 1,
          cn_sequence := cn_sequence m + 1, cn_deadline := now + t, cn_state := CnSending\<rparr>"
      using run [unfolded Connection_send_def Connection_startSend_def Let_def if_not_P [OF st]
          if_not_P [OF ok(2)] skip half clen hlen m prod.case u,
          unfolded size(3) [symmetric], unfolded cn_layout [OF len' fit]]
      by (auto simp: req)
    have "cn_inv m'"
      using I ok(1) size(2)
      by (auto simp: eqs cn_inv_defs rx_wf_def rx_framed_start req size split: option.splits)
    then have "cn_started c (now + t) ?req m m'"
      using len size(2) by (simp add: cn_started_def eqs req size take_poke_extend)
    moreover have "even (unat pathLen)"
      using ok(2) ev by blast
    ultimately show thesis
      using ok(1) m eqs(1,2) size that(3) by (simp add: P_def D_def)
  qed
qed


subsection \<open>One poll\<close>

lemma Connection_poll_settled [simp]:
  "cn_state m = CnOpen \<Longrightarrow> Connection_poll os m net = (Ok, m, net)"
  "cn_state m = CnClosed \<Longrightarrow> Connection_poll os m net = (Closed, m, net)"
  "cn_state m = CnFailed \<Longrightarrow> Connection_poll os m net = (Error, m, net)"
  "cn_state m = CnIdle \<Longrightarrow> Connection_poll os m net = (NotReady, m, net)"
  by (simp_all add: Connection_poll_def)

text \<open>
  While opening: the poll is that of the inner message, and when this ends well the reply must
  name the identifier chosen and one of the target's own, which is not zero.
\<close>

definition cn_accepts :: "u32 \<Rightarrow> explicit_message \<Rightarrow> u32 \<Rightarrow> bool" where
  "cn_accepts ot fwd to \<longleftrightarrow>
     em_resultCode fwd = 0 \<and> 12 \<le> em_dataLen fwd \<and> ot \<noteq> 0 \<and> to \<noteq> 0 \<and>
     getU32 (ExplicitMessage_data fwd) = ot \<and> getU32 (drop 4 (ExplicitMessage_data fwd)) = to"

lemma Connection_poll_opening:
  assumes C: "socket_contract os" and I: "cn_inv m" and S: "cn_state m = CnOpening"
    and run: "Connection_poll os m net = (st, m', net')"
  obtains fwd where "ExplicitMessage_poll os (cn_fwd m) net = (Pending, fwd, net')" "st = Pending"
      "m' = m\<lparr>cn_fwd := fwd\<rparr>" "em_busy fwd" "em_inv fwd"
  | fwd st0 where "ExplicitMessage_poll os (cn_fwd m) net = (st0, fwd, net')" "failure st"
      "st0 \<noteq> Pending" "m' = m\<lparr>cn_fwd := fwd, cn_state := CnFailed\<rparr>" "\<not> em_busy fwd" "em_inv fwd"
      "st0 \<noteq> Ok \<and> st = st0 \<or> st0 = Ok \<and> st = Error \<and> (\<forall>to. \<not> cn_accepts (cn_otConnId m) fwd to)"
  | fwd to where "ExplicitMessage_poll os (cn_fwd m) net = (Ok, fwd, net')" "st = Ok"
      "m' = m\<lparr>cn_fwd := fwd, cn_toConnId := to, cn_state := CnOpen\<rparr>"
      "cn_accepts (cn_otConnId m) fwd to" "em_state fwd = EmDone" "em_inv fwd"
proof -
  have B: "em_inv (cn_fwd m)" "em_busy (cn_fwd m)"
    using I S by (auto simp: cn_inv_def cn_forwarding_def)
  obtain st0 fwd net1 where p: "ExplicitMessage_poll os (cn_fwd m) net = (st0, fwd, net1)"
    by (metis prod_cases3)
  note e = ExplicitMessage_poll_spec [OF C B p, of "[]" "[]"]
  let ?ot = "getU32 (ExplicitMessage_data fwd)" and ?to = "getU32 (drop 4 (ExplicitMessage_data fwd))"
  have run': "(st, m', net') =
      (if st0 = Pending then (Pending, m\<lparr>cn_fwd := fwd\<rparr>, net1)
       else if st0 \<noteq> Ok then (st0, m\<lparr>cn_fwd := fwd, cn_state := CnFailed\<rparr>, net1)
       else if cn_accepts (cn_otConnId m) fwd ?to
       then (Ok, m\<lparr>cn_fwd := fwd, cn_toConnId := ?to, cn_state := CnOpen\<rparr>, net1)
       else (Error, m\<lparr>cn_fwd := fwd, cn_state := CnFailed\<rparr>, net1))"
    using run S p
    by (auto simp: Connection_poll_def Connection_pollOpening_def Let_def cn_accepts_def split: if_splits)
  consider "st0 = Pending" | "st0 \<noteq> Pending" "st0 \<noteq> Ok" | (yes) "st0 = Ok" "cn_accepts (cn_otConnId m) fwd ?to"
    | (no) "st0 = Ok" "\<not> cn_accepts (cn_otConnId m) fwd ?to"
    by blast
  then show thesis
  proof cases
    case 1
    with run' p e that(1) show thesis by simp
  next
    case 2
    moreover from 2 e have "em_state fwd = EmFailed" "failure st0"
      by auto
    ultimately show thesis
      using run' p e that(2) [of st0 fwd] by (simp add: em_busy_def)
  next
    case yes
    with run' p e that(3) show thesis by simp
  next
    case no
    moreover have "\<not> cn_accepts (cn_otConnId m) fwd to" for to
      using no(2) by (auto simp: cn_accepts_def)
    ultimately show thesis
      using run' p e that(2) [of st0 fwd] by (simp add: em_busy_def)
  qed
qed

lemma Connection_poll_closing:
  assumes C: "socket_contract os" and I: "cn_inv m" and S: "cn_state m = CnClosing"
    and run: "Connection_poll os m net = (st, m', net')"
  obtains fwd where "ExplicitMessage_poll os (cn_fwd m) net = (st, fwd, net')" "em_inv fwd"
    "em_busy fwd \<longleftrightarrow> st = Pending"
    "st = Ok \<and> em_state fwd = EmDone \<and> m' = m\<lparr>cn_fwd := fwd, cn_state := CnClosed\<rparr> \<or>
     st = Pending \<and> m' = m\<lparr>cn_fwd := fwd\<rparr> \<or>
     failure st \<and> m' = m\<lparr>cn_fwd := fwd, cn_state := CnFailed\<rparr>"
proof -
  have B: "em_inv (cn_fwd m)" "em_busy (cn_fwd m)"
    using I S by (auto simp: cn_inv_def cn_forwarding_def)
  obtain st0 fwd net1 where p: "ExplicitMessage_poll os (cn_fwd m) net = (st0, fwd, net1)"
    by (metis prod_cases3)
  note e = ExplicitMessage_poll_spec [OF C B p, of "[]" "[]"]
  have "(st, m', net') = (st0, m\<lparr>cn_fwd := fwd, cn_state := (if st0 = Pending then CnClosing
      else if st0 = Ok then CnClosed else CnFailed)\<rparr>, net1)"
    using run S p by (auto simp: Connection_poll_def Connection_pollClosing_def Let_def split: if_splits)
  then show thesis
    using that [of fwd] p e S by (cases st0) (auto simp: em_busy_def)
qed


text \<open>While sending: the write, the read and the parse of the exchange in flight.\<close>

abbreviation cn_exchange :: "byte list \<Rightarrow> byte list \<Rightarrow> cip_connection \<Rightarrow> 'w net \<Rightarrow> bool" where
  "cn_exchange osent ircvd m net \<equiv>
     exchange (cn_conn m) osent ircvd (cn_tx m) (cn_txSent m) (cn_rx m) (cn_rxLen m) net"

definition cn_reply :: "cip_connection \<Rightarrow> bool" where
  "cn_reply m \<longleftrightarrow>
     packet (take (cn_rxLen m) (cn_rx m)) \<and>
     ud_parse (cn_sentContext m) (cn_toConnId m) (cn_sentSequence m) (take (cn_rxLen m) (cn_rx m)) =
       Some (cn_replyService m, cn_resultCode m, take (cn_dataLen m) (Connection_data m)) \<and>
     cn_dataLen m \<le> length (Connection_data m)"

definition cn_same_request :: "cip_connection \<Rightarrow> cip_connection \<Rightarrow> bool" where
  "cn_same_request m m' \<longleftrightarrow>
     cn_conn m' = cn_conn m \<and> cn_deadline m' = cn_deadline m \<and> cn_context m' = cn_context m \<and>
     cn_sentContext m' = cn_sentContext m \<and> cn_sequence m' = cn_sequence m \<and>
     cn_sentSequence m' = cn_sentSequence m \<and> cn_otConnId m' = cn_otConnId m \<and>
     cn_toConnId m' = cn_toConnId m \<and> cn_fwd m' = cn_fwd m \<and> cn_tagName m' = cn_tagName m \<and>
     cn_tx m' = cn_tx m \<and> cn_txLen m' = cn_txLen m"

lemma Connection_writePending_spec:
  assumes "socket_contract os" and "cn_buffers m" and "Connection_writePending os m net = (st, m', net')"
  obtains k where "m' = m\<lparr>cn_txSent := k\<rparr>" and "cn_buffers m'"
    and "st = Ok \<and> k = cn_txLen m \<or> st = Pending \<or> io_failure st"
    and "\<And>osent ircvd. cn_exchange osent ircvd m net \<Longrightarrow> cn_exchange osent ircvd m' net'"
proof -
  obtain k where w: "write_loop (conn_write os (cn_conn m)) (cn_tx m) (cn_txLen m) (cn_txSent m)
      net = (st, k, net')" and m': "m' = m\<lparr>cn_txSent := k\<rparr>"
    using assms(3) by (auto simp: Connection_writePending_def split: prod.splits)
  have b: "cn_txSent m \<le> cn_txLen m" "cn_txLen m \<le> length (cn_tx m)"
    using assms(2) by (auto simp: cn_buffers_def)
  have "cn_exchange osent ircvd m' net'" if "cn_exchange osent ircvd m net" for osent ircvd
    using exchange_write [OF assms(1) that b w] m' by simp
  then show thesis
    using tcp.write_loop_sent [OF assms(1) b w] assms(2) m'
    by (intro that [OF m']) (auto simp: cn_buffers_def)
qed

lemma Connection_readResponse_spec:
  assumes "socket_contract os" and "cn_buffers m" and "cn_framed m"
    and "Connection_readResponse os m net = (st, m', net')"
  obtains rx l e where "m' = m\<lparr>cn_rx := rx, cn_rxLen := l, cn_rxExpected := e\<rparr>"
    and "cn_buffers m'" and "length rx = length (cn_rx m)"
    and "st = Ok \<and> cn_framed m' \<and> packet (take l rx) \<and> 24 \<le> l \<or>
      st = Pending \<and> cn_framed m' \<or> io_failure st"
    and "\<And>osent ircvd. cn_exchange osent ircvd m net \<Longrightarrow> cn_exchange osent ircvd m' net'"
proof -
  let ?limit = "22 + cn_kMaxDataSize"
  obtain rx l e where r: "read_loop (conn_read os (cn_conn m)) ?limit (cn_rx m)
      (cn_rxLen m) (cn_rxExpected m) net = (st, rx, l, e, net')"
    and m': "m' = m\<lparr>cn_rx := rx, cn_rxLen := l, cn_rxExpected := e\<rparr>"
    using assms(4) by (auto simp: Connection_readResponse_def split: prod.splits)
  have wf: "rx_wf ?limit (cn_rx m) (cn_rxLen m) (cn_rxExpected m)"
    and fr: "rx_framed ?limit (cn_rx m) (cn_rxLen m) (cn_rxExpected m)"
    using assms by (auto simp: cn_buffers_def cn_framed_def)
  have "packet (take l rx)" if "st = Ok"
    using tcp.read_loop_packet [OF assms(1) wf fr] r that by blast
  moreover have "cn_exchange osent ircvd m' net'" if "cn_exchange osent ircvd m net" for osent ircvd
    using exchange_read [OF assms(1) that wf fr r] m' by simp
  ultimately show thesis
    using tcp.read_loop_framed [OF assms(1) wf fr r] m' assms(2,3) wf
    by (intro that [OF m']) (auto simp: cn_buffers_def cn_framed_def rx_wf_def)
qed

lemma Connection_parse_cases:
  assumes "cn_buffers m" and "24 \<le> cn_rxLen m" and "packet (take (cn_rxLen m) (cn_rx m))"
    and "Connection_parseConnectedResponse m = (st, m')"
  obtains "st = Error" "m' = m"
      "ud_parse (cn_sentContext m) (cn_toConnId m) (cn_sentSequence m) (take (cn_rxLen m) (cn_rx m)) = None"
  | service code off n where "st = Ok" "cn_reply m'"
      "m' = m\<lparr>cn_replyService := service, cn_resultCode := code, cn_data := Some off, cn_dataLen := n\<rparr>"
      "off + n \<le> length (cn_rx m)"
      "ud_parse (cn_sentContext m) (cn_toConnId m) (cn_sentSequence m) (take (cn_rxLen m) (cn_rx m)) =
         Some (service, code, subbuf off n (cn_rx m))"
proof -
  have len: "cn_rxLen m \<le> length (cn_rx m)"
    using assms(1) by (auto simp: cn_buffers_def rx_wf_def)
  let ?ud = "ud_parse (cn_sentContext m) (cn_toConnId m) (cn_sentSequence m) (take (cn_rxLen m) (cn_rx m))"
  show thesis
  proof (cases ?ud)
    case None
    with that(1) assms(4) Connection_parseConnectedResponse_spec [OF assms(1,2)] show thesis
      by simp
  next
    case (Some r)
    obtain service code d where r: "r = (service, code, d)"
      by (metis prod_cases3)
    obtain off where "Connection_parseConnectedResponse m =
          (Ok, m\<lparr>cn_replyService := service, cn_resultCode := code, cn_data := Some off,
                 cn_dataLen := length d\<rparr>)"
      and d: "subbuf off (length d) (cn_rx m) = d" "off + length d \<le> cn_rxLen m"
      using Connection_parseConnectedResponse_spec [OF assms(1,2)] Some r by auto
    with assms(3,4) Some r len show thesis
      by (intro that(2) [of "length d" off code service])
        (auto simp: cn_reply_def Connection_data_def subbuf_def)
  qed
qed


lemma cn_inv_settle:
  assumes "cn_buffers m" and "cn_result m" and "em_inv (cn_fwd m)" and "\<not> em_busy (cn_fwd m)" and "cn_named m"
    and "s \<noteq> CnOpening" and "s \<noteq> CnClosing" and "s = CnSending \<Longrightarrow> cn_framed m"
  shows "cn_inv (m\<lparr>cn_state := s\<rparr>)"
  using assms by (auto simp: cn_inv_defs split: option.splits)

lemma Connection_poll_late:
  assumes "cn_state m = CnSending" and "millis os net = (now, net0)" and "expired now (cn_deadline m)"
  shows "Connection_poll os m net = (Timeout, m\<lparr>cn_state := CnFailed\<rparr>, net0)"
  using assms by (simp add: Connection_poll_def Connection_pollSending_def)

lemma Connection_poll_sending:
  assumes C: "socket_contract os" and I: "cn_inv m" and S: "cn_state m = CnSending"
    and run: "Connection_poll os m net = (st, m', net')"
  shows "cn_inv m' \<and> cn_same_request m m' \<and>
    (cn_exchange osent ircvd m net \<longrightarrow> cn_exchange osent ircvd m' net') \<and>
    (st = Timeout \<longleftrightarrow> expired (fst (millis os net)) (cn_deadline m)) \<and>
    (st = Ok \<and> cn_state m' = CnOpen \<and> cn_txSent m' = cn_txLen m' \<and> cn_reply m' \<or>
     st = Pending \<and> cn_state m' = CnSending \<or>
     failure st \<and> cn_state m' = CnFailed)"
proof -
  obtain now net0 where m: "millis os net = (now, net0)" by fastforce
  obtain st1 m1 net1 where w: "Connection_writePending os m net0 = (st1, m1, net1)"
    by (metis prod_cases3)
  obtain st2 m2 net2 where r: "Connection_readResponse os m1 net1 = (st2, m2, net2)"
    by (metis prod_cases3)
  obtain st3 m3 where p: "Connection_parseConnectedResponse m2 = (st3, m3)" by fastforce
  have run: "(st, m', net') =
      (if expired now (cn_deadline m) then (Timeout, m\<lparr>cn_state := CnFailed\<rparr>, net0)
       else if st1 \<noteq> Ok then (st1, if st1 \<noteq> Pending then m1\<lparr>cn_state := CnFailed\<rparr> else m1, net1)
       else if st2 = Pending then (Pending, m2, net2)
       else if st2 \<noteq> Ok then (st2, m2\<lparr>cn_state := CnFailed\<rparr>, net2)
       else (st3, m3\<lparr>cn_state := (if st3 = Ok then CnOpen else CnFailed)\<rparr>, net2))"
    using run S m w r p by (auto simp: Connection_poll_def Connection_pollSending_def)
  have B: "cn_buffers m" "cn_framed m" "cn_result m" "em_inv (cn_fwd m)" "\<not> em_busy (cn_fwd m)" "cn_named m"
    using I S by (auto simp: cn_inv_def cn_forwarding_def)
  obtain k where m1: "m1 = m\<lparr>cn_txSent := k\<rparr>" "cn_buffers m1"
    and st1: "st1 = Ok \<and> k = cn_txLen m \<or> st1 = Pending \<or> io_failure st1"
    and x1: "\<And>osent ircvd. cn_exchange osent ircvd m net0 \<Longrightarrow> cn_exchange osent ircvd m1 net1"
    using C B(1) w by (rule Connection_writePending_spec) blast
  have f1: "cn_framed m1" "cn_result m1" "cn_named m1" "cn_fwd m1 = cn_fwd m"
    using B m1 by (auto simp: cn_framed_def cn_result_def cn_named_def split: option.splits)
  obtain rx l e where m2: "m2 = m1\<lparr>cn_rx := rx, cn_rxLen := l, cn_rxExpected := e\<rparr>"
      "cn_buffers m2" "length rx = length (cn_rx m1)"
    and st2: "st2 = Ok \<and> cn_framed m2 \<and> packet (take l rx) \<and> 24 \<le> l \<or>
      st2 = Pending \<and> cn_framed m2 \<or> io_failure st2"
    and x2: "\<And>osent ircvd. cn_exchange osent ircvd m1 net1 \<Longrightarrow> cn_exchange osent ircvd m2 net2"
    using C m1(2) f1(1) r by (rule Connection_readResponse_spec) blast
  have f2: "cn_result m2" "cn_named m2" "cn_fwd m2 = cn_fwd m"
    using f1 m2 by (auto simp: cn_result_def cn_named_def split: option.splits)
  have same: "cn_same_request m m1" "cn_same_request m m2" "cn_state m1 = CnSending" "cn_state m2 = CnSending"
    using m1 m2 S by (simp_all add: cn_same_request_def)
  have x0: "cn_exchange osent ircvd m net0 = cn_exchange osent ircvd m net" for osent ircvd
    using m by simp
  have i1: "cn_inv (m1\<lparr>cn_state := CnFailed\<rparr>)" "cn_inv (m1\<lparr>cn_state := CnSending\<rparr>)"
    using B f1 m1(2) by (auto intro: cn_inv_settle)
  have i2: "cn_inv (m2\<lparr>cn_state := CnFailed\<rparr>)" "cn_framed m2 \<Longrightarrow> cn_inv (m2\<lparr>cn_state := CnSending\<rparr>)"
    using B f2 m2(2) by (auto intro: cn_inv_settle)
  have up: "m1\<lparr>cn_state := CnSending\<rparr> = m1" "m2\<lparr>cn_state := CnSending\<rparr> = m2"
    using same by simp_all
  consider (late) "expired now (cn_deadline m)" | (blocked) "\<not> expired now (cn_deadline m)" "st1 \<noteq> Ok"
    | (waiting) "\<not> expired now (cn_deadline m)" "st1 = Ok" "st2 \<noteq> Ok"
    | (reply) "\<not> expired now (cn_deadline m)" "st1 = Ok" "st2 = Ok"
    by blast
  then show ?thesis
  proof cases
    case late
    with run x0 m B cn_inv_settle [OF B(1,3-6), of CnFailed] show ?thesis
      by (simp add: cn_same_request_def)
  next
    case blocked
    have r': "st = st1" "m' = (if st1 \<noteq> Pending then m1\<lparr>cn_state := CnFailed\<rparr> else m1)" "net' = net1"
      using run blocked by simp_all
    have "st1 \<noteq> Timeout"
      using st1 by auto
    then show ?thesis
      using blocked st1 x1 x0 m i1 up same(1,3) unfolding r'
      by (cases "st1 = Pending") (auto simp: cn_same_request_def)
  next
    case waiting
    have r': "st = st2" "m' = (if st2 \<noteq> Pending then m2\<lparr>cn_state := CnFailed\<rparr> else m2)" "net' = net2"
      using run waiting by (simp_all split: if_splits)
    have "st2 \<noteq> Timeout"
      using st2 by auto
    then show ?thesis
      using waiting st2 x1 x2 x0 m i2 up same(2,4) unfolding r'
      by (cases "st2 = Pending") (auto simp: cn_same_request_def)
  next
    case reply
    have r': "st = st3" "m' = m3\<lparr>cn_state := (if st3 = Ok then CnOpen else CnFailed)\<rparr>" "net' = net2"
      using run reply by simp_all
    have k: "cn_txSent m2 = cn_txLen m2"
      using st1 reply m1(1) m2(1) by auto
    have rd: "24 \<le> cn_rxLen m2" "packet (take (cn_rxLen m2) (cn_rx m2))"
      using st2 reply m2(1) by auto
    show ?thesis
    proof (rule Connection_parse_cases [OF m2(2) rd p])
      assume "st3 = Error" "m3 = m2"
      with reply k x0 x1 x2 m i2(1) same(2) show ?thesis
        unfolding r' by (simp add: cn_same_request_def)
    next
      fix service code off n
      assume e: "st3 = Ok" "cn_reply m3" "off + n \<le> length (cn_rx m2)"
        "m3 = m2\<lparr>cn_replyService := service, cn_resultCode := code, cn_data := Some off, cn_dataLen := n\<rparr>"
      have "cn_inv (m3\<lparr>cn_state := CnOpen\<rparr>)"
        using m2(2) e(3,4) B f2 by (intro cn_inv_settle) (auto simp: cn_buffers_def cn_result_def cn_named_def)
      moreover have "cn_reply (m3\<lparr>cn_state := CnOpen\<rparr>)"
        using e(2) by (simp add: cn_reply_def Connection_data_def split: option.splits)
      ultimately show ?thesis
        using e(1,4) reply k x0 x1 x2 m same(2) unfolding r' by (simp add: cn_same_request_def)
    qed
  qed
qed


text \<open>A poll in any phase.\<close>

lemma cn_inv_forward:
  assumes "cn_inv m" and "em_inv fwd" and "cn_state m \<noteq> CnSending"
    and "em_busy fwd \<longleftrightarrow> s = CnOpening \<or> s = CnClosing" and "s \<noteq> CnSending"
  shows "cn_inv (m\<lparr>cn_fwd := fwd, cn_state := s\<rparr>)"
    and "cn_inv (m\<lparr>cn_fwd := fwd, cn_toConnId := to, cn_state := s\<rparr>)"
  using assms by (auto simp: cn_inv_defs split: option.splits)

lemma cn_inv_fwd:
  assumes "cn_inv m" and "em_inv fwd" and "em_busy fwd \<longleftrightarrow> cn_forwarding m"
  shows "cn_inv (m\<lparr>cn_fwd := fwd\<rparr>)"
  using assms by (auto simp: cn_inv_defs split: option.splits)

lemma Connection_poll_inv:
  assumes C: "socket_contract os" and I: "cn_inv m" and run: "Connection_poll os m net = (st, m', net')"
  shows "cn_inv m'"
proof (cases "cn_state m")
  case CnOpening
  then have F: "cn_forwarding m" "cn_state m \<noteq> CnSending"
    by (simp_all add: cn_forwarding_def)
  show ?thesis
  proof (rule Connection_poll_opening [OF C I CnOpening run])
    fix fwd
    assume "m' = m\<lparr>cn_fwd := fwd\<rparr>" "em_busy fwd" "em_inv fwd"
    with cn_inv_fwd [OF I] F show ?thesis by simp
  next
    fix fwd
    assume "m' = m\<lparr>cn_fwd := fwd, cn_state := CnFailed\<rparr>" "\<not> em_busy fwd" "em_inv fwd"
    with cn_inv_forward(1) [OF I _ F(2)] show ?thesis by simp
  next
    fix fwd to
    assume "m' = m\<lparr>cn_fwd := fwd, cn_toConnId := to, cn_state := CnOpen\<rparr>" "em_state fwd = EmDone" "em_inv fwd"
    with cn_inv_forward(2) [OF I _ F(2)] show ?thesis by (simp add: em_busy_def)
  qed
next
  case CnClosing
  then have F: "cn_forwarding m" "cn_state m \<noteq> CnSending"
    by (simp_all add: cn_forwarding_def)
  obtain fwd where fwd: "em_inv fwd" "em_busy fwd \<longleftrightarrow> st = Pending"
    "st = Ok \<and> em_state fwd = EmDone \<and> m' = m\<lparr>cn_fwd := fwd, cn_state := CnClosed\<rparr> \<or>
     st = Pending \<and> m' = m\<lparr>cn_fwd := fwd\<rparr> \<or>
     failure st \<and> m' = m\<lparr>cn_fwd := fwd, cn_state := CnFailed\<rparr>"
    by (rule Connection_poll_closing [OF C I CnClosing run])
  show ?thesis
    using fwd(3) cn_inv_fwd [OF I fwd(1)] cn_inv_forward(1) [OF I fwd(1) F(2)] F(1) fwd(2) by auto
next
  case CnSending
  from Connection_poll_sending [OF C I this run] show ?thesis
    by blast
qed (use I run in auto)

lemma Connection_write_read_frame:
  assumes "cn_conn m = Some c"
  shows "Connection_writePending os m net = (st, m', net') \<Longrightarrow> conn_frame c net net' \<and> cn_conn m' = Some c"
    and "Connection_readResponse os m net = (st, m', net') \<Longrightarrow> conn_frame c net net' \<and> cn_conn m' = Some c"
  using assms tcp_frame.write_loop_inv [OF conn_frame_refl] tcp_frame.read_loop_inv [OF conn_frame_refl]
  by (auto simp: Connection_writePending_def Connection_readResponse_def split: prod.splits)

lemma Connection_poll_sending_frame:
  assumes "cn_state m = CnSending" and c: "cn_conn m = Some c" and "Connection_poll os m net = (st, m', net')"
  shows "conn_frame c net net'"
proof -
  obtain now net0 where m: "millis os net = (now, net0)" by fastforce
  obtain st1 m1 net1 where w: "Connection_writePending os m net0 = (st1, m1, net1)"
    by (metis prod_cases3)
  obtain st2 m2 net2 where r: "Connection_readResponse os m1 net1 = (st2, m2, net2)"
    by (metis prod_cases3)
  have f0: "conn_frame c net net0"
    using m by (rule millis_frame)
  note f1 = Connection_write_read_frame(1) [OF c w]
  note f2 = Connection_write_read_frame(2) [OF conjunct2 [OF f1] r]
  have "net' \<in> {net0, net1, net2}"
    using assms m w r
    by (auto simp: Connection_poll_def Connection_pollSending_def split: if_splits prod.splits)
  moreover have "conn_frame c net net1" "conn_frame c net net2"
    using f0 f1 f2 conn_frame_trans by blast+
  ultimately show ?thesis
    using f0 by blast
qed

lemma Connection_poll_fault:
  assumes C: "socket_contract os" and I: "cn_inv m" and run: "Connection_poll os m net = (st, m', net')"
  shows "net_fault net' = net_fault net"
proof -
  have fwd: "net_fault net' = net_fault net" if "ExplicitMessage_poll os (cn_fwd m) net = (st0, fwd, net')"
    for st0 fwd
    using ExplicitMessage_poll_frame [OF _ that] I by (auto simp: cn_inv_def conn_frame_def)
  show ?thesis
  proof (cases "cn_state m")
    case CnOpening
    show ?thesis
      by (rule Connection_poll_opening [OF C I CnOpening run]) (erule fwd)+
  next
    case CnClosing
    show ?thesis
      by (rule Connection_poll_closing [OF C I CnClosing run]) (erule fwd)
  next
    case CnSending
    then obtain c where "cn_conn m = Some c"
      using I by (auto simp: cn_inv_def cn_framed_def)
    from Connection_poll_sending_frame [OF CnSending this run] show ?thesis
      by (simp add: conn_frame_def)
  qed (use run in auto)
qed

subsection \<open>Reachable connections\<close>

datatype cn_call =
    CnOpenTo conn_ref u32 "cstring option" u32
  | CnSend conn_ref u32 byte "byte list option" size_t "byte list option" size_t u32
  | CnClose conn_ref u32 u32
  | CnPoll

text \<open>What a caller owes: C strings, and pointers to as many bytes as their lengths say.\<close>

fun cn_call_args :: "cn_call \<Rightarrow> bool" where
  "cn_call_args (CnOpenTo c h tagName t) = (case tagName of None \<Rightarrow> True | Some nm \<Rightarrow> 0 \<notin> set nm)"
| "cn_call_args (CnSend c h service path pathLen data dataLen t) = em_args path pathLen data dataLen"
| "cn_call_args (CnClose c h t) = True"
| "cn_call_args CnPoll = True"

fun Connection_call ::
  "'w os \<Rightarrow> cn_call \<Rightarrow> cip_connection \<Rightarrow> 'w net \<Rightarrow> Status \<times> cip_connection \<times> 'w net" where
  "Connection_call os (CnOpenTo c h tagName t) m net = Connection_open os c h tagName t m net"
| "Connection_call os (CnSend c h service path pathLen data dataLen t) m net =
     Connection_send os c h service path pathLen data dataLen t m net"
| "Connection_call os (CnClose c h t) m net = Connection_close os c h t m net"
| "Connection_call os CnPoll m net = Connection_poll os m net"

inductive cn_reach :: "'w os \<Rightarrow> cip_connection \<Rightarrow> 'w net \<Rightarrow> bool" for os where
  init: "length ftx = 296 \<Longrightarrow> length frx = 296 \<Longrightarrow> length tx = 302 \<Longrightarrow> length rx = 302 \<Longrightarrow>
    \<not> net_fault net \<Longrightarrow> cn_reach os (Connection_new (ExplicitMessage_new ftx frx) tx rx) net"
| call: "cn_reach os m net \<Longrightarrow> cn_call_args call \<Longrightarrow>
    Connection_call os call m net = (st, m', net') \<Longrightarrow> cn_reach os m' net'"
| world: "cn_reach os m net \<Longrightarrow> \<not> net_fault net' \<Longrightarrow> cn_reach os m net'"

lemma cn_opening_inv: "cn_inv m \<Longrightarrow> \<not> cn_forwarding m \<Longrightarrow> cn_inv (cn_opening ot nm m)"
  by (auto simp: cn_inv_defs cn_opening_def name_slot_def nth_append split: option.splits)

lemma Connection_call_inv:
  assumes C: "socket_contract os" and I: "cn_inv m" and A: "cn_call_args call"
    and run: "Connection_call os call m net = (st, m', net')"
  shows "cn_inv m' \<and> net_fault net' = net_fault net"
proof (cases call)
  case (CnOpenTo c h tagName t)
  have "0 \<notin> set nm" if "tagName = Some nm" for nm
    using A CnOpenTo that by simp
  moreover have "Connection_open os c h tagName t m net = (st, m', net')"
    using run CnOpenTo by simp
  ultimately show ?thesis
    using I
    by (elim Connection_open_spec [OF I, rotated])
      (auto simp: em_started_def em_busy_def cn_opening_def sys_fault millis_fault intro!: cn_inv_forward(1) cn_opening_inv [unfolded cn_opening_def])
next
  case (CnSend c h service path pathLen data dataLen t)
  with A run have A': "em_args path pathLen data dataLen"
    and run': "Connection_send os c h service path pathLen data dataLen t m net = (st, m', net')"
    by simp_all
  show ?thesis
    by (rule Connection_send_spec [OF I A' run']) (use I in \<open>auto simp: cn_started_def millis_fault\<close>)
next
  case (CnClose c h t)
  with run have run': "Connection_close os c h t m net = (st, m', net')"
    by simp
  show ?thesis
    by (rule Connection_close_spec [OF I run'])
      (use I in \<open>auto simp: em_started_def em_busy_def millis_fault intro!: cn_inv_forward(1)\<close>)
next
  case CnPoll
  with run Connection_poll_inv [OF C I] Connection_poll_fault [OF C I] show ?thesis
    by simp
qed

lemma cn_reach_safe:
  assumes "socket_contract os" and "cn_reach os m net"
  shows "cn_inv m \<and> \<not> net_fault net"
  using assms(2)
proof (induction rule: cn_reach.induct)
  case (init ftx frx tx rx net)
  then show ?case
    using Connection_new_inv [OF ExplicitMessage_new_inv]
    by (simp add: em_busy_def ExplicitMessage_new_def)
next
  case (call m net call st m' net')
  then show ?case
    using Connection_call_inv [OF assms(1)] by blast
qed simp

end
