(* ===== verification/ConnectionProperties.thy ===== *)
theory ConnectionProperties
  imports ConnectionSteps
begin

text \<open>
  The properties of the connected CIP connection: memory safety over any sequence of calls, what
  an open, a send and a close that end well have put on the wire and received, the lifecycle the
  calls follow, and the two ways the object loses track of the connection the target holds.
\<close>

subsection \<open>Runs of polls\<close>

inductive cn_run ::
  "'w os \<Rightarrow> cip_connection \<Rightarrow> 'w net \<Rightarrow> Status \<Rightarrow> cip_connection \<Rightarrow> 'w net \<Rightarrow> bool" for os where
  last: "Connection_poll os m net = (st, m', net') \<Longrightarrow> cn_run os m net st m' net'"
| again: "Connection_poll os m net = (Pending, m1, net1) \<Longrightarrow>
    cn_run os m1 (net1\<lparr>net_os := w\<rparr>) st m' net' \<Longrightarrow> cn_run os m net st m' net'"

lemma cn_run_opening:
  assumes "cn_run os m net Ok m' net'" and "socket_contract os" and "cn_inv m" and "cn_state m = CnOpening"
  shows "\<exists>fwd to. em_run os (cn_fwd m) net Ok fwd net' \<and> cn_accepts (cn_otConnId m) fwd to \<and>
    m' = m\<lparr>cn_fwd := fwd, cn_toConnId := to, cn_state := CnOpen\<rparr>"
  using assms
proof (induction m net Ok m' net' rule: cn_run.induct)
  case (last m net m' net')
  show ?case
    by (rule Connection_poll_opening [OF last(2,3,4,1)]) (auto intro: em_run.last)
next
  case (again m net m1 net1 w m' net')
  obtain fwd where p: "ExplicitMessage_poll os (cn_fwd m) net = (Pending, fwd, net1)" "m1 = m\<lparr>cn_fwd := fwd\<rparr>"
    by (rule Connection_poll_opening [OF again(4,5,6,1)]) auto
  have "cn_inv m1"
    using Connection_poll_inv [OF again(4,5,1)] .
  with again p obtain fwd' to where "em_run os fwd (net1\<lparr>net_os := w\<rparr>) Ok fwd' net'"
      "cn_accepts (cn_otConnId m) fwd' to" "m' = m\<lparr>cn_fwd := fwd', cn_toConnId := to, cn_state := CnOpen\<rparr>"
    by auto
  with em_run.again [OF p(1)] show ?case
    by blast
qed

lemma cn_run_closing:
  assumes "cn_run os m net Ok m' net'" and "socket_contract os" and "cn_inv m" and "cn_state m = CnClosing"
  shows "\<exists>fwd. em_run os (cn_fwd m) net Ok fwd net' \<and> m' = m\<lparr>cn_fwd := fwd, cn_state := CnClosed\<rparr>"
  using assms
proof (induction m net Ok m' net' rule: cn_run.induct)
  case (last m net m' net')
  show ?case
    by (rule Connection_poll_closing [OF last(2,3,4,1)]) (auto intro: em_run.last)
next
  case (again m net m1 net1 w m' net')
  obtain fwd where p: "ExplicitMessage_poll os (cn_fwd m) net = (Pending, fwd, net1)" "m1 = m\<lparr>cn_fwd := fwd\<rparr>"
    by (rule Connection_poll_closing [OF again(4,5,6,1)]) auto
  have "cn_inv m1"
    using Connection_poll_inv [OF again(4,5,1)] .
  with again p obtain fwd' where "em_run os fwd (net1\<lparr>net_os := w\<rparr>) Ok fwd' net'"
      "m' = m\<lparr>cn_fwd := fwd', cn_state := CnClosed\<rparr>"
    by auto
  with em_run.again [OF p(1)] show ?case
    by blast
qed

lemma cn_run_sending:
  assumes "cn_run os m net st m' net'" and "socket_contract os" and "cn_inv m"
    and "cn_state m = CnSending" and "cn_exchange osent ircvd m net"
  shows "cn_inv m' \<and> cn_same_request m m' \<and> cn_exchange osent ircvd m' net' \<and>
    (st = Ok \<longrightarrow> cn_state m' = CnOpen \<and> cn_txSent m' = cn_txLen m' \<and> cn_reply m')"
  using assms
proof (induction rule: cn_run.induct)
  case (last m net st m' net')
  from Connection_poll_sending [OF last(2-4,1)] last(5) show ?case
    by auto
next
  case (again m net m1 net1 w st m' net')
  note step = Connection_poll_sending [OF again(4-6,1)]
  have "cn_inv m1" "cn_same_request m m1" "cn_exchange osent ircvd m1 (net1\<lparr>net_os := w\<rparr>)" "cn_state m1 = CnSending"
    using step again(7) by auto
  with again(3,4) show ?case
    by (auto simp: cn_same_request_def)
qed

subsection \<open>Polls over a healthy connection\<close>

lemma Connection_poll_opening_live:
  assumes S: "stream_contract os q" and I: "cn_inv m" and O: "cn_state m = CnOpening"
    and c: "em_conn (cn_fwd m) = Some c" "em_rxLen (cn_fwd m) = 0"
    and up: "conn_up (Some c) net" and t: "\<not> expired (fst (millis os net)) (em_deadline (cn_fwd m))"
    and p: "packet p" "length p \<le> 296" "conn_queue q (Some c) net = p @ rest"
    and rr: "rr_parse (em_sentContext (cn_fwd m)) p = Some (service, 0, d)" "12 \<le> length d"
      "getU32 d = cn_otConnId m" "cn_otConnId m \<noteq> 0" "getU32 (drop 4 d) \<noteq> 0"
    and run: "Connection_poll os m net = (st, m', net')"
  shows "st = Ok \<and> cn_state m' = CnOpen \<and> cn_otConnId m' = cn_otConnId m \<and>
    cn_toConnId m' = getU32 (drop 4 d) \<and> conn_queue q (Some c) net' = rest"
proof -
  have C: "socket_contract os"
    using S by (simp add: stream_contract_def)
  have B: "em_inv (cn_fwd m)" "em_busy (cn_fwd m)"
    using I O by (auto simp: cn_inv_def cn_forwarding_def)
  obtain st0 fwd net1 where f: "ExplicitMessage_poll os (cn_fwd m) net = (st0, fwd, net1)"
    by (metis prod_cases3)
  have e: "conn_queue q (Some c) net1 = rest" "st0 = Ok" "em_resultCode fwd = 0" "em_dataLen fwd = length d"
      "take (length d) (ExplicitMessage_data fwd) = d"
    using ExplicitMessage_poll_live [OF S B _ t p(1,2) _ _ f, of rest] c up p(3) rr(1) by simp_all
  have "length d \<le> length (ExplicitMessage_data fwd)"
    using arg_cong [OF e(5), of length] by simp
  then have "getU32 (ExplicitMessage_data fwd) = getU32 (take (length d) (ExplicitMessage_data fwd))"
    "getU32 (drop 4 (ExplicitMessage_data fwd)) = getU32 (drop 4 (take (length d) (ExplicitMessage_data fwd)))"
    using rr(2) by (simp_all add: u32.dec_take drop_take)
  then have "cn_accepts (cn_otConnId m) fwd (getU32 (drop 4 d))"
    using e rr by (simp add: cn_accepts_def)
  then show ?thesis
    by (cases rule: Connection_poll_opening [OF C I O run]) (use e f in \<open>auto simp: cn_accepts_def\<close>)
qed

lemma Connection_poll_sending_live:
  assumes S: "stream_contract os q" and I: "cn_inv m" and B: "cn_state m = CnSending"
    and up: "conn_up (cn_conn m) net" and t: "\<not> expired (fst (millis os net)) (cn_deadline m)"
    and p: "packet p" "length p \<le> 302" "cn_rxLen m \<le> length p"
      "take (cn_rxLen m) (cn_rx m) @ conn_queue q (cn_conn m) net = p @ rest"
    and run: "Connection_poll os m net = (st, m', net')"
  shows "conn_queue q (cn_conn m) net' = rest \<and> cn_same_request m m' \<and>
    (case ud_parse (cn_sentContext m) (cn_toConnId m) (cn_sentSequence m) p of
       None \<Rightarrow> st = Error \<and> cn_state m' = CnFailed
     | Some (service, code, d) \<Rightarrow>
         st = Ok \<and> cn_state m' = CnOpen \<and> cn_replyService m' = service \<and>
         cn_resultCode m' = code \<and> cn_dataLen m' = length d \<and>
         take (length d) (Connection_data m') = d)"
proof -
  have C: "socket_contract os"
    using S by (simp add: stream_contract_def)
  have I': "cn_buffers m" "cn_framed m"
    using I B by (auto simp: cn_inv_def)
  obtain now net0 where m: "millis os net = (now, net0)" by fastforce
  obtain st1 m1 net1 where w: "Connection_writePending os m net0 = (st1, m1, net1)"
    by (metis prod_cases3)
  obtain st2 m2 net2 where r: "Connection_readResponse os m1 net1 = (st2, m2, net2)"
    by (metis prod_cases3)
  obtain st3 m3 where ps: "Connection_parseConnectedResponse m2 = (st3, m3)" by fastforce
  have v: "stream_contract os q \<and> conn_up (cn_conn m) net0"
    using S up stream_millis [OF S m] by simp
  obtain k where wl: "write_loop (conn_write os (cn_conn m)) (cn_tx m) (cn_txLen m) (cn_txSent m)
      net0 = (st1, k, net1)" and "m1 = m\<lparr>cn_txSent := k\<rparr>"
    using w by (auto simp: Connection_writePending_def split: prod.splits)
  with tcp_up.write_loop_all [OF v _ _ wl] I'(1) stream_millis [OF S m]
  have w': "st1 = Ok" "m1 = m\<lparr>cn_txSent := cn_txLen m\<rparr>" "stream_contract os q \<and> conn_up (cn_conn m) net1"
      "conn_queue q (cn_conn m) net1 = conn_queue q (cn_conn m) net"
    by (simp_all add: cn_buffers_def)
  have b1: "cn_buffers m1" "cn_framed m1"
    using I' w'(2) by (auto simp: cn_buffers_def cn_framed_def)
  obtain rx l e where rl: "read_loop (conn_read os (cn_conn m)) (22 + cn_kMaxDataSize) (cn_rx m) (cn_rxLen m)
      (cn_rxExpected m) net1 = (st2, rx, l, e, net2)"
    and m2: "m2 = m1\<lparr>cn_rx := rx, cn_rxLen := l, cn_rxExpected := e\<rparr>"
    using r w'(2) by (auto simp: Connection_readResponse_def split: prod.splits)
  have r': "st2 = Ok" "l = length p" "take (length p) rx = p" "conn_queue q (cn_conn m) net2 = rest"
    using tcp_up.read_loop_all [OF w'(3) _ _ _ p(1) _ p(3) rl, of rest] I' p(2,4) w'(4)
    by (auto simp: cn_buffers_def cn_framed_def)
  have out: "st = st3" "m' = m3\<lparr>cn_state := (if st3 = Ok then CnOpen else CnFailed)\<rparr>" "net' = net2"
    using run B m w r ps t w'(1) r'(1) by (auto simp: Connection_poll_def Connection_pollSending_def)
  have b2: "cn_buffers m2"
    using C b1 r by (rule Connection_readResponse_spec)
  have rd: "24 \<le> cn_rxLen m2" "packet (take (cn_rxLen m2) (cn_rx m2))" "take (cn_rxLen m2) (cn_rx m2) = p"
      "cn_sentContext m2 = cn_sentContext m" "cn_toConnId m2 = cn_toConnId m"
      "cn_sentSequence m2 = cn_sentSequence m" "cn_same_request m m2"
    using r' p(1) w'(2) m2 by (auto simp: packet_def cn_same_request_def)
  show ?thesis
  proof (rule Connection_parse_cases [OF b2 rd(1,2) ps])
    assume "st3 = Error" "m3 = m2" "ud_parse (cn_sentContext m2) (cn_toConnId m2) (cn_sentSequence m2)
        (take (cn_rxLen m2) (cn_rx m2)) = None"
    with out r' rd show ?thesis
      by (simp add: cn_same_request_def)
  next
    fix service code off n
    assume e: "st3 = Ok" "off + n \<le> length (cn_rx m2)"
      "m3 = m2\<lparr>cn_replyService := service, cn_resultCode := code, cn_data := Some off, cn_dataLen := n\<rparr>"
      "ud_parse (cn_sentContext m2) (cn_toConnId m2) (cn_sentSequence m2) (take (cn_rxLen m2) (cn_rx m2)) =
         Some (service, code, subbuf off n (cn_rx m2))"
    from e(1,3) out rd(7) have "cn_same_request m m'"
      by (simp add: cn_same_request_def)
    with e out r'(4) rd show ?thesis
      by (simp add: Connection_data_def subbuf_def)
  qed
qed

subsection \<open>Properties\<close>

text \<open>
  C11. Memory safety of the connection object, for any sequence of its calls whose arguments
  point at what they claim, and any input: cursors stay in their buffers, no buffer is written past
  its end, the data handed to the caller lies inside the receive buffer, the stored name is
  terminated, and no null pointer is dereferenced. The inner message is in flight exactly while a
  Forward Open or a Forward Close is awaited.
\<close>

theorem Connection_reachable_safe:
  assumes "socket_contract os" and "cn_reach os m net"
  shows "length (cn_tx m) = 302 \<and> length (cn_rx m) = 302 \<and> cn_txSent m \<le> cn_txLen m \<and>
    cn_txLen m \<le> 302 \<and> cn_rxLen m \<le> cn_rxExpected m \<and> cn_rxExpected m \<le> 302 \<and>
    cn_dataLen m \<le> length (Connection_data m) \<and> length (c_string (cn_tagName m)) < 64 \<and>
    length (em_tx (cn_fwd m)) = 296 \<and> length (em_rx (cn_fwd m)) = 296 \<and>
    (em_busy (cn_fwd m) \<longleftrightarrow> cn_state m = CnOpening \<or> cn_state m = CnClosing) \<and> \<not> net_fault net"
proof -
  have I: "cn_inv m" "\<not> net_fault net"
    using cn_reach_safe [OF assms] by simp_all
  moreover have "length (c_string (cn_tagName m)) < 64"
    using I c_string_short by (simp add: cn_inv_def cn_named_def)
  moreover have "cn_dataLen m \<le> length (Connection_data m)"
    using I(1) by (auto simp: cn_inv_def cn_result_def Connection_data_def split: option.splits)
  moreover have "em_buffers (cn_fwd m)" "cn_buffers m"
    using I(1) by (simp_all add: cn_inv_def em_inv_def)
  moreover have "em_busy (cn_fwd m) \<longleftrightarrow> cn_state m = CnOpening \<or> cn_state m = CnClosing"
    using I(1) by (simp add: cn_inv_def cn_forwarding_def)
  ultimately show ?thesis
    by (simp add: cn_buffers_def em_buffers_def rx_wf_def)
qed

text \<open>
  C8. A connection that opens: after \<open>open()\<close> and any run of polls ending in \<open>Ok\<close>, the
  TCP connection has carried exactly one Forward Open request, with the caller's tag name and a
  fresh identifier that is not zero, and exactly one reply, with status zero, that repeats this
  identifier and gives one of the target's own that is not zero; the connection is open with the
  two identifiers.
\<close>

theorem Connection_open_delivers:
  assumes "socket_contract os" and "cn_inv m" and "0 \<notin> set nm"
    and "Connection_open os c h (Some nm) t m net = (Pending, m1, net1)"
    and "cn_run os m1 net1 Ok m2 net2"
  shows "Connection_isOpen m2 \<and> cn_otConnId m2 \<noteq> 0 \<and> cn_toConnId m2 \<noteq> 0 \<and>
    net_sent net2 c = net_sent net c @ rr_request h (em_context (cn_fwd m)) 0x54 cn_reqPath
      (forward_open_data (cn_otConnId m2) nm) \<and>
    (\<exists>p service d. net_rcvd net2 c = net_rcvd net c @ p \<and> packet p \<and>
       rr_parse (em_context (cn_fwd m)) p = Some (service, 0, d) \<and> 12 \<le> length d \<and>
       getU32 d = cn_otConnId m2 \<and> getU32 (drop 4 d) = cn_toConnId m2)"
proof -
  have nul: "0 \<notin> set n" if "Some nm = Some n" for n
    using that assms(3) by simp
  obtain r net0 now fwd where s: "sys (os_random os) net = (r, net0)" "millis os net0 = (now, net1)"
      "em_started c (now + t) (rr_request h (em_context (cn_fwd m)) 0x54 cn_reqPath
         (forward_open_data (cn_id r) nm)) (cn_fwd m) fwd"
      "m1 = (cn_opening (cn_id r) nm m)\<lparr>cn_fwd := fwd, cn_state := CnOpening\<rparr>"
    by (rule Connection_open_spec [OF assms(2) nul assms(4)]) auto
  have I1: "cn_inv m1"
    using Connection_call_inv [OF assms(1,2), of "CnOpenTo c h (Some nm) t"] assms(3,4) by auto
  have m1: "cn_fwd m1 = fwd" "cn_otConnId m1 = cn_id r" "cn_state m1 = CnOpening"
    using s(4) by (simp_all add: cn_opening_def)
  obtain fwd' to where f: "em_run os fwd net1 Ok fwd' net2" "cn_accepts (cn_id r) fwd' to"
      "m2 = m1\<lparr>cn_fwd := fwd', cn_toConnId := to, cn_state := CnOpen\<rparr>"
    using cn_run_opening [OF assms(5,1) I1 m1(3)] m1 by auto
  have net0: "net_sent net0 c = net_sent net c" "net_rcvd net0 c = net_rcvd net c"
    using s(1) by (auto simp: sys_def split: prod.splits)
  from em_started_exchange [OF assms(1) s(3,2) f(1)] net0 obtain p where
    e: "em_inv fwd'" "em_reply fwd'" "net_sent net2 c = net_sent net c @ rr_request h (em_context (cn_fwd m)) 0x54
        cn_reqPath (forward_open_data (cn_id r) nm)"
      "net_rcvd net2 c = net_rcvd net c @ p" "packet p"
      "rr_parse (em_context (cn_fwd m)) p =
         Some (em_replyService fwd', em_resultCode fwd', take (em_dataLen fwd') (ExplicitMessage_data fwd'))"
    by auto
  have len: "em_dataLen fwd' \<le> length (ExplicitMessage_data fwd')"
    using e(2) by (simp add: em_reply_def)
  let ?d = "take (em_dataLen fwd') (ExplicitMessage_data fwd')"
  have a: "12 \<le> em_dataLen fwd'" "em_resultCode fwd' = 0" "to \<noteq> 0" "cn_id r \<noteq> 0"
      "getU32 (ExplicitMessage_data fwd') = cn_id r" "getU32 (drop 4 (ExplicitMessage_data fwd')) = to"
    using f(2) by (simp_all add: cn_accepts_def)
  have "getU32 ?d = cn_id r" "getU32 (drop 4 ?d) = to" "length ?d = em_dataLen fwd'"
    using a len by (simp_all add: u32.dec_take drop_take)
  with a e f(3) m1(2) show ?thesis
    by (auto simp: Connection_isOpen_def)
qed

text \<open>
  C7. A connected exchange that ends well: after \<open>send()\<close> and any run of polls ending in
  \<open>Ok\<close>, the TCP connection has carried exactly one SendUnitData packet around the caller's
  service, path and data, to the target's connection and under the next sequence number, and has
  received exactly one packet, which answers it: the context and the sequence number sent, and the
  identifier agreed at the open. Its service, status and data are what the accessors return, and
  the connection is open again.
\<close>

theorem Connection_send_delivers:
  assumes "socket_contract os" and "cn_inv m" and "em_args path pathLen data dataLen"
    and "Connection_send os c h service path pathLen data dataLen t m net = (Pending, m1, net1)"
    and "cn_run os m1 net1 Ok m2 net2"
  shows "Connection_isOpen m2 \<and> cn_sequence m2 = cn_sequence m + 1 \<and> cn_context m2 = cn_context m + 1 \<and>
    cn_otConnId m2 = cn_otConnId m \<and> cn_toConnId m2 = cn_toConnId m \<and>
    net_sent net2 c = net_sent net c @ ud_request h (cn_context m) (cn_otConnId m) (cn_sequence m) service
      (arg_bytes path pathLen) (arg_bytes data dataLen) \<and>
    (\<exists>p. net_rcvd net2 c = net_rcvd net c @ p \<and> packet p \<and>
       ud_parse (cn_context m) (cn_toConnId m) (cn_sequence m) p =
         Some (cn_replyService m2, cn_resultCode m2, take (cn_dataLen m2) (Connection_data m2)))"
proof -
  obtain now where s: "millis os net = (now, net1)"
      "cn_started c (now + t) (ud_request h (cn_context m) (cn_otConnId m) (cn_sequence m) service
         (arg_bytes path pathLen) (arg_bytes data dataLen)) m m1"
    by (rule Connection_send_spec [OF assms(2,3,4)]) auto
  have st: "cn_inv m1" "cn_state m1 = CnSending" "cn_txSent m1 = 0" "cn_rxLen m1 = 0" "cn_conn m1 = Some c"
    using s(2) by (simp_all add: cn_started_def)
  have x: "cn_exchange (net_sent net c) (net_rcvd net c) m1 net1"
    using s(1) st by simp (simp add: exchange_def conn_out_def conn_in_def)
  note run = cn_run_sending [OF assms(5,1) st(1,2) x]
  have "take (cn_txSent m2) (cn_tx m2) = take (cn_txLen m1) (cn_tx m1)"
    using run by (simp add: cn_same_request_def)
  also have "\<dots> = ud_request h (cn_context m) (cn_otConnId m) (cn_sequence m) service
      (arg_bytes path pathLen) (arg_bytes data dataLen)"
    using s(2) unfolding cn_started_def by blast
  finally have "take (cn_txSent m2) (cn_tx m2) = ud_request h (cn_context m) (cn_otConnId m)
      (cn_sequence m) service (arg_bytes path pathLen) (arg_bytes data dataLen)" .
  moreover have "cn_conn m2 = Some c" "cn_context m2 = cn_context m + 1" "cn_sequence m2 = cn_sequence m + 1"
      "cn_sentContext m2 = cn_context m" "cn_sentSequence m2 = cn_sequence m"
      "cn_otConnId m2 = cn_otConnId m" "cn_toConnId m2 = cn_toConnId m"
    using run s(2) by (simp_all add: cn_same_request_def cn_started_def)
  ultimately show ?thesis
    using run by (auto simp: cn_reply_def exchange_def conn_out_def conn_in_def Connection_isOpen_def)
qed


lemma cn_poll_decides:
  assumes "stream_contract os q" and "cn_inv m" and "em_args path pathLen data dataLen"
    and "Connection_send os c h service path pathLen data dataLen t m net = (Pending, m1, net1)"
    and "conn_up (Some c) net2" and "\<not> expired (fst (millis os net2)) (cn_deadline m1)"
    and "conn_queue q (Some c) net2 = p @ rest" and "packet p" and "length p \<le> 302"
    and "Connection_poll os m1 net2 = (st, m2, net3)"
  shows "conn_queue q (Some c) net3 = rest \<and> cn_same_request m1 m2 \<and>
    (case ud_parse (cn_context m) (cn_toConnId m) (cn_sequence m) p of
       None \<Rightarrow> st = Error \<and> cn_state m2 = CnFailed
     | Some (code_service, code, d) \<Rightarrow>
         st = Ok \<and> cn_state m2 = CnOpen \<and> cn_replyService m2 = code_service \<and>
         cn_resultCode m2 = code \<and> cn_dataLen m2 = length d \<and>
         take (length d) (Connection_data m2) = d)"
proof -
  obtain now where "cn_started c (now + t) (ud_request h (cn_context m) (cn_otConnId m) (cn_sequence m)
      service (arg_bytes path pathLen) (arg_bytes data dataLen)) m m1"
    by (rule Connection_send_spec [OF assms(2,3,4)]) auto
  then have m1: "cn_inv m1" "cn_state m1 = CnSending" "cn_conn m1 = Some c" "cn_rxLen m1 = 0"
      "cn_sentContext m1 = cn_context m" "cn_sentSequence m1 = cn_sequence m" "cn_toConnId m1 = cn_toConnId m"
    by (simp_all add: cn_started_def)
  from Connection_poll_sending_live [OF assms(1) m1(1,2) _ assms(6,8,9) _ _ assms(10)] assms(5,7) m1
  show ?thesis
    by simp
qed

text \<open>
  The reply decides a connected exchange: on a healthy TCP connection, if a whole packet has
  arrived when the connection is polled before its deadline, that poll settles the exchange, and
  the outcome is a function of the packet alone. Anything that is not a well-formed answer to
  this context, on the identifier agreed at the open and under the sequence number sent (a stale, a
  replayed or a misrouted packet) gives \<open>Error\<close>; an answer gives \<open>Ok\<close> and its fields.
\<close>

theorem Connection_send_decides:
  assumes "stream_contract os q" and "cn_inv m" and "em_args path pathLen data dataLen"
    and "Connection_send os c h service path pathLen data dataLen t m net = (Pending, m1, net1)"
    and "conn_up (Some c) net2" and "\<not> expired (fst (millis os net2)) (cn_deadline m1)"
    and "conn_queue q (Some c) net2 = p @ rest" and "packet p" and "length p \<le> 302"
    and "Connection_poll os m1 net2 = (st, m2, net3)"
  shows "conn_queue q (Some c) net3 = rest \<and>
    (case ud_parse (cn_context m) (cn_toConnId m) (cn_sequence m) p of
       None \<Rightarrow> st = Error \<and> cn_state m2 = CnFailed
     | Some (code_service, code, d) \<Rightarrow>
         st = Ok \<and> cn_state m2 = CnOpen \<and> cn_replyService m2 = code_service \<and>
         cn_resultCode m2 = code \<and> cn_dataLen m2 = length d \<and>
         take (length d) (Connection_data m2) = d)"
  using cn_poll_decides [OF assms] by simp

subsection \<open>The lifecycle\<close>

text \<open>
  The states a connection passes through, as a function of the call and of the status it returns:
  \<open>None\<close> when the call cannot return that status in that state.
\<close>

definition cn_settle :: "CnState \<Rightarrow> CnState \<Rightarrow> Status \<Rightarrow> CnState option" where
  "cn_settle s done_state st =
     (if st = Pending then Some s else if st = Ok then Some done_state
      else if failure st then Some CnFailed else None)"

definition cn_expect :: "CnState \<Rightarrow> Status \<Rightarrow> Status \<Rightarrow> CnState option" where
  "cn_expect s wanted st = (if st = wanted then Some s else None)"

fun cn_spec_poll :: "CnState \<Rightarrow> Status \<Rightarrow> CnState option" where
  "cn_spec_poll CnIdle = cn_expect CnIdle NotReady"
| "cn_spec_poll CnOpen = cn_expect CnOpen Ok"
| "cn_spec_poll CnClosed = cn_expect CnClosed Closed"
| "cn_spec_poll CnFailed = cn_expect CnFailed Error"
| "cn_spec_poll CnOpening = cn_settle CnOpening CnOpen"
| "cn_spec_poll CnSending = cn_settle CnSending CnOpen"
| "cn_spec_poll CnClosing = cn_settle CnClosing CnClosed"

fun cn_spec :: "cn_call \<Rightarrow> CnState \<Rightarrow> Status \<Rightarrow> CnState option" where
  "cn_spec CnPoll s st = cn_spec_poll s st"
| "cn_spec (CnOpenTo c h tagName t) s st =
     (if st = InvalidArg then Some s
      else if s = CnOpening \<or> s = CnSending \<or> s = CnClosing then cn_expect s Busy st
      else if st = Pending then Some CnOpening else cn_expect s NotReady st)"
| "cn_spec (CnSend c h service path pathLen data dataLen t) s st =
     (if s \<noteq> CnOpen then cn_expect s NotReady st
      else if st = Pending then Some CnSending else cn_expect s InvalidArg st)"
| "cn_spec (CnClose c h t) s st =
     (if s = CnOpen \<and> st = Pending then Some CnClosing else cn_expect s NotReady st)"

lemma Connection_poll_spec_step:
  assumes C: "socket_contract os" and I: "cn_inv m" and run: "Connection_poll os m net = (st, m', net')"
  shows "cn_spec_poll (cn_state m) st = Some (cn_state m')"
proof (cases "cn_state m")
  case CnOpening
  show ?thesis
    by (rule Connection_poll_opening [OF C I CnOpening run])
      (use CnOpening in \<open>auto simp: cn_settle_def\<close>)
next
  case CnClosing
  show ?thesis
    by (rule Connection_poll_closing [OF C I CnClosing run])
      (use CnClosing in \<open>auto simp: cn_settle_def\<close>)
next
  case CnSending
  from Connection_poll_sending [OF C I this run] CnSending show ?thesis
    by (auto simp: cn_settle_def)
qed (use run in \<open>auto simp: cn_expect_def\<close>)

text \<open>
  C15. The lifecycle of a connection: every call, on every reachable connection, moves it as the
  abstract state machine does for the status the call returns. So data is only ever sent between a
  successful open and the close, a call out of turn changes nothing and says \<open>NotReady\<close> or
  \<open>Busy\<close>, and a poll that fails ends in the failed state.
\<close>

theorem Connection_refines_lifecycle:
  assumes "socket_contract os" and "cn_reach os m net" and "cn_call_args call"
    and "Connection_call os call m net = (st, m', net')"
  shows "cn_spec call (cn_state m) st = Some (cn_state m')"
proof -
  have I: "cn_inv m"
    using cn_reach_safe [OF assms(1,2)] by simp
  show ?thesis
  proof (cases call)
    case (CnOpenTo c h tagName t)
    with assms(3) have nul: "0 \<notin> set nm" if "tagName = Some nm" for nm
      using that by simp
    from assms(4) CnOpenTo have "Connection_open os c h tagName t m net = (st, m', net')"
      by simp
    then show ?thesis
      by (cases rule: Connection_open_spec [OF I nul])
        (auto simp: CnOpenTo cn_expect_def cn_opening_def cn_forwarding_def)
  next
    case (CnSend c h service path pathLen data dataLen t)
    with assms(3,4) have "em_args path pathLen data dataLen"
      "Connection_send os c h service path pathLen data dataLen t m net = (st, m', net')"
      by simp_all
    then show ?thesis
      by (cases rule: Connection_send_spec [OF I]) (auto simp: CnSend cn_expect_def cn_started_def)
  next
    case (CnClose c h t)
    with assms(4) have "Connection_close os c h t m net = (st, m', net')"
      by simp
    then show ?thesis
      by (cases rule: Connection_close_spec [OF I]) (auto simp: CnClose cn_expect_def)
  next
    case CnPoll
    with Connection_poll_spec_step [OF assms(1) I] assms(4) show ?thesis
      by simp
  qed
qed

subsection \<open>Losing track of the target's connection\<close>

text \<open>
  A send that fails strands the connection at the target: whatever the cause (one late or
  malformed reply is enough), the object keeps both identifiers but is no longer open, and from then
  on \<open>close()\<close> and \<open>send()\<close> are refused with \<open>NotReady\<close> and change nothing, so no
  Forward Close can be sent for a connection that the target still holds.
\<close>

theorem Connection_failed_send_strands:
  assumes "socket_contract os" and "cn_reach os m net" and "cn_state m = CnSending"
    and "Connection_poll os m net = (st, m', net')" and "failure st"
  shows "\<not> Connection_isOpen m' \<and> cn_otConnId m' = cn_otConnId m \<and> cn_toConnId m' = cn_toConnId m \<and>
    Connection_close os c h t m' net2 = (NotReady, m', net2) \<and>
    Connection_send os c h service path pathLen data dataLen t m' net2 = (NotReady, m', net2) \<and>
    Connection_poll os m' net2 = (Error, m', net2)"
proof -
  have "cn_inv m"
    using cn_reach_safe [OF assms(1,2)] by simp
  from Connection_poll_sending [OF assms(1) this assms(3,4), of "[]" "[]"] assms(5)
  have "cn_state m' = CnFailed" "cn_same_request m m'"
    by auto
  then show ?thesis
    by (simp add: Connection_isOpen_def Connection_close_def Connection_send_def cn_same_request_def)
qed

text \<open>
  An \<open>open()\<close> of an open connection while the TCP connection is down destroys it without
  saying so: it returns \<open>NotReady\<close>, and the connection still reports open and polls
  \<open>Ok\<close>, but its identifiers are those of a connection that was never made (a new random one
  and zero) and its name is that of the new tag.
\<close>

theorem Connection_reopen_down:
  assumes "cn_inv m" and "Connection_isOpen m" and "\<not> TcpConnection_connected c net"
    and "0 \<notin> set nm" and "length nm < 64"
    and "Connection_open os c h (Some nm) t m net = (st, m', net')"
  shows "st = NotReady \<and> Connection_isOpen m' \<and> Connection_poll os m' net' = (Ok, m', net') \<and>
    cn_toConnId m' = 0 \<and> cn_otConnId m' = cn_id (fst (sys (os_random os) net)) \<and>
    c_string (cn_tagName m') = nm"
proof -
  have nul: "0 \<notin> set n" if "Some nm = Some n" for n
    using that assms(4) by simp
  have conn: "\<not> TcpConnection_connected c net1" if "sys (os_random os) net = (r, net1)" for r net1
    using that assms(3) by (auto simp: sys_def TcpConnection_connected_def split: prod.splits)
  from assms(1) nul assms(6) show ?thesis
    by (cases rule: Connection_open_spec)
      (use assms(2,4,5) conn c_string_slot in \<open>auto simp: Connection_isOpen_def cn_opening_def cn_forwarding_def\<close>)
qed


subsection \<open>An example\<close>

text \<open>
  A connection opened, used for a read and closed over the loopback. The identifier is the
  loopback's random number, 7; the target's is 42.
\<close>

definition ud_reply :: "u32 \<Rightarrow> u64 \<Rightarrow> u32 \<Rightarrow> u16 \<Rightarrow> byte \<Rightarrow> byte \<Rightarrow> byte list \<Rightarrow> byte list" where
  "ud_reply session ctx connId sequence service code data =
     ud_packet session ctx
       [(CpfItemType_code ConnectedAddress, leU32 connId),
        (CpfItemType_code ConnectedData, leU16 sequence @ [service, 0, code, 0] @ data)]"

lemma ud_reply_facts:
  assumes "length data \<le> 1000"
  shows "ud_parse ctx connId sequence (ud_reply session ctx connId sequence service code data) =
      Some (service, code, data)"
    and "packet (ud_reply session ctx connId sequence service code data)"
    and "length (ud_reply session ctx connId sequence service code data) = 50 + length data"
proof -
  let ?items = "[(CpfItemType_code ConnectedAddress, leU32 connId),
    (CpfItemType_code ConnectedData, leU16 sequence @ [service, 0, code, 0] @ data)]"
  have small: "cpf_small ?items"
    using assms by (simp add: cpf_small_def)
  have dec: "cpf_decode 2 (cpf_bytes ?items) = Some ?items"
    using cpf_decode_bytes [OF small, of "[]"] by (simp add: numeral_2_eq_2 del: cpf_decode.simps)
  have len: "length (cpf_bytes ?items) = 18 + length data"
    by (simp add: cpf_bytes_def)
  have u: "unat (of_nat (8 + length (cpf_bytes ?items)) :: u16) = 8 + length (cpf_bytes ?items)"
    unfolding len using assms by (simp only: unat_of_nat) simp
  show "ud_parse ctx connId sequence (ud_reply session ctx connId sequence service code data) =
      Some (service, code, data)"
    using dec by (simp add: ud_parse_def ud_reply_def ud_packet_def header.dec_enc Let_def nth_append)
  show "packet (ud_reply session ctx connId sequence service code data)"
    using u by (simp add: packet_def ud_reply_def ud_packet_def header.dec_enc)
  show "length (ud_reply session ctx connId sequence service code data) = 50 + length data"
    using len by (simp add: ud_reply_def ud_packet_def)
qed

definition demo_cn :: cip_connection where
  "demo_cn = Connection_new demo_message (replicate 302 0) (replicate 302 0)"

definition demo_cn_name :: cstring where
  "demo_cn_name = [0x54, 0x61, 0x67]"

definition demo_opened :: "byte list" where
  "demo_opened = rr_reply 9 1 0xD4 0 (leU32 7 @ leU32 42 @ leU16 1 @ leU16 1)"

lemma demo_cn_reach: "cn_reach loopback_os demo_cn (loopback_net now queue)"
  unfolding demo_cn_def demo_message_def by (rule cn_reach.init) simp_all

lemma demo_cn_inv: "cn_inv demo_cn"
  using cn_reach_safe [OF loopback_socket_contract demo_cn_reach] by simp

lemma demo_cn_opens:
  obtains m1 m2 net2 where
    "Connection_open loopback_os 0 9 (Some demo_cn_name) 1000 demo_cn (loopback_net 0 demo_opened) =
      (Pending, m1, loopback_net 0 demo_opened)"
    and "Connection_poll loopback_os m1 (loopback_net 0 demo_opened) = (Ok, m2, net2)"
    and "cn_state m2 = CnOpen" and "cn_otConnId m2 = 7" and "cn_toConnId m2 = 42"
    and "cn_sequence m2 = 1" and "cn_context m2 = 1"
    and "\<And>now queue. cn_reach loopback_os m2 (loopback_net now queue)"
proof -
  obtain st m1 net1 where o: "Connection_open loopback_os 0 9 (Some demo_cn_name) 1000 demo_cn
      (loopback_net 0 demo_opened) = (st, m1, net1)"
    by (metis prod_cases3)
  have fresh: "cn_state demo_cn = CnIdle" "cn_fwd demo_cn = demo_message" "cn_sequence demo_cn = 1"
      "cn_context demo_cn = 1" "em_context demo_message = 1"
    by (simp_all add: demo_cn_def Connection_new_def demo_message_def ExplicitMessage_new_def)
  have rnd: "sys (os_random loopback_os) (loopback_net 0 q) = (7, loopback_net 0 q)" for q
    by (simp add: sys_def)
  have nul: "0 \<notin> set n" if "Some demo_cn_name = Some n" for n
    using that by (auto simp: demo_cn_name_def)
  obtain fwd where o': "st = Pending" "net1 = loopback_net 0 demo_opened"
      "em_started 0 1000 (rr_request 9 1 0x54 cn_reqPath (forward_open_data 7 demo_cn_name)) demo_message fwd"
      "m1 = (cn_opening 7 demo_cn_name demo_cn)\<lparr>cn_fwd := fwd, cn_state := CnOpening\<rparr>"
    by (rule Connection_open_spec [OF demo_cn_inv nul o])
      (auto simp: fresh rnd demo_cn_name_def cn_forwarding_def cn_id_def)
  have r1: "cn_reach loopback_os m1 net1"
    by (rule cn_reach.call [OF demo_cn_reach, where call = "CnOpenTo 0 9 (Some demo_cn_name) 1000"])
      (use o nul in auto)
  have m1: "cn_inv m1" "cn_state m1 = CnOpening" "cn_fwd m1 = fwd" "cn_otConnId m1 = 7" "cn_sequence m1 = 1"
      "cn_context m1 = 1"
    using cn_reach_safe [OF loopback_socket_contract r1] o'(4) fresh by (simp_all add: cn_opening_def)
  have fwd: "em_conn fwd = Some 0" "em_rxLen fwd = 0" "em_deadline fwd = 1000" "em_sentContext fwd = 1"
    using o'(3) fresh(5) by (simp_all add: em_started_def)
  obtain st2 m2 net2 where p: "Connection_poll loopback_os m1 (loopback_net 0 demo_opened) = (st2, m2, net2)"
    by (metis prod_cases3)
  let ?d = "leU32 7 @ leU32 42 @ leU16 1 @ leU16 1"
  have rep: "rr_parse 1 demo_opened = Some (0xD4, 0, ?d)" "packet demo_opened" "length demo_opened = 56"
    unfolding demo_opened_def by (simp_all add: rr_parse_reply)
  have e: "st2 = Ok" "cn_state m2 = CnOpen" "cn_otConnId m2 = 7" "cn_toConnId m2 = 42"
    using Connection_poll_opening_live [OF loopback_stream_contract m1(1,2) _ _ loopback_up _ rep(2) _ _ _ _ _ _ _ p,
        where rest = "[]" and service = "0xD4" and d = ?d] m1 fwd rep
    by (simp_all add: expired_def conn_queue_def)
  have s: "cn_sequence m2 = 1" "cn_context m2 = 1"
    by (cases rule: Connection_poll_opening [OF loopback_socket_contract m1(1,2) p]; use m1 e in simp)+
  have "cn_reach loopback_os m2 net2"
    by (rule cn_reach.call [OF r1, where call = CnPoll]) (use p o'(2) in auto)
  then have "cn_reach loopback_os m2 (loopback_net now queue)" for now queue
    by (rule cn_reach.world) simp
  with o o'(1,2) p e s that show thesis
    by metis
qed


definition demo_answer :: "byte list" where
  "demo_answer = ud_reply 9 1 42 1 0xCC 0 [0xC3, 0, 1, 2, 3, 4]"

lemma demo_cn_sends:
  assumes "cn_state m = CnOpen" and "cn_toConnId m = 42" and "cn_sequence m = 1" and "cn_context m = 1"
    and r: "cn_reach loopback_os m (loopback_net 0 demo_answer)"
  obtains m1 where
    "Connection_send loopback_os 0 9 0x4C (Some demo_path) 6 (Some [1, 0]) 2 1000 m (loopback_net 0 demo_answer) =
      (Pending, m1, loopback_net 0 demo_answer)"
    and "cn_deadline m1 = 1000" and "cn_state m1 = CnSending"
    and "cn_reach loopback_os m1 (loopback_net now queue)"
proof -
  have I: "cn_inv m"
    using cn_reach_safe [OF loopback_socket_contract r] by simp
  obtain st m1 net1 where s: "Connection_send loopback_os 0 9 0x4C (Some demo_path) 6 (Some [1, 0]) 2 1000 m
      (loopback_net 0 demo_answer) = (st, m1, net1)"
    by (metis prod_cases3)
  have p: "st = Pending" "net1 = loopback_net 0 demo_answer" "cn_deadline m1 = 1000" "cn_state m1 = CnSending"
    by (cases rule: Connection_send_spec [OF I demo_args s]; use assms(1) in \<open>simp add: cn_started_def\<close>)+
  have "cn_reach loopback_os m1 net1"
    by (rule cn_reach.call [OF r, where call = "CnSend 0 9 0x4C (Some demo_path) 6 (Some [1, 0]) 2 1000"])
      (use s demo_args in auto)
  then have "cn_reach loopback_os m1 (loopback_net now queue)"
    by (rule cn_reach.world) simp
  with s p that show thesis
    by metis
qed

lemma demo_answer_facts:
  "ud_parse 1 42 1 demo_answer = Some (0xCC, 0, [0xC3, 0, 1, 2, 3, 4])" "packet demo_answer"
  "length demo_answer = 56"
  unfolding demo_answer_def by (simp_all add: ud_reply_facts)

theorem Connection_reachable_safe_witness:
  "\<exists>m. Connection_isOpen m \<and> length (cn_rx m) = 302 \<and> \<not> em_busy (cn_fwd m)"
proof -
  obtain m where m: "cn_state m = CnOpen" "cn_reach loopback_os m (loopback_net 0 [])"
    using demo_cn_opens by metis
  from Connection_reachable_safe [OF loopback_socket_contract m(2)] m(1) show ?thesis
    by (auto simp: Connection_isOpen_def)
qed

theorem Connection_open_delivers_witness:
  "\<exists>net2 :: loopback net. net_sent net2 0 = rr_request 9 1 0x54 cn_reqPath (forward_open_data 7 demo_cn_name)"
proof -
  obtain m1 m2 net2 where o: "Connection_open loopback_os 0 9 (Some demo_cn_name) 1000 demo_cn
      (loopback_net 0 demo_opened) = (Pending, m1, loopback_net 0 demo_opened)"
    and p: "Connection_poll loopback_os m1 (loopback_net 0 demo_opened) = (Ok, m2, net2)" "cn_otConnId m2 = 7"
    using demo_cn_opens by metis
  have "0 \<notin> set demo_cn_name" "em_context (cn_fwd demo_cn) = 1"
    by (simp_all add: demo_cn_name_def demo_cn_def Connection_new_def demo_message_def ExplicitMessage_new_def)
  with Connection_open_delivers [OF loopback_socket_contract demo_cn_inv _ o cn_run.last [OF p(1)]] p(2)
  show ?thesis
    by auto
qed

theorem Connection_send_decides_witness:
  "\<exists>m2. cn_state m2 = CnOpen \<and> take (cn_dataLen m2) (Connection_data m2) = [0xC3, 0, 1, 2, 3, 4]"
proof -
  obtain m where m: "cn_state m = CnOpen" "cn_toConnId m = 42" "cn_sequence m = 1" "cn_context m = 1"
    and r: "cn_reach loopback_os m (loopback_net 0 demo_answer)"
    using demo_cn_opens by metis
  obtain m1 where s: "Connection_send loopback_os 0 9 0x4C (Some demo_path) 6 (Some [1, 0]) 2 1000 m
      (loopback_net 0 demo_answer) = (Pending, m1, loopback_net 0 demo_answer)" "cn_deadline m1 = 1000"
    using demo_cn_sends [OF m r] by metis
  obtain st m2 net3 where p: "Connection_poll loopback_os m1 (loopback_net 0 demo_answer) = (st, m2, net3)"
    by (metis prod_cases3)
  have "cn_inv m"
    using cn_reach_safe [OF loopback_socket_contract r] by simp
  from Connection_send_decides [OF loopback_stream_contract this demo_args s(1) loopback_up _ _ demo_answer_facts(2) _ p,
      where rest = "[]"] s(2) m demo_answer_facts(1,3)
  show ?thesis
    by (intro exI [of _ m2]) (simp add: expired_def conn_queue_def)
qed

theorem Connection_send_delivers_witness:
  "\<exists>net2 :: loopback net. net_sent net2 0 = ud_request 9 1 7 1 0x4C demo_path [1, 0]"
proof -
  obtain m where m: "cn_state m = CnOpen" "cn_toConnId m = 42" "cn_sequence m = 1" "cn_context m = 1"
      "cn_otConnId m = 7" and r: "cn_reach loopback_os m (loopback_net 0 demo_answer)"
    using demo_cn_opens by metis
  obtain m1 where s: "Connection_send loopback_os 0 9 0x4C (Some demo_path) 6 (Some [1, 0]) 2 1000 m
      (loopback_net 0 demo_answer) = (Pending, m1, loopback_net 0 demo_answer)" "cn_deadline m1 = 1000"
    using demo_cn_sends [OF m(1-4) r] by metis
  obtain st m2 net3 where p: "Connection_poll loopback_os m1 (loopback_net 0 demo_answer) = (st, m2, net3)"
    by (metis prod_cases3)
  have I: "cn_inv m"
    using cn_reach_safe [OF loopback_socket_contract r] by simp
  have "st = Ok"
    using cn_poll_decides [OF loopback_stream_contract I demo_args s(1) loopback_up _ _ demo_answer_facts(2) _ p,
        where rest = "[]"] s(2) m demo_answer_facts(1,3)
    by (simp add: expired_def conn_queue_def)
  with p have run: "cn_run loopback_os m1 (loopback_net 0 demo_answer) Ok m2 net3"
    by (auto intro: cn_run.last)
  have "arg_bytes (Some demo_path) 6 = demo_path" "arg_bytes (Some [1, 0]) 2 = [1, 0 :: byte]"
    by (simp_all add: arg_bytes_def)
  with Connection_send_delivers [OF loopback_socket_contract I demo_args s(1) run] m show ?thesis
    by auto
qed

theorem Connection_refines_lifecycle_witness:
  "cn_spec (CnClose 0 9 1000) CnIdle (fst (Connection_close loopback_os 0 9 1000 demo_cn (loopback_net 0 []))) =
    Some CnIdle"
proof -
  obtain st m' net' where c: "Connection_call loopback_os (CnClose 0 9 1000) demo_cn (loopback_net 0 []) = (st, m', net')"
    by (metis prod_cases3)
  have "cn_state demo_cn = CnIdle" "cn_state m' = CnIdle"
    using c by (auto simp: demo_cn_def Connection_new_def Connection_close_def)
  with Connection_refines_lifecycle [OF loopback_socket_contract demo_cn_reach _ c] c show ?thesis
    by simp
qed

theorem Connection_failed_send_strands_witness:
  "\<exists>m net. fst (Connection_poll loopback_os m net) = Timeout \<and> \<not> Connection_isOpen (fst (snd (Connection_poll loopback_os m net)))"
proof -
  obtain m where m: "cn_state m = CnOpen" "cn_toConnId m = 42" "cn_sequence m = 1" "cn_context m = 1"
    and r: "cn_reach loopback_os m (loopback_net 0 demo_answer)"
    using demo_cn_opens by metis
  obtain m1 where s: "cn_deadline m1 = 1000" "cn_state m1 = CnSending" "cn_reach loopback_os m1 (loopback_net 1000 [])"
    using demo_cn_sends [OF m r] by metis
  have p: "Connection_poll loopback_os m1 (loopback_net 1000 []) =
      (Timeout, m1\<lparr>cn_state := CnFailed\<rparr>, loopback_net 1000 [])"
    using Connection_poll_late [OF s(2), of loopback_os "loopback_net 1000 []"] s(1) by (simp add: expired_def)
  from Connection_failed_send_strands [OF loopback_socket_contract s(3,2) p] p show ?thesis
    by (intro exI [of _ m1] exI [of _ "loopback_net 1000 []"]) simp
qed

theorem Connection_reopen_down_witness:
  "\<exists>m. \<exists>net :: loopback net. Connection_isOpen m \<and> cn_toConnId m = 42 \<and>
    cn_toConnId (fst (snd (Connection_open loopback_os 0 9 (Some demo_cn_name) 1000 m net))) = 0"
proof -
  obtain m where m: "cn_state m = CnOpen" "cn_toConnId m = 42" "cn_reach loopback_os m (loopback_net 0 [])"
    using demo_cn_opens by metis
  let ?net = "(loopback_net 0 [])\<lparr>net_tcp := (\<lambda>c. TcpConnection_new)\<rparr>"
  have I: "cn_inv m"
    using cn_reach_safe [OF loopback_socket_contract m(3)] by simp
  obtain st m' net' where o: "Connection_open loopback_os 0 9 (Some demo_cn_name) 1000 m ?net = (st, m', net')"
    by (metis prod_cases3)
  have "\<not> TcpConnection_connected 0 ?net" "0 \<notin> set demo_cn_name" "length demo_cn_name < 64"
    by (simp_all add: TcpConnection_connected_def TcpConnection_new_def demo_cn_name_def)
  with Connection_reopen_down [OF I _ _ _ _ o] m o show ?thesis
    by (intro exI [of _ m] exI [of _ ?net]) (simp add: Connection_isOpen_def)
qed

end
