(* ===== verification/Alive.thy ===== *)
theory Alive
  imports EthClient Session Tag ConnectionSteps
begin

text \<open>
  A poll that ends well leaves the connection up. The last thing such a poll did is a read that
  delivered bytes, and a read only delivers over a connection that is established. The sketches rest
  on this when they start one exchange right after another.
\<close>

subsection \<open>A channel that is up when it delivers\<close>

locale live_channel = channel +
  fixes alive :: "'a \<Rightarrow> bool"
  assumes rd_alive: "valid net \<Longrightarrow> rd len net = ((n, bs), net') \<Longrightarrow> 0 < n \<Longrightarrow> alive net'"
begin

lemma read_loop_alive:
  assumes "valid net" and "l < e" and run: "read_loop rd limit rx l e net = (st, rx', l', e', net')"
  shows "(st = Ok \<longrightarrow> alive net') \<and> (st = Pending \<longrightarrow> l' < e')"
proof -
  define P where "P r k x s \<longleftrightarrow> valid s \<and> (k < x \<or> alive s)" for r :: "byte list" and k x :: nat and s
  define Q where "Q st r k x s \<longleftrightarrow> (st = Ok \<longrightarrow> alive s) \<and> (st = Pending \<longrightarrow> k < x)"
    for st and r :: "byte list" and k x :: nat and s
  have "Q st rx' l' e' net'"
  proof (rule read_loop_rule [OF _ _ _ _ _ _ run, where P = P])
    show "P rx l e net"
      using assms by (simp add: P_def)
  next
    fix r k x s n bs s'
    assume P: "P r k x s" and k: "k < x" and rd: "rd (x - k) s = ((n, bs), s')"
    have v: "valid s'" "0 \<le> n \<or> n \<in> {-1, -5, -6}"
      using rd_law [OF _ rd] P by (auto simp: P_def)
    show "P (poke k bs r) (k + nat n) x s'" "P (poke k bs r) 24 (24 + unat (eh_length (decodeHeader (poke k bs r)))) s'"
      if "0 < n"
      using v rd_alive [OF _ rd that] P by (simp_all add: P_def)
    show "Q Error (poke k bs r) 24 x s'"
      by (simp add: Q_def)
    show "Q (if n = 0 then Pending else Status_cast n) r k x s'" if "n \<le> 0"
      using v(2) k that by (auto simp: Q_def)
  next
    fix r k x s
    assume "P r k x s" and "x \<le> k"
    then show "Q Ok r k x s"
      by (simp add: P_def Q_def)
  qed
  then show ?thesis
    by (simp add: Q_def)
qed

end

lemma conn_read_connected:
  assumes "conn_read os (Some c) len net = ((n, bs), net')" and "0 < n"
  shows "TcpConnection_connected c net'"
  using assms
  by (auto simp: conn_read_def TcpConnection_read_def TcpConnection_connected_def Let_def sys_def
      split: if_splits prod.splits recv_result.splits)

interpretation tcp_live: live_channel "conn_write os (Some c)" "conn_read os (Some c)"
    "\<lambda>_. socket_contract os" "conn_out (Some c)" "conn_in (Some c)" "TcpConnection_connected c" for os c
  by unfold_locales (rule conn_read_connected)

subsection \<open>The session\<close>

definition ses_awaits :: "session \<Rightarrow> bool" where
  "ses_awaits s \<longleftrightarrow> ses_rxLen s < ses_rxExpected s"

lemma Session_open_awaits:
  "Session_open os c t s net = (Pending, s', net') \<Longrightarrow>
    ses_awaits s' \<and> ses_state s' = SesRegistering \<and> ses_conn s' = Some c"
  by (auto simp: Session_open_def Session_startRegister_def ses_awaits_def Let_def split: if_splits prod.splits)

lemma Session_poll_awaits:
  assumes C: "socket_contract os" and "ses_state s = SesRegistering" and "ses_conn s = Some c" and A: "ses_awaits s"
    and run: "Session_poll os s net = (st, s', net')"
  shows "(st = Ok \<longrightarrow> TcpConnection_connected c net') \<and> (ses_state s' = SesRegistering \<longrightarrow> ses_awaits s') \<and>
    ses_conn s' = Some c \<and>
    (st = Ok \<and> ses_state s' = SesRegistered \<or> st \<noteq> Ok \<and> ses_state s' \<in> {SesRegistering, SesFailed})"
proof -
  obtain now net0 where m: "millis os net = (now, net0)" by fastforce
  obtain st1 k net1 where w: "write_loop (conn_write os (Some c)) (ses_tx s) (ses_txLen s) (ses_txSent s) net0 =
      (st1, k, net1)"
    by (metis prod_cases3)
  obtain st2 rx l e net2 where r: "read_loop (conn_read os (Some c)) ses_kMaxBodySize (ses_rx s) (ses_rxLen s)
      (ses_rxExpected s) net1 = (st2, rx, l, e, net2)"
    by (metis prod_cases5)
  have "(st2 = Ok \<longrightarrow> TcpConnection_connected c net2) \<and> (st2 = Pending \<longrightarrow> l < e)"
    using tcp_live.read_loop_alive [OF C _ r] A by (simp add: ses_awaits_def)
  with assms(2,3) A run m w r show ?thesis
    by (auto simp: Session_poll_def Session_pollRegistering_def Session_writePending_def Session_readResponse_def
        ses_awaits_def Let_def split: if_splits)
qed


subsection \<open>Messages and tags\<close>

definition em_awaits :: "conn_ref \<Rightarrow> explicit_message \<Rightarrow> bool" where
  "em_awaits c m \<longleftrightarrow> (em_busy m \<longrightarrow> em_conn m = Some c \<and> em_rxLen m < em_rxExpected m)"

lemma ExplicitMessage_send_awaits:
  assumes "ExplicitMessage_send os c h service path pathLen data dataLen timeoutMs m net = (st, m', net')"
    and "em_awaits c m"
  shows "em_awaits c m' \<and> net_tcp net' = net_tcp net"
  using assms
  by (auto simp: ExplicitMessage_send_def em_awaits_def em_busy_def millis_def Let_def split: if_splits prod.splits)

lemma ExplicitMessage_poll_awaits:
  assumes C: "socket_contract os" and A: "em_awaits c m" and B: "em_busy m"
    and run: "ExplicitMessage_poll os m net = (st, m', net')"
  shows "em_awaits c m' \<and> (st = Ok \<longrightarrow> TcpConnection_connected c net')"
proof -
  have c: "em_conn m = Some c" "em_rxLen m < em_rxExpected m"
    using A B by (simp_all add: em_awaits_def)
  obtain now net0 where m: "millis os net = (now, net0)" by fastforce
  obtain st1 k net1 where w: "write_loop (conn_write os (Some c)) (em_tx m) (em_txLen m) (em_txSent m) net0 =
      (st1, k, net1)"
    by (metis prod_cases3)
  obtain st2 rx l e net2 where r: "read_loop (conn_read os (Some c)) (16 + em_kMaxCipData) (em_rx m) (em_rxLen m)
      (em_rxExpected m) net1 = (st2, rx, l, e, net2)"
    by (metis prod_cases5)
  have a: "(st2 = Ok \<longrightarrow> TcpConnection_connected c net2) \<and> (st2 = Pending \<longrightarrow> l < e)"
    using tcp_live.read_loop_alive [OF C _ r] c by simp
  obtain st3 m3 where p: "ExplicitMessage_parseResponse
      (m\<lparr>em_txSent := k, em_state := EmReceiving, em_rx := rx, em_rxLen := l, em_rxExpected := e\<rparr>) = (st3, m3)"
    by fastforce
  have run: "(st, m', net') =
      (if expired now (em_deadline m) then (Timeout, m\<lparr>em_state := EmFailed\<rparr>, net0)
       else if st1 \<noteq> Ok
       then (st1, if st1 \<noteq> Pending then m\<lparr>em_txSent := k, em_state := EmFailed\<rparr> else m\<lparr>em_txSent := k\<rparr>, net1)
       else if st2 = Pending
       then (Pending, m\<lparr>em_txSent := k, em_state := EmReceiving, em_rx := rx, em_rxLen := l, em_rxExpected := e\<rparr>, net2)
       else if st2 \<noteq> Ok
       then (st2, m\<lparr>em_txSent := k, em_state := EmFailed, em_rx := rx, em_rxLen := l, em_rxExpected := e\<rparr>, net2)
       else (st3, m3\<lparr>em_state := (if st3 = Ok then EmDone else EmFailed)\<rparr>, net2))"
    using run B m w r c p
    by (auto simp: ExplicitMessage_poll_def ExplicitMessage_writePending_def ExplicitMessage_readResponse_def em_busy_def)
  then show ?thesis
    using a c by (auto simp: em_awaits_def em_busy_def split: if_splits)
qed

text \<open>A tag waits for the message it was started with.\<close>

lemma Tag_read_awaits:
  assumes "Tag_read os c h name n timeoutMs t msg net = (st, t', msg', net')" and "em_awaits c msg"
  shows "em_awaits c msg' \<and> net_tcp net' = net_tcp net"
proof -
  have "msg' = msg \<and> net' = net \<or>
      (\<exists>st0 path pathLen data dataLen. ExplicitMessage_send os c h (TagService_code TsRead) path pathLen data
         dataLen timeoutMs msg net = (st0, msg', net'))"
    using assms(1) by (fastforce simp: Tag_read_def Tag_startRead_def Let_def split: option.splits if_splits prod.splits)
  with assms(2) show ?thesis
    by (auto dest: ExplicitMessage_send_awaits)
qed

lemma Tag_write_awaits:
  assumes "Tag_write os c h name n timeoutMs t msg net = (st, t', msg', net')" and "em_awaits c msg"
  shows "em_awaits c msg' \<and> net_tcp net' = net_tcp net"
proof -
  have "msg' = msg \<and> net' = net \<or>
      (\<exists>st0 path pathLen data dataLen. ExplicitMessage_send os c h (TagService_code TsWrite) path pathLen data
         dataLen timeoutMs msg net = (st0, msg', net'))"
    using assms(1)
    by (fastforce simp: Tag_write_def Tag_startWrite_def Let_def split: option.splits if_splits prod.splits)
  with assms(2) show ?thesis
    by (auto dest: ExplicitMessage_send_awaits)
qed

lemma Tag_poll_awaits:
  assumes C: "socket_contract os" and A: "em_awaits c msg" and B: "em_busy msg" and W: "tag_waiting t"
    and run: "Tag_poll os t msg net = (st, t', msg', net')"
  shows "em_awaits c msg' \<and> (st = Ok \<longrightarrow> TcpConnection_connected c net')"
proof -
  obtain st0 where p: "ExplicitMessage_poll os msg net = (st0, msg', net')"
    and "tag_finish st0 msg' t = (st, t')"
    using run by (auto simp: Tag_poll_finish [OF W] split: prod.splits)
  moreover from this(2) have "st = Ok \<longrightarrow> st0 = Ok"
    by (auto dest: tag_finish_Ok)
  ultimately show ?thesis
    using ExplicitMessage_poll_awaits [OF C A B p] by blast
qed

subsection \<open>Connections\<close>

definition cn_awaits :: "conn_ref \<Rightarrow> cip_connection \<Rightarrow> bool" where
  "cn_awaits c m \<longleftrightarrow>
     em_awaits c (cn_fwd m) \<and>
     (cn_state m = CnSending \<longrightarrow> cn_conn m = Some c \<and> cn_rxLen m < cn_rxExpected m)"

lemma Connection_poll_awaits:
  assumes C: "socket_contract os" and I: "cn_inv m" and A: "cn_awaits c m"
    and B: "cn_state m = CnSending \<or> cn_forwarding m"
    and run: "Connection_poll os m net = (st, m', net')"
  shows "cn_awaits c m' \<and> (st = Ok \<longrightarrow> TcpConnection_connected c net')"
proof (cases "cn_state m = CnSending")
  case False
  with B have F: "cn_state m = CnOpening \<or> cn_state m = CnClosing"
    by (simp add: cn_forwarding_def)
  then have busy: "em_busy (cn_fwd m)"
    using I by (auto simp: cn_inv_def cn_forwarding_def)
  obtain st0 fwd net1 where p: "ExplicitMessage_poll os (cn_fwd m) net = (st0, fwd, net1)"
    by (metis prod_cases3)
  have "em_awaits c fwd \<and> (st0 = Ok \<longrightarrow> TcpConnection_connected c net1)"
    using ExplicitMessage_poll_awaits [OF C _ busy p] A by (simp add: cn_awaits_def)
  with run F p A False show ?thesis
    by (auto simp: Connection_poll_def Connection_pollOpening_def Connection_pollClosing_def cn_awaits_def Let_def
        split: if_splits)
next
  case True
  then have c: "cn_conn m = Some c" "cn_rxLen m < cn_rxExpected m"
    using A by (simp_all add: cn_awaits_def)
  obtain now net0 where m: "millis os net = (now, net0)" by fastforce
  obtain st1 k net1 where w: "write_loop (conn_write os (Some c)) (cn_tx m) (cn_txLen m) (cn_txSent m) net0 =
      (st1, k, net1)"
    by (metis prod_cases3)
  obtain st2 rx l e net2 where r: "read_loop (conn_read os (Some c)) (22 + cn_kMaxDataSize) (cn_rx m) (cn_rxLen m)
      (cn_rxExpected m) net1 = (st2, rx, l, e, net2)"
    by (metis prod_cases5)
  have a: "(st2 = Ok \<longrightarrow> TcpConnection_connected c net2) \<and> (st2 = Pending \<longrightarrow> l < e)"
    using tcp_live.read_loop_alive [OF C _ r] c by simp
  let ?m2 = "m\<lparr>cn_txSent := k, cn_rx := rx, cn_rxLen := l, cn_rxExpected := e\<rparr>"
  obtain st3 m3 where p: "Connection_parseConnectedResponse ?m2 = (st3, m3)" by fastforce
  have f: "cn_fwd m3 = cn_fwd m"
    using p by (auto simp: Connection_parseConnectedResponse_def Let_def split: if_splits option.splits prod.splits)
  have run: "(st, m', net') =
      (if expired now (cn_deadline m) then (Timeout, m\<lparr>cn_state := CnFailed\<rparr>, net0)
       else if st1 \<noteq> Ok
       then (st1, if st1 \<noteq> Pending then m\<lparr>cn_txSent := k, cn_state := CnFailed\<rparr> else m\<lparr>cn_txSent := k\<rparr>, net1)
       else if st2 = Pending then (Pending, ?m2, net2)
       else if st2 \<noteq> Ok then (st2, ?m2\<lparr>cn_state := CnFailed\<rparr>, net2)
       else (st3, m3\<lparr>cn_state := (if st3 = Ok then CnOpen else CnFailed)\<rparr>, net2))"
    using run True m w r c p
    by (auto simp: Connection_poll_def Connection_pollSending_def Connection_writePending_def
        Connection_readResponse_def)
  then show ?thesis
    using a c A f by (auto simp: cn_awaits_def split: if_splits)
qed

lemma Connection_open_awaits:
  assumes "Connection_open os c h tagName t m net = (st, m', net')" and "cn_awaits c m"
  shows "cn_awaits c m' \<and> net_tcp net' = net_tcp net"
proof -
  obtain r net1 where s: "sys (os_random os) net = (r, net1)" by fastforce
  have "m' = m \<and> net' = net \<or>
      (\<exists>st0 path pathLen data dataLen. ExplicitMessage_send os c h 0x54 path pathLen data dataLen t (cn_fwd m) net1 =
         (st0, cn_fwd m', net')) \<and> cn_state m' \<in> {cn_state m, CnOpening} \<and> cn_state m \<noteq> CnSending"
    using assms(1) s
    by (fastforce simp: Connection_open_def Connection_startOpen_def Let_def split: option.splits if_splits prod.splits)
  moreover have "net_tcp net1 = net_tcp net"
    using s by (auto simp: sys_def split: prod.splits)
  ultimately show ?thesis
    using assms(2) ExplicitMessage_send_awaits by (fastforce simp: cn_awaits_def)
qed

lemma Connection_close_awaits:
  assumes "Connection_close os c h t m net = (st, m', net')" and "cn_awaits c m"
  shows "cn_awaits c m' \<and> net_tcp net' = net_tcp net"
proof -
  have "m' = m \<and> net' = net \<or>
      (\<exists>st0 path pathLen data dataLen. ExplicitMessage_send os c h 0x4E path pathLen data dataLen t (cn_fwd m) net =
         (st0, cn_fwd m', net')) \<and> cn_state m' \<in> {CnOpen, CnClosing}"
    using assms(1)
    by (fastforce simp: Connection_close_def Connection_startClose_def Let_def split: if_splits prod.splits)
  then show ?thesis
    using assms(2) ExplicitMessage_send_awaits by (fastforce simp: cn_awaits_def)
qed

lemma Connection_send_awaits:
  assumes "Connection_send os c h service path pathLen data dataLen t m net = (st, m', net')" and "cn_awaits c m"
  shows "cn_awaits c m' \<and> net_tcp net' = net_tcp net"
  using assms
  by (auto simp: Connection_send_def Connection_startSend_def cn_awaits_def millis_def Let_def
      split: if_splits prod.splits)

end
