(* ===== verification/Sketch.thy ===== *)
theory Sketch
  imports Alive PlcInv
begin

text \<open>
  What the sketches \<open>EipSession\<close>, \<open>IdentityQuery\<close>, \<open>TagReadWrite\<close> and \<open>ConnectedTagReadWrite\<close>
  of \<open>src/examples\<close> have in common, which is their code but for the working phase: they bring
  Ethernet up, connect, open a session, work, close the session, wait and begin again. The record
  \<open>sketch\<close> holds the globals all four have, and each extends it with its own. The fourth phase is
  \<open>Registered\<close>, \<open>Query\<close>, \<open>TagOps\<close> or \<open>ConnOps\<close> in the sources. The serial
  output of these phases and the delays change nothing and are left out.
\<close>

definition LOCAL_IP :: IPAddress where "LOCAL_IP = (192, 168, 1, 50)"
definition LOCAL_GATEWAY :: IPAddress where "LOCAL_GATEWAY = (192, 168, 1, 1)"
definition LOCAL_SUBNET :: IPAddress where "LOCAL_SUBNET = (255, 255, 255, 0)"
definition LOCAL_DNS :: IPAddress where "LOCAL_DNS = (192, 168, 1, 1)"
definition TARGET_IP :: IPAddress where "TARGET_IP = (192, 168, 1, 2)"
definition TARGET_PORT :: u16 where "TARGET_PORT = 44818"
definition CONNECT_TIMEOUT_MS :: u32 where "CONNECT_TIMEOUT_MS = 5000"
definition sk_SESSION_TIMEOUT_MS :: u32 where "sk_SESSION_TIMEOUT_MS = 5000"
definition RETRY_DELAY_MS :: u32 where "RETRY_DELAY_MS = 5000"

text \<open>The characters of a string literal.\<close>

definition chars :: "string \<Rightarrow> cstring" where
  "chars s = map of_char s"

lemma length_chars [simp]: "length (chars s) = length s"
  by (simp add: chars_def)

datatype SketchPhase =
  SkWaitEthernet | SkConnect | SkOpenSession | SkWork | SkCloseSession | SkRetryWait

record sketch =
  sk_eth :: client
  sk_cfg :: client_config
  sk_conn :: conn_ref
  sk_session :: session
  sk_phase :: SketchPhase
  sk_phaseStarted :: u32

definition Sketch_setup ::
  "'w os \<Rightarrow> 'w eth \<Rightarrow> 'a sketch_scheme \<Rightarrow> 'w net \<Rightarrow> 'a sketch_scheme \<times> 'w net" where
  "Sketch_setup os eth s net =
     (let cfg = (sk_cfg s)\<lparr>cfg_ip := LOCAL_IP, cfg_gateway := LOCAL_GATEWAY,
                           cfg_subnet := LOCAL_SUBNET, cfg_dns := LOCAL_DNS\<rparr>
      in case Client_begin eth cfg (sk_eth s) net of (st, cl, net1) \<Rightarrow>
           (case millis os net1 of (now, net2) \<Rightarrow>
              (s\<lparr>sk_cfg := cfg, sk_eth := cl, sk_phase := (if st = Error then SkRetryWait else sk_phase s),
                 sk_phaseStarted := now\<rparr>, net2)))"

definition Sketch_waitEthernet ::
  "'w os \<Rightarrow> 'w eth \<Rightarrow> 'a sketch_scheme \<Rightarrow> 'w net \<Rightarrow> 'a sketch_scheme \<times> 'w net" where
  "Sketch_waitEthernet os eth s net =
     (case Client_poll eth (sk_eth s) net of (st, cl, net1) \<Rightarrow>
        (let s1 = s\<lparr>sk_eth := cl\<rparr> in
         if st = Ok then
           (case TcpConnection_connect os (sk_conn s1) TARGET_IP TARGET_PORT CONNECT_TIMEOUT_MS net1 of (st2, net2) \<Rightarrow>
              (case millis os net2 of (now, net3) \<Rightarrow>
                 (s1\<lparr>sk_phase := SkConnect, sk_phaseStarted := now\<rparr>, net3)))
         else if st = Error then
           (case Client_begin eth (sk_cfg s1) (sk_eth s1) net1 of (st2, cl2, net2) \<Rightarrow>
              (case millis os net2 of (now, net3) \<Rightarrow>
                 (s1\<lparr>sk_eth := cl2, sk_phaseStarted := now\<rparr>, net3)))
         else (s1, net1)))"

definition Sketch_retry :: "'w os \<Rightarrow> 'a sketch_scheme \<Rightarrow> 'w net \<Rightarrow> 'a sketch_scheme \<times> 'w net" where
  "Sketch_retry os s net =
     (case millis os net of (now, net1) \<Rightarrow> (s\<lparr>sk_phase := SkRetryWait, sk_phaseStarted := now\<rparr>, net1))"

definition Sketch_connect :: "'w os \<Rightarrow> 'a sketch_scheme \<Rightarrow> 'w net \<Rightarrow> 'a sketch_scheme \<times> 'w net" where
  "Sketch_connect os s net =
     (case TcpConnection_poll os (sk_conn s) net of (st, net1) \<Rightarrow>
        if st = Ok then
          (case Session_open os (sk_conn s) sk_SESSION_TIMEOUT_MS (sk_session s) net1 of (st2, ses, net2) \<Rightarrow>
             (case millis os net2 of (now, net3) \<Rightarrow>
                (s\<lparr>sk_session := ses, sk_phase := SkOpenSession, sk_phaseStarted := now\<rparr>, net3)))
        else if st = Timeout \<or> st = Error then Sketch_retry os s net1
        else (s, net1))"

text \<open>\<open>opened\<close> is what the sketch does when the session is registered.\<close>

definition Sketch_openSession ::
  "'w os \<Rightarrow> ('a sketch_scheme \<Rightarrow> 'w net \<Rightarrow> 'a sketch_scheme \<times> 'w net) \<Rightarrow> 'a sketch_scheme \<Rightarrow> 'w net
     \<Rightarrow> 'a sketch_scheme \<times> 'w net" where
  "Sketch_openSession os opened s net =
     (case Session_poll os (sk_session s) net of (st, ses, net1) \<Rightarrow>
        (let s1 = s\<lparr>sk_session := ses\<rparr> in
         if st = Ok then
           (case opened s1 net1 of (s2, net2) \<Rightarrow>
              (case millis os net2 of (now, net3) \<Rightarrow>
                 (s2\<lparr>sk_phase := SkWork, sk_phaseStarted := now\<rparr>, net3)))
         else if st = Timeout \<or> st = Error then Sketch_retry os s1 net1
         else (s1, net1)))"

definition Sketch_closeSession :: "'w os \<Rightarrow> 'a sketch_scheme \<Rightarrow> 'w net \<Rightarrow> 'a sketch_scheme \<times> 'w net" where
  "Sketch_closeSession os s net =
     (case Session_poll os (sk_session s) net of (st, ses, net1) \<Rightarrow>
        (let s1 = s\<lparr>sk_session := ses\<rparr> in
         if st = Ok then Sketch_retry os s1 (TcpConnection_close os (sk_conn s1) net1)
         else if st = Timeout \<or> st = Error
         then Sketch_retry os (s1\<lparr>sk_session := Session_abort ses\<rparr>) (TcpConnection_close os (sk_conn s1) net1)
         else (s1, net1)))"

definition Sketch_retryWait :: "'w os \<Rightarrow> 'a sketch_scheme \<Rightarrow> 'w net \<Rightarrow> 'a sketch_scheme \<times> 'w net" where
  "Sketch_retryWait os s net =
     (let s1 = s\<lparr>sk_session := Session_abort (sk_session s)\<rparr>;
          net1 = TcpConnection_close os (sk_conn s1) net
      in case millis os net1 of (now, net2) \<Rightarrow>
           if RETRY_DELAY_MS \<le> now - sk_phaseStarted s1 then
             (case millis os net2 of (now2, net3) \<Rightarrow>
                (s1\<lparr>sk_phase := SkWaitEthernet, sk_phaseStarted := now2\<rparr>, net3))
           else (s1, net2))"

subsection \<open>The invariant of the session\<close>

definition ses_openable :: "session \<Rightarrow> bool" where
  "ses_openable ses \<longleftrightarrow> ses_state ses \<noteq> SesRegistering \<and> ses_state ses \<noteq> SesRegistered"

text \<open>The phase of the sketch and the state of its session agree.\<close>

definition sketch_phase :: "SketchPhase \<Rightarrow> conn_ref \<Rightarrow> session \<Rightarrow> bool" where
  "sketch_phase p c ses \<longleftrightarrow>
     (case p of
        SkWaitEthernet \<Rightarrow> ses_openable ses
      | SkConnect \<Rightarrow> ses_openable ses
      | SkOpenSession \<Rightarrow> ses_conn ses = Some c \<and>
          (ses_state ses = SesRegistering \<and> ses_awaits ses \<or> ses_state ses = SesFailed)
      | SkWork \<Rightarrow> ses_conn ses = Some c \<and> ses_state ses = SesRegistered
      | SkCloseSession \<Rightarrow> ses_state ses = SesUnregistering \<or> ses_state ses = SesFailed
      | SkRetryWait \<Rightarrow> True)"

definition sketch_inv :: "'a sketch_scheme \<Rightarrow> 'w net \<Rightarrow> bool" where
  "sketch_inv s net \<longleftrightarrow>
     Session_inv (sk_session s) \<and> sketch_phase (sk_phase s) (sk_conn s) (sk_session s) \<and> \<not> net_fault net"

text \<open>The phases a turn of \<open>loop()\<close> leads to.\<close>

inductive sketch_spec :: "SketchPhase \<Rightarrow> SketchPhase \<Rightarrow> bool" where
  stay: "sketch_spec p p"
| link: "sketch_spec SkWaitEthernet SkConnect"
| up: "sketch_spec SkConnect SkOpenSession"
| registered: "sketch_spec SkOpenSession SkWork"
| finished: "sketch_spec SkWork SkCloseSession"
| failed: "p \<in> {SkConnect, SkOpenSession, SkWork, SkCloseSession} \<Longrightarrow> sketch_spec p SkRetryWait"
| again: "sketch_spec SkRetryWait SkWaitEthernet"


subsection \<open>What a working phase owes\<close>

text \<open>
  The rest of a sketch: \<open>K\<close> is what holds of its own globals and of the connection while it works,
  and \<open>J\<close> what holds of its globals in the other phases. The working phase stays, gives up, or closes
  the session.
\<close>

locale sketch_client =
  fixes os :: "'w os" and eth :: "'w eth"
    and loop :: "'a sketch_scheme \<Rightarrow> 'w net \<Rightarrow> 'a sketch_scheme \<times> 'w net"
    and opened :: "'a sketch_scheme \<Rightarrow> 'w net \<Rightarrow> 'a sketch_scheme \<times> 'w net"
    and work :: "'a sketch_scheme \<Rightarrow> 'w net \<Rightarrow> 'a sketch_scheme \<times> 'w net"
    and J :: "'a sketch_scheme \<Rightarrow> bool"
    and K :: "'a sketch_scheme \<Rightarrow> 'w net \<Rightarrow> bool"
  assumes loop_cases: "loop s net =
     (case sk_phase s of
        SkWaitEthernet \<Rightarrow> Sketch_waitEthernet os eth s net
      | SkConnect \<Rightarrow> Sketch_connect os s net
      | SkOpenSession \<Rightarrow> Sketch_openSession os opened s net
      | SkWork \<Rightarrow> work s net
      | SkCloseSession \<Rightarrow> Sketch_closeSession os s net
      | SkRetryWait \<Rightarrow> Sketch_retryWait os s net)"
    and J_contract: "J s \<Longrightarrow> socket_contract os"
    and J_cong: "J s \<Longrightarrow> sketch.more s' = sketch.more s \<Longrightarrow> J s'"
    and K_cong: "K s net \<Longrightarrow> sketch.more s' = sketch.more s \<Longrightarrow> sk_conn s' = sk_conn s \<Longrightarrow>
      sk_session s' = sk_session s \<Longrightarrow> only_os net net' \<Longrightarrow> K s' net'"
    and opened_law: "J s \<Longrightarrow> Session_registered (sk_session s) \<Longrightarrow>
      TcpConnection_connected (sk_conn s) net \<Longrightarrow> opened s net = (s', net') \<Longrightarrow>
      K s' net' \<and> sketch.truncate s' = sketch.truncate s \<and> net_fault net' = net_fault net"
    and work_law: "sketch_inv s net \<Longrightarrow> sk_phase s = SkWork \<Longrightarrow>
      K s net \<Longrightarrow> work s net = (s', net') \<Longrightarrow>
      sk_conn s' = sk_conn s \<and> net_fault net' = net_fault net \<and>
      (sk_phase s' = SkWork \<and> sk_session s' = sk_session s \<and> K s' net' \<or>
       sk_phase s' = SkRetryWait \<and> sk_session s' = sk_session s \<and> J s' \<or>
       sk_phase s' = SkCloseSession \<and> sk_session s' = snd (Session_close (sk_session s)) \<and> J s')"

definition sketch_good ::
  "('a sketch_scheme \<Rightarrow> bool) \<Rightarrow> ('a sketch_scheme \<Rightarrow> 'w net \<Rightarrow> bool) \<Rightarrow> 'a sketch_scheme \<Rightarrow> 'w net \<Rightarrow> bool" where
  "sketch_good J K s net \<longleftrightarrow>
     sketch_inv s net \<and>
     (if sk_phase s = SkWork then K s net else J s)"

text \<open>Turns of \<open>loop()\<close>, with any change of the outside world before each.\<close>

inductive sketch_reach ::
  "('s \<Rightarrow> 'w net \<Rightarrow> 's \<times> 'w net) \<Rightarrow> 's \<Rightarrow> 'w net \<Rightarrow> 's \<Rightarrow> 'w net \<Rightarrow> bool" for loop s0 net0 where
  start: "sketch_reach loop s0 net0 s0 net0"
| turn: "sketch_reach loop s0 net0 s net \<Longrightarrow> loop s net = (s', net') \<Longrightarrow> sketch_reach loop s0 net0 s' net'"
| world: "sketch_reach loop s0 net0 s net \<Longrightarrow> sketch_reach loop s0 net0 s (net\<lparr>net_os := w\<rparr>)"

lemma millis_only_os: "millis os net = (now, net') \<Longrightarrow> only_os net net'"
  by (auto simp: millis_def intro: only_os_sys)

lemma exchange_only_os: "only_os net net' \<Longrightarrow> exchange c a b tx n rx k net' = exchange c a b tx n rx k net"
  by (simp add: exchange_def conn_out_def conn_in_def only_os_def split: option.splits)

lemma Session_close_registered:
  assumes "Session_inv ses" and "ses_state ses = SesRegistered"
  shows "Session_inv (snd (Session_close ses)) \<and> ses_state (snd (Session_close ses)) = SesUnregistering"
  using Session_close_inv [OF assms(1), of "fst (Session_close ses)" "snd (Session_close ses)"] assms(2)
  by (simp add: Session_close_def Session_startUnregister_def Let_def)

lemma Sketch_retry_simp:
  "Sketch_retry os s net = (s', net') \<Longrightarrow>
    \<exists>now. s' = s\<lparr>sk_phase := SkRetryWait, sk_phaseStarted := now\<rparr> \<and> only_os net net'"
  using millis_only_os by (fastforce simp: Sketch_retry_def split: prod.splits)

text \<open>
  A socket that could not be opened: \<open>connect()\<close> fails at once, and \<open>poll()\<close> then says
  \<open>Closed\<close>, which the connect phase does not know.
\<close>

lemma TcpConnection_connect_failed:
  assumes "TcpConnection_connect os c ip port t net = (st, net')" and "st \<noteq> Pending"
  shows "tcp_fd (net_tcp net' c) < 0"
  using assms
  by (auto simp: TcpConnection_connect_def TcpConnection_close_def sys_def Let_def split: if_splits prod.splits)

lemma Sketch_connect_no_socket:
  assumes "tcp_fd (net_tcp net (sk_conn s)) < 0"
  shows "Sketch_connect os s net = (s, net)"
  using assms by (simp add: Sketch_connect_def TcpConnection_poll_def)

lemma Sketch_waitEthernet_up:
  assumes "Client_poll eth (sk_eth s) net = (Ok, cl, net1)"
    and "TcpConnection_connect os (sk_conn s) TARGET_IP TARGET_PORT CONNECT_TIMEOUT_MS net1 = (st, net2)"
    and "Sketch_waitEthernet os eth s net = (s', net')"
  shows "sk_phase s' = SkConnect \<and> sk_conn s' = sk_conn s \<and> net_tcp net' = net_tcp net2"
  using assms by (auto simp: Sketch_waitEthernet_def Let_def millis_def dest: sys_net split: prod.splits)

text \<open>The phases that wait for the device end at the deadline.\<close>

lemma Session_poll_expired:
  assumes "ses_state ses = SesRegistering \<or> ses_state ses = SesUnregistering" and "millis os net = (now, net0)"
    and "expired now (ses_deadline ses)"
  shows "Session_poll os ses net = (Timeout, ses\<lparr>ses_state := SesFailed\<rparr>, net0)"
  using assms by (auto simp: Session_poll_def Session_pollRegistering_def Session_pollUnregistering_def)

lemma Sketch_retry_phase: "Sketch_retry os s net = (s', net') \<Longrightarrow> sk_phase s' = SkRetryWait"
  by (auto simp: Sketch_retry_def split: prod.splits)

context sketch_client
begin

lemma J_iff: "sketch.more s' = sketch.more s \<Longrightarrow> J s' \<longleftrightarrow> J s"
  using J_cong by metis

lemma J_base:
  "J (s\<lparr>sk_eth := a\<rparr>) = J s" "J (s\<lparr>sk_session := b\<rparr>) = J s" "J (s\<lparr>sk_phase := p\<rparr>) = J s"
  "J (s\<lparr>sk_phaseStarted := n\<rparr>) = J s"
  by (rule J_iff, simp)+

lemma K_step:
  assumes "K s net" and "only_os net net'"
  shows "K (s\<lparr>sk_phase := p, sk_phaseStarted := n\<rparr>) net'"
  by (rule K_cong [OF assms(1) _ _ _ assms(2)]) simp_all

lemma waitEthernet_good:
  assumes G: "sketch_good J K s net" and p: "sk_phase s = SkWaitEthernet" and run: "loop s net = (s', net')"
  shows "sketch_good J K s' net' \<and> sketch_spec (sk_phase s) (sk_phase s')"
proof -
  obtain st cl net1 where e: "Client_poll eth (sk_eth s) net = (st, cl, net1)"
    by (metis prod_cases3)
  obtain st2 net2 where c: "TcpConnection_connect os (sk_conn s) TARGET_IP TARGET_PORT CONNECT_TIMEOUT_MS net1 =
      (st2, net2)"
    by fastforce
  obtain st3 cl2 net3 where b: "Client_begin eth (sk_cfg s) cl net1 = (st3, cl2, net3)"
    by (metis prod_cases3)
  obtain now2 net2' now3 net3' where m: "millis os net2 = (now2, net2')" "millis os net3 = (now3, net3')"
    by (metis prod.collapse)
  note f = Client_poll_only_os [OF e] TcpConnection_connect_fault [OF c] Client_begin_only_os [OF b]
    millis_fault [OF m(1)] millis_fault [OF m(2)]
  have "s' = s\<lparr>sk_eth := cl, sk_phase := SkConnect, sk_phaseStarted := now2\<rparr> \<and> net' = net2' \<or>
      s' = s\<lparr>sk_eth := cl2, sk_phaseStarted := now3\<rparr> \<and> net' = net3' \<or> s' = s\<lparr>sk_eth := cl\<rparr> \<and> net' = net1"
    using run p e c b m by (auto simp: loop_cases Sketch_waitEthernet_def Let_def split: if_splits)
  with G p f show ?thesis
    by (auto simp: J_base sketch_good_def sketch_inv_def sketch_phase_def only_os_def intro: sketch_spec.intros)
qed

lemma connect_good:
  assumes G: "sketch_good J K s net" and p: "sk_phase s = SkConnect" and run: "loop s net = (s', net')"
  shows "sketch_good J K s' net' \<and> sketch_spec (sk_phase s) (sk_phase s')"
proof -
  obtain st net1 where t: "TcpConnection_poll os (sk_conn s) net = (st, net1)" by fastforce
  obtain st2 ses net2 where o: "Session_open os (sk_conn s) sk_SESSION_TIMEOUT_MS (sk_session s) net1 = (st2, ses, net2)"
    by (metis prod_cases3)
  obtain now net3 where m: "millis os net2 = (now, net3)" by fastforce
  have I: "Session_inv (sk_session s)" "ses_openable (sk_session s)" "\<not> net_fault net"
    using G p by (simp_all add: sketch_good_def sketch_inv_def sketch_phase_def)
  note f = TcpConnection_poll_fault [OF t] Session_open_fault [OF o] millis_fault [OF m]
  show ?thesis
  proof (cases "st = Ok")
    case True
    then have up: "TcpConnection_connected (sk_conn s) net1"
      using t by (auto simp: TcpConnection_poll_def TcpConnection_connected_def Let_def split: if_splits prod.splits)
    then have st2: "st2 = Pending"
      using o I(2) by (auto simp: Session_open_def ses_openable_def Session_startRegister_def Let_def split: prod.splits)
    from run p t o m True
    have "s' = s\<lparr>sk_session := ses, sk_phase := SkOpenSession, sk_phaseStarted := now\<rparr>" "net' = net3"
      by (auto simp: loop_cases Sketch_connect_def)
    with G p f Session_open_inv [OF I(1) o] Session_open_awaits [OF o [unfolded st2]] show ?thesis
      by (auto simp: J_base sketch_good_def sketch_inv_def sketch_phase_def intro: sketch_spec.intros)
  next
    case False
    then have "Sketch_retry os s net1 = (s', net') \<or> s' = s \<and> net' = net1"
      using run p t by (auto simp: loop_cases Sketch_connect_def split: if_splits)
    with G p f show ?thesis
      by (auto dest!: Sketch_retry_simp simp: J_base sketch_good_def sketch_inv_def sketch_phase_def only_os_def
          intro: sketch_spec.intros)
  qed
qed

lemma openSession_good:
  assumes G: "sketch_good J K s net" and p: "sk_phase s = SkOpenSession" and run: "loop s net = (s', net')"
  shows "sketch_good J K s' net' \<and> sketch_spec (sk_phase s) (sk_phase s')"
proof -
  obtain st ses net1 where e: "Session_poll os (sk_session s) net = (st, ses, net1)"
    by (metis prod_cases3)
  let ?s1 = "s\<lparr>sk_session := ses\<rparr>"
  obtain s2 net2 where o: "opened ?s1 net1 = (s2, net2)" by fastforce
  obtain now net3 where m: "millis os net2 = (now, net3)" by fastforce
  have I: "Session_inv (sk_session s)" "\<not> net_fault net" "J s"
    and P: "ses_conn (sk_session s) = Some (sk_conn s)"
      "ses_state (sk_session s) = SesRegistering \<and> ses_awaits (sk_session s) \<or> ses_state (sk_session s) = SesFailed"
    using G p by (simp_all add: sketch_good_def sketch_inv_def sketch_phase_def)
  have C: "socket_contract os"
    using I(3) by (rule J_contract)
  note f = Session_poll_inv [OF C I(1) e] Session_poll_fault [OF I(1) e]
  have S: "(st = Ok \<longrightarrow> TcpConnection_connected (sk_conn s) net1 \<and> ses_state ses = SesRegistered) \<and>
      ses_conn ses = Some (sk_conn s) \<and>
      (st \<noteq> Ok \<longrightarrow> ses_state ses = SesRegistering \<and> ses_awaits ses \<or> ses_state ses = SesFailed)"
    using P Session_poll_awaits [OF C _ P(1) _ e] e by auto
  show ?thesis
  proof (cases "st = Ok")
    case True
    with S have S1: "ses_state ses = SesRegistered" "TcpConnection_connected (sk_conn s) net1"
      "ses_conn ses = Some (sk_conn s)"
      by simp_all
    have "s' = s2\<lparr>sk_phase := SkWork, sk_phaseStarted := now\<rparr>" "net' = net3"
      using run p e o m True by (auto simp: loop_cases Sketch_openSession_def Let_def)
    moreover have "K s2 net2"
      "sketch.truncate s2 = sketch.truncate ?s1" "net_fault net2 = net_fault net1"
      using opened_law [OF _ _ _ o] I(3) S1 by (simp_all add: J_base Session_registered_def)
    moreover from this(2) have "sk_conn s2 = sk_conn s" "sk_session s2 = ses"
      by (simp_all add: sketch.defs)
    moreover have "net_fault net3 = net_fault net2"
      using millis_only_os [OF m] by (simp add: only_os_def)
    ultimately show ?thesis
      using f S1 p I K_step [OF _ millis_only_os [OF m]]
      by (simp add: J_base sketch_good_def sketch_inv_def sketch_phase_def sketch_spec.intros)
  next
    case False
    then have "Sketch_retry os ?s1 net1 = (s', net') \<or> s' = ?s1 \<and> net' = net1"
      using run p e by (auto simp: loop_cases Sketch_openSession_def Let_def split: if_splits)
    with I f S False p show ?thesis
      by (auto dest!: Sketch_retry_simp simp: J_base sketch_good_def sketch_inv_def sketch_phase_def only_os_def
          intro: sketch_spec.intros)
  qed
qed

lemma closeSession_good:
  assumes G: "sketch_good J K s net" and p: "sk_phase s = SkCloseSession" and run: "loop s net = (s', net')"
  shows "sketch_good J K s' net' \<and> sketch_spec (sk_phase s) (sk_phase s')"
proof -
  obtain st ses net1 where e: "Session_poll os (sk_session s) net = (st, ses, net1)"
    by (metis prod_cases3)
  have I: "Session_inv (sk_session s)" "\<not> net_fault net" "J s"
    and P: "ses_state (sk_session s) = SesUnregistering \<or> ses_state (sk_session s) = SesFailed"
    using G p by (simp_all add: sketch_good_def sketch_inv_def sketch_phase_def)
  have C: "socket_contract os"
    using I(3) by (rule J_contract)
  note f = Session_poll_inv [OF C I(1) e] Session_poll_fault [OF I(1) e]
  have S: "st = Ok \<or> ses_state ses = SesUnregistering \<or> ses_state ses = SesFailed"
    using P Session_poll_unregistering_cases [OF C I(1) _ e] e by auto
  have "Sketch_retry os (s\<lparr>sk_session := ses\<rparr>) (TcpConnection_close os (sk_conn s) net1) = (s', net') \<or>
      Sketch_retry os (s\<lparr>sk_session := Session_abort ses\<rparr>) (TcpConnection_close os (sk_conn s) net1) = (s', net') \<or>
      st \<noteq> Ok \<and> s' = s\<lparr>sk_session := ses\<rparr> \<and> net' = net1"
    using run p e by (auto simp: loop_cases Sketch_closeSession_def Let_def split: if_splits)
  with I f S p Session_abort_inv [OF f(1)] show ?thesis
    by (auto dest!: Sketch_retry_simp simp: J_base sketch_good_def sketch_inv_def sketch_phase_def only_os_def
        intro: sketch_spec.intros)
qed

lemma retryWait_good:
  assumes G: "sketch_good J K s net" and p: "sk_phase s = SkRetryWait" and run: "loop s net = (s', net')"
  shows "sketch_good J K s' net' \<and> sketch_spec (sk_phase s) (sk_phase s')"
proof -
  obtain now net2 where m: "millis os (TcpConnection_close os (sk_conn s) net) = (now, net2)" by fastforce
  obtain now2 net3 where m2: "millis os net2 = (now2, net3)" by fastforce
  let ?a = "Session_abort (sk_session s)"
  have "s' = s\<lparr>sk_session := ?a, sk_phase := SkWaitEthernet, sk_phaseStarted := now2\<rparr> \<and> net' = net3 \<or>
      s' = s\<lparr>sk_session := ?a\<rparr> \<and> net' = net2"
    using run p m m2 by (auto simp: loop_cases Sketch_retryWait_def Let_def split: if_splits)
  moreover have "ses_openable ?a" "Session_inv ?a"
    using G by (simp_all add: ses_openable_def Session_abort_def sketch_good_def sketch_inv_def
        Session_abort_inv [unfolded Session_abort_def])
  ultimately show ?thesis
    using G p millis_only_os [OF m] millis_only_os [OF m2]
    by (auto simp: J_base sketch_good_def sketch_inv_def sketch_phase_def only_os_def intro: sketch_spec.intros)
qed

lemma work_good:
  assumes G: "sketch_good J K s net" and p: "sk_phase s = SkWork" and run: "loop s net = (s', net')"
  shows "sketch_good J K s' net' \<and> sketch_spec (sk_phase s) (sk_phase s')"
proof -
  have w: "work s net = (s', net')"
    using run p by (simp add: loop_cases)
  have I: "sketch_inv s net" "K s net"
    using G p by (simp_all add: sketch_good_def)
  have R: "Session_inv (sk_session s)" "ses_state (sk_session s) = SesRegistered"
    "ses_conn (sk_session s) = Some (sk_conn s)" "\<not> net_fault net"
    using I(1) p by (simp_all add: sketch_inv_def sketch_phase_def)
  from work_law [OF I(1) p I(2) w] R Session_close_registered [OF R(1,2)] p show ?thesis
    by (auto simp: J_base sketch_good_def sketch_inv_def sketch_phase_def intro: sketch_spec.intros)
qed

lemma loop_good:
  assumes "sketch_good J K s net" and "loop s net = (s', net')"
  shows "sketch_good J K s' net' \<and> sketch_spec (sk_phase s) (sk_phase s')"
  using waitEthernet_good [OF assms(1) _ assms(2)] connect_good [OF assms(1) _ assms(2)]
    openSession_good [OF assms(1) _ assms(2)] work_good [OF assms(1) _ assms(2)]
    closeSession_good [OF assms(1) _ assms(2)] retryWait_good [OF assms(1) _ assms(2)]
  by (cases "sk_phase s") blast+

lemma reach_good:
  assumes "sketch_good J K s0 net0" and "sketch_reach loop s0 net0 s net"
  shows "sketch_good J K s net"
  using assms(2)
proof (induction rule: sketch_reach.induct)
  case (turn s net s' net')
  then show ?case using loop_good by blast
next
  case (world s net w)
  moreover have "only_os net (net\<lparr>net_os := w\<rparr>)"
    by (simp add: only_os_def)
  ultimately show ?case
    using K_cong [of s net s "net\<lparr>net_os := w\<rparr>"] by (simp add: sketch_good_def sketch_inv_def)
qed (rule assms(1))


text \<open>No wait for the device outlasts its deadline.\<close>

lemma deadlines:
  assumes G: "sketch_good J K s net" and run: "loop s net = (s', net')" and m: "millis os net = (now, net0)"
  shows "(sk_phase s = SkOpenSession \<longrightarrow> ses_state (sk_session s) = SesFailed \<or> expired now (ses_deadline (sk_session s)) \<longrightarrow>
       sk_phase s' = SkRetryWait) \<and>
    (sk_phase s = SkCloseSession \<longrightarrow> ses_state (sk_session s) = SesFailed \<or> expired now (ses_deadline (sk_session s)) \<longrightarrow>
       sk_phase s' = SkRetryWait \<and> tcp_fd (net_tcp net' (sk_conn s)) < 0)"
proof (intro conjI impI)
  assume p: "sk_phase s = SkOpenSession"
    and e: "ses_state (sk_session s) = SesFailed \<or> expired now (ses_deadline (sk_session s))"
  have "ses_state (sk_session s) = SesRegistering \<or> ses_state (sk_session s) = SesFailed"
    using G p by (auto simp: sketch_good_def sketch_inv_def sketch_phase_def)
  then obtain st ses net1 where "Session_poll os (sk_session s) net = (st, ses, net1)" "st = Timeout \<or> st = Error"
    using Session_poll_expired [OF _ m, of "sk_session s"] e by (metis Session_poll_idle(4))
  then show "sk_phase s' = SkRetryWait"
    using run p by (auto simp: loop_cases Sketch_openSession_def Let_def dest: Sketch_retry_phase)
next
  assume p: "sk_phase s = SkCloseSession"
    and e: "ses_state (sk_session s) = SesFailed \<or> expired now (ses_deadline (sk_session s))"
  have "ses_state (sk_session s) = SesUnregistering \<or> ses_state (sk_session s) = SesFailed"
    using G p by (auto simp: sketch_good_def sketch_inv_def sketch_phase_def)
  then obtain st ses net1 where q: "Session_poll os (sk_session s) net = (st, ses, net1)" "st = Timeout \<or> st = Error"
    using Session_poll_expired [OF _ m, of "sk_session s"] e by (metis Session_poll_idle(4))
  then have r: "Sketch_retry os (s\<lparr>sk_session := Session_abort ses\<rparr>) (TcpConnection_close os (sk_conn s) net1) = (s', net')"
    using run p by (auto simp: loop_cases Sketch_closeSession_def Let_def)
  then show "sk_phase s' = SkRetryWait"
    by (rule Sketch_retry_phase)
  from Sketch_retry_simp [OF r] show "tcp_fd (net_tcp net' (sk_conn s)) < 0"
    by (auto simp: only_os_def TcpConnection_close_def Let_def)
qed

text \<open>A failed connect strands the sketch.\<close>

lemma connect_stranded:
  assumes "sk_phase s = SkWaitEthernet" and "Client_poll eth (sk_eth s) net = (Ok, cl, net1)"
    and c: "TcpConnection_connect os (sk_conn s) TARGET_IP TARGET_PORT CONNECT_TIMEOUT_MS net1 = (st, net2)" "st \<noteq> Pending"
    and run: "loop s net = (s1, net3)" and later: "sketch_reach loop s1 net3 s' net'"
  shows "s' = s1 \<and> sk_phase s' = SkConnect"
proof -
  have w: "Sketch_waitEthernet os eth s net = (s1, net3)"
    using run assms(1) by (simp add: loop_cases)
  have s1: "sk_phase s1 = SkConnect" "tcp_fd (net_tcp net3 (sk_conn s1)) < 0"
    using Sketch_waitEthernet_up [OF assms(2) c(1) w] TcpConnection_connect_failed [OF c] by simp_all
  have "s' = s1 \<and> net_tcp net' = net_tcp net3"
    using later
  proof (induction rule: sketch_reach.induct)
    case (turn s2 n2 s3 n3)
    with s1 show ?case
      by (simp add: loop_cases Sketch_connect_no_socket)
  qed simp_all
  with s1(1) show ?thesis
    by simp
qed

end

lemma Sketch_setup_good:
  assumes "Sketch_setup os eth s net = (s', net')" and "Session_inv (sk_session s)" and "ses_openable (sk_session s)"
    and "sk_phase s = SkWaitEthernet" and "\<not> net_fault net" and "J s"
    and "\<And>s s'. J s \<Longrightarrow> sketch.more s' = sketch.more s \<Longrightarrow> J s'"
  shows "sketch_good J K s' net'"
proof -
  let ?cfg = "(sk_cfg s)\<lparr>cfg_ip := LOCAL_IP, cfg_gateway := LOCAL_GATEWAY,
      cfg_subnet := LOCAL_SUBNET, cfg_dns := LOCAL_DNS\<rparr>"
  obtain st cl net1 where b: "Client_begin eth ?cfg (sk_eth s) net = (st, cl, net1)"
    by (metis prod_cases3)
  obtain now net2 where m: "millis os net1 = (now, net2)" by fastforce
  from assms b m Client_begin_only_os [OF b] millis_only_os [OF m] show ?thesis
    by (auto simp: Sketch_setup_def Let_def sketch_good_def sketch_inv_def sketch_phase_def only_os_def
        split: if_splits)
qed

text \<open>The phases but the fourth leave a sketch's own globals to \<open>opened\<close>.\<close>

lemma Sketch_more:
  "Sketch_waitEthernet os eth s net = (s', net') \<Longrightarrow> sketch.more s' = sketch.more s"
  "Sketch_retry os s net = (s', net') \<Longrightarrow> sketch.more s' = sketch.more s"
  "Sketch_connect os s net = (s', net') \<Longrightarrow> sketch.more s' = sketch.more s"
  "Sketch_closeSession os s net = (s', net') \<Longrightarrow> sketch.more s' = sketch.more s"
  "Sketch_retryWait os s net = (s', net') \<Longrightarrow> sketch.more s' = sketch.more s"
  by (auto simp: Sketch_waitEthernet_def Sketch_retry_def Sketch_connect_def Sketch_closeSession_def
      Sketch_retryWait_def Let_def split: if_splits prod.splits)

lemma Sketch_openSession_more:
  assumes "Sketch_openSession os opened s net = (s', net')"
  obtains "sketch.more s' = sketch.more s"
  | ses net1 s2 net2 where "opened (s\<lparr>sk_session := ses\<rparr>) net1 = (s2, net2)" "sketch.more s' = sketch.more s2"
proof -
  obtain st ses net1 where e: "Session_poll os (sk_session s) net = (st, ses, net1)"
    by (metis prod_cases3)
  obtain s2 net2 where o: "opened (s\<lparr>sk_session := ses\<rparr>) net1 = (s2, net2)" by fastforce
  show thesis
    using assms e o that(1) that(2) [OF o]
    by (auto simp: Sketch_openSession_def Let_def dest: Sketch_more(2) split: if_splits prod.splits)
qed

text \<open>A turn of the wait leaves nothing open.\<close>

lemma Sketch_retryWait_idle:
  "Sketch_retryWait os s net = (s', net') \<Longrightarrow>
    ses_state (sk_session s') = SesClosed \<and> tcp_fd (net_tcp net' (sk_conn s')) < 0"
  by (auto simp: Sketch_retryWait_def Session_abort_def TcpConnection_close_def Let_def millis_def put_tcp_def
      dest: sys_net split: if_splits prod.splits)

subsection \<open>An example: up to a registered session\<close>

lemma demo_sketch_setup:
  assumes "sk_eth s = Client_new 0"
  obtains s0 where "Sketch_setup loopback_os demo_eth s (loopback_net 0 []) = (s0, loopback_net 0 [])"
    and "sk_phase s0 = sk_phase s" and "sk_session s0 = sk_session s" and "sk_conn s0 = sk_conn s"
    and "sketch.more s0 = sketch.more s" and "cl_started (sk_eth s0)" and "\<not> cl_failed (sk_eth s0)"
  using assms
  by (simp add: Sketch_setup_def Client_begin_def demo_eth_def Client_new_def sys_def eth_act_def Let_def)

lemma demo_sketch_link:
  assumes "sk_phase s = SkWaitEthernet" and "cl_started (sk_eth s)" and "\<not> cl_failed (sk_eth s)"
    and "Sketch_waitEthernet loopback_os demo_eth s net = (s', net')"
  shows "sk_phase s' = SkConnect \<and> sk_session s' = sk_session s \<and> sk_conn s' = sk_conn s \<and>
    sketch.more s' = sketch.more s \<and> net_os net' = net_os net \<and> tcp_fd (net_tcp net' (sk_conn s)) = 3"
  using assms
  by (auto simp: Sketch_waitEthernet_def Client_poll_def demo_eth_def sys_def TcpConnection_connect_def
      TcpConnection_close_def TARGET_IP_def TARGET_PORT_def IPAddress_any_def millis_def Let_def put_tcp_def
      loopback_os_def split: if_splits)


lemma demo_sketch_connect:
  assumes "sk_phase s = SkConnect" and "sk_session s = demo_session" and "tcp_fd (net_tcp net (sk_conn s)) = 3"
    and "Sketch_connect loopback_os s net = (s', net')"
  shows "sk_phase s' = SkOpenSession \<and> sk_conn s' = sk_conn s \<and> sketch.more s' = sketch.more s \<and>
    net_os net' = net_os net \<and> conn_up (Some (sk_conn s)) net' \<and> ses_conn (sk_session s') = Some (sk_conn s) \<and>
    Session_inv (sk_session s') \<and> ses_state (sk_session s') = SesRegistering \<and> ses_rxLen (sk_session s') = 0 \<and>
    ses_awaits (sk_session s') \<and> ses_deadline (sk_session s') = lb_now (net_os net) + 5000"
proof -
  obtain st net1 where p: "TcpConnection_poll loopback_os (sk_conn s) net = (st, net1)" by fastforce
  have up: "st = Ok" "conn_up (Some (sk_conn s)) net1" "net_os net1 = net_os net"
    using p assms(3)
    by (auto simp: TcpConnection_poll_def sys_def conn_up_def Let_def split: if_splits)
  obtain st2 ses net2 where o: "Session_open loopback_os (sk_conn s) sk_SESSION_TIMEOUT_MS demo_session net1 =
      (st2, ses, net2)"
    by (metis prod_cases3)
  have c: "TcpConnection_connected (sk_conn s) net1"
    using up(2) by (simp add: conn_up_def TcpConnection_connected_def)
  have st2: "st2 = Pending" "net2 = net1"
    using o c by (auto simp: Session_open_def demo_session_def Session_new_def Session_startRegister_def Let_def)
  note g = Session_open_registering [OF demo_session_inv o [unfolded st2]]
  have aw: "ses_awaits ses" "ses_rxLen ses = 0"
    using o c by (auto simp: Session_open_def demo_session_def Session_new_def Session_startRegister_def Let_def
        ses_awaits_def)
  have "s' = s\<lparr>sk_session := ses, sk_phase := SkOpenSession, sk_phaseStarted := lb_now (net_os net)\<rparr>" "net' = net1"
    using assms(2,4) p o up st2 by (auto simp: Sketch_connect_def)
  with g aw up show ?thesis
    by (auto simp: sk_SESSION_TIMEOUT_MS_def)
qed

lemma demo_sketch_registers:
  assumes "ses_state ses = SesRegistering" and "Session_inv ses" and "ses_conn ses = Some c" and "ses_awaits ses"
    and "ses_rxLen ses = 0" and "conn_up (Some c) net" and "ses_deadline ses = 5000"
    and "net_os net = \<lparr> lb_now = 0, lb_random = 7, lb_queue = demo_reply \<rparr>"
    and run: "Session_poll loopback_os ses net = (st, ses', net')"
  shows "st = Ok \<and> ses_state ses' = SesRegistered \<and> ses_handle ses' = 0x13572468 \<and> conn_up (Some c) net'"
proof -
  have "st = Ok \<and> ses_state ses' = SesRegistered \<and> ses_handle ses' = 0x13572468 \<and>
      ses_conn ses' = ses_conn ses \<and> conn_queue (\<lambda>w fd. lb_queue w) (ses_conn ses) net' = []"
    by (rule Session_poll_registers [OF loopback_stream_contract assms(2,1) _ _ demo_reply_registers _ _ run])
      (use assms in \<open>simp_all add: expired_def conn_queue_def\<close>)
  moreover from this have "TcpConnection_connected c net'"
    using Session_poll_awaits [OF loopback_socket_contract assms(1,3,4) run] by simp
  moreover have "0 \<le> tcp_fd (net_tcp net' c)"
    using Session_poll_frame [OF assms(2) run] assms(3,6) by (auto simp: conn_frame_def conn_up_def)
  ultimately show ?thesis
    by (simp add: conn_up_def TcpConnection_connected_def)
qed

text \<open>The world in which a packet has arrived.\<close>

definition demo_world :: "byte list \<Rightarrow> loopback" where
  "demo_world queue = \<lparr> lb_now = 0, lb_random = 7, lb_queue = queue \<rparr>"

lemma demo_sketch:
  fixes s :: "'a sketch_scheme"
  assumes client: "sketch_client loopback_os demo_eth loop opened work J K"
    and "sk_eth s = Client_new 0" and "sk_session s = demo_session" and "sk_phase s = SkWaitEthernet"
  obtains s0 s2 net2 ses net3 where
    "Sketch_setup loopback_os demo_eth s (loopback_net 0 []) = (s0, loopback_net 0 [])"
    "sketch_reach loop s0 (loopback_net 0 []) s2 net2" "sk_phase s2 = SkOpenSession" "sk_conn s2 = sk_conn s"
    "sketch.more s2 = sketch.more s" "Session_poll loopback_os (sk_session s2) net2 = (Ok, ses, net3)"
    "ses_state ses = SesRegistered" "ses_handle ses = 0x13572468" "conn_up (Some (sk_conn s)) net3"
proof -
  note loop_cases = sketch_client.loop_cases [OF client]
  let ?n = "loopback_net 0 []"
  obtain s0 where s0: "Sketch_setup loopback_os demo_eth s ?n = (s0, ?n)" "sk_phase s0 = SkWaitEthernet"
    "sk_session s0 = demo_session" "sk_conn s0 = sk_conn s" "sketch.more s0 = sketch.more s"
    "cl_started (sk_eth s0)" "\<not> cl_failed (sk_eth s0)"
    using demo_sketch_setup [OF assms(2)] assms(3,4) by metis
  obtain s1 n1 where r1: "loop s0 ?n = (s1, n1)" by fastforce
  have s1: "sk_phase s1 = SkConnect" "sk_session s1 = demo_session" "sk_conn s1 = sk_conn s"
    "sketch.more s1 = sketch.more s" "net_os n1 = net_os ?n" "tcp_fd (net_tcp n1 (sk_conn s)) = 3"
    using demo_sketch_link [of s0 ?n s1 n1] r1 s0 by (simp_all add: loop_cases)
  obtain s2 n2 where r2: "loop s1 n1 = (s2, n2)" by fastforce
  have s2: "sk_phase s2 = SkOpenSession" "sk_conn s2 = sk_conn s" "sketch.more s2 = sketch.more s"
    "conn_up (Some (sk_conn s)) n2" "ses_conn (sk_session s2) = Some (sk_conn s)" "Session_inv (sk_session s2)"
    "ses_state (sk_session s2) = SesRegistering" "ses_rxLen (sk_session s2) = 0" "ses_awaits (sk_session s2)"
    "ses_deadline (sk_session s2) = 5000"
    using demo_sketch_connect [of s1 n1 s2 n2] r2 s1 by (simp_all add: loop_cases)
  let ?n2 = "n2\<lparr>net_os := demo_world demo_reply\<rparr>"
  have "sketch_reach loop s0 ?n s1 n1"
    using sketch_reach.start r1 by (rule sketch_reach.turn)
  then have "sketch_reach loop s0 ?n s2 n2"
    using r2 by (rule sketch_reach.turn)
  then have reach: "sketch_reach loop s0 ?n s2 ?n2"
    by (rule sketch_reach.world)
  obtain st ses n3 where p: "Session_poll loopback_os (sk_session s2) ?n2 = (st, ses, n3)"
    by (metis prod_cases3)
  have "st = Ok \<and> ses_state ses = SesRegistered \<and> ses_handle ses = 0x13572468 \<and> conn_up (Some (sk_conn s)) n3"
    by (rule demo_sketch_registers [OF s2(7,6,5,9,8) _ s2(10) _ p])
      (use s2(4) in \<open>simp_all add: conn_up_def demo_world_def\<close>)
  with that [OF s0(1) reach s2(1-3)] p show thesis
    by blast
qed

end
