(* ===== verification/LanInventory.thy ===== *)
theory LanInventory
  imports Sketch
begin

text \<open>
  The sketch \<open>src/examples/LanInventory/LanInventory.ino\<close>: it probes every host of the subnet on
  the EtherNet/IP port and, for each that answers, opens a session, reads the eight attributes of
  the Identity object and the tag \<open>ControllerInfo.Mode\<close>, prints them, and goes on. It composes
  the Ethernet client, a socket, a session, a message and a tag without \<open>PlcClient\<close>. What it
  prints of a device is a record in \<open>lan_reports\<close>; its other output and its delays change
  nothing and are left out. Its addresses (\<open>LOCAL_IP\<close> and so on) are those of the other sketches.
\<close>

unbundle bit_operations_syntax

definition EIP_PORT :: u16 where "EIP_PORT = 44818"
definition SCAN_TIMEOUT_MS :: u32 where "SCAN_TIMEOUT_MS = 100"
definition SESSION_TIMEOUT_MS :: u32 where "SESSION_TIMEOUT_MS = 1000"
definition MESSAGE_TIMEOUT_MS :: u32 where "MESSAGE_TIMEOUT_MS = 1000"

record lan_identity =
  id_vendor :: u16
  id_deviceType :: u16
  id_productCode :: u16
  id_revMajor :: byte
  id_revMinor :: byte
  id_status :: u16
  id_serial :: u32
  id_productName :: "byte list"
  id_state :: byte

definition Identity_new :: lan_identity where
  "Identity_new =
     \<lparr> id_vendor = 0, id_deviceType = 0, id_productCode = 0, id_revMajor = 0, id_revMinor = 0,
       id_status = 0, id_serial = 0, id_productName = replicate 64 0, id_state = 0 \<rparr>"

definition kIdentityAttrs :: "byte list" where
  "kIdentityAttrs =
     [kIdentityVendorId, kIdentityDeviceType, kIdentityProductCode, kIdentityRevision,
      kIdentityStatus, kIdentitySerialNumber, kIdentityProductName, kIdentityState]"

definition kIdentityAttrCount :: nat where
  "kIdentityAttrCount = length kIdentityAttrs"

datatype LanPhase =
  LanWaitEthernet | LanScan | LanConnect | LanRegister | LanQuery | LanClose | LanDone

fun identityState :: "byte \<Rightarrow> string" where
  "identityState state =
     (if state = 0 then ''nonexistent/unknown'' else if state = 1 then ''self-testing''
      else if state = 2 then ''standby'' else if state = 3 then ''operational''
      else if state = 4 then ''major recoverable fault''
      else if state = 5 then ''major unrecoverable fault''
      else if state = 6 then ''communication fault'' else if state = 7 then ''unconfigured''
      else ''unknown'')"

fun modeName :: "int \<Rightarrow> string" where
  "modeName mode =
     (if mode = 0 then ''PROGRAM'' else if mode = 1 then ''RUN''
      else if mode = 2 then ''TEST/REMOTE'' else ''UNKNOWN'')"

text \<open>What \<open>printDevice()\<close> prints: the run switch, or the CIP result when it was not read.\<close>

datatype lan_run_switch = RunSwitch string int | RunSwitchUnavailable byte

record lan_report =
  rep_ip :: IPAddress
  rep_identity :: lan_identity
  rep_state :: string
  rep_run :: lan_run_switch

record lan_sketch =
  lan_eth :: client
  lan_cfg :: client_config
  lan_tcp :: conn_ref
  lan_session :: session
  lan_msg :: explicit_message
  lan_tag :: tag
  lan_phase :: LanPhase
  lan_phaseStarted :: u32
  lan_network :: IPAddress
  lan_broadcast :: IPAddress
  lan_currentIp :: IPAddress
  lan_found :: int
  lan_queryIndex :: nat
  lan_stepStarted :: bool
  lan_id :: lan_identity
  lan_reports :: "lan_report list"

definition LanInventory_new ::
  "int \<Rightarrow> conn_ref \<Rightarrow> session \<Rightarrow> explicit_message \<Rightarrow> tag \<Rightarrow> lan_sketch" where
  "LanInventory_new ETH_PHY_W5500 tcp ses msg t =
     \<lparr> lan_eth = Client_new ETH_PHY_W5500, lan_cfg = Config_default ETH_PHY_W5500, lan_tcp = tcp,
       lan_session = ses, lan_msg = msg, lan_tag = t, lan_phase = LanWaitEthernet,
       lan_phaseStarted = 0, lan_network = IPAddress_any, lan_broadcast = IPAddress_any,
       lan_currentIp = IPAddress_any, lan_found = 0, lan_queryIndex = 0, lan_stepStarted = False,
       lan_id = Identity_new, lan_reports = [] \<rparr>"

subsection \<open>Addresses\<close>

definition ip_octets :: "IPAddress \<Rightarrow> byte list" where
  "ip_octets ip = (case ip of (a, b, c, d) \<Rightarrow> [a, b, c, d])"

definition ip_of :: "byte list \<Rightarrow> IPAddress" where
  "ip_of bs = (bs ! 0, bs ! 1, bs ! 2, bs ! 3)"

text \<open>The loop of \<open>nextHost\<close>, from octet \<open>i - 1\<close> down.\<close>

fun next_octet :: "nat \<Rightarrow> byte list \<Rightarrow> bool \<times> byte list" where
  "next_octet 0 ip = (False, ip)"
| "next_octet (Suc i) ip =
     (if ip ! i < 255 then (True, ip[i := ip ! i + 1]) else next_octet i (ip[i := 0]))"

definition nextHost :: "IPAddress \<Rightarrow> bool \<times> IPAddress" where
  "nextHost ip = (case next_octet 4 (ip_octets ip) of (ok, bs) \<Rightarrow> (ok, ip_of bs))"

definition ip_network :: "IPAddress \<Rightarrow> IPAddress \<Rightarrow> IPAddress" where
  "ip_network ip netmask = ip_of (map2 (AND) (ip_octets ip) (ip_octets netmask))"

definition ip_broadcast :: "IPAddress \<Rightarrow> IPAddress \<Rightarrow> IPAddress" where
  "ip_broadcast ip netmask = ip_of (map2 (\<lambda>i m. i OR NOT m) (ip_octets ip) (ip_octets netmask))"

subsection \<open>setup()\<close>

definition LanInventory_setup :: "'w os \<Rightarrow> 'w eth \<Rightarrow> lan_sketch \<Rightarrow> 'w net \<Rightarrow> lan_sketch \<times> 'w net" where
  "LanInventory_setup os eth l net =
     (let cfg = (lan_cfg l)\<lparr>cfg_ip := LOCAL_IP, cfg_gateway := LOCAL_GATEWAY,
                            cfg_subnet := LOCAL_SUBNET, cfg_dns := LOCAL_DNS\<rparr>
      in case Client_begin eth cfg (lan_eth l) net of (st, cl, net1) \<Rightarrow>
           (case millis os net1 of (now, net2) \<Rightarrow>
              (l\<lparr>lan_cfg := cfg, lan_eth := cl,
                 lan_phase := (if st = Error then LanDone else lan_phase l),
                 lan_phaseStarted := now\<rparr>, net2)))"

subsection \<open>Queries\<close>

text \<open>\<open>ControllerInfo.Mode\<close>\<close>

definition lan_mode_tag :: cstring where
  "lan_mode_tag = [0x43, 0x6F, 0x6E, 0x74, 0x72, 0x6F, 0x6C, 0x6C, 0x65, 0x72, 0x49, 0x6E, 0x66, 0x6F,
     0x2E, 0x4D, 0x6F, 0x64, 0x65]"

definition LanInventory_startQuery :: "'w os \<Rightarrow> lan_sketch \<Rightarrow> 'w net \<Rightarrow> lan_sketch \<times> 'w net" where
  "LanInventory_startQuery os l net =
     (if lan_queryIndex l < kIdentityAttrCount then
        (let attr = kIdentityAttrs ! lan_queryIndex l;
             (path1, n1) = appendClass 0 1 (replicate 4 0);
             (path2, n2) = appendInstance n1 1 path1;
             pl = n1 + n2;
             (data, n3) = appendAttribute 0 attr (replicate 2 0)
         in case ExplicitMessage_send os (lan_tcp l) (ses_handle (lan_session l))
                   (Service_code GetAttributeSingle) (Some path2) (of_nat pl) (Some data) 2
                   MESSAGE_TIMEOUT_MS (lan_msg l) net of
              (st, msg, net1) \<Rightarrow> (l\<lparr>lan_msg := msg, lan_stepStarted := (st = Pending)\<rparr>, net1))
      else
        (case Tag_read os (lan_tcp l) (ses_handle (lan_session l)) (Some lan_mode_tag) 1
                MESSAGE_TIMEOUT_MS (lan_tag l) (lan_msg l) net of
           (st, t, msg, net1) \<Rightarrow>
             (l\<lparr>lan_tag := t, lan_msg := msg, lan_stepStarted := (st = Pending)\<rparr>, net1)))"

text \<open>What an attribute's reply does to the identity.\<close>

definition identity_attr :: "byte \<Rightarrow> byte list \<Rightarrow> nat \<Rightarrow> lan_identity \<Rightarrow> lan_identity" where
  "identity_attr attr d n i =
     (if attr = kIdentityVendorId then (if 2 \<le> n then i\<lparr>id_vendor := getU16 d\<rparr> else i)
      else if attr = kIdentityDeviceType then (if 2 \<le> n then i\<lparr>id_deviceType := getU16 d\<rparr> else i)
      else if attr = kIdentityProductCode then (if 2 \<le> n then i\<lparr>id_productCode := getU16 d\<rparr> else i)
      else if attr = kIdentityRevision
      then (if 2 \<le> n then i\<lparr>id_revMajor := d ! 0, id_revMinor := d ! 1\<rparr> else i)
      else if attr = kIdentityStatus then (if 2 \<le> n then i\<lparr>id_status := getU16 d\<rparr> else i)
      else if attr = kIdentitySerialNumber then (if 4 \<le> n then i\<lparr>id_serial := getU32 d\<rparr> else i)
      else if attr = kIdentityProductName
      then (if 0 < n
            then (let c = (if n < 64 - 1 then n else 64 - 1)
                  in i\<lparr>id_productName := poke c [0] (poke 0 (take c d) (id_productName i))\<rparr>)
            else i)
      else if attr = kIdentityState then (if 1 \<le> n then i\<lparr>id_state := d ! 0\<rparr> else i)
      else i)"

definition LanInventory_printDevice :: "lan_sketch \<Rightarrow> lan_report" where
  "LanInventory_printDevice l =
     \<lparr> rep_ip = lan_currentIp l, rep_identity = lan_id l, rep_state = identityState (id_state (lan_id l)),
       rep_run =
         (if 4 \<le> tag_dataLen (lan_tag l)
          then (let mode = sint (getU32 (tag_data (lan_tag l))) in RunSwitch (modeName mode) mode)
          else RunSwitchUnavailable (tag_resultCode (lan_tag l))) \<rparr>"

definition LanInventory_finishQuery :: "'w os \<Rightarrow> lan_sketch \<Rightarrow> 'w net \<Rightarrow> lan_sketch \<times> 'w net" where
  "LanInventory_finishQuery os l net =
     (let l1 = (if lan_queryIndex l < kIdentityAttrCount
                then l\<lparr>lan_id := identity_attr (kIdentityAttrs ! lan_queryIndex l)
                         (ExplicitMessage_data (lan_msg l)) (em_dataLen (lan_msg l)) (lan_id l)\<rparr>
                else l);
          l2 = l1\<lparr>lan_queryIndex := lan_queryIndex l1 + 1, lan_stepStarted := False\<rparr>
      in if kIdentityAttrCount < lan_queryIndex l2 then
           (let l3 = l2\<lparr>lan_reports := lan_reports l2 @ [LanInventory_printDevice l2],
                        lan_session := snd (Session_close (lan_session l2)), lan_phase := LanClose\<rparr>
            in case millis os net of (now, net1) \<Rightarrow> (l3\<lparr>lan_phaseStarted := now\<rparr>, net1))
         else (l2, net))"

subsection \<open>loop()\<close>

definition LanInventory_waitEthernet ::
  "'w os \<Rightarrow> 'w eth \<Rightarrow> lan_sketch \<Rightarrow> 'w net \<Rightarrow> lan_sketch \<times> 'w net" where
  "LanInventory_waitEthernet os eth l net =
     (case Client_poll eth (lan_eth l) net of (st, cl, net1) \<Rightarrow>
        (let l1 = l\<lparr>lan_eth := cl\<rparr> in
         if st = Ok then
           (let ip = Client_localIP eth cl net1; netmask = Client_subnetMask eth cl net1;
                network = ip_network ip netmask
            in case millis os net1 of (now, net2) \<Rightarrow>
                 (l1\<lparr>lan_network := network, lan_broadcast := ip_broadcast ip netmask,
                     lan_currentIp := network, lan_phase := LanScan, lan_phaseStarted := now\<rparr>, net2))
         else if st = Error then (l1\<lparr>lan_phase := LanDone\<rparr>, net1)
         else (l1, net1)))"

definition LanInventory_scan ::
  "'w os \<Rightarrow> 'w eth \<Rightarrow> lan_sketch \<Rightarrow> 'w net \<Rightarrow> lan_sketch \<times> 'w net" where
  "LanInventory_scan os eth l net =
     (case nextHost (lan_currentIp l) of (advanced, ip) \<Rightarrow>
        (let l1 = l\<lparr>lan_currentIp := ip\<rparr> in
         if \<not> advanced \<or> ip = lan_broadcast l1 then (l1\<lparr>lan_phase := LanDone\<rparr>, net)
         else if ip = cfg_gateway (lan_cfg l1) \<or> ip = Client_localIP eth (lan_eth l1) net then (l1, net)
         else
           (case TcpConnection_connect os (lan_tcp l1) ip EIP_PORT SCAN_TIMEOUT_MS net of (st, net1) \<Rightarrow>
              (case millis os net1 of (now, net2) \<Rightarrow>
                 (l1\<lparr>lan_phase := LanConnect, lan_phaseStarted := now\<rparr>, net2)))))"

definition LanInventory_connect :: "'w os \<Rightarrow> lan_sketch \<Rightarrow> 'w net \<Rightarrow> lan_sketch \<times> 'w net" where
  "LanInventory_connect os l net =
     (case TcpConnection_poll os (lan_tcp l) net of (st, net1) \<Rightarrow>
        if st = Ok then
          (case Session_open os (lan_tcp l) SESSION_TIMEOUT_MS (lan_session l) net1 of (st2, ses, net2) \<Rightarrow>
             (case millis os net2 of (now, net3) \<Rightarrow>
                (l\<lparr>lan_session := ses, lan_phase := LanRegister, lan_phaseStarted := now\<rparr>, net3)))
        else if st = Timeout \<or> st = Error \<or> st = Closed
        then (l\<lparr>lan_phase := LanScan\<rparr>, TcpConnection_close os (lan_tcp l) net1)
        else (l, net1))"

definition LanInventory_register :: "'w os \<Rightarrow> lan_sketch \<Rightarrow> 'w net \<Rightarrow> lan_sketch \<times> 'w net" where
  "LanInventory_register os l net =
     (case Session_poll os (lan_session l) net of (st, ses, net1) \<Rightarrow>
        (let l1 = l\<lparr>lan_session := ses\<rparr> in
         if st = Ok then
           (case millis os net1 of (now, net2) \<Rightarrow>
              (l1\<lparr>lan_id := Identity_new, lan_queryIndex := 0, lan_stepStarted := False,
                  lan_phase := LanQuery, lan_phaseStarted := now\<rparr>, net2))
         else if st = Timeout \<or> st = Error
         then (l1\<lparr>lan_session := Session_abort ses, lan_phase := LanScan\<rparr>,
               TcpConnection_close os (lan_tcp l1) net1)
         else (l1, net1)))"

definition LanInventory_query :: "'w os \<Rightarrow> lan_sketch \<Rightarrow> 'w net \<Rightarrow> lan_sketch \<times> 'w net" where
  "LanInventory_query os l net =
     (if \<not> lan_stepStarted l then LanInventory_startQuery os l net
      else
        (let isMode = (kIdentityAttrCount \<le> lan_queryIndex l) in
         case (if isMode
               then (case Tag_poll os (lan_tag l) (lan_msg l) net of (st, t, msg, net1) \<Rightarrow>
                       (st, l\<lparr>lan_tag := t, lan_msg := msg\<rparr>, net1))
               else (case ExplicitMessage_poll os (lan_msg l) net of (st, msg, net1) \<Rightarrow>
                       (st, l\<lparr>lan_msg := msg\<rparr>, net1)))
         of (st, l1, net1) \<Rightarrow>
              if st = Ok then LanInventory_finishQuery os l1 net1
              else if st = Timeout \<or> st = Error \<or> st = Closed then
                (if isMode then LanInventory_finishQuery os l1 net1
                 else (l1\<lparr>lan_session := Session_abort (lan_session l1), lan_phase := LanScan\<rparr>,
                       TcpConnection_close os (lan_tcp l1) net1))
              else (l1, net1)))"

definition LanInventory_close :: "'w os \<Rightarrow> lan_sketch \<Rightarrow> 'w net \<Rightarrow> lan_sketch \<times> 'w net" where
  "LanInventory_close os l net =
     (case Session_poll os (lan_session l) net of (st, ses, net1) \<Rightarrow>
        (let l1 = l\<lparr>lan_session := ses\<rparr> in
         if st = Ok \<or> st = Closed then
           (l1\<lparr>lan_found := lan_found l1 + 1, lan_phase := LanScan\<rparr>,
            TcpConnection_close os (lan_tcp l1) net1)
         else if st = Timeout \<or> st = Error then
           (l1\<lparr>lan_session := Session_abort ses, lan_found := lan_found l1 + 1, lan_phase := LanScan\<rparr>,
            TcpConnection_close os (lan_tcp l1) net1)
         else (l1, net1)))"

definition LanInventory_loop ::
  "'w os \<Rightarrow> 'w eth \<Rightarrow> lan_sketch \<Rightarrow> 'w net \<Rightarrow> lan_sketch \<times> 'w net" where
  "LanInventory_loop os eth l net =
     (case lan_phase l of
        LanWaitEthernet \<Rightarrow> LanInventory_waitEthernet os eth l net
      | LanScan \<Rightarrow> LanInventory_scan os eth l net
      | LanConnect \<Rightarrow> LanInventory_connect os l net
      | LanRegister \<Rightarrow> LanInventory_register os l net
      | LanQuery \<Rightarrow> LanInventory_query os l net
      | LanClose \<Rightarrow> LanInventory_close os l net
      | LanDone \<Rightarrow> (l, net))"

subsection \<open>Addresses as numbers\<close>

definition ip_num :: "IPAddress \<Rightarrow> nat" where
  "ip_num ip =
     (case ip of (a, b, c, d) \<Rightarrow> ((unat a * 256 + unat b) * 256 + unat c) * 256 + unat d)"

lemma unat_byte: "unat (b :: byte) < 256"
  using unsigned_less [of b] by simp

lemma unat_byte_suc: "b < 255 \<Longrightarrow> unat (b + 1 :: byte) = unat b + 1"
  by (simp add: unat_plus_if' word_less_nat_alt)

lemma byte_full: "\<not> b < 255 \<Longrightarrow> b = (255 :: byte)"
  using unat_byte [of b] by (auto simp: word_less_nat_alt word_unat_eq_iff)

lemma base_256: "x * 256 + unat (y :: byte) = x' * 256 + unat (y' :: byte) \<longleftrightarrow> x = x' \<and> y = y'"
proof
  have dm: "(x * 256 + unat y) div 256 = x" "(x * 256 + unat y) mod 256 = unat y" for x :: nat and y :: byte
    using unat_byte [of y] by simp_all
  assume eq: "x * 256 + unat y = x' * 256 + unat y'"
  have "x = x'"
    using dm(1) [of x y] dm(1) [of x' y'] eq by metis
  moreover have "unat y = unat y'"
    using dm(2) [of x y] dm(2) [of x' y'] eq by metis
  ultimately show "x = x' \<and> y = y'"
    by (simp add: word_unat_eq_iff)
qed simp

lemma nextHost_cases:
  "nextHost (a, b, c, d) =
     (if d < 255 then (True, a, b, c, d + 1)
      else if c < 255 then (True, a, b, c + 1, 0)
      else if b < 255 then (True, a, b + 1, 0, 0)
      else if a < 255 then (True, a + 1, 0, 0, 0) else (False, 0, 0, 0, 0))"
  by (simp add: nextHost_def ip_octets_def ip_of_def numeral_eq_Suc)

lemma ip_num_eq [simp]: "ip_num ip = ip_num ip' \<longleftrightarrow> ip = ip'"
proof -
  obtain a b c d where ip: "ip = (a, b, c, d)" by (metis prod_cases4)
  obtain a' b' c' d' where ip': "ip' = (a', b', c', d')" by (metis prod_cases4)
  show ?thesis
    unfolding ip ip' ip_num_def prod.case base_256 by (simp add: word_unat_eq_iff)
qed

lemma nextHost_num:
  assumes "nextHost ip = (advanced, ip')"
  shows "if advanced then ip_num ip' = ip_num ip + 1 else ip_num ip = 2 ^ 32 - 1"
proof -
  obtain a b c d where ip: "ip = (a, b, c, d)" by (metis prod_cases4)
  show ?thesis
    using assms unfolding ip nextHost_cases
    by (auto simp: ip_num_def unat_byte_suc dest!: byte_full split: if_splits)
qed

end
