(* ===== verification/LanProperties.thy ===== *)
theory LanProperties
  imports LanInventory PlcInv
begin

text \<open>
  The properties of the LAN inventory sketch: it keeps the objects it composes in order; it moves as
  an abstract scanner does; every device it reports is a host of the subnet, none twice; and a host
  mask takes it out of the subnet.
\<close>

subsection \<open>The scanner\<close>

text \<open>
  The view of the scanner: the phase, the address, the addresses reported so far and the count of
  devices. \<open>hi\<close> is the broadcast address and \<open>gw\<close> the gateway.
\<close>

type_synonym lan_view = "LanPhase \<times> IPAddress \<times> IPAddress list \<times> int"

definition lan_view :: "lan_sketch \<Rightarrow> lan_view" where
  "lan_view l = (lan_phase l, lan_currentIp l, map rep_ip (lan_reports l), lan_found l)"

inductive lan_spec :: "IPAddress \<Rightarrow> IPAddress \<Rightarrow> lan_view \<Rightarrow> lan_view \<Rightarrow> bool" for hi gw where
  stay: "lan_spec hi gw v v"
| probe: "nextHost ip = (True, ip') \<Longrightarrow> ip' \<noteq> hi \<Longrightarrow> ip' \<noteq> gw \<Longrightarrow>
    lan_spec hi gw (LanScan, ip, rs, n) (LanConnect, ip', rs, n)"
| skip: "nextHost ip = (True, ip') \<Longrightarrow> ip' \<noteq> hi \<Longrightarrow>
    lan_spec hi gw (LanScan, ip, rs, n) (LanScan, ip', rs, n)"
| complete: "nextHost ip = (advanced, ip') \<Longrightarrow> \<not> advanced \<or> ip' = hi \<Longrightarrow>
    lan_spec hi gw (LanScan, ip, rs, n) (LanDone, ip', rs, n)"
| listening: "lan_spec hi gw (LanConnect, ip, rs, n) (LanRegister, ip, rs, n)"
| registered: "lan_spec hi gw (LanRegister, ip, rs, n) (LanQuery, ip, rs, n)"
| give_up: "p \<in> {LanConnect, LanRegister, LanQuery} \<Longrightarrow>
    lan_spec hi gw (p, ip, rs, n) (LanScan, ip, rs, n)"
| report: "lan_spec hi gw (LanQuery, ip, rs, n) (LanClose, ip, rs @ [ip], n)"
| closed: "lan_spec hi gw (LanClose, ip, rs, n) (LanScan, ip, rs, n + 1)"

definition lan_same :: "lan_sketch \<Rightarrow> lan_sketch \<Rightarrow> bool" where
  "lan_same l l' \<longleftrightarrow>
     lan_network l' = lan_network l \<and> lan_broadcast l' = lan_broadcast l \<and> lan_cfg l' = lan_cfg l"

lemma LanInventory_startQuery_view:
  assumes "LanInventory_startQuery os l net = (l', net')"
  shows "lan_view l' = lan_view l \<and> lan_same l l'"
  using assms by (auto simp: LanInventory_startQuery_def Let_def lan_view_def lan_same_def split: if_splits prod.splits)

lemma LanInventory_finishQuery_view:
  assumes "LanInventory_finishQuery os l net = (l', net')" and "lan_phase l = LanQuery"
  shows "lan_spec hi gw (lan_view l) (lan_view l') \<and> lan_same l l'"
  using assms
  by (auto simp: LanInventory_finishQuery_def LanInventory_printDevice_def Let_def lan_view_def lan_same_def
      split: if_splits prod.splits intro: lan_spec.report lan_spec.stay)

lemma LanInventory_query_cases:
  assumes "LanInventory_query os l net = (l', net')"
  obtains "\<not> lan_stepStarted l" "LanInventory_startQuery os l net = (l', net')"
  | st t msg net1 l1 where "lan_stepStarted l" "l1 = l\<lparr>lan_tag := t, lan_msg := msg\<rparr>"
      "kIdentityAttrCount \<le> lan_queryIndex l \<and> Tag_poll os (lan_tag l) (lan_msg l) net = (st, t, msg, net1) \<or>
       lan_queryIndex l < kIdentityAttrCount \<and> t = lan_tag l \<and>
       ExplicitMessage_poll os (lan_msg l) net = (st, msg, net1)"
      "(l', net') = LanInventory_finishQuery os l1 net1 \<or>
       (l', net') = (l1\<lparr>lan_session := Session_abort (lan_session l1), lan_phase := LanScan\<rparr>,
                     TcpConnection_close os (lan_tcp l1) net1) \<or>
       (l', net') = (l1, net1)"
proof (cases "lan_stepStarted l")
  case False
  with assms that(1) show thesis
    by (simp add: LanInventory_query_def)
next
  case started: True
  show thesis
  proof (cases "kIdentityAttrCount \<le> lan_queryIndex l")
    case True
    obtain st t msg net1 where p: "Tag_poll os (lan_tag l) (lan_msg l) net = (st, t, msg, net1)"
      by (metis prod_cases4)
    show thesis
      by (rule that(2) [where t = t and msg = msg and st = st and ?net1.0 = net1])
        (use assms started True p in \<open>auto simp: LanInventory_query_def Let_def split: if_splits\<close>)
  next
    case False
    obtain st msg net1 where p: "ExplicitMessage_poll os (lan_msg l) net = (st, msg, net1)"
      by (metis prod_cases3)
    have "l\<lparr>lan_tag := lan_tag l, lan_msg := msg\<rparr> = l\<lparr>lan_msg := msg\<rparr>"
      by simp
    then show thesis
      by (intro that(2) [where t = "lan_tag l" and msg = msg and st = st and ?net1.0 = net1])
        (use assms started False p in \<open>auto simp: LanInventory_query_def Let_def split: if_splits\<close>)
  qed
qed

lemma LanInventory_step:
  assumes "LanInventory_loop os eth l net = (l', net')" and "lan_phase l \<noteq> LanWaitEthernet"
  shows "lan_spec (lan_broadcast l) (cfg_gateway (lan_cfg l)) (lan_view l) (lan_view l') \<and> lan_same l l'"
proof (cases "lan_phase l")
  case LanScan
  obtain advanced ip where n: "nextHost (lan_currentIp l) = (advanced, ip)"
    by (metis prod.collapse)
  show ?thesis
    using assms(1) LanScan n
    by (auto simp: LanInventory_loop_def LanInventory_scan_def Let_def lan_view_def lan_same_def
        split: if_splits prod.splits intro: lan_spec.probe lan_spec.skip lan_spec.complete)
next
  case LanConnect
  with assms(1) show ?thesis
    by (auto simp: LanInventory_loop_def LanInventory_connect_def lan_view_def lan_same_def
        split: if_splits prod.splits intro: lan_spec.intros)
next
  case LanRegister
  with assms(1) show ?thesis
    by (auto simp: LanInventory_loop_def LanInventory_register_def Let_def lan_view_def lan_same_def
        split: if_splits prod.splits intro: lan_spec.intros)
next
  case LanClose
  with assms(1) show ?thesis
    by (auto simp: LanInventory_loop_def LanInventory_close_def Let_def lan_view_def lan_same_def
        split: if_splits prod.splits intro: lan_spec.intros)
next
  case LanDone
  with assms(1) show ?thesis
    by (auto simp: LanInventory_loop_def lan_same_def intro: lan_spec.stay)
next
  case LanQuery
  with assms(1) have q: "LanInventory_query os l net = (l', net')"
    by (simp add: LanInventory_loop_def)
  show ?thesis
  proof (rule LanInventory_query_cases [OF q])
    assume "LanInventory_startQuery os l net = (l', net')"
    from LanInventory_startQuery_view [OF this] lan_spec.stay show ?thesis
      by metis
  next
    fix st t msg net1 l1
    assume l1: "l1 = l\<lparr>lan_tag := t, lan_msg := msg\<rparr>"
      and r: "(l', net') = LanInventory_finishQuery os l1 net1 \<or>
       (l', net') = (l1\<lparr>lan_session := Session_abort (lan_session l1), lan_phase := LanScan\<rparr>,
                     TcpConnection_close os (lan_tcp l1) net1) \<or> (l', net') = (l1, net1)"
    have v: "lan_view l1 = lan_view l" "lan_same l l1" "lan_phase l1 = LanQuery"
      using LanQuery by (simp_all add: l1 lan_view_def lan_same_def)
    from r show ?thesis
    proof (elim disjE)
      assume "(l', net') = LanInventory_finishQuery os l1 net1"
      from LanInventory_finishQuery_view [OF this [symmetric] v(3)] v show ?thesis
        by (auto simp: lan_same_def)
    qed (use v LanQuery in \<open>auto simp: lan_view_def lan_same_def intro: lan_spec.intros\<close>)
  qed
qed (use assms(2) in simp)


subsection \<open>The subnet\<close>

lemma octet_le: "unat (a AND m :: byte) \<le> unat (a OR NOT m)"
  using order.trans [OF word_and_le2 [of a m] le_word_or2 [of a "NOT m"]]
  by (simp add: word_le_nat_alt)

lemma octet_eq: "(a AND m :: byte) = a OR NOT m \<longleftrightarrow> m = 255"
proof
  assume eq: "a AND m = a OR NOT m"
  have "m = NOT 0"
  proof (rule bit_eqI)
    fix n assume n: "possible_bit TYPE(8 word) n"
    have "bit (a AND m) n = bit (a OR NOT m) n"
      by (simp only: eq)
    with n show "bit m n = bit (NOT 0 :: byte) n"
      by (auto simp: bit_simps)
  qed
  then show "m = 255"
    by simp
next
  have "(255 :: byte) = NOT 0"
    by simp
  then show "a AND m = a OR NOT m" if "m = 255"
    unfolding that by (metis and.right_neutral bit.compl_zero bit.double_compl or.right_neutral)
qed

lemma ip_network_broadcast:
  "ip_num (ip_network ip m) \<le> ip_num (ip_broadcast ip m)"
  "ip_network ip m = ip_broadcast ip m \<longleftrightarrow> m = (255, 255, 255, 255)"
proof -
  obtain a b c d where ip: "ip = (a, b, c, d)" by (metis prod_cases4)
  obtain p q r s where m: "m = (p, q, r, s)" by (metis prod_cases4)
  show "ip_num (ip_network ip m) \<le> ip_num (ip_broadcast ip m)"
    using octet_le [of a p] octet_le [of b q] octet_le [of c r] octet_le [of d s]
    by (simp add: ip m ip_network_def ip_broadcast_def ip_octets_def ip_of_def ip_num_def)
  show "ip_network ip m = ip_broadcast ip m \<longleftrightarrow> m = (255, 255, 255, 255)"
    by (simp add: ip m ip_network_def ip_broadcast_def ip_octets_def ip_of_def octet_eq)
qed

subsection \<open>What is reported\<close>

definition lan_track :: "IPAddress \<Rightarrow> IPAddress \<Rightarrow> IPAddress \<Rightarrow> lan_view \<Rightarrow> bool" where
  "lan_track lo hi gw v \<longleftrightarrow>
     (case v of (p, ip, rs, n) \<Rightarrow>
        (p \<noteq> LanWaitEthernet \<and> p \<noteq> LanDone \<longrightarrow> ip_num lo \<le> ip_num ip \<and> ip_num ip < ip_num hi) \<and>
        (p \<in> {LanConnect, LanRegister, LanQuery, LanClose} \<longrightarrow> ip_num lo < ip_num ip \<and> ip \<noteq> gw) \<and>
        sorted_wrt (\<lambda>a b. ip_num a < ip_num b) rs \<and>
        (\<forall>a \<in> set rs. ip_num lo < ip_num a \<and> ip_num a < ip_num hi \<and> a \<noteq> gw \<and>
           (p \<noteq> LanDone \<longrightarrow> ip_num a \<le> ip_num ip) \<and>
           (p \<in> {LanConnect, LanRegister, LanQuery} \<longrightarrow> ip_num a < ip_num ip)) \<and>
        n = int (length rs) - (if p = LanClose then 1 else 0))"

lemma lan_spec_track:
  assumes "lan_spec hi gw v v'" and "lan_track lo hi gw v"
  shows "lan_track lo hi gw v'"
  using assms
proof (cases rule: lan_spec.cases)
  case (probe ip ip' rs n)
  have "ip_num ip' = ip_num ip + 1"
    using nextHost_num [OF probe(3)] by simp
  moreover have "ip_num ip' \<noteq> ip_num hi"
    using probe(4) by simp
  ultimately show ?thesis
    using assms(2) probe by (fastforce simp: lan_track_def)
next
  case (skip ip ip' rs n)
  have "ip_num ip' = ip_num ip + 1"
    using nextHost_num [OF skip(3)] by simp
  moreover have "ip_num ip' \<noteq> ip_num hi"
    using skip(4) by simp
  ultimately show ?thesis
    using assms(2) skip by (fastforce simp: lan_track_def)
next
  case (report ip rs n)
  with assms(2) show ?thesis
    by (auto simp: lan_track_def sorted_wrt_append)
qed (use assms(2) in \<open>auto simp: lan_track_def less_imp_le\<close>)

subsection \<open>The objects in order\<close>

definition name_ok :: "lan_identity \<Rightarrow> bool" where
  "name_ok i \<longleftrightarrow> length (id_productName i) = 64 \<and> id_productName i ! 63 = 0"

definition lan_parts :: "lan_sketch \<Rightarrow> 'w net \<Rightarrow> bool" where
  "lan_parts l net \<longleftrightarrow>
     Session_inv (lan_session l) \<and> em_inv (lan_msg l) \<and> tag_inv (lan_tag l) \<and> name_ok (lan_id l) \<and>
     (\<forall>r \<in> set (lan_reports l). name_ok (rep_identity r)) \<and> \<not> net_fault net"

lemma Identity_new_ok: "name_ok Identity_new"
  by (simp add: name_ok_def Identity_new_def)

lemma identity_attr_ok:
  assumes "name_ok i" and "n \<le> length d"
  shows "name_ok (identity_attr attr d n i)"
proof -
  have "length (poke c [0] (poke 0 (take c d) s)) = 64 \<and> poke c [0] (poke 0 (take c d) s) ! 63 = 0"
    if "c = min n 63" "length s = 64" "s ! 63 = 0" for c and s :: "byte list"
  proof -
    have len: "length (poke 0 (take c d) s) = 64"
      using that assms(2) by simp
    have "poke 0 (take c d) s ! 63 = 0" if "c < 63"
      using that \<open>s ! 63 = 0\<close> \<open>length s = 64\<close> by (simp add: poke_def nth_append min_def)
    then have "poke c [0] (poke 0 (take c d) s) ! 63 = 0"
      using len \<open>c = min n 63\<close> by (cases "c = 63") (auto simp: poke_def nth_append min_def)
    with len \<open>c = min n 63\<close> show ?thesis
      by simp
  qed
  note this [of "min n 63" "id_productName i"]
  then show ?thesis
    using assms by (auto simp: name_ok_def identity_attr_def Let_def min_def split: if_splits)
qed


lemma em_data_length: "em_inv m \<Longrightarrow> em_dataLen m \<le> length (ExplicitMessage_data m)"
  by (auto simp: em_inv_def em_result_def ExplicitMessage_data_def split: option.splits)

lemma LanInventory_startQuery_parts:
  assumes "lan_parts l net" and "LanInventory_startQuery os l net = (l', net')"
  shows "lan_parts l' net'"
proof (cases "lan_queryIndex l < kIdentityAttrCount")
  case True
  let ?path = "[0x20, 1, 0x24, 1] :: byte list" and ?data = "[0x30, kIdentityAttrs ! lan_queryIndex l]"
  obtain st msg net1 where s: "ExplicitMessage_send os (lan_tcp l) (ses_handle (lan_session l))
      (Service_code GetAttributeSingle) (Some ?path) 4 (Some ?data) 2 MESSAGE_TIMEOUT_MS (lan_msg l) net =
      (st, msg, net1)"
    by (metis prod_cases3)
  have "l' = l\<lparr>lan_msg := msg, lan_stepStarted := (st = Pending)\<rparr>" "net' = net1"
    using assms(2) True s
    by (simp_all add: LanInventory_startQuery_def Let_def appendClass_def appendInstance_def
        appendAttribute_def poke_def kSegmentClassId8_def kSegmentInstanceId8_def kSegmentAttributeId8_def
        numeral_eq_Suc)
  moreover have "em_args (Some ?path) 4 (Some ?data) 2"
    by (simp add: em_args_def)
  ultimately show ?thesis
    using assms(1) ExplicitMessage_send_inv [OF _ _ s] ExplicitMessage_send_fault [OF s]
    by (simp add: lan_parts_def)
next
  case False
  obtain st t msg net1 where s: "Tag_read os (lan_tcp l) (ses_handle (lan_session l)) (Some lan_mode_tag) 1
      MESSAGE_TIMEOUT_MS (lan_tag l) (lan_msg l) net = (st, t, msg, net1)"
    by (metis prod_cases4)
  have "l' = l\<lparr>lan_tag := t, lan_msg := msg, lan_stepStarted := (st = Pending)\<rparr>" "net' = net1"
    using assms(2) False s by (auto simp: LanInventory_startQuery_def)
  with assms(1) Tag_read_started [OF _ s] Tag_read_fault [OF s] show ?thesis
    by (auto simp: lan_parts_def tag_started_def)
qed

lemma LanInventory_finishQuery_parts:
  assumes "lan_parts l net" and "LanInventory_finishQuery os l net = (l', net')"
  shows "lan_parts l' net'"
proof -
  obtain now net1 where m: "millis os net = (now, net1)" by fastforce
  have ses: "Session_inv (snd (Session_close (lan_session l)))"
    using assms(1) Session_close_inv [of "lan_session l" "fst (Session_close (lan_session l))"
        "snd (Session_close (lan_session l))"] by (simp add: lan_parts_def)
  define i where "i = (if lan_queryIndex l < kIdentityAttrCount
      then identity_attr (kIdentityAttrs ! lan_queryIndex l) (ExplicitMessage_data (lan_msg l))
        (em_dataLen (lan_msg l)) (lan_id l)
      else lan_id l)"
  have nm: "name_ok i"
    using assms(1) identity_attr_ok [OF _ em_data_length] by (simp add: i_def lan_parts_def)
  have "lan_msg l' = lan_msg l \<and> lan_tag l' = lan_tag l \<and> lan_id l' = i \<and>
      (lan_session l' = lan_session l \<or> lan_session l' = snd (Session_close (lan_session l))) \<and>
      (lan_reports l' = lan_reports l \<or> (\<exists>r. lan_reports l' = lan_reports l @ [r] \<and> rep_identity r = i)) \<and>
      (net' = net \<or> net' = net1)"
    using assms(2) m
    by (simp add: LanInventory_finishQuery_def LanInventory_printDevice_def Let_def i_def split: if_splits)
      auto
  with assms(1) ses nm millis_fault [OF m] show ?thesis
    by (auto simp: lan_parts_def)
qed

lemma LanInventory_loop_parts:
  assumes C: "socket_contract os" and I: "lan_parts l net" and run: "LanInventory_loop os eth l net = (l', net')"
  shows "lan_parts l' net'"
proof (cases "lan_phase l")
  case LanWaitEthernet
  obtain st cl net1 where p: "Client_poll eth (lan_eth l) net = (st, cl, net1)"
    by (metis prod_cases3)
  obtain now net2 where m: "millis os net1 = (now, net2)" by fastforce
  from LanWaitEthernet run I p m Client_poll_only_os [OF p] millis_fault [OF m] show ?thesis
    by (auto simp: LanInventory_loop_def LanInventory_waitEthernet_def Let_def lan_parts_def only_os_def
        split: if_splits)
next
  case LanScan
  obtain advanced ip where n: "nextHost (lan_currentIp l) = (advanced, ip)"
    by (metis prod.collapse)
  obtain st net1 where c: "TcpConnection_connect os (lan_tcp l) ip EIP_PORT SCAN_TIMEOUT_MS net = (st, net1)"
    by fastforce
  obtain now net2 where m: "millis os net1 = (now, net2)" by fastforce
  from LanScan run I n c m TcpConnection_connect_fault [OF c] millis_fault [OF m] show ?thesis
    by (auto simp: LanInventory_loop_def LanInventory_scan_def Let_def lan_parts_def split: if_splits)
next
  case LanConnect
  obtain st net1 where p: "TcpConnection_poll os (lan_tcp l) net = (st, net1)" by fastforce
  obtain st2 ses net2 where o: "Session_open os (lan_tcp l) SESSION_TIMEOUT_MS (lan_session l) net1 = (st2, ses, net2)"
    by (metis prod_cases3)
  obtain now net3 where m: "millis os net2 = (now, net3)" by fastforce
  from LanConnect run I p o m TcpConnection_poll_fault [OF p] Session_open_fault [OF o] Session_open_inv [OF _ o]
    millis_fault [OF m] show ?thesis
    by (auto simp: LanInventory_loop_def LanInventory_connect_def lan_parts_def split: if_splits)
next
  case LanRegister
  obtain st ses net1 where p: "Session_poll os (lan_session l) net = (st, ses, net1)"
    by (metis prod_cases3)
  obtain now net2 where m: "millis os net1 = (now, net2)" by fastforce
  have "Session_inv (lan_session l)"
    using I by (simp add: lan_parts_def)
  from LanRegister run I p m Session_poll_inv [OF C this p] Session_poll_fault [OF this p] millis_fault [OF m]
  show ?thesis
    by (auto simp: LanInventory_loop_def LanInventory_register_def Let_def lan_parts_def Session_abort_inv
        Identity_new_ok split: if_splits)
next
  case LanClose
  obtain st ses net1 where p: "Session_poll os (lan_session l) net = (st, ses, net1)"
    by (metis prod_cases3)
  have "Session_inv (lan_session l)"
    using I by (simp add: lan_parts_def)
  from LanClose run I p Session_poll_inv [OF C this p] Session_poll_fault [OF this p] show ?thesis
    by (auto simp: LanInventory_loop_def LanInventory_close_def Let_def lan_parts_def Session_abort_inv
        split: if_splits)
next
  case LanDone
  with run I show ?thesis
    by (simp add: LanInventory_loop_def)
next
  case LanQuery
  with run have q: "LanInventory_query os l net = (l', net')"
    by (simp add: LanInventory_loop_def)
  show ?thesis
  proof (rule LanInventory_query_cases [OF q])
    assume "LanInventory_startQuery os l net = (l', net')"
    with I show ?thesis
      by (rule LanInventory_startQuery_parts)
  next
    fix st t msg net1 l1
    assume l1: "l1 = l\<lparr>lan_tag := t, lan_msg := msg\<rparr>"
      and p: "kIdentityAttrCount \<le> lan_queryIndex l \<and> Tag_poll os (lan_tag l) (lan_msg l) net = (st, t, msg, net1) \<or>
       lan_queryIndex l < kIdentityAttrCount \<and> t = lan_tag l \<and>
       ExplicitMessage_poll os (lan_msg l) net = (st, msg, net1)"
      and r: "(l', net') = LanInventory_finishQuery os l1 net1 \<or>
       (l', net') = (l1\<lparr>lan_session := Session_abort (lan_session l1), lan_phase := LanScan\<rparr>,
                     TcpConnection_close os (lan_tcp l1) net1) \<or> (l', net') = (l1, net1)"
    have i: "em_inv (lan_msg l)" "tag_inv (lan_tag l)"
      using I by (simp_all add: lan_parts_def)
    have "em_inv msg \<and> tag_inv t \<and> net_fault net1 = net_fault net"
      using p
    proof (elim disjE conjE)
      assume "Tag_poll os (lan_tag l) (lan_msg l) net = (st, t, msg, net1)"
      from Tag_poll_inv [OF C i this] Tag_poll_fault [OF i(1) this] show ?thesis
        by simp
    next
      assume "t = lan_tag l" and e: "ExplicitMessage_poll os (lan_msg l) net = (st, msg, net1)"
      with ExplicitMessage_poll_inv [OF C i(1) e] ExplicitMessage_poll_frame [OF i(1) e] i(2) show ?thesis
        by (auto simp: conn_frame_def)
    qed
    then have I1: "lan_parts l1 net1"
      using I by (simp add: lan_parts_def l1)
    from r show ?thesis
    proof (elim disjE)
      assume "(l', net') = LanInventory_finishQuery os l1 net1"
      from LanInventory_finishQuery_parts [OF I1 this [symmetric]] show ?thesis .
    qed (use I1 in \<open>auto simp: lan_parts_def Session_abort_inv\<close>)
  qed
qed


subsection \<open>Reachable sketches\<close>

text \<open>
  A sketch after \<open>setup()\<close> and any number of turns of \<open>loop()\<close>, with any change of the
  outside world before each.
\<close>

inductive lan_reach :: "'w os \<Rightarrow> 'w eth \<Rightarrow> lan_sketch \<Rightarrow> 'w net \<Rightarrow> bool" for os eth where
  start: "length stx = 536 \<Longrightarrow> length srx = 536 \<Longrightarrow> length mtx = 296 \<Longrightarrow> length mrx = 296 \<Longrightarrow>
    length buf = 256 \<Longrightarrow> \<not> net_fault net \<Longrightarrow>
    LanInventory_setup os eth (LanInventory_new phy tcp (Session_new stx srx)
      (ExplicitMessage_new mtx mrx) (Tag_new buf)) net = (l, net') \<Longrightarrow> lan_reach os eth l net'"
| turn: "lan_reach os eth l net \<Longrightarrow> LanInventory_loop os eth l net = (l', net') \<Longrightarrow> lan_reach os eth l' net'"
| world: "lan_reach os eth l net \<Longrightarrow> lan_reach os eth l (net\<lparr>net_os := w\<rparr>)"

definition lan_inv :: "lan_sketch \<Rightarrow> 'w net \<Rightarrow> bool" where
  "lan_inv l net \<longleftrightarrow>
     lan_parts l net \<and>
     (lan_phase l = LanWaitEthernet \<longrightarrow>
        lan_network l = lan_broadcast l \<and> lan_reports l = [] \<and> lan_found l = 0) \<and>
     (lan_network l \<noteq> lan_broadcast l \<longrightarrow>
        lan_track (lan_network l) (lan_broadcast l) (cfg_gateway (lan_cfg l)) (lan_view l))"

lemma LanInventory_setup_inv:
  assumes "length stx = 536" and "length srx = 536" and "length mtx = 296" and "length mrx = 296"
    and "length buf = 256" and "\<not> net_fault net"
    and "LanInventory_setup os eth (LanInventory_new phy tcp (Session_new stx srx)
      (ExplicitMessage_new mtx mrx) (Tag_new buf)) net = (l, net')"
  shows "lan_inv l net'"
proof -
  let ?cfg = "(Config_default phy)\<lparr>cfg_ip := LOCAL_IP, cfg_gateway := LOCAL_GATEWAY,
      cfg_subnet := LOCAL_SUBNET, cfg_dns := LOCAL_DNS\<rparr>"
  obtain st cl net1 where b: "Client_begin eth ?cfg (Client_new phy) net = (st, cl, net1)"
    by (metis prod_cases3)
  obtain now net2 where m: "millis os net1 = (now, net2)" by fastforce
  show ?thesis
    using assms b m Client_begin_only_os [OF b] millis_fault [OF m] Session_new_inv [of stx srx]
      ExplicitMessage_new_inv [of mtx mrx] Identity_new_ok
    by (auto simp: LanInventory_setup_def LanInventory_new_def Let_def lan_inv_def lan_parts_def only_os_def
        tag_inv_def Tag_new_def)
qed

lemma LanInventory_loop_inv:
  assumes C: "socket_contract os" and I: "lan_inv l net" and run: "LanInventory_loop os eth l net = (l', net')"
  shows "lan_inv l' net'"
proof -
  have parts: "lan_parts l' net'"
    using LanInventory_loop_parts [OF C _ run] I by (simp add: lan_inv_def)
  show ?thesis
  proof (cases "lan_phase l = LanWaitEthernet")
    case False
    from LanInventory_step [OF run False]
    have s: "lan_spec (lan_broadcast l) (cfg_gateway (lan_cfg l)) (lan_view l) (lan_view l')" "lan_same l l'"
      by simp_all
    have "lan_phase l' \<noteq> LanWaitEthernet"
      using s(1) False by (cases rule: lan_spec.cases) (auto simp: lan_view_def)
    moreover have "lan_track (lan_network l) (lan_broadcast l) (cfg_gateway (lan_cfg l)) (lan_view l')"
      if "lan_network l \<noteq> lan_broadcast l"
      using lan_spec_track [OF s(1)] I that by (simp add: lan_inv_def)
    ultimately show ?thesis
      using parts s(2) by (simp add: lan_inv_def lan_same_def)
  next
    case True
    obtain st cl net1 where p: "Client_poll eth (lan_eth l) net = (st, cl, net1)"
      by (metis prod_cases3)
    obtain now net2 where m: "millis os net1 = (now, net2)" by fastforce
    have w: "lan_network l = lan_broadcast l" "lan_reports l = []" "lan_found l = 0"
      using I True by (simp_all add: lan_inv_def)
    let ?ip = "Client_localIP eth cl net1" and ?m = "Client_subnetMask eth cl net1"
    have less: "ip_num (ip_network ?ip ?m) < ip_num (ip_broadcast ?ip ?m)"
      if "ip_network ?ip ?m \<noteq> ip_broadcast ?ip ?m"
      using ip_network_broadcast(1) [of ?ip ?m] that by (simp add: le_less)
    show ?thesis
      using run True p m w parts less
      by (auto simp: LanInventory_loop_def LanInventory_waitEthernet_def Let_def lan_inv_def lan_track_def
          lan_view_def split: if_splits)
  qed
qed

lemma lan_reach_inv:
  assumes "socket_contract os" and "lan_reach os eth l net"
  shows "lan_inv l net"
  using assms(2)
proof (induction rule: lan_reach.induct)
  case (start stx srx mtx mrx buf net phy tcp l net')
  then show ?case by (rule LanInventory_setup_inv)
next
  case (turn l net l' net')
  then show ?case using LanInventory_loop_inv [OF assms(1)] by blast
next
  case (world l net w)
  then show ?case by (simp add: lan_inv_def lan_parts_def)
qed

subsection \<open>Properties\<close>

text \<open>
  C13. What the inventory reports: in every reachable state, on a subnet of more than one address,
  the devices reported so far are hosts of the subnet, strictly between its network and its
  broadcast address, none of them the gateway, each reported once and in ascending order; the name
  reported of each is a terminated string in its buffer; the count is that of the reports, less the
  one whose session is being closed. The address under probe is such a host too, and no object the
  sketch composes is used out of bounds.
\<close>

theorem LanInventory_reports_hosts:
  assumes "socket_contract os" and "lan_reach os eth l net" and "lan_network l \<noteq> lan_broadcast l"
  shows "sorted_wrt (\<lambda>r s. ip_num (rep_ip r) < ip_num (rep_ip s)) (lan_reports l) \<and>
    list_all (\<lambda>r. ip_num (lan_network l) < ip_num (rep_ip r) \<and> ip_num (rep_ip r) < ip_num (lan_broadcast l) \<and>
       rep_ip r \<noteq> cfg_gateway (lan_cfg l) \<and> length (id_productName (rep_identity r)) = 64 \<and>
       id_productName (rep_identity r) ! 63 = 0) (lan_reports l) \<and>
    lan_found l = int (length (lan_reports l)) - (if lan_phase l = LanClose then 1 else 0) \<and>
    (lan_phase l \<in> {LanConnect, LanRegister, LanQuery, LanClose} \<longrightarrow>
       ip_num (lan_network l) < ip_num (lan_currentIp l) \<and>
       ip_num (lan_currentIp l) < ip_num (lan_broadcast l) \<and> lan_currentIp l \<noteq> cfg_gateway (lan_cfg l)) \<and>
    length (ses_tx (lan_session l)) = 536 \<and> length (em_rx (lan_msg l)) = 296 \<and>
    length (tag_data (lan_tag l)) = 256 \<and> \<not> net_fault net"
proof -
  have I: "lan_inv l net"
    using assms(1,2) by (rule lan_reach_inv)
  then have P: "lan_parts l net"
    and T: "lan_track (lan_network l) (lan_broadcast l) (cfg_gateway (lan_cfg l)) (lan_view l)"
    using assms(3) by (simp_all add: lan_inv_def)
  have "length (ses_tx (lan_session l)) = 536" "length (em_rx (lan_msg l)) = 296"
    using P by (auto simp: lan_parts_def Session_inv_def Session_buffers_def em_inv_def em_buffers_def rx_wf_def)
  with P T show ?thesis
    by (auto simp: lan_parts_def lan_track_def lan_view_def sorted_wrt_map list_all_iff name_ok_def tag_inv_def)
qed

text \<open>
  C17. The sketch is the scanner it means to be: once Ethernet is up, every turn of \<open>loop()\<close> is
  a step of the abstract scanner, which goes to the next address, stops at the broadcast address
  or at the end of the address space, skips or probes the address, and for one that answers goes
  through registration, query and close, reporting it once.
\<close>

theorem LanInventory_refines_scanner:
  assumes "lan_phase l \<noteq> LanWaitEthernet" and "LanInventory_loop os eth l net = (l', net')"
  shows "lan_spec (lan_broadcast l) (cfg_gateway (lan_cfg l)) (lan_view l) (lan_view l') \<and>
    lan_network l' = lan_network l \<and> lan_broadcast l' = lan_broadcast l"
  using LanInventory_step [OF assms(2,1)] by (simp add: lan_same_def)

text \<open>
  With a host mask (255.255.255.255) the scan leaves the subnet: the network and the broadcast
  address are then the device's own address, the first turn moves past it, and the sketch probes the
  next address, which is not in its subnet; the broadcast address is behind it, so the scan only
  ends at the end of the address space.
\<close>

theorem LanInventory_host_mask_escapes:
  assumes "lan_phase l = LanWaitEthernet" and "Client_poll eth (lan_eth l) net = (Ok, cl, net1)"
    and "Client_subnetMask eth cl net1 = (255, 255, 255, 255)"
    and "nextHost (Client_localIP eth cl net1) = (True, ip)" and "ip \<noteq> cfg_gateway (lan_cfg l)"
    and "Client_localIP eth cl net2 \<noteq> ip"
    and "LanInventory_loop os eth l net = (l1, net1')" and "LanInventory_loop os eth l1 net2 = (l2, net3)"
  shows "lan_network l1 = Client_localIP eth cl net1 \<and> lan_broadcast l1 = Client_localIP eth cl net1 \<and>
    lan_phase l2 = LanConnect \<and> lan_currentIp l2 = ip \<and> ip_num (lan_broadcast l2) < ip_num (lan_currentIp l2)"
proof -
  have own: "ip_network i (255, 255, 255, 255) = i" "ip_broadcast i (255, 255, 255, 255) = i" for i
  proof -
    have full: "(255 :: byte) = NOT 0"
      by simp
    have o: "a AND 255 = a" "a OR NOT 255 = a" for a :: byte
      unfolding full by simp_all
    obtain a b c d where i: "i = (a, b, c, d)" by (metis prod_cases4)
    show "ip_network i (255, 255, 255, 255) = i" "ip_broadcast i (255, 255, 255, 255) = i"
      unfolding i ip_network_def ip_broadcast_def ip_octets_def ip_of_def
      by (simp_all only: prod.case zip.simps list.map list.case o nth_Cons_0 zip_Cons_Cons split_conv)
        (simp_all add: numeral_eq_Suc)
  qed
  obtain now netm where m: "millis os net1 = (now, netm)" by fastforce
  have l1: "lan_network l1 = Client_localIP eth cl net1" "lan_broadcast l1 = Client_localIP eth cl net1"
      "lan_currentIp l1 = Client_localIP eth cl net1" "lan_phase l1 = LanScan" "lan_eth l1 = cl" "lan_cfg l1 = lan_cfg l"
    using assms(1-3,7) m own
    by (auto simp: LanInventory_loop_def LanInventory_waitEthernet_def Let_def)
  have up: "ip_num ip = ip_num (Client_localIP eth cl net1) + 1"
    using nextHost_num [OF assms(4)] by simp
  then have ne: "ip \<noteq> Client_localIP eth cl net1"
    by auto
  show ?thesis
    using assms(4-6,8) l1 ne up
    by (auto simp: LanInventory_loop_def LanInventory_scan_def Let_def split: if_splits prod.splits)
qed


subsection \<open>An example\<close>

definition lan_demo_eth :: "IPAddress \<Rightarrow> loopback eth" where
  "lan_demo_eth netmask = demo_eth\<lparr>eth_subnetMask := (\<lambda>w. netmask)\<rparr>"

definition demo_lan :: "IPAddress \<Rightarrow> lan_sketch" where
  "demo_lan netmask = fst (LanInventory_setup loopback_os (lan_demo_eth netmask)
     (LanInventory_new 0 0 (Session_new (replicate 536 0) (replicate 536 0))
        (ExplicitMessage_new (replicate 296 0) (replicate 296 0)) (Tag_new (replicate 256 0))) (loopback_net 0 []))"

lemma demo_lan_setup:
  "LanInventory_setup loopback_os (lan_demo_eth netmask)
     (LanInventory_new 0 0 (Session_new (replicate 536 0) (replicate 536 0))
        (ExplicitMessage_new (replicate 296 0) (replicate 296 0)) (Tag_new (replicate 256 0))) (loopback_net 0 []) =
     (demo_lan netmask, loopback_net 0 [])"
  by (simp add: demo_lan_def LanInventory_setup_def Client_begin_def lan_demo_eth_def demo_eth_def LanInventory_new_def
      Client_new_def sys_def eth_act_def Let_def)

lemma demo_lan_reach: "lan_reach loopback_os (lan_demo_eth netmask) (demo_lan netmask) (loopback_net 0 [])"
  by (rule lan_reach.start [OF _ _ _ _ _ _ demo_lan_setup]) simp_all

definition demo_lan_client :: client where
  "demo_lan_client = (lan_eth (demo_lan LOCAL_SUBNET))\<lparr>cl_ready := True\<rparr>"

lemma demo_lan_facts:
  "lan_phase (demo_lan netmask) = LanWaitEthernet" "cfg_gateway (lan_cfg (demo_lan netmask)) = LOCAL_GATEWAY"
  "lan_eth (demo_lan netmask) = demo_lan_client\<lparr>cl_ready := False\<rparr>"
  "Client_poll (lan_demo_eth netmask) (demo_lan_client\<lparr>cl_ready := False\<rparr>) (loopback_net 0 []) =
     (Ok, demo_lan_client, loopback_net 0 [])"
  "Client_localIP (lan_demo_eth netmask) demo_lan_client net = LOCAL_IP"
  "Client_subnetMask (lan_demo_eth netmask) demo_lan_client net = netmask"
  by (simp_all add: demo_lan_client_def demo_lan_def LanInventory_setup_def Client_begin_def lan_demo_eth_def demo_eth_def
      LanInventory_new_def Client_new_def Client_poll_def Client_localIP_def Client_subnetMask_def sys_def
      eth_act_def Let_def LOCAL_IP_def)

lemma demo_lan_up:
  obtains l :: lan_sketch where "LanInventory_loop loopback_os (lan_demo_eth netmask) (demo_lan netmask) (loopback_net 0 []) =
      (l, loopback_net 0 [])"
    and "lan_phase l = LanScan" and "lan_network l = ip_network LOCAL_IP netmask"
    and "lan_broadcast l = ip_broadcast LOCAL_IP netmask" and "lan_currentIp l = ip_network LOCAL_IP netmask"
    and "lan_eth l = demo_lan_client" and "lan_cfg l = lan_cfg (demo_lan netmask)" and "lan_found l = 0"
proof -
  obtain l net where r: "LanInventory_loop loopback_os (lan_demo_eth netmask) (demo_lan netmask) (loopback_net 0 []) =
      (l, net)"
    by fastforce
  have "lan_found (demo_lan netmask) = 0"
    by (simp add: demo_lan_def LanInventory_setup_def Client_begin_def lan_demo_eth_def demo_eth_def
        LanInventory_new_def Client_new_def sys_def eth_act_def Let_def)
  then show thesis
    using r by (intro that [of l]) (auto simp: LanInventory_loop_def LanInventory_waitEthernet_def demo_lan_facts Let_def)
qed

lemma demo_lan_subnet:
  "ip_network LOCAL_IP LOCAL_SUBNET = (192, 168, 1, 0)" "ip_broadcast LOCAL_IP LOCAL_SUBNET = (192, 168, 1, 255)"
  by code_simp+

theorem LanInventory_reports_hosts_witness:
  "\<exists>l :: lan_sketch. lan_phase l = LanScan \<and> lan_found l = int (length (lan_reports l)) \<and> length (tag_data (lan_tag l)) = 256"
proof -
  obtain l :: lan_sketch where l: "LanInventory_loop loopback_os (lan_demo_eth LOCAL_SUBNET) (demo_lan LOCAL_SUBNET)
      (loopback_net 0 []) = (l, loopback_net 0 [])" "lan_phase l = LanScan"
      "lan_network l = (192, 168, 1, 0)" "lan_broadcast l = (192, 168, 1, 255)"
    using demo_lan_up [of LOCAL_SUBNET] demo_lan_subnet by metis
  have r: "lan_reach loopback_os (lan_demo_eth LOCAL_SUBNET) l (loopback_net 0 [])"
    using demo_lan_reach l(1) by (rule lan_reach.turn)
  from LanInventory_reports_hosts [OF loopback_socket_contract r] l show ?thesis
    by (intro exI [of _ l]) simp
qed

lemma demo_lan_scan:
  obtains l l2 :: lan_sketch and net2 where "lan_phase l = LanScan" and "lan_currentIp l = (192, 168, 1, 0)"
    and "lan_broadcast l = (192, 168, 1, 255)" and "lan_eth l = demo_lan_client"
    and "cfg_gateway (lan_cfg l) = LOCAL_GATEWAY"
    and "LanInventory_loop loopback_os (lan_demo_eth LOCAL_SUBNET) l (loopback_net 0 []) = (l2, net2)"
proof -
  obtain l :: lan_sketch where l: "lan_phase l = LanScan" "lan_currentIp l = (192, 168, 1, 0)"
      "lan_broadcast l = (192, 168, 1, 255)" "lan_eth l = demo_lan_client" "lan_cfg l = lan_cfg (demo_lan LOCAL_SUBNET)"
    using demo_lan_up [of LOCAL_SUBNET] demo_lan_subnet by metis
  obtain l2 net2 where "LanInventory_loop loopback_os (lan_demo_eth LOCAL_SUBNET) l (loopback_net 0 []) = (l2, net2)"
    by fastforce
  with l that demo_lan_facts(2) show thesis
    by metis
qed

theorem LanInventory_refines_scanner_witness:
  "\<exists>(l :: lan_sketch) l2 net2. LanInventory_loop loopback_os (lan_demo_eth LOCAL_SUBNET) l (loopback_net 0 []) = (l2, net2) \<and>
    lan_spec (192, 168, 1, 255) LOCAL_GATEWAY (lan_view l) (lan_view l2)"
proof -
  obtain l l2 :: lan_sketch and net2 where l: "lan_phase l = LanScan" "lan_broadcast l = (192, 168, 1, 255)"
      "cfg_gateway (lan_cfg l) = LOCAL_GATEWAY"
      "LanInventory_loop loopback_os (lan_demo_eth LOCAL_SUBNET) l (loopback_net 0 []) = (l2, net2)"
    using demo_lan_scan by metis
  from LanInventory_refines_scanner [OF _ l(4)] l show ?thesis
    by auto
qed

theorem LanInventory_host_mask_escapes_witness:
  "\<exists>l2 :: lan_sketch. lan_phase l2 = LanConnect \<and> lan_currentIp l2 = (192, 168, 1, 51)"
proof -
  let ?m = "(255, 255, 255, 255)"
  obtain l1 :: lan_sketch where l1: "LanInventory_loop loopback_os (lan_demo_eth ?m) (demo_lan ?m) (loopback_net 0 []) =
      (l1, loopback_net 0 [])"
    using demo_lan_up [of ?m] by metis
  obtain l2 net2 where l2: "LanInventory_loop loopback_os (lan_demo_eth ?m) l1 (loopback_net 0 []) = (l2, net2)"
    by fastforce
  have ip: "Client_localIP (lan_demo_eth ?m) demo_lan_client net = (192, 168, 1, 50)" for net
    by (simp add: demo_lan_facts LOCAL_IP_def)
  have "nextHost (192, 168, 1, 50) = (True, 192, 168, 1, 51)"
    by (simp add: nextHost_cases)
  then have "lan_phase l2 = LanConnect \<and> lan_currentIp l2 = (192, 168, 1, 51)"
    using LanInventory_host_mask_escapes [OF demo_lan_facts(1) _ demo_lan_facts(6) _ _ _ l1 l2]
    by (simp add: demo_lan_facts ip LOCAL_GATEWAY_def LOCAL_IP_def)
  then show ?thesis
    by blast
qed

end
