(* ===== verification/LanEnds.thy ===== *)
theory LanEnds
  imports LanProperties TagProperties
begin

text \<open>
  The scan of the LAN inventory ends. Each phase waits for one thing, with a deadline; a turn that
  finds the deadline passed, or that waits for nothing, moves the sketch on, and no turn moves it
  back. What can still come before the end is a number, the rank, and it falls.
\<close>

subsection \<open>What the scan waits for\<close>

text \<open>
  The turn is due: the phase waits for nothing (to take the next address, to start a query), or the
  clock the turn reads has reached the deadline of the connect, the session or the message. The
  poll of a connect reads the clock after \<open>select()\<close>.
\<close>

definition lan_due :: "'w os \<Rightarrow> lan_sketch \<Rightarrow> 'w net \<Rightarrow> bool" where
  "lan_due os l net \<longleftrightarrow>
     (let t = net_tcp net (lan_tcp l); now = fst (millis os net) in
      case lan_phase l of
        LanConnect \<Rightarrow>
          expired (fst (millis os (snd (sys (os_select_writable os (tcp_fd t)) net)))) (tcp_deadline t)
      | LanRegister \<Rightarrow> expired now (ses_deadline (lan_session l))
      | LanQuery \<Rightarrow> lan_stepStarted l \<longrightarrow> expired now (em_deadline (lan_msg l))
      | LanClose \<Rightarrow> expired now (ses_deadline (lan_session l))
      | _ \<Rightarrow> True)"

text \<open>
  Turns of \<open>loop()\<close> with any change of the outside world before each; \<open>k\<close> counts those that were
  due.
\<close>

inductive lan_turns ::
  "'w os \<Rightarrow> 'w eth \<Rightarrow> lan_sketch \<Rightarrow> 'w net \<Rightarrow> nat \<Rightarrow> lan_sketch \<Rightarrow> 'w net \<Rightarrow> bool" for os eth l0 net0 where
  start: "lan_turns os eth l0 net0 0 l0 net0"
| turn: "lan_turns os eth l0 net0 k l net \<Longrightarrow> LanInventory_loop os eth l net = (l', net') \<Longrightarrow>
    lan_turns os eth l0 net0 (if lan_due os l net then Suc k else k) l' net'"
| world: "lan_turns os eth l0 net0 k l net \<Longrightarrow> lan_turns os eth l0 net0 k l (net\<lparr>net_os := w\<rparr>)"

text \<open>The turns one address can still take, and with the addresses left the rank.\<close>

definition lan_stage :: "lan_sketch \<Rightarrow> nat" where
  "lan_stage l =
     (case lan_phase l of
        LanConnect \<Rightarrow> 21
      | LanRegister \<Rightarrow> 20
      | LanQuery \<Rightarrow> 2 + 2 * (8 - lan_queryIndex l) + (if lan_stepStarted l then 0 else 1)
      | LanClose \<Rightarrow> 1
      | _ \<Rightarrow> 0)"

definition lan_rank :: "lan_sketch \<Rightarrow> nat" where
  "lan_rank l = 22 * (ip_num (lan_broadcast l) - ip_num (lan_currentIp l)) + lan_stage l"

subsection \<open>No phase is stuck\<close>

definition lan_idle :: "lan_sketch \<Rightarrow> bool" where
  "lan_idle l \<longleftrightarrow> \<not> em_busy (lan_msg l) \<and> \<not> tag_waiting (lan_tag l)"

text \<open>A query in flight, which has not ended or has failed.\<close>

definition lan_asking :: "lan_sketch \<Rightarrow> bool" where
  "lan_asking l \<longleftrightarrow>
     (if lan_queryIndex l < 8 then \<not> tag_waiting (lan_tag l) \<and> (em_busy (lan_msg l) \<or> em_state (lan_msg l) = EmFailed)
      else em_busy (lan_msg l) \<and> tag_waiting (lan_tag l) \<or> \<not> em_busy (lan_msg l) \<and> tag_state (lan_tag l) = TagFailed)"

definition lan_live :: "lan_sketch \<Rightarrow> 'w net \<Rightarrow> bool" where
  "lan_live l net \<longleftrightarrow>
     em_awaits (lan_tcp l) (lan_msg l) \<and>
     (case lan_phase l of
        LanRegister \<Rightarrow> lan_idle l \<and> ses_conn (lan_session l) = Some (lan_tcp l) \<and>
          (ses_state (lan_session l) = SesRegistering \<and> ses_awaits (lan_session l) \<or>
           ses_state (lan_session l) = SesFailed)
      | LanQuery \<Rightarrow> ses_state (lan_session l) = SesRegistered \<and> lan_queryIndex l \<le> 8 \<and>
          (if lan_stepStarted l then lan_asking l else lan_idle l \<and> TcpConnection_connected (lan_tcp l) net)
      | LanClose \<Rightarrow> lan_idle l \<and> ses_state (lan_session l) \<in> {SesUnregistering, SesFailed}
      | LanDone \<Rightarrow> True
      | _ \<Rightarrow> lan_idle l \<and> ses_openable (lan_session l))"

text \<open>What a turn of a phase between two scans does.\<close>

definition lan_moves :: "'w os \<Rightarrow> lan_sketch \<Rightarrow> 'w net \<Rightarrow> lan_sketch \<Rightarrow> 'w net \<Rightarrow> bool" where
  "lan_moves os l net l' net' \<longleftrightarrow>
     lan_live l' net' \<and> lan_phase l' \<noteq> LanWaitEthernet \<and> lan_phase l' \<noteq> LanDone \<and>
     lan_currentIp l' = lan_currentIp l \<and> lan_broadcast l' = lan_broadcast l \<and>
     lan_stage l' \<le> lan_stage l \<and> (lan_due os l net \<longrightarrow> lan_stage l' < lan_stage l)"

lemma TcpConnection_poll_due:
  assumes "TcpConnection_poll os c net = (st, net')" and "t = net_tcp net c"
    and "expired (fst (millis os (snd (sys (os_select_writable os (tcp_fd t)) net)))) (tcp_deadline t)"
  shows "st \<in> {Ok, Timeout, Error, Closed}"
  using assms by (auto simp: TcpConnection_poll_def Let_def split: if_splits prod.splits)

lemma Session_open_starts:
  assumes "ses_openable s" and "TcpConnection_connected c net" and "Session_open os c t s net = (st, s', net')"
  shows "st = Pending"
  using assms by (auto simp: Session_open_def ses_openable_def Session_startRegister_def Let_def split: prod.splits)

lemma lan_connect_moves:
  assumes L: "lan_live l net" and p: "lan_phase l = LanConnect"
    and run: "LanInventory_loop os eth l net = (l', net')"
  shows "lan_moves os l net l' net'"
proof -
  obtain st net1 where t: "TcpConnection_poll os (lan_tcp l) net = (st, net1)" by fastforce
  obtain st2 ses net2 where o: "Session_open os (lan_tcp l) SESSION_TIMEOUT_MS (lan_session l) net1 = (st2, ses, net2)"
    by (metis prod_cases3)
  have live: "em_awaits (lan_tcp l) (lan_msg l)" "lan_idle l" "ses_openable (lan_session l)"
    using L p by (simp_all add: lan_live_def)
  have due: "st \<in> {Ok, Timeout, Error, Closed}" if "lan_due os l net"
    using TcpConnection_poll_due [OF t refl] that p by (simp add: lan_due_def Let_def)
  show ?thesis
  proof (cases "st = Ok")
    case True
    then have "TcpConnection_connected (lan_tcp l) net1"
      using t by (auto simp: TcpConnection_poll_def TcpConnection_connected_def Let_def split: if_splits prod.splits)
    then have "st2 = Pending"
      using Session_open_starts [OF live(3) _ o] by simp
    with Session_open_awaits o have "ses_awaits ses \<and> ses_state ses = SesRegistering \<and> ses_conn ses = Some (lan_tcp l)"
      by blast
    with run p t o True live show ?thesis
      by (auto simp: LanInventory_loop_def LanInventory_connect_def lan_moves_def lan_live_def lan_idle_def lan_stage_def
          split: prod.splits)
  next
    case False
    with run p t live due show ?thesis
      by (auto simp: LanInventory_loop_def LanInventory_connect_def lan_moves_def lan_live_def lan_idle_def lan_stage_def
          split: if_splits)
  qed
qed

lemma lan_register_moves:
  assumes C: "socket_contract os" and L: "lan_live l net" and p: "lan_phase l = LanRegister"
    and run: "LanInventory_loop os eth l net = (l', net')"
  shows "lan_moves os l net l' net'"
proof -
  let ?s = "lan_session l"
  obtain st ses net1 where t: "Session_poll os ?s net = (st, ses, net1)" by (metis prod_cases3)
  obtain now net0 where m: "millis os net = (now, net0)" by fastforce
  obtain now2 net2 where m2: "millis os net1 = (now2, net2)" by fastforce
  have live: "em_awaits (lan_tcp l) (lan_msg l)" "lan_idle l" "ses_conn ?s = Some (lan_tcp l)"
    "ses_state ?s = SesRegistering \<and> ses_awaits ?s \<or> ses_state ?s = SesFailed"
    using L p by (simp_all add: lan_live_def)
  have poll: "ses_conn ses = Some (lan_tcp l)"
    "st = Ok \<and> ses_state ses = SesRegistered \<and> TcpConnection_connected (lan_tcp l) net1 \<or>
     st \<noteq> Ok \<and> (ses_state ses = SesRegistering \<and> ses_awaits ses \<or> ses_state ses = SesFailed)"
    "lan_due os l net \<longrightarrow> st \<in> {Ok, Timeout, Error}"
  proof -
    have "ses_conn ses = Some (lan_tcp l) \<and>
      (st = Ok \<and> ses_state ses = SesRegistered \<and> TcpConnection_connected (lan_tcp l) net1 \<or>
       st \<noteq> Ok \<and> (ses_state ses = SesRegistering \<and> ses_awaits ses \<or> ses_state ses = SesFailed)) \<and>
      (lan_due os l net \<longrightarrow> st \<in> {Ok, Timeout, Error})"
    proof (cases "ses_state ?s = SesFailed")
      case True
      with t live(3) show ?thesis
        by (auto simp: Session_poll_def)
    next
      case False
      then have r: "ses_state ?s = SesRegistering" "ses_awaits ?s"
        using live(4) by auto
      have "st = Timeout" if "lan_due os l net"
        using Session_poll_expired [OF _ m, of ?s] that r(1) t m p by (simp add: lan_due_def Let_def)
      with Session_poll_awaits [OF C r(1) live(3) r(2) t] show ?thesis
        by blast
    qed
    then show "ses_conn ses = Some (lan_tcp l)"
      "st = Ok \<and> ses_state ses = SesRegistered \<and> TcpConnection_connected (lan_tcp l) net1 \<or>
       st \<noteq> Ok \<and> (ses_state ses = SesRegistering \<and> ses_awaits ses \<or> ses_state ses = SesFailed)"
      "lan_due os l net \<longrightarrow> st \<in> {Ok, Timeout, Error}"
      by blast+
  qed
  have up: "TcpConnection_connected (lan_tcp l) net2" if "st = Ok"
    using poll(2) that millis_only_os [OF m2] by (auto simp: only_os_def TcpConnection_connected_def)
  show ?thesis
    using run p t m2 live poll up
    by (auto simp: LanInventory_loop_def LanInventory_register_def Let_def lan_moves_def lan_live_def lan_idle_def
        lan_stage_def ses_openable_def Session_abort_def split: if_splits)
qed

lemma lan_close_moves:
  assumes L: "lan_live l net" and p: "lan_phase l = LanClose"
    and run: "LanInventory_loop os eth l net = (l', net')"
  shows "lan_moves os l net l' net'"
proof -
  let ?s = "lan_session l"
  obtain st ses net1 where t: "Session_poll os ?s net = (st, ses, net1)" by (metis prod_cases3)
  obtain now net0 where m: "millis os net = (now, net0)" by fastforce
  have live: "em_awaits (lan_tcp l) (lan_msg l)" "lan_idle l" "ses_state ?s \<in> {SesUnregistering, SesFailed}"
    using L p by (simp_all add: lan_live_def)
  have due: "st \<in> {Ok, Closed, Timeout, Error}" if "lan_due os l net"
    using Session_poll_expired [OF _ m, of ?s] that live(3) t m p
    by (auto simp: lan_due_def Let_def Session_poll_def)
  have st: "ses_state ses \<in> {SesUnregistering, SesFailed, SesClosed}" "st \<notin> {Ok, Closed} \<longrightarrow> ses_state ses \<noteq> SesClosed"
    using t live(3) by (auto simp: Session_poll_def Session_pollUnregistering_def Session_writePending_def
        Session_readResponse_def split: if_splits prod.splits)
  have "(\<exists>ses'. l' = l\<lparr>lan_session := ses', lan_found := lan_found l + 1, lan_phase := LanScan\<rparr> \<and> ses_openable ses') \<or>
      l' = l\<lparr>lan_session := ses\<rparr> \<and> st \<notin> {Ok, Closed, Timeout, Error}"
    using run p t st(1)
    by (auto simp: LanInventory_loop_def LanInventory_close_def Let_def ses_openable_def Session_abort_def split: if_splits)
  then show ?thesis
  proof
    assume "\<exists>ses'. l' = l\<lparr>lan_session := ses', lan_found := lan_found l + 1, lan_phase := LanScan\<rparr> \<and> ses_openable ses'"
    then obtain ses' where "l' = l\<lparr>lan_session := ses', lan_found := lan_found l + 1, lan_phase := LanScan\<rparr>"
      "ses_openable ses'"
      by blast
    with p live(1,2) show ?thesis
      by (simp add: lan_moves_def lan_live_def lan_idle_def lan_stage_def)
  next
    assume stay: "l' = l\<lparr>lan_session := ses\<rparr> \<and> st \<notin> {Ok, Closed, Timeout, Error}"
    then have "\<not> lan_due os l net" "ses_state ses = SesUnregistering \<or> ses_state ses = SesFailed"
      using due st by auto
    with stay p live(1,2) show ?thesis
      by (simp add: lan_moves_def lan_live_def lan_idle_def lan_stage_def)
  qed
qed

subsection \<open>The queries\<close>

text \<open>A query that is started is in flight: the client is connected and nothing else is.\<close>

lemma lan_start_moves:
  assumes L: "lan_live l net" and P: "lan_parts l net" and p: "lan_phase l = LanQuery" "\<not> lan_stepStarted l"
    and run: "LanInventory_loop os eth l net = (l', net')"
  shows "lan_moves os l net l' net'"
proof -
  have q: "LanInventory_startQuery os l net = (l', net')"
    using run p by (simp add: LanInventory_loop_def LanInventory_query_def)
  have live: "em_awaits (lan_tcp l) (lan_msg l)" "\<not> em_busy (lan_msg l)" "\<not> tag_waiting (lan_tag l)"
    "TcpConnection_connected (lan_tcp l) net" "ses_state (lan_session l) = SesRegistered" "lan_queryIndex l \<le> 8"
    using L p by (simp_all add: lan_live_def lan_idle_def)
  have I: "em_inv (lan_msg l)"
    using P by (simp add: lan_parts_def)
  show ?thesis
  proof (cases "lan_queryIndex l < 8")
    case True
    let ?path = "[0x20, 1, 0x24, 1] :: byte list" and ?data = "[0x30, kIdentityAttrs ! lan_queryIndex l]"
    obtain st msg net1 where s: "ExplicitMessage_send os (lan_tcp l) (ses_handle (lan_session l))
        (Service_code GetAttributeSingle) (Some ?path) 4 (Some ?data) 2 MESSAGE_TIMEOUT_MS (lan_msg l) net =
        (st, msg, net1)"
      by (metis prod_cases3)
    have A: "em_args (Some ?path) 4 (Some ?data) 2"
      by (simp add: em_args_def)
    have st: "st = Pending"
      using ExplicitMessage_send_decides [OF live(2,4) A s] by simp
    have "em_busy msg"
      using ExplicitMessage_send_pending [OF I A s [unfolded st]] by (auto simp: em_started_def em_busy_def)
    moreover have "l' = l\<lparr>lan_msg := msg, lan_stepStarted := True\<rparr>" "net' = net1"
      using q True s st
      by (simp_all add: LanInventory_startQuery_def Let_def appendClass_def appendInstance_def
          appendAttribute_def poke_def kSegmentClassId8_def kSegmentInstanceId8_def kSegmentAttributeId8_def
          kIdentityAttrCount_def kIdentityAttrs_def numeral_eq_Suc)
    ultimately show ?thesis
      using ExplicitMessage_send_awaits [OF s live(1)] p live True
      by (simp add: lan_moves_def lan_live_def lan_asking_def lan_stage_def)
  next
    case False
    obtain st t msg net1 where s: "Tag_read os (lan_tcp l) (ses_handle (lan_session l)) (Some lan_mode_tag) 1
        MESSAGE_TIMEOUT_MS (lan_tag l) (lan_msg l) net = (st, t, msg, net1)"
      by (metis prod_cases4)
    have st: "st = Pending"
      using Tag_read_starts [OF live(2,3,4) _ s] by (simp add: lan_mode_tag_def)
    have "em_busy msg \<and> tag_waiting t"
      by (rule Tag_read_pending [OF I s [unfolded st]]) (simp add: em_started_def em_busy_def tag_waiting_def)
    moreover have "l' = l\<lparr>lan_tag := t, lan_msg := msg, lan_stepStarted := True\<rparr>" "net' = net1"
      using q False s st by (simp_all add: LanInventory_startQuery_def kIdentityAttrCount_def kIdentityAttrs_def)
    ultimately show ?thesis
      using Tag_read_awaits [OF s live(1)] p live False
      by (simp add: lan_moves_def lan_live_def lan_asking_def lan_stage_def)
  qed
qed

text \<open>An attribute that has been asked for.\<close>

lemma lan_attribute_poll:
  assumes C: "socket_contract os" and I: "em_inv m" and A: "em_awaits c m" and B: "em_busy m \<or> em_state m = EmFailed"
    and run: "ExplicitMessage_poll os m net = (st, m', net')"
  shows "em_awaits c m' \<and> (st = Ok \<and> \<not> em_busy m' \<and> TcpConnection_connected c net' \<or>
      st \<noteq> Ok \<and> (em_busy m' \<or> em_state m' = EmFailed) \<and> (st \<noteq> Pending \<longrightarrow> \<not> em_busy m')) \<and>
    (expired (fst (millis os net)) (em_deadline m) \<longrightarrow> st = Timeout \<or> st = Error)"
proof (cases "em_busy m")
  case True
  with ExplicitMessage_poll_awaits [OF C A True run] ExplicitMessage_poll_spec [OF C I True run, of "[]" "[]"]
  show ?thesis
    by (auto simp: em_busy_def)
next
  case False
  with B run A show ?thesis
    by (auto simp: em_busy_def)
qed

lemma lan_attribute_moves:
  assumes C: "socket_contract os" and L: "lan_live l net" and P: "lan_parts l net"
    and p: "lan_phase l = LanQuery" "lan_stepStarted l" "lan_queryIndex l < 8"
    and run: "LanInventory_loop os eth l net = (l', net')"
  shows "lan_moves os l net l' net'"
proof -
  obtain st msg net1 where e: "ExplicitMessage_poll os (lan_msg l) net = (st, msg, net1)"
    by (metis prod_cases3)
  have live: "em_awaits (lan_tcp l) (lan_msg l)" "\<not> tag_waiting (lan_tag l)"
    "em_busy (lan_msg l) \<or> em_state (lan_msg l) = EmFailed" "ses_state (lan_session l) = SesRegistered"
    using L p by (simp_all add: lan_live_def lan_asking_def)
  have I: "em_inv (lan_msg l)"
    using P by (simp add: lan_parts_def)
  note poll = lan_attribute_poll [OF C I live(1,3) e]
  have due: "st = Timeout \<or> st = Error" if "lan_due os l net"
    using poll that p by (simp add: lan_due_def Let_def)
  have n: "kIdentityAttrCount = 8"
    by (simp add: kIdentityAttrCount_def kIdentityAttrs_def)
  have "l' = l\<lparr>lan_msg := msg, lan_id := identity_attr (kIdentityAttrs ! lan_queryIndex l) (ExplicitMessage_data msg)
        (em_dataLen msg) (lan_id l), lan_queryIndex := lan_queryIndex l + 1, lan_stepStarted := False\<rparr> \<and>
        net' = net1 \<and> st = Ok \<or>
      l' = l\<lparr>lan_msg := msg, lan_session := Session_abort (lan_session l), lan_phase := LanScan\<rparr> \<and>
        st \<in> {Timeout, Error, Closed} \<or>
      l' = l\<lparr>lan_msg := msg\<rparr> \<and> st \<notin> {Ok, Timeout, Error, Closed}"
    using run p e n
    by (auto simp: LanInventory_loop_def LanInventory_query_def LanInventory_finishQuery_def Let_def split: if_splits)
  with p live poll due show ?thesis
    by (auto simp: lan_moves_def lan_live_def lan_idle_def lan_asking_def lan_stage_def ses_openable_def
        Session_abort_def)
qed

text \<open>The mode tag that has been asked for: whatever comes of it, the device is reported.\<close>

lemma lan_mode_poll:
  assumes C: "socket_contract os" and I: "em_inv m" and A: "em_awaits c m"
    and B: "em_busy m \<and> tag_waiting t \<or> \<not> em_busy m \<and> tag_state t = TagFailed"
    and run: "Tag_poll os t m net = (st, t', m', net')"
  shows "em_awaits c m' \<and>
    (if st = Pending then em_busy m' \<and> tag_waiting t' else \<not> em_busy m' \<and> \<not> tag_waiting t') \<and>
    (st \<notin> {Pending, Ok} \<longrightarrow> tag_state t' = TagFailed) \<and>
    (expired (fst (millis os net)) (em_deadline m) \<longrightarrow> st = Timeout \<or> st = Error)"
proof (cases "tag_waiting t")
  case False
  with B run A show ?thesis
    by (auto simp: Tag_poll_settled Tag_status_def)
next
  case True
  with B have busy: "em_busy m"
    by (auto simp: tag_waiting_def)
  obtain st0 where e: "ExplicitMessage_poll os m net = (st0, m', net')" and f: "tag_finish st0 m' t = (st, t')"
    using run by (auto simp: Tag_poll_finish [OF True] split: prod.splits)
  have "st = Pending \<longleftrightarrow> st0 = Pending" "st0 = Timeout \<longrightarrow> st = Timeout" "st0 = Pending \<longrightarrow> t' = t"
    "st \<noteq> Pending \<longrightarrow> \<not> tag_waiting t'" "st \<notin> {Pending, Ok} \<longrightarrow> tag_state t' = TagFailed"
    using f by (auto simp: tag_finish_def tag_waiting_def Let_def split: if_splits)
  with Tag_poll_awaits [OF C A busy True run] ExplicitMessage_poll_spec [OF C I busy e, of "[]" "[]"] True
  show ?thesis
    by (auto simp: em_busy_def)
qed

lemma lan_mode_moves:
  assumes C: "socket_contract os" and L: "lan_live l net" and P: "lan_parts l net"
    and p: "lan_phase l = LanQuery" "lan_stepStarted l" "\<not> lan_queryIndex l < 8"
    and run: "LanInventory_loop os eth l net = (l', net')"
  shows "lan_moves os l net l' net'"
proof -
  obtain st t msg net1 where e: "Tag_poll os (lan_tag l) (lan_msg l) net = (st, t, msg, net1)"
    by (metis prod_cases4)
  have live: "em_awaits (lan_tcp l) (lan_msg l)" "ses_state (lan_session l) = SesRegistered" "lan_queryIndex l = 8"
    "em_busy (lan_msg l) \<and> tag_waiting (lan_tag l) \<or> \<not> em_busy (lan_msg l) \<and> tag_state (lan_tag l) = TagFailed"
    using L p by (simp_all add: lan_live_def lan_asking_def)
  have I: "em_inv (lan_msg l)" "Session_inv (lan_session l)"
    using P by (simp_all add: lan_parts_def)
  note poll = lan_mode_poll [OF C I(1) live(1,4) e]
  have due: "st = Timeout \<or> st = Error" if "lan_due os l net"
    using poll that p by (simp add: lan_due_def Let_def)
  have n: "kIdentityAttrCount = 8"
    by (simp add: kIdentityAttrCount_def kIdentityAttrs_def)
  obtain now net2 where m: "millis os net1 = (now, net2)" by fastforce
  have q: "LanInventory_query os l net = (l', net')"
    using run p(1) by (simp add: LanInventory_loop_def)
  let ?l = "l\<lparr>lan_tag := t, lan_msg := msg\<rparr>"
  have "LanInventory_query os l net =
      (if st \<in> {Ok, Timeout, Error, Closed} then LanInventory_finishQuery os ?l net1 else (?l, net1))"
    using p(2) live(3) n e by (simp add: LanInventory_query_def)
  moreover have "LanInventory_finishQuery os ?l net1 =
      (?l\<lparr>lan_queryIndex := 9, lan_stepStarted := False,
          lan_reports := lan_reports l @ [LanInventory_printDevice (?l\<lparr>lan_queryIndex := 9, lan_stepStarted := False\<rparr>)],
          lan_session := snd (Session_close (lan_session l)), lan_phase := LanClose, lan_phaseStarted := now\<rparr>, net2)"
    using m by (simp add: LanInventory_finishQuery_def Let_def n live(3))
  ultimately have "(\<exists>rs. l' = ?l\<lparr>lan_queryIndex := 9, lan_stepStarted := False, lan_reports := rs,
          lan_session := snd (Session_close (lan_session l)), lan_phase := LanClose, lan_phaseStarted := now\<rparr>) \<and>
        st \<in> {Ok, Timeout, Error, Closed} \<or>
      l' = ?l \<and> st \<notin> {Ok, Timeout, Error, Closed}"
    using q by (cases "st \<in> {Ok, Timeout, Error, Closed}") (simp_all only: if_True if_False prod.inject, blast+)
  then show ?thesis
  proof (elim disjE conjE exE)
    fix rs
    assume "l' = l\<lparr>lan_tag := t, lan_msg := msg, lan_queryIndex := 9, lan_stepStarted := False, lan_reports := rs,
        lan_session := snd (Session_close (lan_session l)), lan_phase := LanClose, lan_phaseStarted := now\<rparr>"
      and "st \<in> {Ok, Timeout, Error, Closed}"
    moreover from this(2) have "\<not> em_busy msg" "\<not> tag_waiting t"
      using poll by (auto split: if_splits)
    ultimately show ?thesis
      using p poll Session_close_registered [OF I(2) live(2)]
      by (simp add: lan_moves_def lan_live_def lan_idle_def lan_stage_def)
  next
    assume l': "l' = l\<lparr>lan_tag := t, lan_msg := msg\<rparr>" and st: "st \<notin> {Ok, Timeout, Error, Closed}"
    then have "\<not> lan_due os l net" "em_busy msg \<and> tag_waiting t \<or> \<not> em_busy msg \<and> tag_state t = TagFailed"
      using due poll by (auto split: if_splits)
    with l' p poll live(2,3) show ?thesis
      by (simp add: lan_moves_def lan_live_def lan_asking_def lan_stage_def)
  qed
qed

subsection \<open>Every reachable sketch\<close>

lemma lan_between_moves:
  assumes "socket_contract os" and "lan_live l net" and "lan_parts l net"
    and "lan_phase l \<in> {LanConnect, LanRegister, LanQuery, LanClose}"
    and "LanInventory_loop os eth l net = (l', net')"
  shows "lan_moves os l net l' net'"
proof (cases "lan_phase l = LanQuery")
  case False
  with assms(4) show ?thesis
    using lan_connect_moves [OF assms(2) _ assms(5)] lan_register_moves [OF assms(1,2) _ assms(5)]
      lan_close_moves [OF assms(2) _ assms(5)]
    by blast
next
  case True
  then show ?thesis
    using lan_start_moves [OF assms(2,3) True _ assms(5)] lan_attribute_moves [OF assms(1-3) True _ _ assms(5)]
      lan_mode_moves [OF assms(1-3) True _ _ assms(5)]
    by blast
qed

lemma lan_scan_live:
  assumes L: "lan_live l net" and p: "lan_phase l = LanScan" and run: "LanInventory_loop os eth l net = (l', net')"
  shows "lan_live l' net' \<and> lan_phase l' \<in> {LanScan, LanConnect, LanDone}"
proof -
  obtain advanced ip where n: "nextHost (lan_currentIp l) = (advanced, ip)"
    by (metis prod.collapse)
  show ?thesis
    using run p n L
    by (auto simp: LanInventory_loop_def LanInventory_scan_def lan_live_def lan_idle_def Let_def
        split: if_splits prod.splits)
qed

lemma lan_reach_live:
  assumes "socket_contract os" and "lan_reach os eth l net"
  shows "lan_live l net"
  using assms(2)
proof (induction rule: lan_reach.induct)
  case (start stx srx mtx mrx buf net phy tcp l net')
  then show ?case
    by (auto simp: LanInventory_setup_def LanInventory_new_def lan_live_def lan_idle_def em_awaits_def em_busy_def
        ExplicitMessage_new_def tag_waiting_def Tag_new_def ses_openable_def Session_new_def Let_def split: prod.splits)
next
  case (turn l net l' net')
  have P: "lan_parts l net"
    using lan_reach_inv [OF assms(1) turn(1)] by (simp add: lan_inv_def)
  show ?case
  proof (cases "lan_phase l")
    case LanWaitEthernet
    with turn(2,3) show ?thesis
      by (auto simp: LanInventory_loop_def LanInventory_waitEthernet_def lan_live_def lan_idle_def Let_def
          split: if_splits prod.splits)
  next
    case LanScan
    from lan_scan_live [OF turn(3) this turn(2)] show ?thesis ..
  next
    case LanDone
    with turn(2,3) show ?thesis
      by (simp add: LanInventory_loop_def)
  qed (use lan_between_moves [OF assms(1) turn(3) P _ turn(2)] in \<open>simp_all add: lan_moves_def\<close>)
next
  case (world l net w)
  then show ?case
    by (cases "lan_phase l") (auto simp: lan_live_def TcpConnection_connected_def split: if_splits)
qed

subsection \<open>The end\<close>

lemma lan_scan_falls:
  assumes p: "lan_phase l = LanScan" and less: "ip_num (lan_currentIp l) < ip_num (lan_broadcast l)"
    and run: "LanInventory_loop os eth l net = (l', net')"
  shows "lan_rank l' < lan_rank l \<and> (lan_phase l' = LanDone \<longrightarrow> lan_currentIp l' = lan_broadcast l)"
proof -
  obtain advanced ip where n: "nextHost (lan_currentIp l) = (advanced, ip)"
    by (metis prod.collapse)
  obtain a b c d where hi: "lan_broadcast l = (a, b, c, d)" by (metis prod_cases4)
  have "ip_num (lan_broadcast l) < 2 ^ 32"
    using unat_byte [of a] unat_byte [of b] unat_byte [of c] unat_byte [of d] by (simp add: hi ip_num_def)
  then have adv: "advanced" "ip_num ip = ip_num (lan_currentIp l) + 1"
    using nextHost_num [OF n] less by (auto split: if_splits)
  have "lan_currentIp l' = ip \<and> lan_broadcast l' = lan_broadcast l \<and>
      (lan_phase l' = LanDone \<and> ip = lan_broadcast l \<or> lan_phase l' = LanScan \<or> lan_phase l' = LanConnect)"
    using run p n adv(1) by (auto simp: LanInventory_loop_def LanInventory_scan_def Let_def split: if_splits prod.splits)
  moreover from this have "lan_stage l' \<le> 21"
    by (auto simp: lan_stage_def)
  ultimately show ?thesis
    using adv(2) less p by (auto simp: lan_rank_def lan_stage_def)
qed

text \<open>One turn: the rank falls when it is due, and never rises.\<close>

lemma lan_turn_falls:
  assumes C: "socket_contract os" and R: "lan_reach os eth l net" and net: "lan_network l \<noteq> lan_broadcast l"
    and p: "lan_phase l \<noteq> LanWaitEthernet" "lan_phase l \<noteq> LanDone"
    and run: "LanInventory_loop os eth l net = (l', net')"
  shows "lan_phase l' \<noteq> LanWaitEthernet \<and> (lan_phase l' = LanDone \<longrightarrow> lan_currentIp l' = lan_broadcast l) \<and>
    lan_rank l' \<le> lan_rank l \<and> (lan_due os l net \<longrightarrow> lan_rank l' < lan_rank l)"
proof (cases "lan_phase l = LanScan")
  case True
  have "lan_track (lan_network l) (lan_broadcast l) (cfg_gateway (lan_cfg l)) (lan_view l)"
    using lan_reach_inv [OF C R] net by (simp add: lan_inv_def)
  then have "ip_num (lan_currentIp l) < ip_num (lan_broadcast l)"
    using True by (simp add: lan_track_def lan_view_def)
  from lan_scan_falls [OF True this run] lan_scan_live [OF lan_reach_live [OF C R] True run] show ?thesis
    by auto
next
  case False
  then have "lan_phase l \<in> {LanConnect, LanRegister, LanQuery, LanClose}"
    using p by (cases "lan_phase l") simp_all
  from lan_between_moves [OF C lan_reach_live [OF C R] _ this run] lan_reach_inv [OF C R] show ?thesis
    by (auto simp: lan_moves_def lan_rank_def lan_inv_def)
qed

lemma lan_turns_rank:
  assumes C: "socket_contract os" and "lan_reach os eth l0 net0" and net: "lan_network l0 \<noteq> lan_broadcast l0"
    and p: "lan_phase l0 \<noteq> LanWaitEthernet" "lan_phase l0 \<noteq> LanDone" and "lan_turns os eth l0 net0 k l net"
  shows "lan_reach os eth l net \<and> lan_network l = lan_network l0 \<and> lan_broadcast l = lan_broadcast l0 \<and>
    lan_phase l \<noteq> LanWaitEthernet \<and>
    (if lan_phase l = LanDone then lan_currentIp l = lan_broadcast l0 else k + lan_rank l \<le> lan_rank l0)"
  using assms(6)
proof (induction rule: lan_turns.induct)
  case start
  with assms show ?case by simp
next
  case (turn k l net l' net')
  then have R: "lan_reach os eth l net" and w: "lan_phase l \<noteq> LanWaitEthernet"
    and same: "lan_network l = lan_network l0" "lan_broadcast l = lan_broadcast l0"
    by simp_all
  from R turn(2) have R': "lan_reach os eth l' net'"
    by (rule lan_reach.turn)
  have same': "lan_network l' = lan_network l0" "lan_broadcast l' = lan_broadcast l0"
    using LanInventory_step [OF turn(2) w] same by (simp_all add: lan_same_def)
  show ?case
  proof (cases "lan_phase l = LanDone")
    case True
    with turn(2,3) show ?thesis
      using R' by (simp add: LanInventory_loop_def)
  next
    case False
    have "k + lan_rank l \<le> lan_rank l0"
      using turn(3) False by simp
    with lan_turn_falls [OF C R _ w False turn(2)] net same R' same' show ?thesis
      by auto
  qed
next
  case (world k l net w)
  then show ?case
    by (blast intro: lan_reach.world)
qed

text \<open>
  C28. A scan ends, at the broadcast address. From any reachable sketch that is scanning a subnet of
  more than one address, whatever the network and the devices do: in every run of turns, the sketch
  is done, with the whole subnet behind it, or fewer turns were due than 22 for each address that was
  left. A turn is due when the phase waits for nothing, or when the clock has reached the deadline
  it waits for; so a sketch whose clock goes on finishes the scan. No answer that stays out, no
  connection that is lost at any point, and no refused call keeps it from the next address. (With a
  host mask the subnet is one address: \<open>LanInventory_host_mask_escapes\<close>.)
\<close>

theorem LanInventory_scan_ends:
  assumes "socket_contract os" and "lan_reach os eth l0 net0" and "lan_network l0 \<noteq> lan_broadcast l0"
    and "lan_phase l0 = LanScan" and "lan_turns os eth l0 net0 k l net"
  shows "lan_phase l = LanDone \<and> lan_currentIp l = lan_broadcast l0 \<or>
    k < 22 * (ip_num (lan_broadcast l0) - ip_num (lan_currentIp l0))"
proof -
  have r: "if lan_phase l = LanDone then lan_currentIp l = lan_broadcast l0 else k + lan_rank l \<le> lan_rank l0"
    and R: "lan_reach os eth l net" "lan_network l \<noteq> lan_broadcast l" "lan_phase l \<noteq> LanWaitEthernet"
    using lan_turns_rank [OF assms(1-3) _ _ assms(5)] assms(3,4) by simp_all
  have "0 < lan_rank l" if "lan_phase l \<noteq> LanDone"
  proof -
    have "lan_track (lan_network l) (lan_broadcast l) (cfg_gateway (lan_cfg l)) (lan_view l)"
      using lan_reach_inv [OF assms(1) R(1)] R(2) by (simp add: lan_inv_def)
    then have "ip_num (lan_currentIp l) < ip_num (lan_broadcast l)"
      using R(3) that by (simp add: lan_track_def lan_view_def)
    then show ?thesis
      by (simp add: lan_rank_def)
  qed
  with r assms(4) show ?thesis
    by (auto simp: lan_rank_def lan_stage_def split: if_splits)
qed

subsection \<open>An example\<close>

text \<open>The clock of the loopback can be set, so a run can be given as many due turns as one likes.\<close>

lemma loopback_due:
  obtains w :: loopback where "lan_due loopback_os l (net\<lparr>net_os := w\<rparr>)"
proof -
  have e: "expired t t" for t
    by (simp add: expired_def)
  let ?w = "\<lambda>now. \<lparr> lb_now = now, lb_random = 7, lb_queue = [] \<rparr>"
  show thesis
  proof (cases "lan_phase l")
    case LanConnect
    then show ?thesis
      by (intro that [of "?w (tcp_deadline (net_tcp net (lan_tcp l)))"]) (simp add: lan_due_def Let_def sys_def e)
  next
    case LanQuery
    then show ?thesis
      by (intro that [of "?w (em_deadline (lan_msg l))"]) (simp add: lan_due_def Let_def e)
  qed (intro that [of "?w (ses_deadline (lan_session l))"]; simp add: lan_due_def Let_def e)+
qed

lemma loopback_turns: "\<exists>l net. lan_turns loopback_os eth l0 net0 k l net"
proof (induction k)
  case 0
  show ?case
    using lan_turns.start by blast
next
  case (Suc k)
  then obtain l net where t: "lan_turns loopback_os eth l0 net0 k l net" by blast
  obtain w where d: "lan_due loopback_os l (net\<lparr>net_os := w\<rparr>)"
    by (rule loopback_due)
  obtain l' net' where "LanInventory_loop loopback_os eth l (net\<lparr>net_os := w\<rparr>) = (l', net')" by fastforce
  from lan_turns.turn [OF lan_turns.world [OF t] this] d show ?case
    by auto
qed

theorem LanInventory_scan_ends_witness:
  "\<exists>l0 l :: lan_sketch. \<exists>net. lan_turns loopback_os (lan_demo_eth LOCAL_SUBNET) l0 (loopback_net 0 []) 5610 l net \<and>
    lan_currentIp l0 = (192, 168, 1, 0) \<and> lan_phase l = LanDone \<and> lan_currentIp l = (192, 168, 1, 255)"
proof -
  obtain l0 :: lan_sketch where l0: "LanInventory_loop loopback_os (lan_demo_eth LOCAL_SUBNET) (demo_lan LOCAL_SUBNET)
      (loopback_net 0 []) = (l0, loopback_net 0 [])" "lan_phase l0 = LanScan" "lan_network l0 = (192, 168, 1, 0)"
      "lan_broadcast l0 = (192, 168, 1, 255)" "lan_currentIp l0 = (192, 168, 1, 0)"
    using demo_lan_up [of LOCAL_SUBNET] demo_lan_subnet by metis
  have R: "lan_reach loopback_os (lan_demo_eth LOCAL_SUBNET) l0 (loopback_net 0 [])"
    using demo_lan_reach l0(1) by (rule lan_reach.turn)
  obtain l net where t: "lan_turns loopback_os (lan_demo_eth LOCAL_SUBNET) l0 (loopback_net 0 []) 5610 l net"
    using loopback_turns by blast
  have "ip_num (192, 168, 1, 255) - ip_num (192, 168, 1, 0) = 255"
    by (simp add: ip_num_def)
  with LanInventory_scan_ends [OF loopback_socket_contract R _ l0(2) t] l0 t show ?thesis
    by (intro exI [of _ l0] exI [of _ l] exI [of _ net]) simp
qed

end
