(* ===== verification/LateReply.thy ===== *)
theory LateReply
  imports ExplicitMessage
begin

text \<open>
  What a late reply does to the exchanges of a message: the reply to a request whose exchange has
  timed out stays in the socket, and every exchange after it reads the reply to the one before.
\<close>

subsection \<open>A device that answers\<close>

text \<open>
  Exchanges with a device that answers each request, once it has it: a call of \<open>send()\<close>; a poll, in
  time, that finds in the socket what was there before the call; then the reply to this request
  arrives. \<open>sts\<close> are the statuses of those polls, \<open>reqs\<close> the requests. The device answers with the
  context of the request, and with any service, status and data.
\<close>

inductive em_rounds ::
  "'w os \<Rightarrow> ('w \<Rightarrow> int \<Rightarrow> byte list) \<Rightarrow> conn_ref \<Rightarrow> u32 \<Rightarrow> explicit_message \<Rightarrow> 'w net \<Rightarrow>
     Status list \<Rightarrow> byte list list \<Rightarrow> explicit_message \<Rightarrow> 'w net \<Rightarrow> bool" for os q c h m0 net0 where
  start: "em_rounds os q c h m0 net0 [] [] m0 net0"
| round: "em_rounds os q c h m0 net0 sts reqs m net \<Longrightarrow> em_args path pathLen data dataLen \<Longrightarrow>
    ExplicitMessage_send os c h service path pathLen data dataLen timeoutMs m net = (Pending, m1, net1) \<Longrightarrow>
    conn_up (Some c) (net1\<lparr>net_os := w1\<rparr>) \<Longrightarrow>
    conn_queue q (Some c) (net1\<lparr>net_os := w1\<rparr>) = conn_queue q (Some c) net \<Longrightarrow>
    \<not> expired (fst (millis os (net1\<lparr>net_os := w1\<rparr>))) (em_deadline m1) \<Longrightarrow>
    ExplicitMessage_poll os m1 (net1\<lparr>net_os := w1\<rparr>) = (st, m2, net2) \<Longrightarrow>
    conn_queue q (Some c) (net2\<lparr>net_os := w2\<rparr>) =
      conn_queue q (Some c) net2 @ rr_reply h (em_context m) code_service code d \<Longrightarrow> length d \<le> 252 \<Longrightarrow>
    em_rounds os q c h m0 net0 (sts @ [st])
      (reqs @ [rr_request h (em_context m) service (arg_bytes path pathLen) (arg_bytes data dataLen)])
      m2 (net2\<lparr>net_os := w2\<rparr>)"

text \<open>The message is one reply behind: what is in the socket is the reply to the last request.\<close>

definition em_behind :: "('w \<Rightarrow> int \<Rightarrow> byte list) \<Rightarrow> conn_ref \<Rightarrow> u32 \<Rightarrow> explicit_message \<Rightarrow> 'w net \<Rightarrow> bool" where
  "em_behind q c h m net \<longleftrightarrow>
     (\<exists>s code d. conn_queue q (Some c) net = rr_reply h (em_context m - 1) s code d \<and> length d \<le> 252)"

lemma rr_parse_other: "ctx' \<noteq> ctx \<Longrightarrow> rr_parse ctx' (rr_reply h ctx s code d) = None"
  by (simp add: rr_parse_def rr_reply_def rr_packet_def header.dec_enc Let_def)

text \<open>A started message on a healthy connection that is one reply behind.\<close>

lemma em_behind_poll:
  assumes S: "stream_contract os q" and s: "em_started c deadline req m m1"
    and o: "net_sent net0 = net_sent net" "net_rcvd net0 = net_rcvd net"
    and up: "conn_up (Some c) net0" and t: "\<not> expired (fst (millis os net0)) deadline"
    and b: "em_behind q c h m net0" and run: "ExplicitMessage_poll os m1 net0 = (st, m2, net2)"
  shows "st = Error \<and> em_inv m2 \<and> em_state m2 = EmFailed \<and> em_context m2 = em_context m + 1 \<and>
    conn_queue q (Some c) net2 = [] \<and> net_sent net2 c = net_sent net c @ req"
proof -
  have C: "socket_contract os"
    using S by (simp add: stream_contract_def)
  have m1: "em_inv m1" "em_busy m1" "em_conn m1 = Some c" "em_rxLen m1 = 0" "em_sentContext m1 = em_context m"
      "em_context m1 = em_context m + 1" "em_deadline m1 = deadline" "take (em_txLen m1) (em_tx m1) = req"
    using s unfolding em_started_def em_busy_def by blast+
  obtain sv code d where r: "conn_queue q (Some c) net0 = rr_reply h (em_context m - 1) sv code d" "length d \<le> 252"
    using b by (auto simp: em_behind_def)
  let ?p = "rr_reply h (em_context m - 1) sv code d"
  have p: "packet ?p" "length ?p \<le> 296"
    using rr_parse_reply(2,3) [of d] r(2) by simp_all
  have n: "rr_parse (em_sentContext m1) ?p = None"
    using m1(5) by (simp add: rr_parse_other)
  have live: "conn_queue q (Some c) net2 = []" "em_same_request m1 m2" "em_txSent m2 = em_txLen m2" "st = Error"
      "em_state m2 = EmFailed"
    using ExplicitMessage_poll_live [OF S m1(1,2) _ _ p _ _ run, of "[]"] m1(3,4,7) up t r(1) n by simp_all
  have x: "em_exchange (net_sent net c) (net_rcvd net c) m1 net0"
    using s o by (simp add: em_started_def) (simp add: exchange_def conn_out_def conn_in_def)
  have spec: "em_inv m2" "em_exchange (net_sent net c) (net_rcvd net c) m2 net2"
    using ExplicitMessage_poll_spec [OF C m1(1,2) run] x by blast+
  have "take (em_txSent m2) (em_tx m2) = req" "em_conn m2 = Some c" "em_context m2 = em_context m + 1"
    using live(2,3) m1(3,6,8) by (simp_all add: em_same_request_def)
  with spec live show ?thesis
    by (simp add: exchange_def conn_out_def)
qed

text \<open>One reply behind, the message stays one reply behind.\<close>

lemma em_rounds_behind:
  assumes S: "stream_contract os q" and I: "em_inv m0" and F: "em_state m0 = EmFailed" and b: "em_behind q c h m0 net0"
    and r: "em_rounds os q c h m0 net0 sts reqs m net"
  shows "em_inv m \<and> em_state m = EmFailed \<and> em_behind q c h m net \<and> set sts \<subseteq> {Error} \<and>
    em_context m = em_context m0 + of_nat (length sts) \<and> net_sent net c = net_sent net0 c @ concat reqs"
  using r
proof (induction rule: em_rounds.induct)
  case start
  then show ?case
    using I F b by simp
next
  case (round sts reqs m net path pathLen data dataLen service timeoutMs m1 net1 w1 st m2 net2 w2 sv code d)
  obtain now where m: "millis os net = (now, net1)"
    and s: "em_started c (now + timeoutMs)
      (rr_request h (em_context m) service (arg_bytes path pathLen) (arg_bytes data dataLen)) m m1"
    using ExplicitMessage_send_pending [OF _ round(2,3)] round.IH by blast
  have o: "net_sent (net1\<lparr>net_os := w1\<rparr>) = net_sent net" "net_rcvd (net1\<lparr>net_os := w1\<rparr>) = net_rcvd net"
    using m by (auto simp: millis_def sys_def split: prod.splits)
  have "em_behind q c h m (net1\<lparr>net_os := w1\<rparr>)"
    using round.IH unfolding em_behind_def round(5) by blast
  moreover have "\<not> expired (fst (millis os (net1\<lparr>net_os := w1\<rparr>))) (now + timeoutMs)"
    using round(6) s by (simp add: em_started_def)
  ultimately have p: "st = Error" "em_inv m2" "em_state m2 = EmFailed" "em_context m2 = em_context m + 1"
      "conn_queue q (Some c) net2 = []"
      "net_sent net2 c = net_sent net c @
        rr_request h (em_context m) service (arg_bytes path pathLen) (arg_bytes data dataLen)"
    using em_behind_poll [OF S s o round(4) _ _ round(7)] by blast+
  have "em_behind q c h m2 (net2\<lparr>net_os := w2\<rparr>)"
    using round(8,9) p(4,5) by (auto simp: em_behind_def)
  with p round.IH show ?case
    by simp
qed

text \<open>A run of polls that ends in a failure leaves the message failed.\<close>

lemma em_run_failed:
  assumes "em_run os m net st m' net'" and "socket_contract os" and "em_inv m" and "em_busy m" and "failure st"
  shows "em_state m' = EmFailed"
  using assms
proof (induction rule: em_run.induct)
  case (last m net st m' net')
  from ExplicitMessage_poll_spec [OF last(2-4,1), of "[]" "[]"] last(5) show ?case
    by auto
next
  case (again m net m1 net1 w st m' net')
  from ExplicitMessage_poll_spec [OF again(4-6,1), of "[]" "[]"] again(3,4,7) show ?case
    by auto
qed

subsection \<open>The property\<close>

text \<open>
  C33. One late reply makes every later exchange fail. An exchange sends its whole request and times
  out before the reply is there; the connection stays open, and then the reply arrives. From then
  on the device answers every request, correctly and under its context, as soon as it has it; every
  request is sent in full; and every exchange ends with \<open>Error\<close>, because its poll finds the reply to
  the exchange before, takes it off the socket, and rejects it for its context. However many
  exchanges are made, the message stays one reply behind.
\<close>

theorem em_late_reply:
  assumes "stream_contract os q" and "em_inv m" and "em_args path pathLen data dataLen"
    and "ExplicitMessage_send os c h service path pathLen data dataLen timeoutMs m net = (Pending, m1, net1)"
    and "em_run os m1 net1 Timeout m2 net2" and "em_txSent m2 = em_txLen m2"
    and "conn_queue q (Some c) (net2\<lparr>net_os := w\<rparr>) = rr_reply h (em_context m) code_service code d"
    and "length d \<le> 252"
    and "em_rounds os q c h m2 (net2\<lparr>net_os := w\<rparr>) sts reqs m3 net3"
  shows "set sts \<subseteq> {Error} \<and> em_state m3 = EmFailed \<and> em_context m3 = em_context m + 1 + of_nat (length sts) \<and>
    net_sent net3 c = net_sent net c @
      rr_request h (em_context m) service (arg_bytes path pathLen) (arg_bytes data dataLen) @ concat reqs \<and>
    (\<exists>s code d. conn_queue q (Some c) net3 = rr_reply h (em_context m3 - 1) s code d)"
proof -
  have C: "socket_contract os"
    using assms(1) by (simp add: stream_contract_def)
  obtain now where m: "millis os net = (now, net1)"
    and s: "em_started c (now + timeoutMs)
      (rr_request h (em_context m) service (arg_bytes path pathLen) (arg_bytes data dataLen)) m m1"
    using ExplicitMessage_send_pending [OF assms(2-4)] by blast
  have m1: "em_inv m1" "em_busy m1" "em_conn m1 = Some c" "em_context m1 = em_context m + 1"
      "take (em_txLen m1) (em_tx m1) =
        rr_request h (em_context m) service (arg_bytes path pathLen) (arg_bytes data dataLen)"
    using s unfolding em_started_def em_busy_def by blast+
  have x: "em_exchange (net_sent net c) (net_rcvd net c) m1 net1"
    using s m by (simp add: em_started_def) (simp add: exchange_def conn_out_def conn_in_def)
  note run = em_run_busy [OF assms(5) C m1(1,2) x]
  have all: "take (em_txSent m2) (em_tx m2) =
      rr_request h (em_context m) service (arg_bytes path pathLen) (arg_bytes data dataLen)"
    using run m1(5) assms(6) by (simp add: em_same_request_def)
  have m2: "em_inv m2" "em_conn m2 = Some c" "em_context m2 = em_context m + 1"
    using run m1(3,4) by (simp_all add: em_same_request_def)
  have sent: "net_sent net2 c = net_sent net c @
      rr_request h (em_context m) service (arg_bytes path pathLen) (arg_bytes data dataLen)"
    using run all m2(2) by (simp add: exchange_def conn_out_def)
  have F: "em_state m2 = EmFailed"
    using em_run_failed [OF assms(5) C m1(1,2)] by (simp add: failure_iff_negative)
  have "em_behind q c h m2 (net2\<lparr>net_os := w\<rparr>)"
    using assms(7,8) m2(3) by (auto simp: em_behind_def)
  note rounds = em_rounds_behind [OF assms(1) m2(1) F this assms(9)]
  then have "\<exists>s code d. conn_queue q (Some c) net3 = rr_reply h (em_context m3 - 1) s code d"
    unfolding em_behind_def by blast
  with rounds m2(3) sent show ?thesis
    by simp
qed

subsection \<open>An example\<close>

text \<open>
  The example request at time 0 is sent and polled, and times out at time 1000. The reply arrives, the
  request is made again, and at time 1500 it ends with \<open>Error\<close>.
\<close>

lemma demo_send_empty:
  "ExplicitMessage_send loopback_os 0 9 0x4C (Some demo_path) 6 (Some [1, 0]) 2 1000 demo_message
     (loopback_net 0 []) = (Pending, demo_sent, loopback_net 0 [])"
  using demo_send by (simp add: ExplicitMessage_send_def demo_message_def ExplicitMessage_new_def Let_def)

lemma demo_waits:
  obtains m net where "ExplicitMessage_poll loopback_os demo_sent (loopback_net 0 []) = (Pending, m, net)"
    and "em_txSent m = em_txLen m" and "em_busy m" and "em_deadline m = 1000"
    and "net_tcp net = net_tcp (loopback_net 0 [])" and "net_os net = net_os (loopback_net 0 [])"
proof -
  let ?n = "loopback_net 0 []"
  have b: "em_inv demo_sent" "em_conn demo_sent = Some 0" "em_deadline demo_sent = 1000" "em_rxLen demo_sent = 0"
      "em_state demo_sent = EmSending" "em_txSent demo_sent = 0"
    using demo_started by (simp_all add: em_started_def)
  have e: "em_buffers demo_sent" "em_rxExpected demo_sent = 24"
    using b(1,4,5) by (simp_all add: em_inv_def em_busy_def em_framed_def rx_framed_def)
  have len: "0 < em_txLen demo_sent" "em_txLen demo_sent \<le> length (em_tx demo_sent)"
    using demo_started e(1) by (simp_all add: em_started_def em_buffers_def rr_request_bytes)
  obtain net1 where w: "ExplicitMessage_writePending loopback_os demo_sent ?n =
      (Ok, demo_sent\<lparr>em_txSent := em_txLen demo_sent\<rparr>, net1)"
    and n1: "net_tcp net1 = net_tcp ?n" "net_os net1 = net_os ?n"
    using len b(2,6)
    by (auto simp: ExplicitMessage_writePending_def write_loop.simps conn_write_def TcpConnection_write_def sys_def
        subbuf_def Let_def)
  have "conn_read loopback_os (Some 0) n net1 = ((0, []), net1)" if "0 < n" for n
    using that n1 by (simp add: conn_read_def TcpConnection_read_def sys_def)
  then have "ExplicitMessage_readResponse loopback_os
      (demo_sent\<lparr>em_txSent := em_txLen demo_sent, em_state := EmReceiving\<rparr>) net1 =
      (Pending, demo_sent\<lparr>em_txSent := em_txLen demo_sent, em_state := EmReceiving\<rparr>, net1)"
    using b(2,4) e(2) by (simp add: ExplicitMessage_readResponse_def read_loop.simps)
  with w have "ExplicitMessage_poll loopback_os demo_sent ?n =
      (Pending, demo_sent\<lparr>em_txSent := em_txLen demo_sent, em_state := EmReceiving\<rparr>, net1)"
    using b(3,5) by (simp add: ExplicitMessage_poll_def expired_def)
  then show thesis
    by (rule that) (simp_all add: b(3) em_busy_def n1)
qed

theorem em_late_reply_witness:
  "\<exists>m2 m3 (net2 :: loopback net) net3. em_state m2 = EmFailed \<and> em_txSent m2 = em_txLen m2 \<and>
    conn_queue (\<lambda>w fd. lb_queue w) (Some 0) net2 = demo_result \<and>
    em_rounds loopback_os (\<lambda>w fd. lb_queue w) 0 9 m2 net2 [Error] [rr_request 9 2 0x4C demo_path [1, 0]] m3 net3"
proof -
  let ?q = "\<lambda>w fd. lb_queue w" and ?w = "\<lambda>now bs. \<lparr> lb_now = now, lb_random = 7, lb_queue = bs \<rparr>"
  have ctx: "em_context demo_message = 1" and args: "arg_bytes (Some demo_path) 6 = demo_path"
      "arg_bytes (Some [1, 0]) 2 = [1, 0 :: byte]"
    by (simp_all add: demo_message_def ExplicitMessage_new_def arg_bytes_def)
  obtain m1 net1 where p: "ExplicitMessage_poll loopback_os demo_sent (loopback_net 0 []) = (Pending, m1, net1)"
      "em_txSent m1 = em_txLen m1" "em_busy m1" "em_deadline m1 = 1000" "net_tcp net1 = net_tcp (loopback_net 0 [])"
    using demo_waits by metis
  let ?n1 = "net1\<lparr>net_os := ?w 1000 []\<rparr>" and ?n2 = "net1\<lparr>net_os := ?w 1000 demo_result\<rparr>"
  let ?m2 = "m1\<lparr>em_state := EmFailed\<rparr>"
  have "ExplicitMessage_poll loopback_os m1 ?n1 = (Timeout, ?m2, ?n1)"
    using ExplicitMessage_poll_late [OF p(3), of loopback_os ?n1] p(4) by (simp add: expired_def)
  then have run: "em_run loopback_os demo_sent (loopback_net 0 []) Timeout ?m2 ?n1"
    using em_run.again [OF p(1) em_run.last] by simp
  obtain m3 net3 where again: "ExplicitMessage_send loopback_os 0 9 0x4C (Some demo_path) 6 (Some [1, 0]) 2 1000
      ?m2 ?n2 = (Pending, m3, net3)" "net3 = ?n2" "em_deadline m3 = 2000"
    using p(5) by (simp add: ExplicitMessage_send_def TcpConnection_connected_def Let_def)
  let ?n3 = "net3\<lparr>net_os := ?w 1500 demo_result\<rparr>"
  obtain st m4 net4 where poll: "ExplicitMessage_poll loopback_os m3 ?n3 = (st, m4, net4)"
    by (metis prod_cases3)
  let ?a = "rr_reply 9 (em_context ?m2) 0xCC 0 [0xC3, 0, 5, 6, 7, 8]"
  let ?n4 = "net4\<lparr>net_os := ?w 1500 (lb_queue (net_os net4) @ ?a)\<rparr>"
  have r: "em_rounds loopback_os ?q 0 9 ?m2 ?n2 ([] @ [st])
      ([] @ [rr_request 9 (em_context ?m2) 0x4C (arg_bytes (Some demo_path) 6) (arg_bytes (Some [1, 0]) 2)]) m4 ?n4"
    by (rule em_rounds.round [OF em_rounds.start demo_args again(1) _ _ _ poll, where d = "[0xC3, 0, 5, 6, 7, 8]"])
      (simp_all add: again(2,3) p(5) conn_up_def conn_queue_def expired_def)
  have q: "conn_queue ?q (Some 0) (?n1\<lparr>net_os := ?w 1000 demo_result\<rparr>) =
      rr_reply 9 (em_context demo_message) 0xCC 0 [0xC3, 0, 1, 2, 3, 4]"
    by (simp add: conn_queue_def demo_result_def ctx)
  have "em_context demo_sent = 2"
    using demo_started ctx by (simp add: em_started_def)
  then have c2: "em_context ?m2 = 2"
    using ExplicitMessage_poll_spec [OF loopback_socket_contract _ _ p(1), of "[]" "[]"] demo_started
    by (simp add: em_same_request_def em_started_def em_busy_def)
  have "st = Error"
    using em_late_reply [OF loopback_stream_contract demo_message_inv demo_args demo_send_empty run _ q, of "[st]"] r p(2)
    by simp
  with r c2 args p(2) show ?thesis
    by (intro exI [of _ ?m2] exI [of _ m4] exI [of _ ?n2] exI [of _ ?n4])
      (simp add: conn_queue_def del: demo_path_bytes)
qed

end
