(* ===== verification/EipSession.thy ===== *)
theory EipSession
  imports Sketch
begin

text \<open>
  The sketch \<open>src/examples/EipSession/EipSession.ino\<close>: it opens a session, holds it for two seconds,
  closes it, and begins again. It has no globals of its own.
\<close>

definition HOLD_MS :: u32 where "HOLD_MS = 2000"

definition EipSession_new :: "int \<Rightarrow> conn_ref \<Rightarrow> session \<Rightarrow> sketch" where
  "EipSession_new ETH_PHY_W5500 conn ses =
     \<lparr> sk_eth = Client_new ETH_PHY_W5500, sk_cfg = Config_default ETH_PHY_W5500, sk_conn = conn,
       sk_session = ses, sk_phase = SkWaitEthernet, sk_phaseStarted = 0 \<rparr>"

definition EipSession_registered :: "'w os \<Rightarrow> sketch \<Rightarrow> 'w net \<Rightarrow> sketch \<times> 'w net" where
  "EipSession_registered os s net =
     (case millis os net of (now, net1) \<Rightarrow>
        if HOLD_MS \<le> now - sk_phaseStarted s then
          (case millis os net1 of (now2, net2) \<Rightarrow>
             (s\<lparr>sk_session := snd (Session_close (sk_session s)), sk_phase := SkCloseSession,
                sk_phaseStarted := now2\<rparr>, net2))
        else (s, net1))"

definition EipSession_loop :: "'w os \<Rightarrow> 'w eth \<Rightarrow> sketch \<Rightarrow> 'w net \<Rightarrow> sketch \<times> 'w net" where
  "EipSession_loop os eth s net =
     (case sk_phase s of
        SkWaitEthernet \<Rightarrow> Sketch_waitEthernet os eth s net
      | SkConnect \<Rightarrow> Sketch_connect os s net
      | SkOpenSession \<Rightarrow> Sketch_openSession os Pair s net
      | SkWork \<Rightarrow> EipSession_registered os s net
      | SkCloseSession \<Rightarrow> Sketch_closeSession os s net
      | SkRetryWait \<Rightarrow> Sketch_retryWait os s net)"

interpretation eip: sketch_client os eth "EipSession_loop os eth" Pair "EipSession_registered os"
    "\<lambda>_. socket_contract os" "\<lambda>_ _. socket_contract os" for os eth
proof unfold_locales
  fix s s' :: sketch and net net' :: "'a net"
  show "EipSession_loop os eth s net =
     (case sk_phase s of
        SkWaitEthernet \<Rightarrow> Sketch_waitEthernet os eth s net
      | SkConnect \<Rightarrow> Sketch_connect os s net
      | SkOpenSession \<Rightarrow> Sketch_openSession os Pair s net
      | SkWork \<Rightarrow> EipSession_registered os s net
      | SkCloseSession \<Rightarrow> Sketch_closeSession os s net
      | SkRetryWait \<Rightarrow> Sketch_retryWait os s net)"
    by (simp add: EipSession_loop_def)
  assume "sk_phase s = SkWork" and "EipSession_registered os s net = (s', net')" and "socket_contract os"
  then show "sk_conn s' = sk_conn s \<and> net_fault net' = net_fault net \<and>
      (sk_phase s' = SkWork \<and> sk_session s' = sk_session s \<and> socket_contract os \<or>
       sk_phase s' = SkRetryWait \<and> sk_session s' = sk_session s \<and> socket_contract os \<or>
       sk_phase s' = SkCloseSession \<and> sk_session s' = snd (Session_close (sk_session s)) \<and> socket_contract os)"
    using millis_fault by (fastforce simp: EipSession_registered_def split: prod.splits if_splits)
qed auto

subsection \<open>Properties\<close>

lemma EipSession_reach_good:
  assumes "socket_contract os" and "Session_inv ses" and "ses_openable ses" and "\<not> net_fault net"
    and "Sketch_setup os eth (EipSession_new phy c ses) net = (s0, net0)"
    and "sketch_reach (EipSession_loop os eth) s0 net0 s1 net1"
  shows "sketch_good (\<lambda>_. socket_contract os) (\<lambda>_ _. socket_contract os) s1 net1"
proof -
  have "sketch_good (\<lambda>_. socket_contract os) (\<lambda>_ _. socket_contract os) s0 net0"
    by (rule Sketch_setup_good [OF assms(5)]) (use assms in \<open>simp_all add: EipSession_new_def\<close>)
  then show ?thesis
    using assms(6) by (rule eip.reach_good)
qed

text \<open>
  C23. However the world behaves between them, the turns of \<open>EipSession\<close>'s \<open>loop()\<close> follow
  the life cycle its comment gives (\<open>sketch_spec\<close>: Ethernet, connect, open the session, hold it,
  close it, wait, again; and to the wait from every phase but the first), the session it holds is
  registered, no access leaves a buffer, and a turn of the wait leaves the socket closed and the
  session closed.
\<close>

theorem EipSession_lifecycle:
  assumes "socket_contract os" and "Session_inv ses" and "ses_openable ses" and "\<not> net_fault net"
    and "Sketch_setup os eth (EipSession_new phy c ses) net = (s0, net0)"
    and "sketch_reach (EipSession_loop os eth) s0 net0 s1 net1"
    and run: "EipSession_loop os eth s1 net1 = (s2, net2)"
  shows "sketch_spec (sk_phase s1) (sk_phase s2) \<and> \<not> net_fault net2 \<and>
    (sk_phase s2 = SkWork \<longrightarrow> Session_registered (sk_session s2)) \<and>
    (sk_phase s1 = SkRetryWait \<longrightarrow>
       ses_state (sk_session s2) = SesClosed \<and> tcp_fd (net_tcp net2 (sk_conn s2)) < 0)"
proof -
  have G: "sketch_good (\<lambda>_. socket_contract os) (\<lambda>_ _. socket_contract os) s1 net1"
    using assms(1-6) by (rule EipSession_reach_good)
  from eip.loop_good [OF this run]
  have "sketch_spec (sk_phase s1) (sk_phase s2)" "sketch_inv s2 net2"
    by (simp_all add: sketch_good_def)
  moreover have "ses_state (sk_session s2) = SesClosed \<and> tcp_fd (net_tcp net2 (sk_conn s2)) < 0"
    if "sk_phase s1 = SkRetryWait"
  proof -
    have "Sketch_retryWait os s1 net1 = (s2, net2)"
      using that run by (simp add: EipSession_loop_def)
    then show ?thesis
      by (rule Sketch_retryWait_idle)
  qed
  ultimately show ?thesis
    by (auto simp: sketch_inv_def sketch_phase_def Session_registered_def)
qed

text \<open>
  No phase of \<open>EipSession\<close> that has a deadline outlasts it: once the session has failed or its
  deadline has passed, the next turn gives up opening or closing it; once the session was held for
  \<open>HOLD_MS\<close> the next turn closes it, and after \<open>RETRY_DELAY_MS\<close> of waiting the next
  turn begins again.
\<close>

theorem EipSession_deadlines:
  assumes "socket_contract os" and "Session_inv ses" and "ses_openable ses" and "\<not> net_fault net"
    and "Sketch_setup os eth (EipSession_new phy c ses) net = (s0, net0)"
    and "sketch_reach (EipSession_loop os eth) s0 net0 s1 net1"
    and run: "EipSession_loop os eth s1 net1 = (s2, net2)"
    and m: "millis os net1 = (now, net3)"
    and m': "millis os (TcpConnection_close os (sk_conn s1) net1) = (now', net4)"
  shows "(sk_phase s1 \<in> {SkOpenSession, SkCloseSession} \<and>
      (ses_state (sk_session s1) = SesFailed \<or> expired now (ses_deadline (sk_session s1))) \<longrightarrow>
        sk_phase s2 = SkRetryWait) \<and>
    (sk_phase s1 = SkWork \<and> HOLD_MS \<le> now - sk_phaseStarted s1 \<longrightarrow> sk_phase s2 = SkCloseSession) \<and>
    (sk_phase s1 = SkRetryWait \<and> RETRY_DELAY_MS \<le> now' - sk_phaseStarted s1 \<longrightarrow> sk_phase s2 = SkWaitEthernet)"
proof -
  have G: "sketch_good (\<lambda>_. socket_contract os) (\<lambda>_ _. socket_contract os) s1 net1"
    using assms(1-6) by (rule EipSession_reach_good)
  from eip.deadlines [OF this run m] run m m' show ?thesis
    by (auto simp: EipSession_loop_def EipSession_registered_def Sketch_retryWait_def Let_def split: prod.splits)
qed

text \<open>
  When \<open>connect()\<close> fails at once (no descriptor, say) the sketch stays in its connect
  phase for ever: its \<open>poll()\<close> then reports \<open>Closed\<close>, which the phase takes for still
  connecting, and only \<open>Timeout\<close> and \<open>Error\<close> lead to the retry. The other three sketches have the
  same phase.
\<close>

theorem EipSession_connect_stranded:
  assumes "sk_phase s = SkWaitEthernet" and "Client_poll eth (sk_eth s) net = (Ok, cl, net1)"
    and "TcpConnection_connect os (sk_conn s) TARGET_IP TARGET_PORT CONNECT_TIMEOUT_MS net1 = (st, net2)"
    and "st \<noteq> Pending" and "EipSession_loop os eth s net = (s1, net3)"
    and "sketch_reach (EipSession_loop os eth) s1 net3 s' net'"
  shows "s' = s1 \<and> sk_phase s' = SkConnect"
  using assms by (rule eip.connect_stranded)

text \<open>The witnesses.\<close>

lemma demo_eip:
  obtains s0 s2 ses and net2 net3 :: "loopback net" where
    "Sketch_setup loopback_os demo_eth (EipSession_new 0 0 demo_session) (loopback_net 0 []) = (s0, loopback_net 0 [])"
    "sketch_reach (EipSession_loop loopback_os demo_eth) s0 (loopback_net 0 []) s2 net2"
    "sk_phase s2 = SkOpenSession" "Session_poll loopback_os (sk_session s2) net2 = (Ok, ses, net3)"
    "ses_state ses = SesRegistered"
  by (rule demo_sketch [OF eip.sketch_client_axioms, of "EipSession_new 0 0 demo_session"])
    (simp_all add: EipSession_new_def)

theorem EipSession_lifecycle_witness:
  "\<exists>s0 s1 net1 s2 net2.
     Sketch_setup loopback_os demo_eth (EipSession_new 0 0 demo_session) (loopback_net 0 []) = (s0, loopback_net 0 []) \<and>
     sketch_reach (EipSession_loop loopback_os demo_eth) s0 (loopback_net 0 []) s1 net1 \<and>
     EipSession_loop loopback_os demo_eth s1 net1 = (s2, net2) \<and>
     sk_phase s1 = SkOpenSession \<and> sk_phase s2 = SkWork \<and> Session_registered (sk_session s2) \<and> \<not> net_fault net2"
proof -
  obtain s0 s1 ses and net1 net3 :: "loopback net" where d:
    "Sketch_setup loopback_os demo_eth (EipSession_new 0 0 demo_session) (loopback_net 0 []) = (s0, loopback_net 0 [])"
    "sketch_reach (EipSession_loop loopback_os demo_eth) s0 (loopback_net 0 []) s1 net1"
    "sk_phase s1 = SkOpenSession" "Session_poll loopback_os (sk_session s1) net1 = (Ok, ses, net3)"
    using demo_eip by metis
  obtain s2 net2 where r: "EipSession_loop loopback_os demo_eth s1 net1 = (s2, net2)"
    by fastforce
  have "sk_phase s2 = SkWork"
    using r d(3,4) by (auto simp: EipSession_loop_def Sketch_openSession_def Let_def split: prod.splits)
  with EipSession_lifecycle [OF loopback_socket_contract demo_session_inv _ _ d(1,2) r] d r show ?thesis
    by (auto simp: ses_openable_def demo_session_def Session_new_def)
qed

theorem EipSession_deadlines_witness:
  "\<exists>s0 s1 net1 s2 net2.
     Sketch_setup loopback_os demo_eth (EipSession_new 0 0 demo_session) (loopback_net 0 []) = (s0, loopback_net 0 []) \<and>
     sketch_reach (EipSession_loop loopback_os demo_eth) s0 (loopback_net 0 []) s1 net1 \<and>
     EipSession_loop loopback_os demo_eth s1 net1 = (s2, net2) \<and> sk_phase s1 = SkWork \<and> sk_phase s2 = SkCloseSession"
proof -
  obtain s0 s1 ses and net1 net3 :: "loopback net" where d:
    "Sketch_setup loopback_os demo_eth (EipSession_new 0 0 demo_session) (loopback_net 0 []) = (s0, loopback_net 0 [])"
    "sketch_reach (EipSession_loop loopback_os demo_eth) s0 (loopback_net 0 []) s1 net1"
    "sk_phase s1 = SkOpenSession" "Session_poll loopback_os (sk_session s1) net1 = (Ok, ses, net3)"
    using demo_eip by metis
  obtain s2 net2 where r: "EipSession_loop loopback_os demo_eth s1 net1 = (s2, net2)"
    by fastforce
  have p: "sk_phase s2 = SkWork"
    using r d(3,4) by (auto simp: EipSession_loop_def Sketch_openSession_def Let_def split: prod.splits)
  let ?w = "\<lparr> lb_now = sk_phaseStarted s2 + HOLD_MS, lb_random = 7, lb_queue = [] \<rparr>"
  let ?n = "net2\<lparr>net_os := ?w\<rparr>"
  have reach: "sketch_reach (EipSession_loop loopback_os demo_eth) s0 (loopback_net 0 []) s2 ?n"
    using d(2) r by (intro sketch_reach.world) (rule sketch_reach.turn)
  obtain s3 net4 where r3: "EipSession_loop loopback_os demo_eth s2 ?n = (s3, net4)"
    by fastforce
  have m: "millis loopback_os ?n = (sk_phaseStarted s2 + HOLD_MS, ?n)"
    by (simp add: millis_def sys_def)
  obtain now' net5 where m': "millis loopback_os (TcpConnection_close loopback_os (sk_conn s2) ?n) = (now', net5)"
    by fastforce
  have "sk_phase s3 = SkCloseSession"
    using EipSession_deadlines [OF loopback_socket_contract demo_session_inv _ _ d(1) reach r3 m m'] p
    by (simp add: ses_openable_def demo_session_def Session_new_def)
  with d(1) reach r3 p show ?thesis
    by blast
qed

theorem EipSession_connect_stranded_witness:
  "\<exists>s1 net1 s2 net2. EipSession_loop (loopback_os\<lparr>os_socket := (\<lambda>w. (-1, w))\<rparr>) demo_eth
      ((EipSession_new 0 0 demo_session)\<lparr>sk_eth := (Client_new 0)\<lparr>cl_started := True\<rparr>\<rparr>)
      (loopback_net 0 []) = (s1, net1) \<and>
    EipSession_loop (loopback_os\<lparr>os_socket := (\<lambda>w. (-1, w))\<rparr>) demo_eth s1
      (net1\<lparr>net_os := (net_os net1)\<lparr>lb_now := 60000\<rparr>\<rparr>) = (s2, net2) \<and> sk_phase s2 = SkConnect"
proof -
  let ?os = "loopback_os\<lparr>os_socket := (\<lambda>w. (-1, w))\<rparr>"
  let ?s = "(EipSession_new 0 0 demo_session)\<lparr>sk_eth := (Client_new 0)\<lparr>cl_started := True\<rparr>\<rparr>"
  obtain s1 and net1 :: "loopback net" where r: "EipSession_loop ?os demo_eth ?s (loopback_net 0 []) = (s1, net1)"
    by fastforce
  let ?n = "net1\<lparr>net_os := (net_os net1)\<lparr>lb_now := 60000\<rparr>\<rparr>"
  obtain s2 net2 where r2: "EipSession_loop ?os demo_eth s1 ?n = (s2, net2)"
    by fastforce
  have reach: "sketch_reach (EipSession_loop ?os demo_eth) s1 net1 s2 net2"
    using sketch_reach.world [OF sketch_reach.start] r2 by (rule sketch_reach.turn)
  obtain cl and n1 :: "loopback net" where p: "Client_poll demo_eth (sk_eth ?s) (loopback_net 0 []) = (Ok, cl, n1)"
    by (simp add: Client_poll_def demo_eth_def Client_new_def sys_def Let_def)
  obtain st n2 where c: "TcpConnection_connect ?os (sk_conn ?s) TARGET_IP TARGET_PORT CONNECT_TIMEOUT_MS n1 = (st, n2)"
    by fastforce
  then have "st \<noteq> Pending"
    by (auto simp: TcpConnection_connect_def TARGET_IP_def TARGET_PORT_def IPAddress_any_def sys_def Let_def
        split: if_splits prod.splits)
  from EipSession_connect_stranded [OF _ p c this r reach] r r2 show ?thesis
    by (auto simp: EipSession_new_def)
qed

end
