(* ===== verification/IdentityQuery.thy ===== *)
theory IdentityQuery
  imports Sketch
begin

text \<open>
  The sketch \<open>src/examples/IdentityQuery/IdentityQuery.ino\<close>: while the session is open it reads four
  attributes of the Identity object, one explicit message after another, and prints each. What it
  prints of a reply is a line in \<open>idq_out\<close>.
\<close>

unbundle bit_operations_syntax

definition idq_MESSAGE_TIMEOUT_MS :: u32 where "idq_MESSAGE_TIMEOUT_MS = 5000"

text \<open>The table of queries: an attribute and its label.\<close>

type_synonym query = "byte \<times> string"

definition kQueries :: "query list" where
  "kQueries =
     [(kIdentityVendorId, ''vendor''), (kIdentityProductName, ''product name''),
      (kIdentitySerialNumber, ''serial''), (kIdentityState, ''state'')]"

definition kQueryCount :: nat where
  "kQueryCount = length kQueries"

datatype query_line =
    QueryFailed string byte
  | QueryUnsigned string u32
  | QueryHex string u32
  | QueryText string "byte list"
  | QueryCount string nat

record identity_sketch = sketch +
  idq_msg :: explicit_message
  idq_queryIndex :: nat
  idq_out :: "query_line list"

definition IdentityQuery_new :: "int \<Rightarrow> conn_ref \<Rightarrow> session \<Rightarrow> explicit_message \<Rightarrow> identity_sketch" where
  "IdentityQuery_new ETH_PHY_W5500 conn ses msg =
     \<lparr> sk_eth = Client_new ETH_PHY_W5500, sk_cfg = Config_default ETH_PHY_W5500, sk_conn = conn,
       sk_session = ses, sk_phase = SkWaitEthernet, sk_phaseStarted = 0,
       idq_msg = msg, idq_queryIndex = 0, idq_out = [] \<rparr>"

definition IdentityQuery_startQuery ::
  "'w os \<Rightarrow> byte \<Rightarrow> identity_sketch \<Rightarrow> 'w net \<Rightarrow> Status \<times> identity_sketch \<times> 'w net" where
  "IdentityQuery_startQuery os attr s net =
     (let (path1, n1) = appendClass 0 1 (replicate 4 0);
          (path2, n2) = appendInstance n1 1 path1;
          pl = n1 + n2;
          (data, n3) = appendAttribute 0 attr (replicate 2 0)
      in case ExplicitMessage_send os (sk_conn s) (ses_handle (sk_session s))
                (Service_code GetAttributeSingle) (Some path2) (of_nat pl) (Some data) 2
                idq_MESSAGE_TIMEOUT_MS (idq_msg s) net of
           (st, msg, net1) \<Rightarrow> (st, s\<lparr>idq_msg := msg\<rparr>, net1))"

definition IdentityQuery_printResult :: "query \<Rightarrow> explicit_message \<Rightarrow> query_line" where
  "IdentityQuery_printResult q msg =
     (case q of (attr, label) \<Rightarrow>
        if em_resultCode msg \<noteq> 0 then QueryFailed label (em_resultCode msg)
        else
          (let d = ExplicitMessage_data msg; n = em_dataLen msg in
           if attr = kIdentityVendorId \<and> 2 \<le> n
           then QueryUnsigned label (ucast (d ! 0) OR push_bit 8 (ucast (d ! 1)))
           else if attr = kIdentitySerialNumber \<and> 4 \<le> n
           then QueryHex label (ucast (d ! 0) OR push_bit 8 (ucast (d ! 1)) OR push_bit 16 (ucast (d ! 2))
                  OR push_bit 24 (ucast (d ! 3)))
           else if attr = kIdentityState \<and> 1 \<le> n then QueryUnsigned label (ucast (d ! 0))
           else if attr = kIdentityProductName then QueryText label (take n d)
           else QueryCount label n))"

definition IdentityQuery_opened ::
  "'w os \<Rightarrow> identity_sketch \<Rightarrow> 'w net \<Rightarrow> identity_sketch \<times> 'w net" where
  "IdentityQuery_opened os s net =
     (let s1 = s\<lparr>idq_queryIndex := 0\<rparr> in
      snd (IdentityQuery_startQuery os (fst (kQueries ! idq_queryIndex s1)) s1 net))"

definition IdentityQuery_query ::
  "'w os \<Rightarrow> identity_sketch \<Rightarrow> 'w net \<Rightarrow> identity_sketch \<times> 'w net" where
  "IdentityQuery_query os s net =
     (case ExplicitMessage_poll os (idq_msg s) net of (st, msg, net1) \<Rightarrow>
        (let s1 = s\<lparr>idq_msg := msg\<rparr> in
         if st = Ok then
           (let s2 = s1\<lparr>idq_out := idq_out s1 @ [IdentityQuery_printResult (kQueries ! idq_queryIndex s1) msg],
                        idq_queryIndex := idq_queryIndex s1 + 1\<rparr>
            in case (if idq_queryIndex s2 < kQueryCount
                     then snd (IdentityQuery_startQuery os (fst (kQueries ! idq_queryIndex s2)) s2 net1)
                     else (s2\<lparr>sk_session := snd (Session_close (sk_session s2)), sk_phase := SkCloseSession\<rparr>, net1))
               of (s3, net2) \<Rightarrow>
                 (case millis os net2 of (now, net3) \<Rightarrow> (s3\<lparr>sk_phaseStarted := now\<rparr>, net3)))
         else if st = Timeout \<or> st = Error then Sketch_retry os s1 net1
         else (s1, net1)))"

definition IdentityQuery_loop ::
  "'w os \<Rightarrow> 'w eth \<Rightarrow> identity_sketch \<Rightarrow> 'w net \<Rightarrow> identity_sketch \<times> 'w net" where
  "IdentityQuery_loop os eth s net =
     (case sk_phase s of
        SkWaitEthernet \<Rightarrow> Sketch_waitEthernet os eth s net
      | SkConnect \<Rightarrow> Sketch_connect os s net
      | SkOpenSession \<Rightarrow> Sketch_openSession os (IdentityQuery_opened os) s net
      | SkWork \<Rightarrow> IdentityQuery_query os s net
      | SkCloseSession \<Rightarrow> Sketch_closeSession os s net
      | SkRetryWait \<Rightarrow> Sketch_retryWait os s net)"


subsection \<open>The request\<close>

definition identity_request :: "u32 \<Rightarrow> u64 \<Rightarrow> byte \<Rightarrow> byte list" where
  "identity_request h ctx attr = rr_request h ctx 0x0E [0x20, 1, 0x24, 1] [0x30, attr]"

lemma IdentityQuery_startQuery_send:
  "IdentityQuery_startQuery os attr s net =
     (case ExplicitMessage_send os (sk_conn s) (ses_handle (sk_session s)) 0x0E (Some [0x20, 1, 0x24, 1]) 4
        (Some [0x30, attr]) 2 idq_MESSAGE_TIMEOUT_MS (idq_msg s) net of
      (st, msg, net1) \<Rightarrow> (st, s\<lparr>idq_msg := msg\<rparr>, net1))"
  by (simp add: IdentityQuery_startQuery_def Let_def appendClass_def appendInstance_def appendAttribute_def
      poke_def kSegmentClassId8_def kSegmentInstanceId8_def kSegmentAttributeId8_def numeral_eq_Suc)

text \<open>What holds while it is not querying, and while it is.\<close>

definition idq_idle :: "'w os \<Rightarrow> identity_sketch \<Rightarrow> bool" where
  "idq_idle os s \<longleftrightarrow> socket_contract os \<and> em_inv (idq_msg s) \<and> \<not> em_busy (idq_msg s)"

definition idq_asking :: "identity_sketch \<Rightarrow> 'w net \<Rightarrow> bool" where
  "idq_asking s net \<longleftrightarrow>
     em_busy (idq_msg s) \<and> em_conn (idq_msg s) = Some (sk_conn s) \<and>
     (\<exists>osent ircvd. em_exchange osent ircvd (idq_msg s) net) \<and>
     take (em_txLen (idq_msg s)) (em_tx (idq_msg s)) =
       identity_request (ses_handle (sk_session s)) (em_sentContext (idq_msg s)) (fst (kQueries ! idq_queryIndex s))"

definition idq_working :: "'w os \<Rightarrow> identity_sketch \<Rightarrow> 'w net \<Rightarrow> bool" where
  "idq_working os s net \<longleftrightarrow>
     socket_contract os \<and> em_inv (idq_msg s) \<and> em_awaits (sk_conn s) (idq_msg s) \<and>
     idq_queryIndex s < kQueryCount \<and> (em_state (idq_msg s) = EmFailed \<or> idq_asking s net)"

lemma IdentityQuery_startQuery_spec:
  assumes "em_inv (idq_msg s)" and "\<not> em_busy (idq_msg s)" and "TcpConnection_connected (sk_conn s) net"
    and run: "IdentityQuery_startQuery os attr s net = (st, s', net')"
  obtains msg where "st = Pending" "s' = s\<lparr>idq_msg := msg\<rparr>" "only_os net net'" "em_inv msg" "em_busy msg"
    "em_awaits (sk_conn s) msg" "em_conn msg = Some (sk_conn s)"
    "em_exchange (net_sent net (sk_conn s)) (net_rcvd net (sk_conn s)) msg net'"
    "take (em_txLen msg) (em_tx msg) = identity_request (ses_handle (sk_session s)) (em_sentContext msg) attr"
proof -
  obtain st0 msg net1 where send: "ExplicitMessage_send os (sk_conn s) (ses_handle (sk_session s)) 0x0E
      (Some [0x20, 1, 0x24, 1]) 4 (Some [0x30, attr]) 2 idq_MESSAGE_TIMEOUT_MS (idq_msg s) net = (st0, msg, net1)"
    by (metis prod_cases3)
  have A: "em_args (Some [0x20, 1, 0x24, 1]) 4 (Some [0x30, attr]) 2"
    by (simp add: em_args_def)
  have "st0 = Pending"
    using ExplicitMessage_send_decides [OF assms(2,3) A send] by simp
  then obtain now where m: "millis os net = (now, net1)"
    and g: "em_started (sk_conn s) (now + idq_MESSAGE_TIMEOUT_MS)
      (rr_request (ses_handle (sk_session s)) (em_context (idq_msg s)) 0x0E (arg_bytes (Some [0x20, 1, 0x24, 1]) 4)
        (arg_bytes (Some [0x30, attr]) 2)) (idq_msg s) msg"
    using ExplicitMessage_send_pending [OF assms(1) A] send by blast
  have o: "only_os net net1"
    using m by (rule millis_only_os)
  have aw: "em_awaits (sk_conn s) msg"
    using ExplicitMessage_send_awaits [OF send] assms(2) by (simp add: em_awaits_def)
  have x: "em_exchange (net_sent net (sk_conn s)) (net_rcvd net (sk_conn s)) msg net1"
    using g o by (simp add: em_started_def exchange_def conn_out_def conn_in_def only_os_def)
  have "s' = s\<lparr>idq_msg := msg\<rparr>" "net' = net1" "st = Pending"
    using run send \<open>st0 = Pending\<close> by (simp_all add: IdentityQuery_startQuery_send)
  moreover have "take (em_txLen msg) (em_tx msg) = rr_request (ses_handle (sk_session s)) (em_context (idq_msg s)) 0x0E
      (arg_bytes (Some [0x20, 1, 0x24, 1]) 4) (arg_bytes (Some [0x30, attr]) 2)"
    and "em_sentContext msg = em_context (idq_msg s)"
    using g unfolding em_started_def by blast+
  then have "take (em_txLen msg) (em_tx msg) =
      identity_request (ses_handle (sk_session s)) (em_sentContext msg) attr"
    by (simp add: arg_bytes_def identity_request_def)
  ultimately show thesis
    using g o aw x by (intro that [of msg]) (simp_all add: em_started_def em_busy_def)
qed


subsection \<open>One turn of the query phase\<close>

text \<open>What a line says of an answer: the general status and the data of the reply.\<close>

definition query_answer :: "query \<Rightarrow> byte \<Rightarrow> byte list \<Rightarrow> query_line" where
  "query_answer q code d =
     (case q of (attr, label) \<Rightarrow>
        if code \<noteq> 0 then QueryFailed label code
        else if attr = kIdentityVendorId \<and> 2 \<le> length d then QueryUnsigned label (ucast (getU16 d))
        else if attr = kIdentitySerialNumber \<and> 4 \<le> length d then QueryHex label (getU32 d)
        else if attr = kIdentityState \<and> d \<noteq> [] then QueryUnsigned label (ucast (hd d))
        else if attr = kIdentityProductName then QueryText label d
        else QueryCount label (length d))"

lemma or_bytes_16: "(ucast (a :: byte) OR push_bit 8 (ucast (b :: byte)) :: u32) = ucast (getU16 (a # b # xs))"
  by (rule bit_eqI) (auto simp: getU16_def bit_simps dest: bit_imp_le_length)

lemma or_bytes_32:
  "(ucast (a :: byte) OR push_bit 8 (ucast (b :: byte)) OR push_bit 16 (ucast (c :: byte))
     OR push_bit 24 (ucast (d :: byte)) :: u32) = getU32 (a # b # c # d # xs)"
  by (simp add: getU32_def)


lemma printResult_answer:
  assumes "em_dataLen m \<le> length (ExplicitMessage_data m)"
  shows "IdentityQuery_printResult q m =
    query_answer q (em_resultCode m) (take (em_dataLen m) (ExplicitMessage_data m))"
proof -
  obtain attr label where q: "q = (attr, label)" by fastforce
  define d where "d = take (em_dataLen m) (ExplicitMessage_data m)"
  have len: "length d = em_dataLen m"
    using assms by (simp add: d_def)
  have nth: "ExplicitMessage_data m ! i = d ! i" if "i < length d" for i
    using that by (simp add: d_def)
  have u16: "ucast (d ! 0) OR push_bit 8 (ucast (d ! 1)) = (ucast (getU16 d) :: u32)" if "2 \<le> length d"
    using that or_bytes_16 [of "d ! 0" "d ! 1" "drop 2 d"] by (simp add: getU16_def)
  have u32: "ucast (d ! 0) OR push_bit 8 (ucast (d ! 1)) OR push_bit 16 (ucast (d ! 2)) OR push_bit 24 (ucast (d ! 3)) =
      getU32 d"
    by (simp only: getU32_def)
  have hd: "d ! 0 = hd d" if "d \<noteq> []"
    using that by (simp add: hd_conv_nth)
  show ?thesis
    unfolding IdentityQuery_printResult_def query_answer_def q d_def [symmetric] Let_def prod.case
    unfolding len [symmetric]
  proof (intro if_cong refl)
    show "QueryUnsigned label (ucast (ExplicitMessage_data m ! 0) OR push_bit 8 (ucast (ExplicitMessage_data m ! 1))) =
        QueryUnsigned label (ucast (getU16 d))" if "attr = kIdentityVendorId \<and> 2 \<le> length d"
    proof -
      have l: "2 \<le> length d"
        using that by simp
      then have "ExplicitMessage_data m ! 0 = d ! 0" "ExplicitMessage_data m ! 1 = d ! 1"
        by (intro nth; linarith)+
      with u16 [OF l] show ?thesis by simp
    qed
    show "QueryHex label (ucast (ExplicitMessage_data m ! 0) OR push_bit 8 (ucast (ExplicitMessage_data m ! 1)) OR
        push_bit 16 (ucast (ExplicitMessage_data m ! 2)) OR push_bit 24 (ucast (ExplicitMessage_data m ! 3))) =
        QueryHex label (getU32 d)" if "attr = kIdentitySerialNumber \<and> 4 \<le> length d"
    proof -
      have "4 \<le> length d"
        using that by simp
      then have "ExplicitMessage_data m ! 0 = d ! 0" "ExplicitMessage_data m ! 1 = d ! 1"
        "ExplicitMessage_data m ! 2 = d ! 2" "ExplicitMessage_data m ! 3 = d ! 3"
        by (intro nth; linarith)+
      with u32 show ?thesis by simp
    qed
    show "(attr = kIdentityState \<and> 1 \<le> length d) = (attr = kIdentityState \<and> d \<noteq> [])"
      by (cases d) simp_all
    show "QueryUnsigned label (ucast (ExplicitMessage_data m ! 0)) = QueryUnsigned label (ucast (hd d))"
      if "attr = kIdentityState \<and> d \<noteq> []"
      using that nth [of 0] hd by simp
  qed
qed

lemma IdentityQuery_query_spec:
  assumes W: "idq_working os s net" and S: "ses_state (sk_session s) = SesRegistered"
    and ph: "sk_phase s = SkWork" and run: "IdentityQuery_query os s net = (s', net')"
  obtains (wait) msg where "s' = s\<lparr>idq_msg := msg\<rparr>" "idq_working os s' net'" "net_fault net' = net_fault net"
  | (fail) msg now where "s' = s\<lparr>idq_msg := msg, sk_phase := SkRetryWait, sk_phaseStarted := now\<rparr>"
      "em_inv msg" "\<not> em_busy msg" "net_fault net' = net_fault net"
  | (answer) msg' net1 osent ircvd code d svc p line now where
      "em_exchange osent ircvd (idq_msg s) net" "only_os net1 net'" "net_fault net' = net_fault net"
      "net_sent net1 (sk_conn s) = osent @ identity_request (ses_handle (sk_session s)) (em_sentContext (idq_msg s))
         (fst (kQueries ! idq_queryIndex s))"
      "net_rcvd net1 (sk_conn s) = ircvd @ p" "packet p" "rr_parse (em_sentContext (idq_msg s)) p = Some (svc, code, d)"
      "line = query_answer (kQueries ! idq_queryIndex s) code d"
      "idq_queryIndex s + 1 < kQueryCount \<and> idq_working os s' net' \<and>
         s' = s\<lparr>idq_msg := msg', idq_out := idq_out s @ [line], idq_queryIndex := idq_queryIndex s + 1,
                sk_phaseStarted := now\<rparr> \<or>
       idq_queryIndex s + 1 = kQueryCount \<and> em_inv msg' \<and> \<not> em_busy msg' \<and>
         s' = s\<lparr>idq_msg := msg', idq_out := idq_out s @ [line], idq_queryIndex := kQueryCount,
                sk_session := snd (Session_close (sk_session s)), sk_phase := SkCloseSession, sk_phaseStarted := now\<rparr>"
proof -
  obtain st msg net1 where p: "ExplicitMessage_poll os (idq_msg s) net = (st, msg, net1)"
    by (metis prod_cases3)
  have C: "socket_contract os" and I: "em_inv (idq_msg s)" and A: "em_awaits (sk_conn s) (idq_msg s)"
    and i: "idq_queryIndex s < kQueryCount"
    using W unfolding idq_working_def by blast+
  have I': "em_inv msg"
    using C I p by (rule ExplicitMessage_poll_inv)
  have fa: "net_fault net1 = net_fault net"
    using ExplicitMessage_poll_frame [OF I p] by (auto simp: conn_frame_def)
  let ?s1 = "s\<lparr>idq_msg := msg\<rparr>"
  show thesis
  proof (cases "em_state (idq_msg s) = EmFailed")
    case True
    then have e: "st = Error" "msg = idq_msg s" "net1 = net"
      using p by simp_all
    then have r: "Sketch_retry os ?s1 net = (s', net')"
      using run p by (simp add: IdentityQuery_query_def Let_def)
    from Sketch_retry_simp [OF r] obtain now where
      "s' = ?s1\<lparr>sk_phase := SkRetryWait, sk_phaseStarted := now\<rparr>" "only_os net net'"
      by blast
    with I True e show thesis
      by (intro that(2) [where msg = "idq_msg s" and now = now]) (simp_all add: em_busy_def only_os_def)
  next
    case False
    then have ask: "idq_asking s net"
      using W unfolding idq_working_def by blast
    then have B: "em_busy (idq_msg s)" and c: "em_conn (idq_msg s) = Some (sk_conn s)"
      unfolding idq_asking_def by blast+
    obtain osent ircvd where x: "em_exchange osent ircvd (idq_msg s) net"
      using ask unfolding idq_asking_def by blast
    have req: "take (em_txLen (idq_msg s)) (em_tx (idq_msg s)) = identity_request (ses_handle (sk_session s))
        (em_sentContext (idq_msg s)) (fst (kQueries ! idq_queryIndex s))"
      using ask unfolding idq_asking_def by blast
    note P = ExplicitMessage_poll_spec [OF C I B p, of osent ircvd]
    note L = ExplicitMessage_poll_awaits [OF C A B p]
    have same: "em_same_request (idq_msg s) msg" and x': "em_exchange osent ircvd msg net1"
      using P x by simp_all
    show thesis
    proof (cases "st = Ok")
      case nok: False
      show thesis
      proof (cases "st = Timeout \<or> st = Error")
        case True
        then have "Sketch_retry os ?s1 net1 = (s', net')"
          using run p nok by (auto simp: IdentityQuery_query_def Let_def)
        from Sketch_retry_simp [OF this] obtain now where
          "s' = ?s1\<lparr>sk_phase := SkRetryWait, sk_phaseStarted := now\<rparr>" "only_os net1 net'"
          by blast
        moreover have "\<not> em_busy msg"
          using P True by (auto simp: em_busy_def)
        ultimately show thesis
          using I' fa by (intro that(2) [where msg = msg and now = now]) (simp_all add: only_os_def)
      next
        case stay: False
        then have r: "s' = ?s1" "net' = net1"
          using run p nok by (auto simp: IdentityQuery_query_def Let_def)
        have "em_state msg = EmFailed \<or> idq_asking ?s1 net1"
        proof -
          have "em_state msg = EmFailed \<or> em_busy msg"
            using P nok by auto
          moreover have "take (em_txLen msg) (em_tx msg) = identity_request (ses_handle (sk_session s))
              (em_sentContext msg) (fst (kQueries ! idq_queryIndex s))"
            using same req by (simp add: em_same_request_def)
          ultimately show ?thesis
            using same c x' by (auto simp: idq_asking_def em_same_request_def)
        qed
        with r C I' L i fa show thesis
          by (intro that(1) [where msg = msg]) (simp_all add: idq_working_def)
      qed
    next
      case ok: True
      have fin: "em_state msg = EmDone" "em_txSent msg = em_txLen msg" "em_reply msg"
        "TcpConnection_connected (sk_conn s) net1"
        using P L ok by auto
      let ?q = "kQueries ! idq_queryIndex s"
      let ?line = "IdentityQuery_printResult ?q msg"
      let ?p = "take (em_rxLen msg) (em_rx msg)" and ?d = "take (em_dataLen msg) (ExplicitMessage_data msg)"
      have line: "?line = query_answer ?q (em_resultCode msg) ?d"
        using fin(3) by (intro printResult_answer) (simp add: em_reply_def)
      have wire: "net_sent net1 (sk_conn s) = osent @ identity_request (ses_handle (sk_session s))
          (em_sentContext (idq_msg s)) (fst ?q)" "net_rcvd net1 (sk_conn s) = ircvd @ ?p"
        using x' same c fin(2) req by (simp_all add: exchange_def conn_out_def conn_in_def em_same_request_def)
      have reply: "packet ?p" "rr_parse (em_sentContext (idq_msg s)) ?p = Some (em_replyService msg, em_resultCode msg, ?d)"
        using fin(3) same by (simp_all add: em_reply_def em_same_request_def)
      have idle: "\<not> em_busy msg"
        using fin(1) by (simp add: em_busy_def)
      let ?s2 = "?s1\<lparr>idq_out := idq_out s @ [?line], idq_queryIndex := idq_queryIndex s + 1\<rparr>"
      show thesis
      proof (cases "idq_queryIndex s + 1 < kQueryCount")
        case more: True
        obtain st2 s3 net2 where q: "IdentityQuery_startQuery os (fst (kQueries ! (idq_queryIndex s + 1))) ?s2 net1 =
            (st2, s3, net2)"
          by (metis prod_cases3)
        obtain now net3 where m: "millis os net2 = (now, net3)" by fastforce
        have r: "s' = s3\<lparr>sk_phaseStarted := now\<rparr>" "net' = net3"
          using run p ok more q m by (simp_all add: IdentityQuery_query_def Let_def)
        obtain msg2 where g: "s3 = ?s2\<lparr>idq_msg := msg2\<rparr>" "only_os net1 net2" "em_inv msg2" "em_busy msg2"
          "em_awaits (sk_conn s) msg2" "em_conn msg2 = Some (sk_conn s)"
          "em_exchange (net_sent net1 (sk_conn s)) (net_rcvd net1 (sk_conn s)) msg2 net2"
          "take (em_txLen msg2) (em_tx msg2) = identity_request (ses_handle (sk_session s)) (em_sentContext msg2)
             (fst (kQueries ! (idq_queryIndex s + 1)))"
          by (rule IdentityQuery_startQuery_spec [OF _ _ _ q]) (use I' idle fin(4) in simp_all)
        have o: "only_os net2 net3"
          using m by (rule millis_only_os)
        have "em_exchange (net_sent net1 (sk_conn s)) (net_rcvd net1 (sk_conn s)) msg2 net3"
          using g(6,7) o by (simp add: exchange_def conn_out_def conn_in_def only_os_def)
        then have "idq_working os s' net'"
          using r g C more by (auto simp: idq_working_def idq_asking_def)
        moreover have "net_fault net' = net_fault net"
          using fa o g(2) r(2) by (simp add: only_os_def)
        moreover have "s' = s\<lparr>idq_msg := msg2, idq_out := idq_out s @ [?line], idq_queryIndex := idq_queryIndex s + 1,
            sk_phaseStarted := now\<rparr>"
          by (simp add: r g(1))
        moreover have "only_os net1 net'"
          using only_os_trans [OF g(2) o] r(2) by simp
        ultimately show thesis
          using more by (intro that(3) [where msg' = msg2 and now = now, OF x _ _ wire reply line]) blast+
      next
        case last: False
        obtain now net3 where m: "millis os net1 = (now, net3)" by fastforce
        have r: "s' = ?s2\<lparr>sk_session := snd (Session_close (sk_session s)), sk_phase := SkCloseSession,
            sk_phaseStarted := now\<rparr>" "net' = net3"
          using run p ok last m by (simp_all add: IdentityQuery_query_def Let_def)
        have "only_os net1 net3" "idq_queryIndex s + 1 = kQueryCount"
          using m last i by (simp_all add: millis_only_os)
        moreover from this have "net_fault net' = net_fault net" "only_os net1 net'"
          using fa r(2) by (simp_all add: only_os_def)
        moreover have "s' = s\<lparr>idq_msg := msg, idq_out := idq_out s @ [?line], idq_queryIndex := kQueryCount,
            sk_session := snd (Session_close (sk_session s)), sk_phase := SkCloseSession, sk_phaseStarted := now\<rparr>"
          using calculation(2) by (simp add: r)
        ultimately show thesis
          using I' idle by (intro that(3) [where msg' = msg and now = now, OF x _ _ wire reply line]) blast+
      qed
    qed
  qed
qed


subsection \<open>The sketch\<close>

lemma idq_more:
  "sketch.more s' = sketch.more (s :: identity_sketch) \<Longrightarrow>
    idq_msg s' = idq_msg s \<and> idq_queryIndex s' = idq_queryIndex s \<and> idq_out s' = idq_out s"
  by (cases s; cases s') simp

lemma idq_working_cong:
  assumes "idq_working os s net" and "sketch.more s' = sketch.more s" and "sk_conn s' = sk_conn s"
    and "sk_session s' = sk_session s" and "only_os net net'"
  shows "idq_working os s' net'"
  using assms idq_more [OF assms(2)] by (simp add: idq_working_def idq_asking_def exchange_only_os)

interpretation idq: sketch_client os eth "IdentityQuery_loop os eth" "IdentityQuery_opened os" "IdentityQuery_query os"
    "idq_idle os" "idq_working os" for os eth
proof unfold_locales
  fix s s' :: identity_sketch and net net' :: "'a net"
  show "IdentityQuery_loop os eth s net =
     (case sk_phase s of
        SkWaitEthernet \<Rightarrow> Sketch_waitEthernet os eth s net
      | SkConnect \<Rightarrow> Sketch_connect os s net
      | SkOpenSession \<Rightarrow> Sketch_openSession os (IdentityQuery_opened os) s net
      | SkWork \<Rightarrow> IdentityQuery_query os s net
      | SkCloseSession \<Rightarrow> Sketch_closeSession os s net
      | SkRetryWait \<Rightarrow> Sketch_retryWait os s net)"
    by (simp add: IdentityQuery_loop_def)
  show "socket_contract os" if "idq_idle os s"
    using that by (simp add: idq_idle_def)
  show "idq_idle os s'" if "idq_idle os s" and "sketch.more s' = sketch.more s"
    using that idq_more [OF that(2)] by (simp add: idq_idle_def)
  show "idq_working os s' net'"
    if "idq_working os s net" and "sketch.more s' = sketch.more s" and "sk_conn s' = sk_conn s"
      and "sk_session s' = sk_session s" and "only_os net net'"
    using that by (rule idq_working_cong)
  show "idq_working os s' net' \<and> sketch.truncate s' = sketch.truncate s \<and> net_fault net' = net_fault net"
    if J: "idq_idle os s" and up: "TcpConnection_connected (sk_conn s) net"
      and run: "IdentityQuery_opened os s net = (s', net')"
  proof -
    let ?s1 = "s\<lparr>idq_queryIndex := 0\<rparr>"
    obtain st where q: "IdentityQuery_startQuery os (fst (kQueries ! 0)) ?s1 net = (st, s', net')"
      using run by (cases "IdentityQuery_startQuery os (fst (kQueries ! 0)) ?s1 net") (auto simp: IdentityQuery_opened_def)
    show ?thesis
    proof (rule IdentityQuery_startQuery_spec [OF _ _ _ q])
      show "em_inv (idq_msg ?s1)" "\<not> em_busy (idq_msg ?s1)" "TcpConnection_connected (sk_conn ?s1) net"
        using J up by (simp_all add: idq_idle_def)
    next
      fix msg
      assume "s' = ?s1\<lparr>idq_msg := msg\<rparr>" "only_os net net'" "em_inv msg" "em_busy msg" "em_awaits (sk_conn ?s1) msg"
        "em_conn msg = Some (sk_conn ?s1)"
        "em_exchange (net_sent net (sk_conn ?s1)) (net_rcvd net (sk_conn ?s1)) msg net'"
        "take (em_txLen msg) (em_tx msg) = identity_request (ses_handle (sk_session ?s1)) (em_sentContext msg)
           (fst (kQueries ! 0))"
      with J show ?thesis
        by (auto simp: idq_working_def idq_asking_def idq_idle_def sketch.defs kQueryCount_def kQueries_def only_os_def)
    qed
  qed
  show "sk_conn s' = sk_conn s \<and> net_fault net' = net_fault net \<and>
      (sk_phase s' = SkWork \<and> sk_session s' = sk_session s \<and> idq_working os s' net' \<or>
       sk_phase s' = SkRetryWait \<and> sk_session s' = sk_session s \<and> idq_idle os s' \<or>
       sk_phase s' = SkCloseSession \<and> sk_session s' = snd (Session_close (sk_session s)) \<and> idq_idle os s')"
    if "sketch_inv s net" and ph: "sk_phase s = SkWork" and K: "idq_working os s net"
      and run: "IdentityQuery_query os s net = (s', net')"
  proof -
    have C: "socket_contract os"
      using K unfolding idq_working_def by blast
    have "ses_state (sk_session s) = SesRegistered"
      using that by (simp add: sketch_inv_def sketch_phase_def)
    from K this ph run show ?thesis
    proof (cases rule: IdentityQuery_query_spec)
      case (answer msg' net1 osent ircvd code d svc p line now)
      with ph C show ?thesis
        by (auto simp: idq_idle_def)
    qed (use ph C in \<open>auto simp: idq_idle_def\<close>)
  qed
qed

subsection \<open>What it prints\<close>

lemma IdentityQuery_opened_out:
  "IdentityQuery_opened os s net = (s', net') \<Longrightarrow> idq_out s' = idq_out s"
  by (auto simp: IdentityQuery_opened_def IdentityQuery_startQuery_send Let_def split: prod.splits)

lemma IdentityQuery_silent:
  assumes "sk_phase s \<noteq> SkWork" and run: "IdentityQuery_loop os eth s net = (s', net')"
  shows "idq_out s' = idq_out s"
proof (cases "sk_phase s = SkOpenSession")
  case True
  with run have "Sketch_openSession os (IdentityQuery_opened os) s net = (s', net')"
    by (simp add: IdentityQuery_loop_def)
  then show ?thesis
  proof (cases rule: Sketch_openSession_more)
    case 1
    with idq_more show ?thesis
      by blast
  next
    case (2 ses net1 s2 net2)
    with IdentityQuery_opened_out [OF 2(1)] idq_more [OF 2(2)] show ?thesis
      by simp
  qed
next
  case False
  with assms have "sketch.more s' = sketch.more s"
    by (cases "sk_phase s") (auto simp: IdentityQuery_loop_def dest: Sketch_more)
  with idq_more show ?thesis
    by blast
qed

text \<open>
  C22. What \<open>IdentityQuery\<close> prints is what the target answered, and in the order of its table.
  However the world behaves, a turn of \<open>loop()\<close> prints nothing, or it is a turn of the query
  phase whose request for attribute \<open>i\<close> of the Identity object, under the session's handle, is the last
  thing sent, whose last packet received is a well-formed reply to that request, and which prints
  the one line this reply means and goes on to attribute \<open>i + 1\<close>, after the last of the four to
  closing the session.
\<close>

theorem IdentityQuery_prints_answers:
  assumes "socket_contract os" and "Session_inv ses" and "ses_openable ses" and "\<not> net_fault net"
    and "em_inv msg" and "\<not> em_busy msg"
    and start: "Sketch_setup os eth (IdentityQuery_new phy c ses msg) net = (s0, net0)"
    and reach: "sketch_reach (IdentityQuery_loop os eth) s0 net0 s1 net1"
    and run: "IdentityQuery_loop os eth s1 net1 = (s2, net2)"
  shows "sketch_spec (sk_phase s1) (sk_phase s2) \<and> \<not> net_fault net2 \<and>
    (idq_out s2 = idq_out s1 \<or>
     sk_phase s1 = SkWork \<and> Session_registered (sk_session s1) \<and>
     (\<exists>sent rcvd ctx p svc code d i. i = idq_queryIndex s1 \<and> i < kQueryCount \<and>
        net_sent net2 (sk_conn s1) = sent @ identity_request (ses_handle (sk_session s1)) ctx (fst (kQueries ! i)) \<and>
        net_rcvd net2 (sk_conn s1) = rcvd @ p \<and> packet p \<and> rr_parse ctx p = Some (svc, code, d) \<and>
        idq_out s2 = idq_out s1 @ [query_answer (kQueries ! i) code d] \<and>
        idq_queryIndex s2 = i + 1 \<and>
        sk_phase s2 = (if i + 1 < kQueryCount then SkWork else SkCloseSession)))"
proof -
  have "sketch_good (idq_idle os) (idq_working os) s0 net0"
    by (rule Sketch_setup_good [OF start])
      (use assms(1-6) idq.J_cong in \<open>auto simp: IdentityQuery_new_def idq_idle_def\<close>)
  then have G: "sketch_good (idq_idle os) (idq_working os) s1 net1"
    using reach by (rule idq.reach_good)
  from idq.loop_good [OF this run] have spec: "sketch_spec (sk_phase s1) (sk_phase s2)" "\<not> net_fault net2"
    by (simp_all add: sketch_good_def sketch_inv_def)
  show ?thesis
  proof (cases "sk_phase s1 = SkWork")
    case False
    with spec IdentityQuery_silent [OF False run] show ?thesis
      by simp
  next
    case True
    with G have W: "idq_working os s1 net1" and R: "ses_state (sk_session s1) = SesRegistered"
      by (simp_all add: sketch_good_def sketch_inv_def sketch_phase_def)
    have q: "IdentityQuery_query os s1 net1 = (s2, net2)"
      using run True by (simp add: IdentityQuery_loop_def)
    show ?thesis
    proof (rule IdentityQuery_query_spec [OF W R True q], goal_cases)
      case (1 msg')
      then have "idq_out s2 = idq_out s1"
        by simp
      with spec show ?thesis
        by blast
    next
      case (2 msg' now)
      then have "idq_out s2 = idq_out s1"
        by simp
      with spec show ?thesis
        by blast
    next
      case (3 msg' n1 osent ircvd code d svc p line now)
      have "net_sent net2 (sk_conn s1) = osent @ identity_request (ses_handle (sk_session s1))
          (em_sentContext (idq_msg s1)) (fst (kQueries ! idq_queryIndex s1))" "net_rcvd net2 (sk_conn s1) = ircvd @ p"
        using 3(2,4,5) by (simp_all add: only_os_def)
      moreover have "idq_out s2 = idq_out s1 @ [query_answer (kQueries ! idq_queryIndex s1) code d]"
        "idq_queryIndex s2 = idq_queryIndex s1 + 1" "idq_queryIndex s1 < kQueryCount"
        "sk_phase s2 = (if idq_queryIndex s1 + 1 < kQueryCount then SkWork else SkCloseSession)"
        using 3(9) True unfolding 3(8) by (elim disjE conjE; simp)+
      ultimately show ?thesis
        using spec True R 3(6,7) unfolding Session_registered_def by blast
    qed
  qed
qed

subsection \<open>An example: the vendor\<close>

lemma demo_idq_asks:
  obtains s0 s1 net1 h t where
    "Sketch_setup loopback_os demo_eth (IdentityQuery_new 0 0 demo_session demo_message) (loopback_net 0 []) =
      (s0, loopback_net 0 [])"
    "sketch_reach (IdentityQuery_loop loopback_os demo_eth) s0 (loopback_net 0 []) s1 net1" "sk_phase s1 = SkWork"
    "idq_out s1 = []" "idq_queryIndex s1 = 0" "conn_up (Some 0) net1" "em_conn (idq_msg s1) = Some 0"
    "em_started 0 (t + 5000) (rr_request h 1 0x0E [0x20, 1, 0x24, 1] [0x30, 1]) demo_message (idq_msg s1)"
    "net_os net1 = \<lparr> lb_now = t, lb_random = 7, lb_queue = demo_result \<rparr>"
proof -
  let ?i = "IdentityQuery_new 0 0 demo_session demo_message"
  let ?loop = "IdentityQuery_loop loopback_os demo_eth"
  obtain s0 s2 ses and net2 net3 :: "loopback net" where d:
    "Sketch_setup loopback_os demo_eth ?i (loopback_net 0 []) = (s0, loopback_net 0 [])"
    "sketch_reach ?loop s0 (loopback_net 0 []) s2 net2"
    "sk_phase s2 = SkOpenSession" "sk_conn s2 = 0" "sketch.more s2 = sketch.more ?i"
    "Session_poll loopback_os (sk_session s2) net2 = (Ok, ses, net3)" "ses_state ses = SesRegistered"
    "conn_up (Some 0) net3"
    by (rule demo_sketch [OF idq.sketch_client_axioms, of ?i]) (simp_all add: IdentityQuery_new_def)
  have m2: "idq_msg s2 = demo_message" "idq_out s2 = []"
    using idq_more [OF d(5)] by (simp_all add: IdentityQuery_new_def)
  have A: "em_args (Some [0x20, 1, 0x24, 1]) 4 (Some [0x30, 1]) 2"
    by (simp add: em_args_def)
  obtain st msg net4 where e: "ExplicitMessage_send loopback_os 0 (ses_handle ses) 0x0E (Some [0x20, 1, 0x24, 1]) 4
      (Some [0x30, 1]) 2 idq_MESSAGE_TIMEOUT_MS demo_message net3 = (st, msg, net4)"
    by (metis prod_cases3)
  have c: "TcpConnection_connected 0 net3"
    using d(8) by (simp add: conn_up_def TcpConnection_connected_def)
  have n: "\<not> em_busy demo_message" "em_context demo_message = 1"
    by (simp_all add: demo_message_def ExplicitMessage_new_def em_busy_def)
  have "st = Pending"
    using ExplicitMessage_send_decides [OF n(1) c A e] by simp
  then obtain now where g: "millis loopback_os net3 = (now, net4)"
    "em_started 0 (now + idq_MESSAGE_TIMEOUT_MS)
      (rr_request (ses_handle ses) (em_context demo_message) 0x0E (arg_bytes (Some [0x20, 1, 0x24, 1]) 4)
        (arg_bytes (Some [0x30, 1]) 2)) demo_message msg"
    using ExplicitMessage_send_pending [OF demo_message_inv A] e by blast
  have ab: "arg_bytes (Some [0x20, 1, 0x24, 1]) 4 = [0x20, 1, 0x24, 1]" "arg_bytes (Some [0x30, 1]) 2 = [0x30, 1]"
    by (simp_all add: arg_bytes_def)
  have g': "net4 = net3" "em_started 0 (now + 5000) (rr_request (ses_handle ses) 1 0x0E [0x20, 1, 0x24, 1] [0x30, 1])
      demo_message msg"
    using g(1) g(2) [unfolded ab n(2) idq_MESSAGE_TIMEOUT_MS_def] by simp_all
  then have c': "em_conn msg = Some 0"
    by (simp add: em_started_def)
  obtain s3 net5 where r: "?loop s2 net2 = (s3, net5)"
    by fastforce
  have s3: "sk_phase s3 = SkWork" "idq_msg s3 = msg" "idq_out s3 = []" "idq_queryIndex s3 = 0" "net5 = net3"
    using r d(3,4,6) e g'(1) m2
    by (auto simp: IdentityQuery_loop_def Sketch_openSession_def IdentityQuery_opened_def Let_def
        IdentityQuery_startQuery_send kQueries_def kIdentityVendorId_def)
  let ?w = "\<lparr> lb_now = now, lb_random = 7, lb_queue = demo_result \<rparr>"
  have reach: "sketch_reach ?loop s0 (loopback_net 0 []) s3 (net5\<lparr>net_os := ?w\<rparr>)"
    using d(2) r by (intro sketch_reach.world) (rule sketch_reach.turn)
  show thesis
    by (rule that [OF d(1) reach]) (use s3 g' c' d(8) in \<open>simp_all add: conn_up_def\<close>)
qed

theorem IdentityQuery_prints_answers_witness:
  "\<exists>s0 s1 net1 s2 net2.
     Sketch_setup loopback_os demo_eth (IdentityQuery_new 0 0 demo_session demo_message) (loopback_net 0 []) =
       (s0, loopback_net 0 []) \<and>
     sketch_reach (IdentityQuery_loop loopback_os demo_eth) s0 (loopback_net 0 []) s1 net1 \<and>
     IdentityQuery_loop loopback_os demo_eth s1 net1 = (s2, net2) \<and> idq_out s2 = [QueryUnsigned ''vendor'' 0xC3] \<and>
     sk_phase s2 = SkWork \<and> \<not> net_fault net2"
proof -
  obtain s0 s1 h t and net1 :: "loopback net" where d:
    "Sketch_setup loopback_os demo_eth (IdentityQuery_new 0 0 demo_session demo_message) (loopback_net 0 []) =
      (s0, loopback_net 0 [])"
    "sketch_reach (IdentityQuery_loop loopback_os demo_eth) s0 (loopback_net 0 []) s1 net1" "sk_phase s1 = SkWork"
    "idq_out s1 = []" "idq_queryIndex s1 = 0" "conn_up (Some 0) net1" "em_conn (idq_msg s1) = Some 0"
    "em_started 0 (t + 5000) (rr_request h 1 0x0E [0x20, 1, 0x24, 1] [0x30, 1]) demo_message (idq_msg s1)"
    "net_os net1 = \<lparr> lb_now = t, lb_random = 7, lb_queue = demo_result \<rparr>"
    by (rule demo_idq_asks)
  obtain s2 net2 where r: "IdentityQuery_loop loopback_os demo_eth s1 net1 = (s2, net2)"
    by fastforce
  have P: "\<not> net_fault net2 \<and> (idq_out s2 = idq_out s1 \<or>
     sk_phase s1 = SkWork \<and> Session_registered (sk_session s1) \<and>
     (\<exists>sent rcvd ctx p svc code d i. i = idq_queryIndex s1 \<and> i < kQueryCount \<and>
        net_sent net2 (sk_conn s1) = sent @ identity_request (ses_handle (sk_session s1)) ctx (fst (kQueries ! i)) \<and>
        net_rcvd net2 (sk_conn s1) = rcvd @ p \<and> packet p \<and> rr_parse ctx p = Some (svc, code, d) \<and>
        idq_out s2 = idq_out s1 @ [query_answer (kQueries ! i) code d] \<and>
        idq_queryIndex s2 = i + 1 \<and>
        sk_phase s2 = (if i + 1 < kQueryCount then SkWork else SkCloseSession)))"
    using IdentityQuery_prints_answers [OF loopback_socket_contract demo_session_inv _ _ demo_message_inv _ d(1,2) r]
    by (simp add: ses_openable_def demo_session_def Session_new_def demo_message_def ExplicitMessage_new_def em_busy_def)
  obtain st msg net3 where p: "ExplicitMessage_poll loopback_os (idq_msg s1) net1 = (st, msg, net3)"
    by (metis prod_cases3)
  have b: "em_inv (idq_msg s1)" "em_busy (idq_msg s1)" "em_deadline (idq_msg s1) = t + 5000"
      "em_rxLen (idq_msg s1) = 0" "em_sentContext (idq_msg s1) = 1"
    using d(8) by (simp_all add: em_started_def em_busy_def demo_message_def ExplicitMessage_new_def)
  have ok: "st = Ok \<and> em_resultCode msg = 0 \<and> em_dataLen msg = length [0xC3, 0, 1, 2, 3, 4 :: byte] \<and>
      take (length [0xC3, 0, 1, 2, 3, 4 :: byte]) (ExplicitMessage_data msg) = [0xC3, 0, 1, 2, 3, 4]"
    using ExplicitMessage_poll_live [OF loopback_stream_contract b(1,2) _ _ demo_result_facts(2) _ _ _ p, of "[]"]
      b d(6,7,9) demo_result_facts
    by (simp add: expired_def conn_queue_def)
  have dt: "take (em_dataLen msg) (ExplicitMessage_data msg) = [0xC3, 0, 1, 2, 3, 4]"
    using ok by simp
  then have "em_dataLen msg \<le> length (ExplicitMessage_data msg)"
    using ok by (metis length_take min.cobounded1)
  from printResult_answer [OF this, of "kQueries ! 0"] ok
  have line: "IdentityQuery_printResult (kQueries ! 0) msg = QueryUnsigned ''vendor'' 0xC3"
    unfolding dt by (simp add: query_answer_def kQueries_def kIdentityVendorId_def getU16_def)
  have "idq_out s2 = [QueryUnsigned ''vendor'' 0xC3]"
    using r p ok line d(3-5)
    by (auto simp: IdentityQuery_loop_def IdentityQuery_query_def IdentityQuery_startQuery_send Let_def
        split: prod.splits if_splits)
  moreover from this have "sk_phase s2 = SkWork"
    using P d(4,5) by (auto simp: kQueryCount_def kQueries_def)
  ultimately show ?thesis
    using P d(1,2) r by blast
qed

end
