(* ===== verification/TagReadWrite.thy ===== *)
theory TagReadWrite
  imports Sketch TagProperties
begin

text \<open>
  The sketch \<open>src/examples/TagReadWrite/TagReadWrite.ino\<close>: while the session is open it reads a
  DINT, writes it, reads it back, and reads a REAL and a STRING, one tag operation after another,
  with one \<open>Tag\<close> and one message. What it prints of the results is the list \<open>trw_out\<close>; the status
  it prints when a step starts or fails is left out.
\<close>

definition TAG_TIMEOUT_MS :: u32 where "TAG_TIMEOUT_MS = 5000"

text \<open>What \<open>%s\<close> prints of a buffer; \<open>None\<close> when it runs past its end.\<close>

definition printed :: "byte list \<Rightarrow> cstring option" where
  "printed buf = (if 0 \<in> set buf then Some (takeWhile (\<lambda>b. b \<noteq> 0) buf) else None)"

datatype tag_line =
    PrintInt string int
  | PrintWrote string int
  | PrintReal string "byte list"
  | PrintString string "cstring option"

record tag_sketch = sketch +
  trw_tag :: tag
  trw_msg :: explicit_message
  trw_step :: nat
  trw_stepStarted :: bool
  trw_out :: "tag_line list"

definition TagReadWrite_new :: "int \<Rightarrow> conn_ref \<Rightarrow> session \<Rightarrow> tag \<Rightarrow> explicit_message \<Rightarrow> tag_sketch" where
  "TagReadWrite_new ETH_PHY_W5500 conn ses t msg =
     \<lparr> sk_eth = Client_new ETH_PHY_W5500, sk_cfg = Config_default ETH_PHY_W5500, sk_conn = conn,
       sk_session = ses, sk_phase = SkWaitEthernet, sk_phaseStarted = 0,
       trw_tag = t, trw_msg = msg, trw_step = 0, trw_stepStarted = False, trw_out = [] \<rparr>"

definition TagReadWrite_startStep :: "'w os \<Rightarrow> tag_sketch \<Rightarrow> 'w net \<Rightarrow> tag_sketch \<times> 'w net" where
  "TagReadWrite_startStep os s net =
     (let rd = (\<lambda>name. Tag_read os (sk_conn s) (ses_handle (sk_session s)) (Some (chars name)) 1 TAG_TIMEOUT_MS
                  (trw_tag s) (trw_msg s) net)
      in case (if trw_step s = 0 then rd ''TestDint''
               else if trw_step s = 1
               then Tag_write os (sk_conn s) (ses_handle (sk_session s)) (Some (chars ''TestDint'')) 1 TAG_TIMEOUT_MS
                      (Tag_setInt32 0 2026 (trw_tag s)) (trw_msg s) net
               else if trw_step s = 2 then rd ''TestDint''
               else if trw_step s = 3 then rd ''TestReal''
               else if trw_step s = 4 then rd ''TestString''
               else (Error, trw_tag s, trw_msg s, net))
         of (st, t, msg, net1) \<Rightarrow>
              (s\<lparr>trw_tag := t, trw_msg := msg, trw_stepStarted := (st = Pending)\<rparr>, net1))"

text \<open>\<open>junk\<close> is what the uninitialised \<open>char buf[128]\<close> of the last step holds.\<close>

definition TagReadWrite_printStep :: "byte list \<Rightarrow> nat \<Rightarrow> tag \<Rightarrow> tag_line list" where
  "TagReadWrite_printStep junk step t =
     (if step = 0 then [PrintInt ''TestDint'' (Tag_getInt32 0 t)]
      else if step = 1 then [PrintWrote ''TestDint'' 2026]
      else if step = 2 then [PrintInt ''TestDint'' (Tag_getInt32 0 t)]
      else if step = 3 then [PrintReal ''TestReal'' (Tag_getFloat32 0 t)]
      else if step = 4 then
        (case Tag_getString (Some junk) 128 t of
           (n, buf) \<Rightarrow> [PrintString ''TestString'' (printed (the buf))])
      else [])"

definition TagReadWrite_finishStep :: "byte list \<Rightarrow> tag_sketch \<Rightarrow> tag_sketch" where
  "TagReadWrite_finishStep junk s =
     (let s1 = s\<lparr>trw_out := trw_out s @ TagReadWrite_printStep junk (trw_step s) (trw_tag s),
                 trw_step := trw_step s + 1, trw_stepStarted := False\<rparr>
      in if 5 \<le> trw_step s1
         then s1\<lparr>sk_session := snd (Session_close (sk_session s1)), sk_phase := SkCloseSession\<rparr>
         else s1)"

definition TagReadWrite_opened :: "tag_sketch \<Rightarrow> 'w net \<Rightarrow> tag_sketch \<times> 'w net" where
  "TagReadWrite_opened s net = (s\<lparr>trw_step := 0, trw_stepStarted := False\<rparr>, net)"

definition TagReadWrite_tagOps ::
  "'w os \<Rightarrow> byte list \<Rightarrow> tag_sketch \<Rightarrow> 'w net \<Rightarrow> tag_sketch \<times> 'w net" where
  "TagReadWrite_tagOps os junk s net =
     (if \<not> trw_stepStarted s then TagReadWrite_startStep os s net
      else
        (case Tag_poll os (trw_tag s) (trw_msg s) net of (st, t, msg, net1) \<Rightarrow>
           (let s1 = s\<lparr>trw_tag := t, trw_msg := msg\<rparr> in
            if st = Ok then (TagReadWrite_finishStep junk s1, net1)
            else if st = Timeout \<or> st = Error then Sketch_retry os s1 net1
            else (s1, net1))))"

definition TagReadWrite_loop ::
  "'w os \<Rightarrow> 'w eth \<Rightarrow> byte list \<Rightarrow> tag_sketch \<Rightarrow> 'w net \<Rightarrow> tag_sketch \<times> 'w net" where
  "TagReadWrite_loop os eth junk s net =
     (case sk_phase s of
        SkWaitEthernet \<Rightarrow> Sketch_waitEthernet os eth s net
      | SkConnect \<Rightarrow> Sketch_connect os s net
      | SkOpenSession \<Rightarrow> Sketch_openSession os TagReadWrite_opened s net
      | SkWork \<Rightarrow> TagReadWrite_tagOps os junk s net
      | SkCloseSession \<Rightarrow> Sketch_closeSession os s net
      | SkRetryWait \<Rightarrow> Sketch_retryWait os s net)"

subsection \<open>Starting a step\<close>

text \<open>The name a step is about, and the request it sends.\<close>

definition trw_name :: "nat \<Rightarrow> cstring" where
  "trw_name step = chars (if step = 3 then ''TestReal'' else if step = 4 then ''TestString'' else ''TestDint'')"

definition trw_request :: "nat \<Rightarrow> u32 \<Rightarrow> u64 \<Rightarrow> tag \<Rightarrow> byte list" where
  "trw_request step h ctx t =
     (if step = 1
      then (let u = Tag_setInt32 0 2026 t
            in rr_request h ctx 0x4D (symbolic_segment (trw_name step))
                 (write_data 1 (tag_dataType u) (take (the (Tag_writeLength 1 u)) (tag_data u))))
      else rr_request h ctx 0x4C (symbolic_segment (trw_name step)) (leU16 1))"

text \<open>A tag whose last read left a type it cannot write.\<close>

definition trw_unwritable :: "tag \<Rightarrow> bool" where
  "trw_unwritable t \<longleftrightarrow> tag_dataType t = 0 \<or> Tag_writeLength 1 (Tag_setInt32 0 2026 t) = None"

lemma trw_name_length: "length (trw_name step) \<le> 10"
  by (simp add: trw_name_def)

lemma setInt32_simps [simp]:
  "tag_state (Tag_setInt32 off v t) = tag_state t" "tag_dataType (Tag_setInt32 off v t) = tag_dataType t"
  "tag_dataLen (Tag_setInt32 off v t) = tag_dataLen t"
  by (simp_all add: Tag_setInt32_def)

lemma trw_setInt32_inv: "tag_inv t \<Longrightarrow> tag_inv (Tag_setInt32 0 2026 t)"
  using acc_int32.set_inv [of t 2026 0] by (simp add: sint_range_def)

lemma trw_setInt32_again: "tag_inv t \<Longrightarrow> Tag_setInt32 0 2026 (Tag_setInt32 0 2026 t) = Tag_setInt32 0 2026 t"
  by (simp add: Tag_setInt32_def Tag_inBounds_iff tag_inv_def putU32_def poke_def)

lemma trw_setInt32_state: "Tag_setInt32 off v (t\<lparr>tag_state := x\<rparr>) = (Tag_setInt32 off v t)\<lparr>tag_state := x\<rparr>"
  by (cases t) (simp add: Tag_setInt32_def)

lemma trw_unwritable_again: "tag_inv t \<Longrightarrow> trw_unwritable (Tag_setInt32 0 2026 t) = trw_unwritable t"
  by (simp add: trw_unwritable_def trw_setInt32_again)

lemma Tag_writeLength_state: "Tag_writeLength n (t\<lparr>tag_state := x\<rparr>) = Tag_writeLength n t"
  by (simp add: Tag_writeLength_def)

lemma Tag_writeLength_1:
  assumes "Tag_writeLength 1 (Tag_setInt32 0 2026 t) = Some len" and "tag_inv t"
  shows "len \<le> 8"
proof (cases "tag_dataType t = DataType_code DtString")
  case True
  have "getU32 (tag_data (Tag_setInt32 0 2026 t)) = 2026"
    using assms(2) by (simp add: Tag_setInt32_def Tag_inBounds_iff tag_inv_def putU32_def poke_def)
  with assms True show ?thesis
    by (simp add: Tag_writeLength_def Let_def tag_kMaxDataSize_def)
next
  case False
  with assms(1) show ?thesis
    using dataTypeElementSize_le [of "DataType_cast (tag_dataType t)"]
    by (auto simp: Tag_writeLength_def Let_def split: if_splits)
qed

lemma TagReadWrite_startStep_spec:
  assumes I: "em_inv (trw_msg s)" "tag_inv (trw_tag s)" and B: "\<not> em_busy (trw_msg s)" "\<not> tag_waiting (trw_tag s)"
    and up: "TcpConnection_connected (sk_conn s) net" and st5: "trw_step s < 5"
    and run: "TagReadWrite_startStep os s net = (s', net')"
  obtains (started) t msg now where "s' = s\<lparr>trw_tag := t, trw_msg := msg, trw_stepStarted := True\<rparr>"
      "millis os net = (now, net')" "tag_inv t" "tag_state t = (if trw_step s = 1 then TagWriting else TagReading)"
      "em_awaits (sk_conn s) msg"
      "em_started (sk_conn s) (now + TAG_TIMEOUT_MS) (trw_request (trw_step s) (ses_handle (sk_session s))
         (em_context (trw_msg s)) t) (trw_msg s) msg"
      "\<not> (trw_step s = 1 \<and> trw_unwritable (trw_tag s))" "trw_step s \<noteq> 1 \<longrightarrow> tag_dataLen t = 0"
  | (refused) "trw_step s = 1" "trw_unwritable (trw_tag s)" "net' = net"
      "s' = s\<lparr>trw_tag := Tag_setInt32 0 2026 (trw_tag s), trw_stepStarted := False\<rparr>"
proof (cases "trw_step s = 1")
  case False
  obtain st t msg net1 where r: "Tag_read os (sk_conn s) (ses_handle (sk_session s)) (Some (trw_name (trw_step s))) 1
      TAG_TIMEOUT_MS (trw_tag s) (trw_msg s) net = (st, t, msg, net1)"
    by (metis prod_cases4)
  have "trw_step s = 0 \<or> trw_step s = 2 \<or> trw_step s = 3 \<or> trw_step s = 4"
    using False st5 by linarith
  then have e: "s' = s\<lparr>trw_tag := t, trw_msg := msg, trw_stepStarted := (st = Pending)\<rparr>" "net' = net1"
    using run r by (auto simp: TagReadWrite_startStep_def trw_name_def)
  have st: "st = Pending"
    using Tag_read_starts [OF B up _ r] trw_name_length [of "trw_step s"] by simp
  obtain now where m: "millis os net = (now, net1)"
    and g: "em_started (sk_conn s) (now + TAG_TIMEOUT_MS) (rr_request (ses_handle (sk_session s)) (em_context (trw_msg s))
      0x4C (symbolic_segment (trw_name (trw_step s))) (leU16 (ucast (1 :: u32)))) (trw_msg s) msg"
    and t: "t = (trw_tag s)\<lparr>tag_dataLen := 0, tag_resultCode := 0, tag_state := TagReading\<rparr>"
    using Tag_read_pending [OF I(1) r [unfolded st]] by blast
  have aw: "em_awaits (sk_conn s) msg"
    using Tag_read_awaits [OF r] B(1) by (simp add: em_awaits_def)
  show thesis
    by (rule started [where t = t and msg = msg and now = now]) (use e st m g t aw False I(2) in \<open>simp_all add: tag_inv_def trw_request_def\<close>)
next
  case True
  let ?t0 = "Tag_setInt32 0 2026 (trw_tag s)"
  obtain st t msg net1 where r: "Tag_write os (sk_conn s) (ses_handle (sk_session s)) (Some (trw_name 1)) 1
      TAG_TIMEOUT_MS ?t0 (trw_msg s) net = (st, t, msg, net1)"
    by (metis prod_cases4)
  have e: "s' = s\<lparr>trw_tag := t, trw_msg := msg, trw_stepStarted := (st = Pending)\<rparr>" "net' = net1"
    using run r True by (simp_all add: TagReadWrite_startStep_def trw_name_def)
  have W: "\<not> tag_waiting ?t0" and I0: "tag_inv ?t0"
    using B(2) I(2) by (simp_all add: tag_waiting_def trw_setInt32_inv)
  show thesis
  proof (cases "trw_unwritable (trw_tag s)")
    case u: True
    then have "t = ?t0" "msg = trw_msg s" "net1 = net" "st \<noteq> Pending"
      using r by (auto simp: Tag_write_def Tag_startWrite_def trw_unwritable_def split: if_splits)
    with e u True show thesis
      by (intro refused) simp_all
  next
    case w: False
    then obtain len where len: "Tag_writeLength 1 ?t0 = Some len" and ty: "tag_dataType ?t0 \<noteq> 0"
      by (auto simp: trw_unwritable_def)
    have nm: "length (trw_name 1) \<le> 120"
      using trw_name_length [of 1] by simp
    have sym: "length (symbolic_segment (trw_name 1)) \<le> 13"
      using trw_name_length [of 1] by (auto simp: length_symbolic_segment)
    have st: "st = Pending"
      using Tag_write_capacity [OF I(1) B(1) I0 W up nm ty len r] sym Tag_writeLength_1 [OF len I(2)] by simp
    obtain now where m: "millis os net = (now, net1)"
      and g: "em_started (sk_conn s) (now + TAG_TIMEOUT_MS) (rr_request (ses_handle (sk_session s))
        (em_context (trw_msg s)) 0x4D (symbolic_segment (trw_name 1)) (write_data 1 (tag_dataType ?t0)
          (take len (tag_data ?t0)))) (trw_msg s) msg"
      and t: "t = ?t0\<lparr>tag_state := TagWriting\<rparr>"
      using Tag_write_pending [OF I(1) I0 r [unfolded st]] len by force
    have aw: "em_awaits (sk_conn s) msg"
      using Tag_write_awaits [OF r] B(1) by (simp add: em_awaits_def)
    have "Tag_setInt32 0 2026 t = t"
      using t trw_setInt32_again [OF I(2)] by (simp add: trw_setInt32_state)
    moreover have "Tag_writeLength 1 t = Some len"
      using len t by (simp add: Tag_writeLength_state)
    ultimately show thesis
      using e st m g t aw True w I0
      by (intro started [where t = t and msg = msg and now = now]) (simp_all add: tag_inv_def trw_request_def)
  qed
qed

subsection \<open>One turn of the tag operations\<close>

definition trw_idle :: "'w os \<Rightarrow> tag_sketch \<Rightarrow> bool" where
  "trw_idle os s \<longleftrightarrow>
     socket_contract os \<and> em_inv (trw_msg s) \<and> tag_inv (trw_tag s) \<and> \<not> em_busy (trw_msg s) \<and> \<not> tag_waiting (trw_tag s)"

definition trw_asking :: "tag_sketch \<Rightarrow> 'w net \<Rightarrow> bool" where
  "trw_asking s net \<longleftrightarrow>
     em_busy (trw_msg s) \<and> em_conn (trw_msg s) = Some (sk_conn s) \<and>
     tag_state (trw_tag s) = (if trw_step s = 1 then TagWriting else TagReading) \<and>
     (trw_step s \<noteq> 1 \<longrightarrow> tag_dataLen (trw_tag s) = 0) \<and>
     (\<exists>osent ircvd. em_exchange osent ircvd (trw_msg s) net) \<and>
     take (em_txLen (trw_msg s)) (em_tx (trw_msg s)) =
       trw_request (trw_step s) (ses_handle (sk_session s)) (em_sentContext (trw_msg s)) (trw_tag s)"

definition trw_working :: "'w os \<Rightarrow> tag_sketch \<Rightarrow> 'w net \<Rightarrow> bool" where
  "trw_working os s net \<longleftrightarrow>
     socket_contract os \<and> em_inv (trw_msg s) \<and> tag_inv (trw_tag s) \<and> em_awaits (sk_conn s) (trw_msg s) \<and>
     trw_step s < 5 \<and>
     (if trw_stepStarted s
      then tag_state (trw_tag s) = TagFailed \<and> \<not> em_busy (trw_msg s) \<or> trw_asking s net
      else \<not> em_busy (trw_msg s) \<and> \<not> tag_waiting (trw_tag s) \<and> TcpConnection_connected (sk_conn s) net)"

lemma trw_startStep_working:
  assumes W: "trw_working os s net" and u: "\<not> trw_stepStarted s"
    and run: "TagReadWrite_startStep os s net = (s', net')"
  shows "trw_working os s' net' \<and> only_os net net' \<and> trw_out s' = trw_out s \<and> trw_step s' = trw_step s \<and>
    sketch.truncate s' = sketch.truncate s \<and>
    (trw_stepStarted s' \<longleftrightarrow> \<not> (trw_step s = 1 \<and> trw_unwritable (trw_tag s)))"
proof -
  have W': "socket_contract os" "em_inv (trw_msg s)" "tag_inv (trw_tag s)" "em_awaits (sk_conn s) (trw_msg s)"
    "trw_step s < 5" "\<not> em_busy (trw_msg s)" "\<not> tag_waiting (trw_tag s)" "TcpConnection_connected (sk_conn s) net"
    using W u by (simp_all add: trw_working_def)
  from W'(2,3,6,7,8,5) run show ?thesis
  proof (cases rule: TagReadWrite_startStep_spec)
    case (started t msg now)
    have o: "only_os net net'"
      using started(2) by (rule millis_only_os)
    have g: "em_inv msg" "em_busy msg" "em_conn msg = Some (sk_conn s)" "em_txSent msg = 0" "em_rxLen msg = 0"
      "em_sentContext msg = em_context (trw_msg s)"
      using started(6) by (simp_all add: em_started_def em_busy_def)
    have req: "take (em_txLen msg) (em_tx msg) =
        trw_request (trw_step s) (ses_handle (sk_session s)) (em_context (trw_msg s)) t"
      using started(6) unfolding em_started_def by blast
    have "em_exchange (net_sent net' (sk_conn s)) (net_rcvd net' (sk_conn s)) msg net'"
      using g by (simp add: exchange_def conn_out_def conn_in_def)
    then have "trw_asking s' net'"
      using g req started(1,4,8) unfolding trw_asking_def by auto
    with started W' g o show ?thesis
      by (simp add: trw_working_def sketch.defs)
  next
    case refused
    with W' u show ?thesis
      by (simp add: trw_working_def sketch.defs trw_setInt32_inv tag_waiting_def only_os_def)
  qed
qed

text \<open>The line a finished step prints, as the status and the data of its reply decide.\<close>

lemma TagReadWrite_tagOps_spec:
  assumes W: "trw_working os s net" and u: "trw_stepStarted s" and ph: "sk_phase s = SkWork"
    and run: "TagReadWrite_tagOps os junk s net = (s', net')"
  obtains (wait) t msg where "s' = s\<lparr>trw_tag := t, trw_msg := msg\<rparr>" "trw_working os s' net'"
      "net_fault net' = net_fault net"
  | (fail) t msg now where
      "s' = s\<lparr>trw_tag := t, trw_msg := msg, sk_phase := SkRetryWait, sk_phaseStarted := now\<rparr>"
      "trw_idle os s'" "net_fault net' = net_fault net"
  | (answer) t msg osent ircvd svc d p where
      "s' = TagReadWrite_finishStep junk (s\<lparr>trw_tag := t, trw_msg := msg\<rparr>)"
      "trw_idle os s'" "TcpConnection_connected (sk_conn s) net'" "net_fault net' = net_fault net"
      "em_exchange osent ircvd (trw_msg s) net" "trw_asking s net"
      "net_sent net' (sk_conn s) = osent @ trw_request (trw_step s) (ses_handle (sk_session s))
         (em_sentContext (trw_msg s)) (trw_tag s)"
      "net_rcvd net' (sk_conn s) = ircvd @ p" "packet p" "rr_parse (em_sentContext (trw_msg s)) p = Some (svc, 0, d)"
      "tag_finish Ok msg (trw_tag s) = (Ok, t)" "d = take (em_dataLen msg) (ExplicitMessage_data msg)"
      "em_dataLen msg \<le> length (ExplicitMessage_data msg)" "em_dataLen msg \<le> 256"
proof -
  have C: "socket_contract os" and I: "em_inv (trw_msg s)" "tag_inv (trw_tag s)"
    and A: "em_awaits (sk_conn s) (trw_msg s)" and i: "trw_step s < 5"
    and K: "tag_state (trw_tag s) = TagFailed \<and> \<not> em_busy (trw_msg s) \<or> trw_asking s net"
    using W u by (simp_all add: trw_working_def)
  obtain st t msg net1 where p: "Tag_poll os (trw_tag s) (trw_msg s) net = (st, t, msg, net1)"
    by (metis prod_cases4)
  let ?s1 = "s\<lparr>trw_tag := t, trw_msg := msg\<rparr>"
  have r: "(s', net') =
      (if st = Ok then (TagReadWrite_finishStep junk ?s1, net1)
       else if st = Timeout \<or> st = Error then Sketch_retry os ?s1 net1 else (?s1, net1))"
    using run p u by (simp add: TagReadWrite_tagOps_def Let_def)
  have I': "em_inv msg" "tag_inv t"
    using Tag_poll_inv [OF C I p] by simp_all
  show thesis
  proof (cases "trw_asking s net")
    case False
    then have f: "tag_state (trw_tag s) = TagFailed" "\<not> em_busy (trw_msg s)"
      using K by blast+
    then have e: "st = Error" "t = trw_tag s" "msg = trw_msg s" "net1 = net"
      using p by (simp_all add: Tag_poll_def)
    then have "Sketch_retry os ?s1 net = (s', net')"
      using r by simp
    from Sketch_retry_simp [OF this] obtain now where
      "s' = ?s1\<lparr>sk_phase := SkRetryWait, sk_phaseStarted := now\<rparr>" "only_os net net'"
      by blast
    with f e C I show thesis
      by (intro fail [where t = t and msg = msg and now = now])
        (simp_all add: trw_idle_def only_os_def tag_waiting_def)
  next
    case ask: True
    then have B: "em_busy (trw_msg s)" and c: "em_conn (trw_msg s) = Some (sk_conn s)"
      and ts: "tag_state (trw_tag s) = (if trw_step s = 1 then TagWriting else TagReading)"
      and dl: "trw_step s \<noteq> 1 \<longrightarrow> tag_dataLen (trw_tag s) = 0"
      and req: "take (em_txLen (trw_msg s)) (em_tx (trw_msg s)) =
        trw_request (trw_step s) (ses_handle (sk_session s)) (em_sentContext (trw_msg s)) (trw_tag s)"
      unfolding trw_asking_def by blast+
    obtain osent ircvd where x: "em_exchange osent ircvd (trw_msg s) net"
      using ask unfolding trw_asking_def by blast
    have w: "tag_waiting (trw_tag s)"
      using ts by (auto simp: tag_waiting_def split: if_splits)
    obtain st0 where e: "ExplicitMessage_poll os (trw_msg s) net = (st0, msg, net1)"
      and f: "tag_finish st0 msg (trw_tag s) = (st, t)"
      using p by (auto simp: Tag_poll_finish [OF w] split: prod.splits)
    note P = ExplicitMessage_poll_spec [OF C I(1) B e, of osent ircvd]
    note L = Tag_poll_awaits [OF C A B w p]
    have fa: "net_fault net1 = net_fault net"
      using ExplicitMessage_poll_frame [OF I(1) e] by (auto simp: conn_frame_def)
    have same: "em_same_request (trw_msg s) msg" and x': "em_exchange osent ircvd msg net1"
      using P x by simp_all
    show thesis
    proof (cases "st = Ok")
      case True
      with f have ok: "tag_finish Ok msg (trw_tag s) = (Ok, t)" "st0 = Ok" "em_resultCode msg = 0" "tag_state t = TagDone"
        using tag_finish_Ok by auto
      have fin: "em_state msg = EmDone" "em_txSent msg = em_txLen msg" "em_reply msg"
        using P ok(2) by auto
      let ?p = "take (em_rxLen msg) (em_rx msg)" and ?d = "take (em_dataLen msg) (ExplicitMessage_data msg)"
      have wire: "net_sent net1 (sk_conn s) = osent @ trw_request (trw_step s) (ses_handle (sk_session s))
          (em_sentContext (trw_msg s)) (trw_tag s)" "net_rcvd net1 (sk_conn s) = ircvd @ ?p"
        using x' same c fin(2) req by (simp_all add: exchange_def conn_out_def conn_in_def em_same_request_def)
      have reply: "packet ?p" "rr_parse (em_sentContext (trw_msg s)) ?p = Some (em_replyService msg, 0, ?d)"
        "em_dataLen msg \<le> length (ExplicitMessage_data msg)"
        using fin(3) same ok(3) by (simp_all add: em_reply_def em_same_request_def)
      have small: "em_dataLen msg \<le> 256"
        using I'(1) fin(3) by (rule em_reply_small)
      have r': "s' = TagReadWrite_finishStep junk ?s1" "net' = net1"
        using r True by simp_all
      have "trw_idle os s'"
        using r'(1) C I' fin(1) ok(4)
        by (simp add: trw_idle_def TagReadWrite_finishStep_def Let_def em_busy_def tag_waiting_def)
      with L True fa x ask wire reply ok(1) small r' show thesis
        by (intro answer [OF r'(1), where osent = osent and ircvd = ircvd and p = ?p and d = ?d]) simp_all
    next
      case nok: False
      show thesis
      proof (cases "st = Timeout \<or> st = Error")
        case True
        with r nok have "Sketch_retry os ?s1 net1 = (s', net')"
          by auto
        from Sketch_retry_simp [OF this] obtain now where
          g: "s' = ?s1\<lparr>sk_phase := SkRetryWait, sk_phaseStarted := now\<rparr>" "only_os net1 net'"
          by blast
        have "st \<noteq> Pending"
          using True by auto
        then have "st0 \<noteq> Pending" "\<not> tag_waiting t"
          using f by (auto simp: tag_finish_def tag_waiting_def Let_def split: if_splits)
        moreover from this(1) have "\<not> em_busy msg"
          using P by (auto simp: em_busy_def)
        ultimately show thesis
          using g C I' fa by (intro fail [where t = t and msg = msg and now = now]) (simp_all add: trw_idle_def only_os_def)
      next
        case stay: False
        then have r': "s' = ?s1" "net' = net1"
          using r nok by simp_all
        have "if st0 = Pending then trw_asking ?s1 net1 else tag_state t = TagFailed \<and> \<not> em_busy msg"
        proof (cases "st0 = Pending")
          case True
          then have "em_busy msg" "t = trw_tag s"
            using P f by (auto simp: tag_finish_def)
          moreover have "take (em_txLen msg) (em_tx msg) = trw_request (trw_step s) (ses_handle (sk_session s))
              (em_sentContext msg) (trw_tag s)"
            using same req by (simp add: em_same_request_def)
          ultimately show ?thesis
            using True same c ts dl x' by (auto simp: trw_asking_def em_same_request_def)
        next
          case False
          then have "\<not> em_busy msg" "tag_state t = TagFailed"
            using P f nok by (auto simp: em_busy_def tag_finish_def Let_def split: if_splits)
          with False show ?thesis
            by simp
        qed
        with r' C I' L i u fa show thesis
          by (intro wait [where t = t and msg = msg]) (auto simp: trw_working_def split: if_splits)
      qed
    qed
  qed
qed

subsection \<open>The sketch\<close>

lemma trw_more:
  "sketch.more s' = sketch.more (s :: tag_sketch) \<Longrightarrow>
    trw_tag s' = trw_tag s \<and> trw_msg s' = trw_msg s \<and> trw_step s' = trw_step s \<and>
    trw_stepStarted s' = trw_stepStarted s \<and> trw_out s' = trw_out s"
  by (cases s; cases s') simp

lemma trw_working_cong:
  assumes "trw_working os s net" and "sketch.more s' = sketch.more s" and "sk_conn s' = sk_conn s"
    and "sk_session s' = sk_session s" and "only_os net net'"
  shows "trw_working os s' net'"
proof -
  have "TcpConnection_connected c net' = TcpConnection_connected c net" for c
    using assms(5) by (simp add: only_os_def TcpConnection_connected_def)
  moreover have "trw_asking s' net' = trw_asking s net"
    using assms(3-5) trw_more [OF assms(2)] by (simp add: trw_asking_def exchange_only_os)
  ultimately show ?thesis
    using assms(1,3) trw_more [OF assms(2)] unfolding trw_working_def by simp
qed

lemma TagReadWrite_tagOps_law:
  assumes W: "trw_working os s net" and ph: "sk_phase s = SkWork"
    and run: "TagReadWrite_tagOps os junk s net = (s', net')"
  shows "sk_conn s' = sk_conn s \<and> net_fault net' = net_fault net \<and>
      (sk_phase s' = SkWork \<and> sk_session s' = sk_session s \<and> trw_working os s' net' \<or>
       sk_phase s' = SkRetryWait \<and> sk_session s' = sk_session s \<and> trw_idle os s' \<or>
       sk_phase s' = SkCloseSession \<and> sk_session s' = snd (Session_close (sk_session s)) \<and> trw_idle os s')"
proof (cases "trw_stepStarted s")
  case False
  then have r: "TagReadWrite_startStep os s net = (s', net')"
    using run by (simp add: TagReadWrite_tagOps_def)
  with trw_startStep_working [OF W False r] ph show ?thesis
    by (simp add: sketch.defs only_os_def)
next
  case True
  from W True ph run show ?thesis
  proof (cases rule: TagReadWrite_tagOps_spec)
    case (answer t msg osent ircvd svc d p)
    have "trw_working os s' net'" if "trw_step s + 1 < 5"
    proof -
      have s': "s' = s\<lparr>trw_tag := t, trw_msg := msg, trw_out := trw_out s @ TagReadWrite_printStep junk (trw_step s) t,
          trw_step := trw_step s + 1, trw_stepStarted := False\<rparr>"
        using answer(1) that by (simp add: TagReadWrite_finishStep_def Let_def)
      have i: "socket_contract os" "em_inv msg" "tag_inv t" "\<not> em_busy msg" "\<not> tag_waiting t"
        using answer(2) by (simp_all add: s' trw_idle_def)
      from answer(3) i that show ?thesis
        by (simp add: s' trw_working_def em_awaits_def)
    qed
    with answer(2) show ?thesis
      using ph answer(4) by (simp add: answer(1) TagReadWrite_finishStep_def Let_def)
  qed (use ph in simp_all)
qed

interpretation trw: sketch_client os eth "TagReadWrite_loop os eth junk" TagReadWrite_opened
    "TagReadWrite_tagOps os junk" "trw_idle os" "trw_working os" for os eth junk
proof unfold_locales
  fix s s' :: tag_sketch and net net' :: "'a net"
  show "TagReadWrite_loop os eth junk s net =
     (case sk_phase s of
        SkWaitEthernet \<Rightarrow> Sketch_waitEthernet os eth s net
      | SkConnect \<Rightarrow> Sketch_connect os s net
      | SkOpenSession \<Rightarrow> Sketch_openSession os TagReadWrite_opened s net
      | SkWork \<Rightarrow> TagReadWrite_tagOps os junk s net
      | SkCloseSession \<Rightarrow> Sketch_closeSession os s net
      | SkRetryWait \<Rightarrow> Sketch_retryWait os s net)"
    by (simp add: TagReadWrite_loop_def)
  show "socket_contract os" if "trw_idle os s"
    using that by (simp add: trw_idle_def)
  show "trw_idle os s'" if "trw_idle os s" and "sketch.more s' = sketch.more s"
    using that trw_more [OF that(2)] by (simp add: trw_idle_def)
  show "trw_working os s' net'"
    if "trw_working os s net" and "sketch.more s' = sketch.more s" and "sk_conn s' = sk_conn s"
      and "sk_session s' = sk_session s" and "only_os net net'"
    using that by (rule trw_working_cong)
  show "trw_working os s' net' \<and> sketch.truncate s' = sketch.truncate s \<and> net_fault net' = net_fault net"
    if "trw_idle os s" and "TcpConnection_connected (sk_conn s) net" and "TagReadWrite_opened s net = (s', net')"
    using that by (auto simp: trw_idle_def trw_working_def TagReadWrite_opened_def em_awaits_def sketch.defs)
  show "sk_conn s' = sk_conn s \<and> net_fault net' = net_fault net \<and>
      (sk_phase s' = SkWork \<and> sk_session s' = sk_session s \<and> trw_working os s' net' \<or>
       sk_phase s' = SkRetryWait \<and> sk_session s' = sk_session s \<and> trw_idle os s' \<or>
       sk_phase s' = SkCloseSession \<and> sk_session s' = snd (Session_close (sk_session s)) \<and> trw_idle os s')"
    if "sketch_inv s net" and "sk_phase s = SkWork" and "trw_working os s net"
      and "TagReadWrite_tagOps os junk s net = (s', net')"
    using that(3,2,4) by (rule TagReadWrite_tagOps_law)
qed

subsection \<open>What it prints\<close>

text \<open>The line a reply's data (type, then value) is worth, when the value has its four bytes.\<close>

definition trw_answer :: "nat \<Rightarrow> byte list \<Rightarrow> tag_line" where
  "trw_answer step d =
     (if step = 1 then PrintWrote ''TestDint'' 2026
      else if step = 3 then PrintReal ''TestReal'' (take 4 (drop 2 d))
      else if step = 4 then PrintString ''TestString''
        (Some (takeWhile (\<lambda>b. b \<noteq> 0)
           (take (min (unat (getU32 (drop 2 d))) (min (length d - 6) 127)) (drop 6 d))))
      else PrintInt ''TestDint'' (sint (getU32 (drop 2 d))))"

text \<open>
  The line of a step, for any reply. \<open>getInt32\<close> and \<open>getFloat32\<close> test the capacity of the tag's buffer
  and not the bytes it holds: when the value is shorter than four bytes they read on in what the
  buffer held before, \<open>old\<close>. \<open>getString\<close> leaves the array of the sketch as it is.
\<close>

definition trw_line :: "byte list \<Rightarrow> nat \<Rightarrow> byte list \<Rightarrow> byte list \<Rightarrow> tag_line" where
  "trw_line junk step old d =
     (if step = 1 \<or> 6 \<le> length d then trw_answer step d
      else if step = 3 then PrintReal ''TestReal'' (take 4 (drop 2 d @ drop (length d - 2) old))
      else if step = 4 then PrintString ''TestString'' (printed junk)
      else PrintInt ''TestDint'' (sint (getU32 (drop 2 d @ drop (length d - 2) old))))"

lemma printed_poke:
  assumes "length buf = 128" and "length bs = n" and "n < 128"
  shows "printed (poke n [0] (poke 0 bs buf)) = Some (takeWhile (\<lambda>b. b \<noteq> 0) bs)"
proof -
  have e: "poke n [0] (poke 0 bs buf) = bs @ 0 # drop (n + 1) buf"
    using assms by (simp add: poke_def)
  have "takeWhile (\<lambda>b. b \<noteq> 0) (bs @ 0 # xs) = takeWhile (\<lambda>b. b \<noteq> 0) bs" for xs
    by (induction bs) simp_all
  then show ?thesis
    unfolding e by (simp add: printed_def)
qed

lemma trw_print_answer:
  assumes "length junk = 128" and I: "tag_inv t" "tag_inv t0" and st: "trw_step s < 5"
    and ts: "tag_state t0 = (if trw_step s = 1 then TagWriting else TagReading)"
    and f: "tag_finish Ok msg t0 = (Ok, t)" "d = take (em_dataLen msg) (ExplicitMessage_data msg)"
      "em_dataLen msg \<le> length (ExplicitMessage_data msg)" "em_dataLen msg \<le> 256"
    and big: "trw_step s = 1 \<or> 6 \<le> length d"
  shows "TagReadWrite_printStep junk (trw_step s) t = [trw_answer (trw_step s) d]"
proof (cases "trw_step s = 1")
  case True
  then show ?thesis
    by (simp add: TagReadWrite_printStep_def trw_answer_def)
next
  case False
  with big have len: "6 \<le> length d"
    by simp
  have h: "tag_holds d t"
    using tag_finish_read [OF I(2) _ f(1-3)] f(4) ts False len by simp
  define v where "v = drop 2 d"
  have v1: "take (tag_dataLen t) (tag_data t) = v"
    using h unfolding tag_holds_def v_def by blast
  have v2: "tag_dataLen t = length v" "4 \<le> length v" "length (tag_data t) = 256"
    using h len I(1) by (simp_all add: tag_holds_def v_def tag_inv_def)
  note v = v1 v2
  have g: "getU32 (tag_data t) = getU32 v"
    using v u32.dec_take [of "length v" "tag_data t"] by simp
  have four: "take 4 (tag_data t) = take 4 v"
    using v(1-3) by (metis min.absorb2 min.commute take_take)
  have v4: "drop 4 v = take (length v - 4) (drop 4 (tag_data t))"
    using v(1,2) by (metis drop_take)
  define n where "n = min (unat (getU32 v)) (min (length v - 4) 127)"
  have n: "take n (drop 4 (tag_data t)) = take n (drop 4 v)" "n < 128" "n \<le> length v - 4"
    unfolding v4 by (simp_all add: n_def)
  have str: "Tag_getString (Some junk) 128 t = (n, Some (poke n [0] (poke 0 (take n (drop 4 v)) junk)))"
    unfolding n(1) [symmetric] using v(2,3) g by (auto simp: Tag_getString_def Let_def n_def min_def)
  have pr: "printed (poke n [0] (poke 0 (take n (drop 4 v)) junk)) = Some (takeWhile (\<lambda>b. b \<noteq> 0) (take n (drop 4 v)))"
    using assms(1) n(2,3) by (intro printed_poke) simp_all
  have get: "Tag_getInt32 0 t = sint (getU32 v)" "Tag_getFloat32 0 t = take 4 v"
    using g four by (simp_all add: Tag_getInt32_def Tag_getFloat32_def Tag_inBounds_iff Tag_at_def)
  have d: "drop 4 v = drop 6 d" "n = min (unat (getU32 v)) (min (length d - 6) 127)"
    by (simp_all add: v_def n_def)
  have "trw_step s = 0 \<or> trw_step s = 2 \<or> trw_step s = 3 \<or> trw_step s = 4"
    using False st by linarith
  then show ?thesis
    unfolding trw_answer_def v_def [symmetric] d(1) [symmetric] d(2) [symmetric]
    by (elim disjE) (simp_all add: TagReadWrite_printStep_def get str pr)
qed

lemma trw_print_line:
  assumes "length junk = 128" and I: "tag_inv t" "tag_inv t0" and st: "trw_step s < 5"
    and ts: "tag_state t0 = (if trw_step s = 1 then TagWriting else TagReading)"
    and dl: "trw_step s \<noteq> 1 \<longrightarrow> tag_dataLen t0 = 0"
    and f: "tag_finish Ok msg t0 = (Ok, t)" "d = take (em_dataLen msg) (ExplicitMessage_data msg)"
      "em_dataLen msg \<le> length (ExplicitMessage_data msg)" "em_dataLen msg \<le> 256"
  shows "TagReadWrite_printStep junk (trw_step s) t = [trw_line junk (trw_step s) (tag_data t0) d]"
proof (cases "trw_step s = 1 \<or> 6 \<le> length d")
  case True
  with trw_print_answer [OF assms(1) I st ts f True] show ?thesis
    by (simp add: trw_line_def)
next
  case short: False
  then have ts': "tag_state t0 = TagReading" and dl': "tag_dataLen t0 = 0"
    using ts dl by simp_all
  have len: "length d = em_dataLen msg"
    using f(2,3) by simp
  have buf: "tag_data t = drop 2 d @ drop (length d - 2) (tag_data t0)" "tag_dataLen t < 4"
  proof -
    have "tag_data t = drop 2 d @ drop (length d - 2) (tag_data t0) \<and> tag_dataLen t = length d - 2"
    proof (cases "2 \<le> length d")
      case True
      have n: "take (min 256 (em_dataLen msg - 2)) (drop 2 (ExplicitMessage_data msg)) = drop 2 d"
        using f(2,4) by (simp add: drop_take)
      have "tag_data t = poke 0 (drop 2 d) (tag_data t0)" "tag_dataLen t = min 256 (em_dataLen msg - 2)"
        using f(1) ts' True len n by (auto simp: tag_finish_def Let_def split: if_splits)
      moreover have "min 256 (em_dataLen msg - 2) = em_dataLen msg - 2"
        using f(4) by linarith
      ultimately show ?thesis
        using len by (simp add: poke_def)
    next
      case False
      with tag_finish_read [OF I(2) ts' f(1-3)] f(4) dl' show ?thesis
        by simp
    qed
    moreover have "length d - 2 < 4"
      using short by linarith
    ultimately show "tag_data t = drop 2 d @ drop (length d - 2) (tag_data t0)" "tag_dataLen t < 4"
      by simp_all
  qed
  have "trw_step s = 0 \<or> trw_step s = 2 \<or> trw_step s = 3 \<or> trw_step s = 4"
    using short st by linarith
  then show ?thesis
    using short buf
    by (elim disjE) (simp_all add: TagReadWrite_printStep_def trw_line_def Tag_getInt32_def Tag_getFloat32_def
        Tag_inBounds_iff Tag_at_def Tag_getString_def)
qed

lemma trw_request_dint:
  assumes "tag_inv t" and "tag_dataType t = 0xC4"
  shows "trw_request 1 h ctx t = rr_request h ctx 0x4D (symbolic_segment (chars ''TestDint''))
    (leU16 1 @ leU16 0xC4 @ leU32 2026)"
proof -
  have "Tag_writeLength 1 (Tag_setInt32 0 2026 t) = Some 4"
    using assms(2) by (simp add: Tag_writeLength_def DataType_cast_def tag_kMaxDataSize_def)
  moreover have "take 4 (tag_data (Tag_setInt32 0 2026 t)) = leU32 2026"
    using assms(1) by (simp add: Tag_setInt32_def Tag_inBounds_iff putU32_def poke_def tag_inv_def)
  ultimately show ?thesis
    using assms(2) by (simp add: trw_request_def trw_name_def write_data_def)
qed

lemma TagReadWrite_silent:
  assumes "\<not> (sk_phase s = SkWork \<and> trw_stepStarted s)" and "sk_phase s = SkWork \<longrightarrow> trw_working os s net"
    and run: "TagReadWrite_loop os eth junk s net = (s', net')"
  shows "trw_out s' = trw_out s"
proof -
  consider "sk_phase s = SkOpenSession" | "sk_phase s = SkWork" | "sk_phase s \<noteq> SkOpenSession" "sk_phase s \<noteq> SkWork"
    by blast
  then show ?thesis
  proof cases
    case 1
    with run have "Sketch_openSession os TagReadWrite_opened s net = (s', net')"
      by (simp add: TagReadWrite_loop_def)
    then show ?thesis
    proof (cases rule: Sketch_openSession_more)
      case 1
      with trw_more show ?thesis
        by blast
    next
      case (2 ses net1 s2 net2)
      with trw_more [OF 2(2)] show ?thesis
        by (auto simp: TagReadWrite_opened_def)
    qed
  next
    case 2
    then have r: "TagReadWrite_startStep os s net = (s', net')" "\<not> trw_stepStarted s" "trw_working os s net"
      using run assms by (simp_all add: TagReadWrite_loop_def TagReadWrite_tagOps_def)
    then show ?thesis
      using trw_startStep_working [OF r(3,2,1)] by simp
  next
    case 3
    with run have "sketch.more s' = sketch.more s"
      by (cases "sk_phase s") (auto simp: TagReadWrite_loop_def dest: Sketch_more)
    with trw_more show ?thesis
      by blast
  qed
qed

lemma TagReadWrite_reach_good:
  assumes "socket_contract os" and "Session_inv ses" and "ses_openable ses" and "\<not> net_fault net"
    and "em_inv msg" and "\<not> em_busy msg" and "tag_inv t" and "\<not> tag_waiting t"
    and start: "Sketch_setup os eth (TagReadWrite_new phy c ses t msg) net = (s0, net0)"
    and reach: "sketch_reach (TagReadWrite_loop os eth junk) s0 net0 s1 net1"
  shows "sketch_good (trw_idle os) (trw_working os) s1 net1"
proof -
  have "sketch_good (trw_idle os) (trw_working os) s0 net0"
    by (rule Sketch_setup_good [OF start])
      (use assms(1-8) trw.J_cong in \<open>auto simp: TagReadWrite_new_def trw_idle_def\<close>)
  then show ?thesis
    using reach by (rule trw.reach_good)
qed

text \<open>
  C21. What \<open>TagReadWrite\<close> does on the wire and prints, in the order of its steps, whatever the
  devices answer. However the world behaves, a turn of \<open>loop()\<close> prints nothing, or it is a turn of the
  tag phase in step \<open>i\<close> whose request (for step 1 of a DINT the write of 2026) is the last thing sent
  and whose last packet received is a well-formed reply to it with general status 0; it prints one
  line, \<open>trw_line\<close>, and goes on to step \<open>i + 1\<close>, after the fifth to closing the session. With a value of
  four bytes or more that line is a function of the reply alone, \<open>trw_answer\<close>. With a shorter one (a
  SINT or INT of that name, a reply without a value) it is what the code makes of it: the number is
  completed with the bytes the tag's buffer held before, and in place of the string the array is
  printed that the sketch has not initialised. No line is left open.
\<close>

theorem TagReadWrite_prints_answers:
  assumes "socket_contract os" and "Session_inv ses" and "ses_openable ses" and "\<not> net_fault net"
    and "em_inv msg" and "\<not> em_busy msg" and "tag_inv t" and "\<not> tag_waiting t" and junk: "length junk = 128"
    and start: "Sketch_setup os eth (TagReadWrite_new phy c ses t msg) net = (s0, net0)"
    and reach: "sketch_reach (TagReadWrite_loop os eth junk) s0 net0 s1 net1"
    and run: "TagReadWrite_loop os eth junk s1 net1 = (s2, net2)"
  shows "sketch_spec (sk_phase s1) (sk_phase s2) \<and> \<not> net_fault net2 \<and>
    (trw_out s2 = trw_out s1 \<or>
     sk_phase s1 = SkWork \<and> Session_registered (sk_session s1) \<and>
     (\<exists>sent rcvd ctx p svc d i req. i = trw_step s1 \<and> i < 5 \<and>
        req = trw_request i (ses_handle (sk_session s1)) ctx (trw_tag s1) \<and>
        (i = 1 \<and> tag_dataType (trw_tag s1) = 0xC4 \<longrightarrow>
           req = rr_request (ses_handle (sk_session s1)) ctx 0x4D (symbolic_segment (chars ''TestDint''))
             (leU16 1 @ leU16 0xC4 @ leU32 2026)) \<and>
        net_sent net2 (sk_conn s1) = sent @ req \<and>
        net_rcvd net2 (sk_conn s1) = rcvd @ p \<and> packet p \<and> rr_parse ctx p = Some (svc, 0, d) \<and>
        trw_out s2 = trw_out s1 @ [trw_line junk i (tag_data (trw_tag s1)) d] \<and>
        (i = 1 \<or> 6 \<le> length d \<longrightarrow> trw_out s2 = trw_out s1 @ [trw_answer i d]) \<and>
        trw_step s2 = i + 1 \<and>
        sk_phase s2 = (if i + 1 < 5 then SkWork else SkCloseSession)))"
proof -
  note G = TagReadWrite_reach_good [OF assms(1-8) start reach]
  from trw.loop_good [OF G run] have spec: "sketch_spec (sk_phase s1) (sk_phase s2)" "\<not> net_fault net2"
    by (simp_all add: sketch_good_def sketch_inv_def)
  show ?thesis
  proof (cases "sk_phase s1 = SkWork \<and> trw_stepStarted s1")
    case False
    then have "trw_out s2 = trw_out s1"
      using TagReadWrite_silent [OF False _ run] G by (simp add: sketch_good_def)
    with spec show ?thesis
      by blast
  next
    case True
    then have ph: "sk_phase s1 = SkWork" and u: "trw_stepStarted s1" by simp_all
    have W: "trw_working os s1 net1" and R: "Session_registered (sk_session s1)"
      using G ph by (simp_all add: sketch_good_def sketch_inv_def sketch_phase_def Session_registered_def)
    have i: "trw_step s1 < 5" "tag_inv (trw_tag s1)"
      using W by (simp_all add: trw_working_def)
    have q: "TagReadWrite_tagOps os junk s1 net1 = (s2, net2)"
      using run ph by (simp add: TagReadWrite_loop_def)
    from W u ph q show ?thesis
    proof (cases rule: TagReadWrite_tagOps_spec)
      case (wait t' msg')
      then have "trw_out s2 = trw_out s1"
        by simp
      with spec show ?thesis
        by blast
    next
      case (fail t' msg' now)
      then have "trw_out s2 = trw_out s1"
        by simp
      with spec show ?thesis
        by blast
    next
      case (answer t' msg' osent ircvd svc d p)
      have ts: "tag_state (trw_tag s1) = (if trw_step s1 = 1 then TagWriting else TagReading)"
        using answer(6) by (simp add: trw_asking_def)
      have t': "tag_inv t'"
        using answer(2) by (simp add: answer(1) trw_idle_def TagReadWrite_finishStep_def Let_def split: if_splits)
      have s2: "trw_out s2 = trw_out s1 @ TagReadWrite_printStep junk (trw_step s1) t'" "trw_step s2 = trw_step s1 + 1"
        "sk_phase s2 = (if trw_step s1 + 1 < 5 then SkWork else SkCloseSession)"
        using ph by (simp_all add: answer(1) TagReadWrite_finishStep_def Let_def)
      have dl: "trw_step s1 \<noteq> 1 \<longrightarrow> tag_dataLen (trw_tag s1) = 0"
        using answer(6) by (simp add: trw_asking_def)
      have line: "trw_out s2 = trw_out s1 @ [trw_line junk (trw_step s1) (tag_data (trw_tag s1)) d]"
        using trw_print_line [OF junk t' i(2,1) ts dl answer(11-14)] s2(1) by simp
      then have full: "trw_step s1 = 1 \<or> 6 \<le> length d \<longrightarrow> trw_out s2 = trw_out s1 @ [trw_answer (trw_step s1) d]"
        by (simp add: trw_line_def)
      have w: "trw_step s1 = 1 \<and> tag_dataType (trw_tag s1) = 0xC4 \<longrightarrow>
          trw_request (trw_step s1) (ses_handle (sk_session s1)) (em_sentContext (trw_msg s1)) (trw_tag s1) =
          rr_request (ses_handle (sk_session s1)) (em_sentContext (trw_msg s1)) 0x4D (symbolic_segment (chars ''TestDint''))
             (leU16 1 @ leU16 0xC4 @ leU32 2026)"
        using trw_request_dint [OF i(2)] by simp
      from spec ph R i(1) w answer(7-10) line full s2(2,3) show ?thesis
        by blast
    qed
  qed
qed

text \<open>
  Each step ends. However the world behaved, a turn that finds the tag phase between two steps
  starts the next one, with a deadline of \<open>TAG_TIMEOUT_MS\<close>, and a turn that finds the exchange
  failed or its deadline passed gives up; the one exception is the write of a tag of a type that cannot be
  written (\<open>TagReadWrite_write_stuck\<close>).
\<close>

theorem TagReadWrite_steps_end:
  assumes "socket_contract os" and "Session_inv ses" and "ses_openable ses" and "\<not> net_fault net"
    and "em_inv msg" and "\<not> em_busy msg" and "tag_inv t" and "\<not> tag_waiting t"
    and start: "Sketch_setup os eth (TagReadWrite_new phy c ses t msg) net = (s0, net0)"
    and reach: "sketch_reach (TagReadWrite_loop os eth junk) s0 net0 s1 net1"
    and run: "TagReadWrite_loop os eth junk s1 net1 = (s2, net2)" and ph: "sk_phase s1 = SkWork"
    and m: "millis os net1 = (now, net3)"
  shows "if trw_stepStarted s1
    then tag_state (trw_tag s1) = TagFailed \<or> expired now (em_deadline (trw_msg s1)) \<longrightarrow> sk_phase s2 = SkRetryWait
    else trw_stepStarted s2 \<and> em_busy (trw_msg s2) \<and> em_deadline (trw_msg s2) = now + TAG_TIMEOUT_MS \<or>
      trw_step s1 = 1 \<and> trw_unwritable (trw_tag s1)"
proof -
  have W: "trw_working os s1 net1"
    using TagReadWrite_reach_good [OF assms(1-8) start reach] ph by (simp add: sketch_good_def)
  have q: "TagReadWrite_tagOps os junk s1 net1 = (s2, net2)"
    using run ph by (simp add: TagReadWrite_loop_def)
  show ?thesis
  proof (cases "trw_stepStarted s1")
    case False
    then have r: "TagReadWrite_startStep os s1 net1 = (s2, net2)"
      using q by (simp add: TagReadWrite_tagOps_def)
    have W': "em_inv (trw_msg s1)" "tag_inv (trw_tag s1)" "\<not> em_busy (trw_msg s1)" "\<not> tag_waiting (trw_tag s1)"
      "TcpConnection_connected (sk_conn s1) net1" "trw_step s1 < 5"
      using W False by (simp_all add: trw_working_def)
    from W' r show ?thesis
    proof (cases rule: TagReadWrite_startStep_spec)
      case (started t' msg' now')
      with m False show ?thesis
        by (simp add: em_started_def em_busy_def)
    next
      case refused
      with False show ?thesis by simp
    qed
  next
    case True
    have W': "em_inv (trw_msg s1)" "tag_state (trw_tag s1) = TagFailed \<and> \<not> em_busy (trw_msg s1) \<or> trw_asking s1 net1"
      using W True by (simp_all add: trw_working_def)
    have "\<exists>st t' msg' n. Tag_poll os (trw_tag s1) (trw_msg s1) net1 = (st, t', msg', n) \<and> (st = Timeout \<or> st = Error)"
      if e: "tag_state (trw_tag s1) = TagFailed \<or> expired now (em_deadline (trw_msg s1))"
    proof (cases "tag_state (trw_tag s1) = TagFailed")
      case True
      then show ?thesis by (simp add: Tag_poll_def)
    next
      case False
      then have b: "em_busy (trw_msg s1)" "tag_waiting (trw_tag s1)" "expired now (em_deadline (trw_msg s1))"
        using W'(2) e by (auto simp: trw_asking_def tag_waiting_def split: if_splits)
      obtain st0 msg' n where p: "ExplicitMessage_poll os (trw_msg s1) net1 = (st0, msg', n)"
        by (metis prod_cases3)
      have "st0 = Timeout"
        using ExplicitMessage_poll_spec [OF assms(1) W'(1) b(1) p, of "[]" "[]"] b(3) m by simp
      with p show ?thesis
        by (simp add: Tag_poll_finish [OF b(2)] tag_finish_def)
    qed
    with True q show ?thesis
      by (auto simp: TagReadWrite_tagOps_def Let_def dest!: Sketch_retry_phase)
  qed
qed

text \<open>
  C40. A step that cannot start is tried for ever: when the first read left a data type that cannot be
  written (none, a STRING, whose length word would then be 2026, or any type the library
  does not know), \<open>write()\<close> refuses with \<open>NotReady\<close> or \<open>InvalidArg\<close>, which \<open>startStep()\<close> only
  prints. The sketch stays in its tag phase, in step 1, sending and receiving nothing, whatever
  the world does and however much time passes.
\<close>

theorem TagReadWrite_write_stuck:
  assumes I: "tag_inv (trw_tag s)" "\<not> tag_waiting (trw_tag s)" "trw_unwritable (trw_tag s)"
    and "sk_phase s = SkWork" and "trw_step s = 1" and "\<not> trw_stepStarted s"
    and reach: "sketch_reach (TagReadWrite_loop os eth junk) s net s' net'"
  shows "sk_phase s' = SkWork \<and> trw_step s' = 1 \<and> \<not> trw_stepStarted s' \<and> trw_out s' = trw_out s \<and>
    net_sent net' = net_sent net \<and> net_rcvd net' = net_rcvd net"
proof -
  have "sk_phase s' = SkWork \<and> trw_step s' = 1 \<and> \<not> trw_stepStarted s' \<and> trw_out s' = trw_out s \<and>
    net_sent net' = net_sent net \<and> net_rcvd net' = net_rcvd net \<and>
    tag_inv (trw_tag s') \<and> trw_unwritable (trw_tag s')"
    using reach
  proof (induction rule: sketch_reach.induct)
    case start
    with assms show ?case by simp
  next
    case (turn s1 n1 s2 n2)
    let ?t = "Tag_setInt32 0 2026 (trw_tag s1)"
    have "TagReadWrite_startStep os s1 n1 = (s2, n2)"
      using turn by (simp add: TagReadWrite_loop_def TagReadWrite_tagOps_def)
    then have "s2 = s1\<lparr>trw_tag := ?t, trw_stepStarted := False\<rparr>" "n2 = n1"
      using turn by (auto simp: TagReadWrite_startStep_def Tag_write_def Tag_startWrite_def trw_unwritable_def
          split: if_splits)
    with turn show ?case
      by (simp add: trw_setInt32_inv trw_unwritable_again)
  qed simp
  then show ?thesis
    by blast
qed

subsection \<open>An example: the first read\<close>

abbreviation demo_trw :: tag_sketch where
  "demo_trw \<equiv> TagReadWrite_new 0 0 demo_session demo_tag demo_message"

abbreviation demo_trw_loop :: "tag_sketch \<Rightarrow> loopback net \<Rightarrow> tag_sketch \<times> loopback net" where
  "demo_trw_loop \<equiv> TagReadWrite_loop loopback_os demo_eth (replicate 128 0)"

lemma demo_trw_facts:
  "ses_openable demo_session" "\<not> em_busy demo_message" "\<not> tag_waiting demo_tag" "tag_dataType demo_tag = 0"
  by (simp_all add: ses_openable_def demo_session_def Session_new_def demo_message_def ExplicitMessage_new_def
      em_busy_def demo_tag_def Tag_new_def tag_waiting_def)

lemma demo_trw_starts:
  obtains s0 s1 and net1 :: "loopback net" where
    "Sketch_setup loopback_os demo_eth demo_trw (loopback_net 0 []) = (s0, loopback_net 0 [])"
    "sketch_reach demo_trw_loop s0 (loopback_net 0 []) s1 net1" "sk_phase s1 = SkWork" "sk_conn s1 = 0"
    "trw_step s1 = 0" "\<not> trw_stepStarted s1" "trw_out s1 = []" "trw_tag s1 = demo_tag" "trw_msg s1 = demo_message"
    "conn_up (Some 0) net1"
proof -
  obtain s0 s2 ses and net2 net3 :: "loopback net" where d:
    "Sketch_setup loopback_os demo_eth demo_trw (loopback_net 0 []) = (s0, loopback_net 0 [])"
    "sketch_reach demo_trw_loop s0 (loopback_net 0 []) s2 net2"
    "sk_phase s2 = SkOpenSession" "sk_conn s2 = 0" "sketch.more s2 = sketch.more demo_trw"
    "Session_poll loopback_os (sk_session s2) net2 = (Ok, ses, net3)" "conn_up (Some 0) net3"
    by (rule demo_sketch [OF trw.sketch_client_axioms [where junk = "replicate 128 0"], of demo_trw]) (simp_all add: TagReadWrite_new_def)
  obtain s3 net4 where r: "demo_trw_loop s2 net2 = (s3, net4)"
    by fastforce
  have s3: "sk_phase s3 = SkWork" "sk_conn s3 = 0" "trw_step s3 = 0" "\<not> trw_stepStarted s3" "net4 = net3"
    "trw_out s3 = []" "trw_tag s3 = demo_tag" "trw_msg s3 = demo_message"
    using r d(3,4,6) trw_more [OF d(5)]
    by (auto simp: TagReadWrite_loop_def Sketch_openSession_def TagReadWrite_opened_def TagReadWrite_new_def Let_def)
  show thesis
    by (rule that [OF d(1) sketch_reach.turn [OF d(2) r]]) (use s3 d(7) in simp_all)
qed

theorem TagReadWrite_steps_end_witness:
  "\<exists>s0 s1 s2 net1 net2.
    Sketch_setup loopback_os demo_eth demo_trw (loopback_net 0 []) = (s0, loopback_net 0 []) \<and>
    sketch_reach demo_trw_loop s0 (loopback_net 0 []) s1 net1 \<and> demo_trw_loop s1 net1 = (s2, net2) \<and>
    sk_phase s1 = SkWork \<and> trw_step s1 = 0 \<and> trw_stepStarted s2 \<and> em_busy (trw_msg s2)"
proof -
  obtain s0 s1 and net1 :: "loopback net" where d:
    "Sketch_setup loopback_os demo_eth demo_trw (loopback_net 0 []) = (s0, loopback_net 0 [])"
    "sketch_reach demo_trw_loop s0 (loopback_net 0 []) s1 net1" "sk_phase s1 = SkWork" "sk_conn s1 = 0"
    "trw_step s1 = 0" "\<not> trw_stepStarted s1"
    by (rule demo_trw_starts)
  obtain s2 net2 where r: "demo_trw_loop s1 net1 = (s2, net2)"
    by fastforce
  from TagReadWrite_steps_end [OF loopback_socket_contract demo_session_inv demo_trw_facts(1) _ demo_message_inv
      demo_trw_facts(2) demo_tag_inv demo_trw_facts(3) d(1,2) r d(3) loopback_millis] d r
  show ?thesis
    by auto
qed

theorem TagReadWrite_prints_answers_witness:
  "\<exists>s0 s1 s2 net1 net2.
    Sketch_setup loopback_os demo_eth demo_trw (loopback_net 0 []) = (s0, loopback_net 0 []) \<and>
    sketch_reach demo_trw_loop s0 (loopback_net 0 []) s1 net1 \<and> demo_trw_loop s1 net1 = (s2, net2) \<and>
    length (trw_out s2) = 1 \<and> trw_step s2 = 1 \<and> sk_phase s2 = SkWork \<and> \<not> net_fault net2"
proof -
  obtain s0 s1 and net1 :: "loopback net" where d:
    "Sketch_setup loopback_os demo_eth demo_trw (loopback_net 0 []) = (s0, loopback_net 0 [])"
    "sketch_reach demo_trw_loop s0 (loopback_net 0 []) s1 net1" "sk_phase s1 = SkWork" "sk_conn s1 = 0"
    "trw_step s1 = 0" "\<not> trw_stepStarted s1" "trw_out s1 = []" "trw_tag s1 = demo_tag" "trw_msg s1 = demo_message"
    "conn_up (Some 0) net1"
    by (rule demo_trw_starts)
  obtain s2 net2 where r: "demo_trw_loop s1 net1 = (s2, net2)"
    by fastforce
  have up: "TcpConnection_connected (sk_conn s1) net1"
    using d(4,10) by (simp add: conn_up_def TcpConnection_connected_def)
  have st: "TagReadWrite_startStep loopback_os s1 net1 = (s2, net2)"
    using r d(3,6) by (simp add: TagReadWrite_loop_def TagReadWrite_tagOps_def)
  obtain t msg now where g: "s2 = s1\<lparr>trw_tag := t, trw_msg := msg, trw_stepStarted := True\<rparr>"
    "millis loopback_os net1 = (now, net2)" "tag_state t = TagReading"
    "em_started 0 (now + 5000) (trw_request 0 (ses_handle (sk_session s1)) (em_context demo_message) t) demo_message msg"
  proof (rule TagReadWrite_startStep_spec [OF _ _ _ _ up _ st])
    show "em_inv (trw_msg s1)" "tag_inv (trw_tag s1)" "\<not> em_busy (trw_msg s1)" "\<not> tag_waiting (trw_tag s1)"
      "trw_step s1 < 5"
      using d(5,8,9) demo_trw_facts demo_message_inv demo_tag_inv by simp_all
  next
    fix t msg now
    assume "s2 = s1\<lparr>trw_tag := t, trw_msg := msg, trw_stepStarted := True\<rparr>" "millis loopback_os net1 = (now, net2)"
      "tag_state t = (if trw_step s1 = 1 then TagWriting else TagReading)"
      "em_started (sk_conn s1) (now + TAG_TIMEOUT_MS) (trw_request (trw_step s1) (ses_handle (sk_session s1))
         (em_context (trw_msg s1)) t) (trw_msg s1) msg"
    with d(4,5,9) show thesis
      by (intro that [where t = t and msg = msg and now = now]) (simp_all only: TAG_TIMEOUT_MS_def if_False
          zero_neq_one)
  qed (use d(5) in simp)
  have n2: "net2 = net1"
    using g(2) by simp
  let ?w = "\<lparr> lb_now = now, lb_random = 7, lb_queue = demo_result \<rparr>"
  let ?n = "net2\<lparr>net_os := ?w\<rparr>"
  have reach: "sketch_reach demo_trw_loop s0 (loopback_net 0 []) s2 ?n"
    using d(2) r by (intro sketch_reach.world) (rule sketch_reach.turn)
  obtain s3 net3 where r3: "demo_trw_loop s2 ?n = (s3, net3)"
    by fastforce
  have P: "\<not> net_fault net3"
    using TagReadWrite_prints_answers [OF loopback_socket_contract demo_session_inv demo_trw_facts(1) _ demo_message_inv
      demo_trw_facts(2) demo_tag_inv demo_trw_facts(3) _ d(1) reach r3] by simp
  have s2: "sk_phase s2 = SkWork" "trw_stepStarted s2" "trw_step s2 = 0" "trw_tag s2 = t" "trw_msg s2 = msg" "trw_out s2 = []"
    using d(3,5,7) by (simp_all add: g(1))
  have w: "tag_waiting t"
    using g(3) by (simp add: tag_waiting_def)
  obtain st0 msg' n' where p: "ExplicitMessage_poll loopback_os msg ?n = (st0, msg', n')"
    by (metis prod_cases3)
  have b: "em_inv msg" "em_busy msg" "em_conn msg = Some 0" "em_deadline msg = now + 5000" "em_rxLen msg = 0"
    "em_sentContext msg = 1"
    using g(4) by (simp_all add: em_started_def em_busy_def demo_message_def ExplicitMessage_new_def)
  have "\<not> expired now (now + 5000)"
    using expired_within_half [of 5000 0 now] by simp
  then have ok: "st0 = Ok \<and> em_resultCode msg' = 0"
    using ExplicitMessage_poll_live [OF loopback_stream_contract b(1,2) _ _ demo_result_facts(2) _ _ _ p, of "[]"]
      b d(10) demo_result_facts n2
    by (simp add: conn_queue_def conn_up_def)
  then obtain t' where "Tag_poll loopback_os t msg ?n = (Ok, t', msg', n')"
    using p by (auto simp: Tag_poll_finish [OF w] tag_finish_def Let_def)
  then have "length (trw_out s3) = 1 \<and> trw_step s3 = 1 \<and> sk_phase s3 = SkWork"
    using r3 s2 by (auto simp: TagReadWrite_loop_def TagReadWrite_tagOps_def TagReadWrite_finishStep_def
        TagReadWrite_printStep_def Let_def)
  with d(1) reach r3 P show ?thesis
    by blast
qed

theorem TagReadWrite_write_stuck_witness:
  "\<exists>s' net'. demo_trw_loop (demo_trw\<lparr>sk_phase := SkWork, trw_step := 1\<rparr>)
      (loopback_net 60000 []) = (s', net') \<and> sk_phase s' = SkWork \<and> trw_step s' = 1 \<and> net_sent net' 0 = []"
proof -
  let ?s = "demo_trw\<lparr>sk_phase := SkWork, trw_step := 1\<rparr>"
  obtain s' net' where r: "demo_trw_loop ?s (loopback_net 60000 []) = (s', net')"
    by fastforce
  have "sketch_reach demo_trw_loop ?s (loopback_net 60000 []) s' net'"
    using sketch_reach.start r by (rule sketch_reach.turn)
  moreover have "trw_unwritable demo_tag"
    using demo_trw_facts(4) by (simp add: trw_unwritable_def)
  ultimately show ?thesis
    using TagReadWrite_write_stuck [of ?s loopback_os demo_eth "replicate 128 0" "loopback_net 60000 []" s' net'] r
      demo_tag_inv demo_trw_facts(3)
    by (simp add: TagReadWrite_new_def)
qed

end
