(* ===== verification/ConnectedTagReadWrite.thy ===== *)
theory ConnectedTagReadWrite
  imports Sketch ConnectionProperties
begin

text \<open>
  The sketch \<open>src/examples/ConnectedTagReadWrite/ConnectedTagReadWrite.ino\<close>: while the session is
  open it opens a CIP connection, reads, writes and reads a tag over it, and closes it. The record's
  \<open>sk_conn\<close> is the sketch's \<open>tcp\<close>. What it prints of the results is the list \<open>cts_out\<close>.
\<close>

definition CONN_TIMEOUT_MS :: u32 where "CONN_TIMEOUT_MS = 5000"

datatype conn_line =
    ConnOpened u32 u32
  | ConnValue int
  | ConnReadFailed byte
  | ConnWrote byte
  | ConnClosed

record connected_sketch = sketch +
  cts_conn :: cip_connection
  cts_step :: nat
  cts_stepStarted :: bool
  cts_out :: "conn_line list"

definition ConnectedTagReadWrite_new ::
  "int \<Rightarrow> conn_ref \<Rightarrow> session \<Rightarrow> cip_connection \<Rightarrow> connected_sketch" where
  "ConnectedTagReadWrite_new ETH_PHY_W5500 tcp ses conn =
     \<lparr> sk_eth = Client_new ETH_PHY_W5500, sk_cfg = Config_default ETH_PHY_W5500, sk_conn = tcp,
       sk_session = ses, sk_phase = SkWaitEthernet, sk_phaseStarted = 0,
       cts_conn = conn, cts_step = 0, cts_stepStarted = False, cts_out = [] \<rparr>"

text \<open>Of the uninitialised arrays \<open>path\<close> and \<open>data\<close> only the bytes written are passed on.\<close>

definition ConnectedTagReadWrite_startStep ::
  "'w os \<Rightarrow> connected_sketch \<Rightarrow> 'w net \<Rightarrow> connected_sketch \<times> 'w net" where
  "ConnectedTagReadWrite_startStep os s net =
     (let tcp = sk_conn s; h = ses_handle (sk_session s); conn = cts_conn s; nm = chars ''TestDint'';
          (path, pl) = appendSymbolic 0 nm (replicate 64 0);
          rd = putU16 0 1 (replicate 16 0);
          wr = putU32 4 2026 (putU16 2 0x00C4 (putU16 0 1 (replicate 16 0)))
      in case (if cts_step s = 0 then Connection_open os tcp h (Some nm) CONN_TIMEOUT_MS conn net
               else if cts_step s = 1
               then Connection_send os tcp h 0x4C (Some path) (of_nat pl) (Some rd) 2 CONN_TIMEOUT_MS conn net
               else if cts_step s = 2
               then Connection_send os tcp h 0x4D (Some path) (of_nat pl) (Some wr) 8 CONN_TIMEOUT_MS conn net
               else if cts_step s = 3
               then Connection_send os tcp h 0x4C (Some path) (of_nat pl) (Some rd) 2 CONN_TIMEOUT_MS conn net
               else if cts_step s = 4 then Connection_close os tcp h CONN_TIMEOUT_MS conn net
               else (Error, conn, net))
         of (st, conn', net1) \<Rightarrow> (s\<lparr>cts_conn := conn', cts_stepStarted := (st = Pending)\<rparr>, net1))"

definition ConnectedTagReadWrite_printStep :: "nat \<Rightarrow> cip_connection \<Rightarrow> conn_line list" where
  "ConnectedTagReadWrite_printStep step conn =
     (if step = 0 then [ConnOpened (cn_otConnId conn) (cn_toConnId conn)]
      else if step = 1 \<or> step = 3 then
        (if cn_resultCode conn = 0 \<and> 6 \<le> cn_dataLen conn
         then [ConnValue (sint (getU32 (drop 2 (Connection_data conn))))]
         else [ConnReadFailed (cn_resultCode conn)])
      else if step = 2 then [ConnWrote (cn_resultCode conn)]
      else if step = 4 then [ConnClosed]
      else [])"

definition ConnectedTagReadWrite_finishStep :: "connected_sketch \<Rightarrow> connected_sketch" where
  "ConnectedTagReadWrite_finishStep s =
     (let s1 = s\<lparr>cts_out := cts_out s @ ConnectedTagReadWrite_printStep (cts_step s) (cts_conn s),
                 cts_step := cts_step s + 1, cts_stepStarted := False\<rparr>
      in if 4 < cts_step s1
         then s1\<lparr>sk_session := snd (Session_close (sk_session s1)), sk_phase := SkCloseSession\<rparr>
         else s1)"

definition ConnectedTagReadWrite_opened :: "connected_sketch \<Rightarrow> 'w net \<Rightarrow> connected_sketch \<times> 'w net" where
  "ConnectedTagReadWrite_opened s net = (s\<lparr>cts_step := 0, cts_stepStarted := False\<rparr>, net)"

definition ConnectedTagReadWrite_connOps ::
  "'w os \<Rightarrow> connected_sketch \<Rightarrow> 'w net \<Rightarrow> connected_sketch \<times> 'w net" where
  "ConnectedTagReadWrite_connOps os s net =
     (if \<not> cts_stepStarted s then ConnectedTagReadWrite_startStep os s net
      else
        (case Connection_poll os (cts_conn s) net of (st, conn, net1) \<Rightarrow>
           (let s1 = s\<lparr>cts_conn := conn\<rparr> in
            if st = Ok then (ConnectedTagReadWrite_finishStep s1, net1)
            else if st = Timeout \<or> st = Error then Sketch_retry os s1 net1
            else (s1, net1))))"

definition ConnectedTagReadWrite_loop ::
  "'w os \<Rightarrow> 'w eth \<Rightarrow> connected_sketch \<Rightarrow> 'w net \<Rightarrow> connected_sketch \<times> 'w net" where
  "ConnectedTagReadWrite_loop os eth s net =
     (case sk_phase s of
        SkWaitEthernet \<Rightarrow> Sketch_waitEthernet os eth s net
      | SkConnect \<Rightarrow> Sketch_connect os s net
      | SkOpenSession \<Rightarrow> Sketch_openSession os ConnectedTagReadWrite_opened s net
      | SkWork \<Rightarrow> ConnectedTagReadWrite_connOps os s net
      | SkCloseSession \<Rightarrow> Sketch_closeSession os s net
      | SkRetryWait \<Rightarrow> Sketch_retryWait os s net)"

subsection \<open>The exchange of a step\<close>

text \<open>Its request, and the line its reply is worth.\<close>

definition cts_name :: cstring where
  "cts_name = chars ''TestDint''"

definition cts_request :: "nat \<Rightarrow> u32 \<Rightarrow> cip_connection \<Rightarrow> byte list" where
  "cts_request step h m =
     (if step = 0 then rr_request h (em_sentContext (cn_fwd m)) 0x54 cn_reqPath (forward_open_data (cn_otConnId m) cts_name)
      else if step = 4 then rr_request h (em_sentContext (cn_fwd m)) 0x4E cn_reqPath (forward_close_data cts_name)
      else if step = 2 then ud_request h (cn_sentContext m) (cn_otConnId m) (cn_sentSequence m) 0x4D
        (symbolic_segment cts_name) (leU16 1 @ leU16 0xC4 @ leU32 2026)
      else ud_request h (cn_sentContext m) (cn_otConnId m) (cn_sentSequence m) 0x4C
        (symbolic_segment cts_name) (leU16 1))"

definition cts_answer :: "nat \<Rightarrow> cip_connection \<Rightarrow> byte list \<Rightarrow> conn_line option" where
  "cts_answer step m p =
     (if step = 0 then
        (case rr_parse (em_sentContext (cn_fwd m)) p of
           Some (svc, code, d) \<Rightarrow>
             if code = 0 \<and> 12 \<le> length d \<and> getU32 d = cn_otConnId m \<and> getU32 d \<noteq> 0 \<and> getU32 (drop 4 d) \<noteq> 0
             then Some (ConnOpened (cn_otConnId m) (getU32 (drop 4 d))) else None
         | None \<Rightarrow> None)
      else if step = 4 then
        (case rr_parse (em_sentContext (cn_fwd m)) p of Some r \<Rightarrow> Some ConnClosed | None \<Rightarrow> None)
      else
        (case ud_parse (cn_sentContext m) (cn_toConnId m) (cn_sentSequence m) p of
           Some (svc, code, d) \<Rightarrow>
             Some (if step = 2 then ConnWrote code
                   else if code = 0 \<and> 6 \<le> length d then ConnValue (sint (getU32 (drop 2 d)))
                   else ConnReadFailed code)
         | None \<Rightarrow> None))"

text \<open>The bytes an exchange in flight has put on the wire and taken from it, and those it will send.\<close>

definition cts_tx :: "cip_connection \<Rightarrow> byte list" where
  "cts_tx m = (if cn_state m = CnSending then take (cn_txLen m) (cn_tx m)
     else take (em_txLen (cn_fwd m)) (em_tx (cn_fwd m)))"

definition cts_wire :: "byte list \<Rightarrow> byte list \<Rightarrow> cip_connection \<Rightarrow> 'w net \<Rightarrow> bool" where
  "cts_wire osent ircvd m net \<longleftrightarrow>
     (if cn_state m = CnSending then cn_exchange osent ircvd m net else em_exchange osent ircvd (cn_fwd m) net)"

definition cts_busy :: "nat \<Rightarrow> CnState" where
  "cts_busy step = (if step = 0 then CnOpening else if step = 4 then CnClosing else CnSending)"

definition cts_asking :: "nat \<Rightarrow> conn_ref \<Rightarrow> u32 \<Rightarrow> cip_connection \<Rightarrow> 'w net \<Rightarrow> bool" where
  "cts_asking step c h m net \<longleftrightarrow>
     cn_state m = cts_busy step \<and> cn_tagName m = name_slot cts_name \<and>
     (\<exists>osent ircvd. cts_wire osent ircvd m net) \<and> cts_tx m = cts_request step h m"

lemma cts_name_facts: "length cts_name = 8" "0 \<notin> set cts_name" "length (symbolic_segment cts_name) = 10"
  by (simp_all add: cts_name_def chars_def length_symbolic_segment)

lemma cts_path:
  "appendSymbolic 0 cts_name (replicate 64 0) = (poke 0 (symbolic_segment cts_name) (replicate 64 0), 10)"
  "arg_bytes (Some (poke 0 (symbolic_segment cts_name) (replicate 64 0))) 10 = symbolic_segment cts_name"
  using cts_name_facts(3) by (simp_all add: appendSymbolic_segment arg_bytes_def take_poke_extend)

lemma cts_send_starts:
  assumes I: "cn_inv m" and "cn_state m = CnOpen" and d: "unat n \<le> length d" "unat n \<le> 16"
    and run: "Connection_send os c h svc (Some (poke 0 (symbolic_segment cts_name) (replicate 64 0))) 10 (Some d) n
      CONN_TIMEOUT_MS m net = (st, m', net')"
  obtains now where "st = Pending" "millis os net = (now, net')"
    "cn_started c (now + CONN_TIMEOUT_MS) (ud_request h (cn_context m) (cn_otConnId m) (cn_sequence m) svc
       (symbolic_segment cts_name) (take (unat n) d)) m m'"
proof -
  let ?path = "poke 0 (symbolic_segment cts_name) (replicate 64 0)"
  have A: "em_args (Some ?path) 10 (Some d) n"
    using d cts_name_facts(3) by (simp add: em_args_def)
  show thesis
  proof (rule Connection_send_spec [OF I A run])
    fix now
    assume "st = Pending" "millis os net = (now, net')" "cn_started c (now + CONN_TIMEOUT_MS)
      (ud_request h (cn_context m) (cn_otConnId m) (cn_sequence m) svc (arg_bytes (Some ?path) 10)
        (arg_bytes (Some d) n)) m m'"
    moreover have "arg_bytes (Some d) n = take (unat n) d"
      by (simp add: arg_bytes_def)
    ultimately show thesis
      by (intro that [of now]) (simp_all only: cts_path(2))
  qed (use assms(2) d(2) in \<open>simp_all\<close>)
qed

lemma cts_sent_asking:
  assumes "cn_started c deadline (cts_request step h m') m m'" and "cts_busy step = CnSending"
    and "cn_tagName m = name_slot cts_name" and "em_awaits c (cn_fwd m)" and "cn_inv m"
  shows "cts_asking step c h m' net" and "cn_inv m'" and "cn_state m' = CnSending"
proof -
  have g: "cn_conn m' = Some c" "cn_state m' = CnSending" "cn_txSent m' = 0" "cn_rxLen m' = 0" "cn_inv m'"
    "cn_tagName m' = cn_tagName m"
    using assms(1) by (simp_all add: cn_started_def)
  have tx: "take (cn_txLen m') (cn_tx m') = cts_request step h m'"
    using assms(1) unfolding cn_started_def by blast
  have "cn_exchange (conn_out (cn_conn m') net) (conn_in (cn_conn m') net) m' net"
    using g(3,4) exchange_start [of "cn_conn m'" net "cn_tx m'" "cn_rx m'"] by simp
  then show "cts_asking step c h m' net"
    unfolding cts_asking_def cts_wire_def cts_tx_def using assms(2,3) g(2,6) tx by auto
  show "cn_inv m'" "cn_state m' = CnSending"
    using g by simp_all
qed

lemma cts_forwarded_asking:
  assumes "em_started c deadline (cts_request step h m) fwd (cn_fwd m)" and "cn_state m = cts_busy step"
    and "cts_busy step \<noteq> CnSending" and "cn_tagName m = name_slot cts_name"
  shows "cts_asking step c h m net"
proof -
  have g: "em_txSent (cn_fwd m) = 0" "em_rxLen (cn_fwd m) = 0"
    using assms(1) by (simp_all add: em_started_def)
  have tx: "take (em_txLen (cn_fwd m)) (em_tx (cn_fwd m)) = cts_request step h m"
    using assms(1) unfolding em_started_def by blast
  have "em_exchange (conn_out (em_conn (cn_fwd m)) net) (conn_in (em_conn (cn_fwd m)) net) (cn_fwd m) net"
    using g exchange_start [of "em_conn (cn_fwd m)" net "em_tx (cn_fwd m)" "em_rx (cn_fwd m)"] by simp
  then show ?thesis
    unfolding cts_asking_def cts_wire_def cts_tx_def using assms(2-4) tx by auto
qed

lemma cts_sends:
  assumes I: "cn_inv m" and A: "cn_awaits c m" and "cn_state m = CnOpen" and nm: "cn_tagName m = name_slot cts_name"
    and b: "cts_busy step = CnSending" and d: "unat n \<le> length d" "unat n \<le> 16"
    and rq: "\<And>m'. cts_request step h m' = ud_request h (cn_sentContext m') (cn_otConnId m') (cn_sentSequence m') svc
      (symbolic_segment cts_name) (take (unat n) d)"
    and run: "Connection_send os c h svc (Some (poke 0 (symbolic_segment cts_name) (replicate 64 0))) 10 (Some d) n
      CONN_TIMEOUT_MS m net = (st, m', net')"
  shows "st = Pending \<and> cn_inv m' \<and> cts_asking step c h m' net' \<and> only_os net net'"
proof (rule cts_send_starts [OF I assms(3) d run])
  fix now
  assume m: "st = Pending" "millis os net = (now, net')" and g: "cn_started c (now + CONN_TIMEOUT_MS)
    (ud_request h (cn_context m) (cn_otConnId m) (cn_sequence m) svc (symbolic_segment cts_name) (take (unat n) d)) m m'"
  have e: "cn_sentContext m' = cn_context m" "cn_otConnId m' = cn_otConnId m" "cn_sentSequence m' = cn_sequence m"
    using g by (simp_all add: cn_started_def)
  have g': "cn_started c (now + CONN_TIMEOUT_MS) (cts_request step h m') m m'"
    unfolding rq e by (rule g)
  have aw: "em_awaits c (cn_fwd m)"
    using A by (simp add: cn_awaits_def)
  show ?thesis
    using cts_sent_asking [OF g' b nm aw I] m millis_only_os [OF m(2)] by simp
qed

lemma ConnectedTagReadWrite_startStep_spec:
  assumes I: "cn_inv (cts_conn s)" and A: "cn_awaits (sk_conn s) (cts_conn s)" and st5: "cts_step s < 5"
    and up: "TcpConnection_connected (sk_conn s) net"
    and q: "if cts_step s = 0 then cn_state (cts_conn s) \<noteq> CnSending \<and> \<not> cn_forwarding (cts_conn s)
      else cn_state (cts_conn s) = CnOpen \<and> cn_tagName (cts_conn s) = name_slot cts_name"
    and run: "ConnectedTagReadWrite_startStep os s net = (s', net')"
  obtains m where "s' = s\<lparr>cts_conn := m, cts_stepStarted := True\<rparr>" "only_os net net'" "cn_inv m"
    "cn_awaits (sk_conn s) m" "cts_asking (cts_step s) (sk_conn s) (ses_handle (sk_session s)) m net'"
proof -
  define c h conn where "c = sk_conn s" and "h = ses_handle (sk_session s)" and "conn = cts_conn s"
  let ?path = "poke 0 (symbolic_segment cts_name) (replicate 64 0)"
  let ?rd = "putU16 0 1 (replicate 16 0) :: byte list"
  let ?wr = "putU32 4 2026 (putU16 2 0x00C4 (putU16 0 1 (replicate 16 0))) :: byte list"
  have rd: "take (unat (2 :: size_t)) ?rd = leU16 1" "take (unat (8 :: size_t)) ?wr = leU16 1 @ leU16 0xC4 @ leU32 2026"
    by (simp_all add: putU16_def putU32_def poke_def)
  note ret = that
  have goal: thesis
    if "s' = s\<lparr>cts_conn := m, cts_stepStarted := (st = Pending)\<rparr>" and "net' = net1"
      and "st = Pending \<and> cn_inv m \<and> cts_asking (cts_step s) c h m net1 \<and> only_os net net1" and "cn_awaits c m"
    for st m net1
    using that by (intro ret [of m]) (simp_all add: c_def h_def)
  have I': "cn_inv conn" and A': "cn_awaits c conn" and up': "TcpConnection_connected c net"
    using I A up by (simp_all add: c_def conn_def)
  consider "cts_step s = 0" | "cts_step s = 1 \<or> cts_step s = 3" | "cts_step s = 2" | "cts_step s = 4"
    using st5 by linarith
  then show thesis
  proof cases
    case 1
    obtain st m net1 where r: "Connection_open os c h (Some cts_name) CONN_TIMEOUT_MS conn net = (st, m, net1)"
      by (metis prod_cases3)
    have e: "s' = s\<lparr>cts_conn := m, cts_stepStarted := (st = Pending)\<rparr>" "net' = net1"
      using run r 1 by (simp_all add: ConnectedTagReadWrite_startStep_def Let_def c_def h_def conn_def cts_name_def
          split: prod.splits)
    have idle: "cn_state conn \<noteq> CnSending" "\<not> cn_forwarding conn"
      using q 1 by (simp_all add: conn_def)
    have "st = Pending \<and> cn_inv m \<and> cts_asking (cts_step s) c h m net1 \<and> only_os net net1"
    proof (rule Connection_open_spec [OF I' _ r], goal_cases)
      case (1 nm)
      then show ?case
        using cts_name_facts(2) by simp
    next
      case (4 nm r1)
      then have "TcpConnection_connected c net1 = TcpConnection_connected c net"
        by (auto simp: TcpConnection_connected_def dest: sys_net)
      with 4 up' show ?case
        by simp
    next
      case (5 nm r1 n1 now fwd)
      note o = only_os_trans [OF only_os_sys [OF 5(6)] millis_only_os [OF 5(7)]]
      have nm: "nm = cts_name"
        using 5(2) by simp
      have "cn_inv (cn_opening (cn_id r1) nm conn)"
        using I' idle(2) by (rule cn_opening_inv)
      moreover have f0: "em_inv fwd" "em_busy fwd" "em_sentContext fwd = em_context (cn_fwd conn)"
        using 5(9) by (simp_all add: em_started_def em_busy_def)
      moreover have "cn_state (cn_opening (cn_id r1) nm conn) \<noteq> CnSending"
        using idle(1) by (simp add: cn_opening_def)
      ultimately have "cn_inv m"
        using cn_inv_forward(1) [of "cn_opening (cn_id r1) nm conn" fwd CnOpening] 5(10) by simp
      moreover have f: "em_sentContext (cn_fwd m) = em_context (cn_fwd conn)" "cn_fwd m = fwd"
        using 5(10) f0 by simp_all
      moreover have "cts_asking (cts_step s) c h m net1"
      proof (rule cts_forwarded_asking)
        show "em_started c (now + CONN_TIMEOUT_MS) (cts_request (cts_step s) h m) (cn_fwd conn) (cn_fwd m)"
          using 5(9,10) \<open>cts_step s = 0\<close> nm f by (simp add: cts_request_def cn_opening_def)
      qed (use 5(10) \<open>cts_step s = 0\<close> nm in \<open>simp_all add: cts_busy_def cn_opening_def\<close>)
      ultimately show ?case
        using 5(1) o by simp
    qed (use idle cts_name_facts(1) in simp_all)
    with e Connection_open_awaits [OF r A'] goal show thesis
      by blast
  next
    case 2
    obtain st m net1 where r: "Connection_send os c h 0x4C (Some ?path) 10 (Some ?rd) 2 CONN_TIMEOUT_MS conn net =
        (st, m, net1)"
      by (metis prod_cases3)
    have e: "s' = s\<lparr>cts_conn := m, cts_stepStarted := (st = Pending)\<rparr>" "net' = net1"
      using run r 2 cts_path(1) by (auto simp: ConnectedTagReadWrite_startStep_def Let_def c_def h_def conn_def
          cts_name_def [symmetric])
    have "st = Pending \<and> cn_inv m \<and> cts_asking (cts_step s) c h m net1 \<and> only_os net net1"
      by (rule cts_sends [OF I' A' _ _ _ _ _ _ r])
        (use 2 q rd(1) in \<open>auto simp: conn_def cts_busy_def cts_request_def\<close>)
    with e Connection_send_awaits [OF r A'] goal show thesis
      by blast
  next
    case 3
    obtain st m net1 where r: "Connection_send os c h 0x4D (Some ?path) 10 (Some ?wr) 8 CONN_TIMEOUT_MS conn net =
        (st, m, net1)"
      by (metis prod_cases3)
    have e: "s' = s\<lparr>cts_conn := m, cts_stepStarted := (st = Pending)\<rparr>" "net' = net1"
      using run r 3 cts_path(1) by (auto simp: ConnectedTagReadWrite_startStep_def Let_def c_def h_def conn_def
          cts_name_def [symmetric])
    have "st = Pending \<and> cn_inv m \<and> cts_asking (cts_step s) c h m net1 \<and> only_os net net1"
      by (rule cts_sends [OF I' A' _ _ _ _ _ _ r])
        (use 3 q rd(2) in \<open>auto simp: conn_def cts_busy_def cts_request_def\<close>)
    with e Connection_send_awaits [OF r A'] goal show thesis
      by blast
  next
    case 4
    obtain st m net1 where r: "Connection_close os c h CONN_TIMEOUT_MS conn net = (st, m, net1)"
      by (metis prod_cases3)
    have e: "s' = s\<lparr>cts_conn := m, cts_stepStarted := (st = Pending)\<rparr>" "net' = net1"
      using run r 4 by (simp_all add: ConnectedTagReadWrite_startStep_def Let_def c_def h_def conn_def
          split: prod.splits)
    have op: "cn_state conn = CnOpen" "cn_tagName conn = name_slot cts_name" "c_string (cn_tagName conn) = cts_name"
      using q 4 c_string_slot [of cts_name] cts_name_facts by (simp_all add: conn_def)
    have "st = Pending \<and> cn_inv m \<and> cts_asking (cts_step s) c h m net1 \<and> only_os net net1"
    proof (rule Connection_close_spec [OF I' r], goal_cases)
      case 1
      with op up' show ?case by simp
    next
      case (2 now fwd)
      have f: "em_inv fwd" "em_busy fwd" "em_sentContext fwd = em_context (cn_fwd conn)"
        using 2(5) by (simp_all add: em_started_def em_busy_def)
      then have "cn_inv m" "em_sentContext (cn_fwd m) = em_context (cn_fwd conn)" "cn_fwd m = fwd"
        using 2(6) cn_inv_forward(1) [OF I' f(1), of CnClosing] op(1) by simp_all
      moreover have "cts_asking (cts_step s) c h m net1"
        by (rule cts_forwarded_asking [where deadline = "now + CONN_TIMEOUT_MS" and fwd = "cn_fwd conn"])
          (use 2(5,6) 4 op calculation in \<open>simp_all add: cts_request_def cts_busy_def\<close>)
      ultimately show ?case
        using 2(1) millis_only_os [OF 2(4)] by simp
    qed
    with e Connection_close_awaits [OF r A'] goal show thesis
      by blast
  qed
qed

subsection \<open>Polling a step\<close>

text \<open>The three ends of a poll of an exchange in flight.\<close>

lemma cts_poll_sending:
  assumes C: "socket_contract os" and I: "cn_inv m" and A: "cn_awaits c m" and S: "cts_busy step = CnSending"
    and step: "step \<in> {1, 2, 3}"
    and ask: "cts_asking step c h m net" and run: "Connection_poll os m net = (st, m', net')"
  obtains (wait) "st = Pending" "cts_asking step c h m' net'"
  | (fail) "st \<noteq> Pending" "st \<noteq> Ok" "cn_state m' = CnFailed"
  | (answer) osent p where "st = Ok" "cn_state m' = CnOpen" "cn_tagName m' = name_slot cts_name"
      "net_sent net' c = osent @ cts_request step h m" "\<exists>ircvd. net_rcvd net' c = ircvd @ p" "packet p"
      "\<exists>l. cts_answer step m p = Some l \<and> ConnectedTagReadWrite_printStep step m' = [l]"
proof -
  have st: "cn_state m = CnSending" and c: "cn_conn m = Some c" and nm: "cn_tagName m = name_slot cts_name"
    using ask A S by (simp_all add: cts_asking_def cn_awaits_def)
  obtain osent ircvd where x: "cn_exchange osent ircvd m net"
    using ask st by (auto simp: cts_asking_def cts_wire_def)
  have tx: "take (cn_txLen m) (cn_tx m) = cts_request step h m"
    using ask st by (simp add: cts_asking_def cts_tx_def)
  note P = Connection_poll_sending [OF C I st run, of osent ircvd]
  have same: "cn_same_request m m'" and x': "cn_exchange osent ircvd m' net'"
    using P x by simp_all
  consider "st = Ok" "cn_state m' = CnOpen" "cn_txSent m' = cn_txLen m'" "cn_reply m'"
    | "st = Pending" "cn_state m' = CnSending" | "failure st" "cn_state m' = CnFailed"
    using P by blast
  then show thesis
  proof cases
    case 1
    let ?p = "take (cn_rxLen m') (cn_rx m')" and ?d = "take (cn_dataLen m') (Connection_data m')"
    have wire: "net_sent net' c = osent @ cts_request step h m" "net_rcvd net' c = ircvd @ ?p"
      using x' same c 1(3) tx by (simp_all add: exchange_def conn_out_def conn_in_def cn_same_request_def)
    have r: "packet ?p" "ud_parse (cn_sentContext m) (cn_toConnId m) (cn_sentSequence m) ?p =
        Some (cn_replyService m', cn_resultCode m', ?d)" "length ?d = cn_dataLen m'"
      using 1(4) same by (simp_all add: cn_reply_def cn_same_request_def)
    have g: "getU32 (drop 2 ?d) = getU32 (drop 2 (Connection_data m'))" if "6 \<le> cn_dataLen m'"
      using that r(3) by (simp add: drop_take u32.dec_take)
    have "\<exists>l. cts_answer step m ?p = Some l \<and> ConnectedTagReadWrite_printStep step m' = [l]"
      using step r(2,3) g by (auto simp: cts_answer_def ConnectedTagReadWrite_printStep_def)
    with 1(1,2) wire r(1) same nm show thesis
      by (intro answer [of osent ?p]) (auto simp: cn_same_request_def)
  next
    case 2
    have "cts_request step h m' = cts_request step h m"
      using same step by (auto simp: cts_request_def cn_same_request_def)
    moreover have "cts_tx m' = cts_tx m"
      using same st 2(2) by (simp add: cts_tx_def cn_same_request_def)
    moreover have "cn_tagName m' = cn_tagName m"
      using same by (simp add: cn_same_request_def)
    ultimately have "cts_asking step c h m' net'"
      using ask 2(2) S x' unfolding cts_asking_def cts_wire_def by auto
    with 2(1) show thesis
      by (rule wait)
  next
    case 3
    then show thesis
      by (intro fail) auto
  qed
qed

lemma cts_poll_forward:
  assumes C: "socket_contract os" and I: "cn_inv m" and A: "cn_awaits c m"
    and step: "step = 0 \<or> step = 4"
    and ask: "cts_asking step c h m net" and run: "Connection_poll os m net = (st, m', net')"
  obtains (wait) "st = Pending" "cts_asking step c h m' net'"
  | (fail) "st \<noteq> Pending" "st \<noteq> Ok" "cn_state m' = CnFailed"
  | (answer) osent p where "st = Ok" "cn_state m' = (if step = 4 then CnClosed else CnOpen)"
      "cn_tagName m' = name_slot cts_name" "net_sent net' c = osent @ cts_request step h m"
      "\<exists>ircvd. net_rcvd net' c = ircvd @ p" "packet p"
      "\<exists>l. cts_answer step m p = Some l \<and> ConnectedTagReadWrite_printStep step m' = [l]"
proof -
  have st: "cn_state m = cts_busy step" "cn_state m \<noteq> CnSending" and nm: "cn_tagName m = name_slot cts_name"
    using ask step by (auto simp: cts_asking_def cts_busy_def)
  have B: "em_busy (cn_fwd m)" "em_inv (cn_fwd m)"
    using I st step by (auto simp: cn_inv_def cn_forwarding_def cts_busy_def)
  have c: "em_conn (cn_fwd m) = Some c"
    using A B(1) by (simp add: cn_awaits_def em_awaits_def)
  obtain osent ircvd where x: "em_exchange osent ircvd (cn_fwd m) net"
    using ask st(2) by (auto simp: cts_asking_def cts_wire_def)
  have tx: "take (em_txLen (cn_fwd m)) (em_tx (cn_fwd m)) = cts_request step h m"
    using ask st(2) by (simp add: cts_asking_def cts_tx_def)
  obtain st0 fwd n where p: "ExplicitMessage_poll os (cn_fwd m) net = (st0, fwd, n)"
    by (metis prod_cases3)
  note P = ExplicitMessage_poll_spec [OF C B(2,1) p, of osent ircvd]
  have same: "em_same_request (cn_fwd m) fwd" and x': "em_exchange osent ircvd fwd n"
    using P x by simp_all
  let ?p = "take (em_rxLen fwd) (em_rx fwd)" and ?d = "take (em_dataLen fwd) (ExplicitMessage_data fwd)"
  have wire: "net_sent n c = osent @ cts_request step h m" "net_rcvd n c = ircvd @ ?p"
    "packet ?p" "rr_parse (em_sentContext (cn_fwd m)) ?p = Some (em_replyService fwd, em_resultCode fwd, ?d)"
    "length ?d = em_dataLen fwd"
    if "st0 = Ok"
    using x' same c P that tx by (auto simp: exchange_def conn_out_def conn_in_def em_same_request_def em_reply_def)
  have stay: thesis if "st = Pending" "st0 = Pending" "m' = m\<lparr>cn_fwd := fwd\<rparr>" "net' = n"
  proof -
    have "cts_request step h m' = cts_request step h m" "cts_tx m' = cts_tx m"
      using same step that(3) st(2) by (auto simp: cts_request_def cts_tx_def em_same_request_def)
    then have "cts_asking step c h m' net'"
      using ask st x' that(3,4) unfolding cts_asking_def cts_wire_def by auto
    with that(1) show thesis
      by (rule wait)
  qed
  show thesis
  proof (cases "step = 4")
    case True
    then have S: "cn_state m = CnClosing"
      using st by (simp add: cts_busy_def)
    show thesis
    proof (rule Connection_poll_closing [OF C I S run])
      fix fwd'
      assume a: "ExplicitMessage_poll os (cn_fwd m) net = (st, fwd', net')"
        "st = Ok \<and> em_state fwd' = EmDone \<and> m' = m\<lparr>cn_fwd := fwd', cn_state := CnClosed\<rparr> \<or>
         st = Pending \<and> m' = m\<lparr>cn_fwd := fwd'\<rparr> \<or> failure st \<and> m' = m\<lparr>cn_fwd := fwd', cn_state := CnFailed\<rparr>"
      then have e: "fwd' = fwd" "st0 = st" "n = net'"
        using p by simp_all
      from a(2) consider "st = Ok" "m' = m\<lparr>cn_fwd := fwd, cn_state := CnClosed\<rparr>"
        | "st = Pending" "m' = m\<lparr>cn_fwd := fwd\<rparr>" | "failure st" "m' = m\<lparr>cn_fwd := fwd, cn_state := CnFailed\<rparr>"
        unfolding e by blast
      then show thesis
      proof cases
        case 1
        with wire e True nm show thesis
          by (intro answer [of osent ?p]) (auto simp: cts_answer_def ConnectedTagReadWrite_printStep_def)
      next
        case 2
        with e stay show thesis by blast
      next
        case 3
        then show thesis by (intro fail) auto
      qed
    qed
  next
    case False
    then have S: "cn_state m = CnOpening" and s0: "step = 0"
      using st step by (auto simp: cts_busy_def)
    show thesis
    proof (rule Connection_poll_opening [OF C I S run], goal_cases)
      case (1 fwd')
      with p stay show thesis by simp
    next
      case (2 fwd' st1)
      then show thesis by (intro fail) auto
    next
      case (3 fwd' to)
      then have e: "fwd' = fwd" "st0 = Ok" "n = net'"
        using p by simp_all
      have acc: "em_resultCode fwd = 0" "12 \<le> em_dataLen fwd" "cn_otConnId m \<noteq> 0" "to \<noteq> 0"
        "getU32 (ExplicitMessage_data fwd) = cn_otConnId m" "getU32 (drop 4 (ExplicitMessage_data fwd)) = to"
        using 3(4) by (simp_all add: cn_accepts_def e)
      have d: "getU32 ?d = cn_otConnId m" "getU32 (drop 4 ?d) = to"
        using acc(2,5,6) wire(5) e(2) by (simp_all add: u32.dec_take drop_take)
      have "cts_answer step m ?p = Some (ConnOpened (cn_otConnId m) to)"
        using wire(4,5) e(2) acc(1-4) d s0 by (simp add: cts_answer_def)
      with 3 wire e nm s0 show thesis
        by (intro answer [of osent ?p]) (simp_all add: ConnectedTagReadWrite_printStep_def)
    qed
  qed
qed

subsection \<open>The sketch\<close>

definition cts_idle :: "'w os \<Rightarrow> connected_sketch \<Rightarrow> bool" where
  "cts_idle os s \<longleftrightarrow>
     socket_contract os \<and> cn_inv (cts_conn s) \<and> cn_state (cts_conn s) \<noteq> CnSending \<and> \<not> cn_forwarding (cts_conn s)"

definition cts_working :: "'w os \<Rightarrow> connected_sketch \<Rightarrow> 'w net \<Rightarrow> bool" where
  "cts_working os s net \<longleftrightarrow>
     socket_contract os \<and> cn_inv (cts_conn s) \<and> cn_awaits (sk_conn s) (cts_conn s) \<and> cts_step s < 5 \<and>
     (if cts_stepStarted s
      then cn_state (cts_conn s) = CnFailed \<or>
        cts_asking (cts_step s) (sk_conn s) (ses_handle (sk_session s)) (cts_conn s) net
      else TcpConnection_connected (sk_conn s) net \<and>
        (if cts_step s = 0 then cn_state (cts_conn s) \<noteq> CnSending \<and> \<not> cn_forwarding (cts_conn s)
         else cn_state (cts_conn s) = CnOpen \<and> cn_tagName (cts_conn s) = name_slot cts_name))"

lemma cts_startStep_working:
  assumes W: "cts_working os s net" and u: "\<not> cts_stepStarted s"
    and run: "ConnectedTagReadWrite_startStep os s net = (s', net')"
  shows "cts_working os s' net' \<and> only_os net net' \<and> cts_out s' = cts_out s \<and> cts_step s' = cts_step s \<and>
    sketch.truncate s' = sketch.truncate s \<and> cts_stepStarted s'"
proof -
  have W': "socket_contract os" "cn_inv (cts_conn s)" "cn_awaits (sk_conn s) (cts_conn s)" "cts_step s < 5"
    "TcpConnection_connected (sk_conn s) net"
    "if cts_step s = 0 then cn_state (cts_conn s) \<noteq> CnSending \<and> \<not> cn_forwarding (cts_conn s)
      else cn_state (cts_conn s) = CnOpen \<and> cn_tagName (cts_conn s) = name_slot cts_name"
    using W u unfolding cts_working_def by auto
  show ?thesis
    by (rule ConnectedTagReadWrite_startStep_spec [OF W'(2-6) run])
      (use W' in \<open>simp add: cts_working_def sketch.defs\<close>)
qed

lemma ConnectedTagReadWrite_connOps_spec:
  assumes W: "cts_working os s net" and u: "cts_stepStarted s" and ph: "sk_phase s = SkWork"
    and run: "ConnectedTagReadWrite_connOps os s net = (s', net')"
  obtains (wait) m where "s' = s\<lparr>cts_conn := m\<rparr>" "cts_working os s' net'" "net_fault net' = net_fault net"
  | (fail) m now where "s' = s\<lparr>cts_conn := m, sk_phase := SkRetryWait, sk_phaseStarted := now\<rparr>"
      "cts_idle os s'" "net_fault net' = net_fault net"
  | (answer) m osent p where "s' = ConnectedTagReadWrite_finishStep (s\<lparr>cts_conn := m\<rparr>)" "cts_idle os s'"
      "cts_step s \<noteq> 4 \<longrightarrow> cts_working os s' net'" "net_fault net' = net_fault net"
      "net_sent net' (sk_conn s) = osent @ cts_request (cts_step s) (ses_handle (sk_session s)) (cts_conn s)"
      "\<exists>ircvd. net_rcvd net' (sk_conn s) = ircvd @ p" "packet p"
      "\<exists>l. cts_answer (cts_step s) (cts_conn s) p = Some l \<and> ConnectedTagReadWrite_printStep (cts_step s) m = [l]"
proof -
  have C: "socket_contract os" and I: "cn_inv (cts_conn s)" and A: "cn_awaits (sk_conn s) (cts_conn s)"
    and i: "cts_step s < 5" and K: "cn_state (cts_conn s) = CnFailed \<or>
      cts_asking (cts_step s) (sk_conn s) (ses_handle (sk_session s)) (cts_conn s) net"
    using W u by (simp_all add: cts_working_def)
  obtain st m net1 where p: "Connection_poll os (cts_conn s) net = (st, m, net1)"
    by (metis prod_cases3)
  let ?s1 = "s\<lparr>cts_conn := m\<rparr>"
  have r: "(s', net') =
      (if st = Ok then (ConnectedTagReadWrite_finishStep ?s1, net1)
       else if st = Timeout \<or> st = Error then Sketch_retry os ?s1 net1 else (?s1, net1))"
    using run p u by (simp add: ConnectedTagReadWrite_connOps_def Let_def)
  have I': "cn_inv m" and fa: "net_fault net1 = net_fault net"
    using Connection_poll_inv [OF C I p] Connection_poll_fault [OF C I p] by simp_all
  have failed: thesis if "cn_state m = CnFailed" "st \<noteq> Ok"
  proof (cases "st = Timeout \<or> st = Error")
    case True
    with r that(2) have "Sketch_retry os ?s1 net1 = (s', net')"
      by auto
    from Sketch_retry_simp [OF this] obtain now where
      "s' = ?s1\<lparr>sk_phase := SkRetryWait, sk_phaseStarted := now\<rparr>" "only_os net1 net'"
      by blast
    with that C I' fa show thesis
      by (intro fail [where m = m and now = now]) (simp_all add: cts_idle_def cn_forwarding_def only_os_def)
  next
    case False
    with r that have "s' = ?s1" "net' = net1"
      by simp_all
    moreover have "cn_awaits (sk_conn s) m"
      using that(1) I' by (simp add: cn_awaits_def em_awaits_def cn_inv_def cn_forwarding_def)
    ultimately show thesis
      using C I' i u fa that(1) by (intro wait [of m]) (simp_all add: cts_working_def)
  qed
  show thesis
  proof (cases "cn_state (cts_conn s) = CnFailed")
    case True
    with p have "st = Error" "m = cts_conn s" by simp_all
    with True failed show thesis by simp
  next
    case False
    with K have ask: "cts_asking (cts_step s) (sk_conn s) (ses_handle (sk_session s)) (cts_conn s) net"
      by blast
    then have B: "cn_state (cts_conn s) = CnSending \<or> cn_forwarding (cts_conn s)"
      by (auto simp: cts_asking_def cts_busy_def cn_forwarding_def split: if_splits)
    note L = Connection_poll_awaits [OF C I A B p]
    have stay: thesis
      if "st = Pending" "cts_asking (cts_step s) (sk_conn s) (ses_handle (sk_session s)) m net1"
    proof -
      have "s' = ?s1" "net' = net1"
        using r that(1) by simp_all
      with that C I' L i u fa show thesis
        by (intro wait [of m]) (simp_all add: cts_working_def)
    qed
    have ok: thesis if a: "st = Ok" "cn_state m = (if cts_step s = 4 then CnClosed else CnOpen)"
      "cn_tagName m = name_slot cts_name"
      "net_sent net1 (sk_conn s) = osent @ cts_request (cts_step s) (ses_handle (sk_session s)) (cts_conn s)"
      "\<exists>ircvd. net_rcvd net1 (sk_conn s) = ircvd @ q" "packet q"
      "\<exists>l. cts_answer (cts_step s) (cts_conn s) q = Some l \<and> ConnectedTagReadWrite_printStep (cts_step s) m = [l]"
      for osent q
    proof -
      have r': "s' = ConnectedTagReadWrite_finishStep ?s1" "net' = net1"
        using r a(1) by simp_all
      have "cts_idle os s'"
        using C I' a(2) by (simp add: r'(1) cts_idle_def ConnectedTagReadWrite_finishStep_def Let_def cn_forwarding_def)
      moreover have "cts_working os s' net'" if "cts_step s \<noteq> 4"
      proof -
        have "cts_step s + 1 < 5"
          using that i by linarith
        then show ?thesis
          using C I' L a(1-3) that
          by (simp add: r' cts_working_def ConnectedTagReadWrite_finishStep_def Let_def)
      qed
      ultimately show thesis
        using r' fa a(4-7) by (intro answer [where m = m and osent = osent and p = q]) simp_all
    qed
    show thesis
    proof (cases "cts_step s = 0 \<or> cts_step s = 4")
      case True
      from C I A True ask p show thesis
        by (cases rule: cts_poll_forward) (use stay failed ok in blast)+
    next
      case other: False
      then have "cts_step s \<in> {1, 2, 3}" "cts_busy (cts_step s) = CnSending" "cts_step s \<noteq> 4"
        using i by (auto simp: cts_busy_def)
      from C I A this(2,1) ask p show thesis
      proof (cases rule: cts_poll_sending)
        case (answer osent q)
        with other show thesis
          by (intro ok [of osent q]) simp_all
      qed (use stay failed in blast)+
    qed
  qed
qed

lemma cts_more:
  "sketch.more s' = sketch.more (s :: connected_sketch) \<Longrightarrow>
    cts_conn s' = cts_conn s \<and> cts_step s' = cts_step s \<and> cts_stepStarted s' = cts_stepStarted s \<and> cts_out s' = cts_out s"
  by (cases s; cases s') simp

lemma cts_working_cong:
  assumes "cts_working os s net" and "sketch.more s' = sketch.more s" and "sk_conn s' = sk_conn s"
    and "sk_session s' = sk_session s" and "only_os net net'"
  shows "cts_working os s' net'"
proof -
  have "TcpConnection_connected c net' = TcpConnection_connected c net" for c
    using assms(5) by (simp add: only_os_def TcpConnection_connected_def)
  moreover have "cts_asking i c h m net' = cts_asking i c h m net" for i c h m
    using assms(5) by (simp add: cts_asking_def cts_wire_def exchange_only_os)
  ultimately show ?thesis
    using assms(1,3,4) cts_more [OF assms(2)] unfolding cts_working_def by simp
qed

lemma ConnectedTagReadWrite_connOps_law:
  assumes W: "cts_working os s net" and ph: "sk_phase s = SkWork"
    and run: "ConnectedTagReadWrite_connOps os s net = (s', net')"
  shows "sk_conn s' = sk_conn s \<and> net_fault net' = net_fault net \<and>
      (sk_phase s' = SkWork \<and> sk_session s' = sk_session s \<and> cts_working os s' net' \<or>
       sk_phase s' = SkRetryWait \<and> sk_session s' = sk_session s \<and> cts_idle os s' \<or>
       sk_phase s' = SkCloseSession \<and> sk_session s' = snd (Session_close (sk_session s)) \<and> cts_idle os s')"
proof (cases "cts_stepStarted s")
  case False
  then have r: "ConnectedTagReadWrite_startStep os s net = (s', net')"
    using run by (simp add: ConnectedTagReadWrite_connOps_def)
  with cts_startStep_working [OF W False r] ph show ?thesis
    by (simp add: sketch.defs only_os_def)
next
  case True
  from W True ph run show ?thesis
  proof (cases rule: ConnectedTagReadWrite_connOps_spec)
    case (answer m osent p)
    have "sk_conn s' = sk_conn s" "if 4 < cts_step s + 1 then sk_phase s' = SkCloseSession \<and>
        sk_session s' = snd (Session_close (sk_session s)) else sk_phase s' = SkWork \<and> sk_session s' = sk_session s"
      using ph by (simp_all add: answer(1) ConnectedTagReadWrite_finishStep_def Let_def)
    with answer(2-4) show ?thesis
      by (auto split: if_splits)
  qed (use ph in simp_all)
qed

interpretation cts: sketch_client os eth "ConnectedTagReadWrite_loop os eth" ConnectedTagReadWrite_opened
    "ConnectedTagReadWrite_connOps os" "cts_idle os" "cts_working os" for os eth
proof unfold_locales
  fix s s' :: connected_sketch and net net' :: "'a net"
  show "ConnectedTagReadWrite_loop os eth s net =
     (case sk_phase s of
        SkWaitEthernet \<Rightarrow> Sketch_waitEthernet os eth s net
      | SkConnect \<Rightarrow> Sketch_connect os s net
      | SkOpenSession \<Rightarrow> Sketch_openSession os ConnectedTagReadWrite_opened s net
      | SkWork \<Rightarrow> ConnectedTagReadWrite_connOps os s net
      | SkCloseSession \<Rightarrow> Sketch_closeSession os s net
      | SkRetryWait \<Rightarrow> Sketch_retryWait os s net)"
    by (simp add: ConnectedTagReadWrite_loop_def)
  show "socket_contract os" if "cts_idle os s"
    using that by (simp add: cts_idle_def)
  show "cts_idle os s'" if "cts_idle os s" and "sketch.more s' = sketch.more s"
    using that cts_more [OF that(2)] by (simp add: cts_idle_def)
  show "cts_working os s' net'"
    if "cts_working os s net" and "sketch.more s' = sketch.more s" and "sk_conn s' = sk_conn s"
      and "sk_session s' = sk_session s" and "only_os net net'"
    using that by (rule cts_working_cong)
  show "cts_working os s' net' \<and> sketch.truncate s' = sketch.truncate s \<and> net_fault net' = net_fault net"
    if "cts_idle os s" and "TcpConnection_connected (sk_conn s) net" and "ConnectedTagReadWrite_opened s net = (s', net')"
    using that by (auto simp: cts_idle_def cts_working_def ConnectedTagReadWrite_opened_def cn_awaits_def em_awaits_def
        cn_inv_def sketch.defs)
  show "sk_conn s' = sk_conn s \<and> net_fault net' = net_fault net \<and>
      (sk_phase s' = SkWork \<and> sk_session s' = sk_session s \<and> cts_working os s' net' \<or>
       sk_phase s' = SkRetryWait \<and> sk_session s' = sk_session s \<and> cts_idle os s' \<or>
       sk_phase s' = SkCloseSession \<and> sk_session s' = snd (Session_close (sk_session s)) \<and> cts_idle os s')"
    if "sketch_inv s net" and "sk_phase s = SkWork" and "cts_working os s net"
      and "ConnectedTagReadWrite_connOps os s net = (s', net')"
    using that(3,2,4) by (rule ConnectedTagReadWrite_connOps_law)
qed

subsection \<open>What it prints, and when\<close>

lemma ConnectedTagReadWrite_silent:
  assumes "\<not> (sk_phase s = SkWork \<and> cts_stepStarted s)" and "sk_phase s = SkWork \<longrightarrow> cts_working os s net"
    and run: "ConnectedTagReadWrite_loop os eth s net = (s', net')"
  shows "cts_out s' = cts_out s"
proof -
  consider "sk_phase s = SkOpenSession" | "sk_phase s = SkWork" | "sk_phase s \<noteq> SkOpenSession" "sk_phase s \<noteq> SkWork"
    by blast
  then show ?thesis
  proof cases
    case 1
    with run have "Sketch_openSession os ConnectedTagReadWrite_opened s net = (s', net')"
      by (simp add: ConnectedTagReadWrite_loop_def)
    then show ?thesis
    proof (cases rule: Sketch_openSession_more)
      case 1
      with cts_more show ?thesis
        by blast
    next
      case (2 ses net1 s2 net2)
      with cts_more [OF 2(2)] show ?thesis
        by (auto simp: ConnectedTagReadWrite_opened_def)
    qed
  next
    case 2
    then have r: "ConnectedTagReadWrite_startStep os s net = (s', net')" "\<not> cts_stepStarted s" "cts_working os s net"
      using run assms by (simp_all add: ConnectedTagReadWrite_loop_def ConnectedTagReadWrite_connOps_def)
    then show ?thesis
      using cts_startStep_working [OF r(3,2,1)] by simp
  next
    case 3
    with run have "sketch.more s' = sketch.more s"
      by (cases "sk_phase s") (auto simp: ConnectedTagReadWrite_loop_def dest: Sketch_more)
    with cts_more show ?thesis
      by blast
  qed
qed

lemma ConnectedTagReadWrite_reach_good:
  assumes "socket_contract os" and "Session_inv ses" and "ses_openable ses" and "\<not> net_fault net"
    and "cn_inv conn" and "cn_state conn = CnIdle"
    and start: "Sketch_setup os eth (ConnectedTagReadWrite_new phy c ses conn) net = (s0, net0)"
    and reach: "sketch_reach (ConnectedTagReadWrite_loop os eth) s0 net0 s1 net1"
  shows "sketch_good (cts_idle os) (cts_working os) s1 net1"
proof -
  have "sketch_good (cts_idle os) (cts_working os) s0 net0"
    by (rule Sketch_setup_good [OF start])
      (use assms(1-6) cts.J_cong in \<open>auto simp: ConnectedTagReadWrite_new_def cts_idle_def cn_forwarding_def\<close>)
  then show ?thesis
    using reach by (rule cts.reach_good)
qed

text \<open>
  C20. What \<open>ConnectedTagReadWrite\<close> does on the wire and prints, in the order of its steps.
  However the world behaves, a turn of \<open>loop()\<close> prints nothing, or it is a turn of the connected
  phase in step \<open>i\<close> whose request (Forward Open, read, write of 2026, read, Forward Close) is the
  last thing sent, whose last packet received is a reply the request accepts (its context, and for
  a connected one its connection identifier and sequence number), and which prints the one line
  this reply is worth and goes on to step \<open>i + 1\<close>, after the fifth to closing the session.
\<close>

theorem ConnectedTagReadWrite_prints_answers:
  assumes "socket_contract os" and "Session_inv ses" and "ses_openable ses" and "\<not> net_fault net"
    and "cn_inv conn" and "cn_state conn = CnIdle"
    and start: "Sketch_setup os eth (ConnectedTagReadWrite_new phy c ses conn) net = (s0, net0)"
    and reach: "sketch_reach (ConnectedTagReadWrite_loop os eth) s0 net0 s1 net1"
    and run: "ConnectedTagReadWrite_loop os eth s1 net1 = (s2, net2)"
  shows "sketch_spec (sk_phase s1) (sk_phase s2) \<and> \<not> net_fault net2 \<and>
    (cts_out s2 = cts_out s1 \<or>
     sk_phase s1 = SkWork \<and> Session_registered (sk_session s1) \<and>
     (\<exists>sent rcvd p line i. i = cts_step s1 \<and> i < 5 \<and>
        net_sent net2 (sk_conn s1) = sent @ cts_request i (ses_handle (sk_session s1)) (cts_conn s1) \<and>
        net_rcvd net2 (sk_conn s1) = rcvd @ p \<and> packet p \<and> cts_answer i (cts_conn s1) p = Some line \<and>
        cts_out s2 = cts_out s1 @ [line] \<and> cts_step s2 = i + 1 \<and>
        sk_phase s2 = (if i + 1 < 5 then SkWork else SkCloseSession)))"
proof -
  note G = ConnectedTagReadWrite_reach_good [OF assms(1-6) start reach]
  from cts.loop_good [OF G run] have spec: "sketch_spec (sk_phase s1) (sk_phase s2)" "\<not> net_fault net2"
    by (simp_all add: sketch_good_def sketch_inv_def)
  show ?thesis
  proof (cases "sk_phase s1 = SkWork \<and> cts_stepStarted s1")
    case False
    then have "cts_out s2 = cts_out s1"
      using ConnectedTagReadWrite_silent [OF False _ run] G by (simp add: sketch_good_def)
    with spec show ?thesis
      by blast
  next
    case True
    then have ph: "sk_phase s1 = SkWork" and u: "cts_stepStarted s1" by simp_all
    have W: "cts_working os s1 net1" and R: "Session_registered (sk_session s1)"
      using G ph by (simp_all add: sketch_good_def sketch_inv_def sketch_phase_def Session_registered_def)
    have i: "cts_step s1 < 5"
      using W by (simp add: cts_working_def)
    have q: "ConnectedTagReadWrite_connOps os s1 net1 = (s2, net2)"
      using run ph by (simp add: ConnectedTagReadWrite_loop_def)
    from W u ph q show ?thesis
    proof (cases rule: ConnectedTagReadWrite_connOps_spec)
      case (wait m)
      then have "cts_out s2 = cts_out s1"
        by simp
      with spec show ?thesis
        by blast
    next
      case (fail m now)
      then have "cts_out s2 = cts_out s1"
        by simp
      with spec show ?thesis
        by blast
    next
      case (answer m osent p)
      obtain l where l: "cts_answer (cts_step s1) (cts_conn s1) p = Some l"
        "ConnectedTagReadWrite_printStep (cts_step s1) m = [l]"
        using answer(8) by blast
      have "cts_out s2 = cts_out s1 @ [l]" "cts_step s2 = cts_step s1 + 1"
        "sk_phase s2 = (if cts_step s1 + 1 < 5 then SkWork else SkCloseSession)"
        using ph l(2) by (simp_all add: answer(1) ConnectedTagReadWrite_finishStep_def Let_def)
      with spec ph R i answer(5-7) l(1) show ?thesis
        by blast
    qed
  qed
qed

text \<open>The deadline of the exchange in flight.\<close>

definition cts_deadline :: "cip_connection \<Rightarrow> u32" where
  "cts_deadline m = (if cn_state m = CnSending then cn_deadline m else em_deadline (cn_fwd m))"

text \<open>
  No step of \<open>ConnectedTagReadWrite\<close> is stuck. However the world behaved, a turn that finds
  the connected phase between two steps starts the next one (no call is refused: the connection is open
  where a step needs it open, and the socket is up), and a turn that finds the exchange failed or
  its deadline passed gives up and waits to reconnect.
\<close>

theorem ConnectedTagReadWrite_steps_end:
  assumes "socket_contract os" and "Session_inv ses" and "ses_openable ses" and "\<not> net_fault net"
    and "cn_inv conn" and "cn_state conn = CnIdle"
    and start: "Sketch_setup os eth (ConnectedTagReadWrite_new phy c ses conn) net = (s0, net0)"
    and reach: "sketch_reach (ConnectedTagReadWrite_loop os eth) s0 net0 s1 net1"
    and run: "ConnectedTagReadWrite_loop os eth s1 net1 = (s2, net2)" and ph: "sk_phase s1 = SkWork"
    and m: "millis os net1 = (now, net3)"
  shows "if cts_stepStarted s1
    then cn_state (cts_conn s1) = CnFailed \<or> expired now (cts_deadline (cts_conn s1)) \<longrightarrow> sk_phase s2 = SkRetryWait
    else cts_stepStarted s2 \<and> sk_phase s2 = SkWork \<and> cts_step s2 = cts_step s1 \<and>
      cn_state (cts_conn s2) = cts_busy (cts_step s1)"
proof -
  have W: "cts_working os s1 net1"
    using ConnectedTagReadWrite_reach_good [OF assms(1-6) start reach] ph by (simp add: sketch_good_def)
  have q: "ConnectedTagReadWrite_connOps os s1 net1 = (s2, net2)"
    using run ph by (simp add: ConnectedTagReadWrite_loop_def)
  show ?thesis
  proof (cases "cts_stepStarted s1")
    case False
    then have r: "ConnectedTagReadWrite_startStep os s1 net1 = (s2, net2)"
      using q by (simp add: ConnectedTagReadWrite_connOps_def)
    have W': "cn_inv (cts_conn s1)" "cn_awaits (sk_conn s1) (cts_conn s1)" "cts_step s1 < 5"
      "TcpConnection_connected (sk_conn s1) net1"
      "if cts_step s1 = 0 then cn_state (cts_conn s1) \<noteq> CnSending \<and> \<not> cn_forwarding (cts_conn s1)
        else cn_state (cts_conn s1) = CnOpen \<and> cn_tagName (cts_conn s1) = name_slot cts_name"
      using W False unfolding cts_working_def by auto
    from W' r show ?thesis
      by (cases rule: ConnectedTagReadWrite_startStep_spec) (use False ph in \<open>simp add: cts_asking_def\<close>)
  next
    case True
    have W': "cn_inv (cts_conn s1)" "cn_state (cts_conn s1) = CnFailed \<or>
        cts_asking (cts_step s1) (sk_conn s1) (ses_handle (sk_session s1)) (cts_conn s1) net1"
      using W True by (simp_all add: cts_working_def)
    have "\<exists>st conn' n. Connection_poll os (cts_conn s1) net1 = (st, conn', n) \<and> (st = Timeout \<or> st = Error)"
      if e: "cn_state (cts_conn s1) = CnFailed \<or> expired now (cts_deadline (cts_conn s1))"
    proof -
      obtain st conn' n where p: "Connection_poll os (cts_conn s1) net1 = (st, conn', n)"
        by (metis prod_cases3)
      consider "cn_state (cts_conn s1) = CnFailed" | "cn_state (cts_conn s1) = CnSending"
        | "cn_forwarding (cts_conn s1)"
        using W'(2) by (auto simp: cts_asking_def cts_busy_def cn_forwarding_def split: if_splits)
      then show ?thesis
      proof cases
        case 1
        with p show ?thesis by simp
      next
        case 2
        with e m have "st = Timeout"
          using Connection_poll_sending [OF assms(1) W'(1) 2 p, of "[]" "[]"] by (simp add: cts_deadline_def)
        with p show ?thesis by blast
      next
        case 3
        then have B: "em_inv (cn_fwd (cts_conn s1))" "em_busy (cn_fwd (cts_conn s1))"
          and x: "expired now (em_deadline (cn_fwd (cts_conn s1)))"
          using W'(1) e by (auto simp: cn_inv_def cts_deadline_def cn_forwarding_def)
        obtain st0 fwd n' where f: "ExplicitMessage_poll os (cn_fwd (cts_conn s1)) net1 = (st0, fwd, n')"
          by (metis prod_cases3)
        have "st0 = Timeout"
          using ExplicitMessage_poll_spec [OF assms(1) B f, of "[]" "[]"] x m by simp
        with 3 p f have "st = Timeout"
          by (auto simp: Connection_poll_def Connection_pollOpening_def Connection_pollClosing_def Let_def
              cn_forwarding_def)
        with p show ?thesis by blast
      qed
    qed
    with True q show ?thesis
      by (auto simp: ConnectedTagReadWrite_connOps_def Let_def dest!: Sketch_retry_phase)
  qed
qed

subsection \<open>An example: the Forward Open\<close>

abbreviation demo_cts :: connected_sketch where
  "demo_cts \<equiv> ConnectedTagReadWrite_new 0 0 demo_session demo_cn"

abbreviation demo_cts_loop :: "connected_sketch \<Rightarrow> loopback net \<Rightarrow> connected_sketch \<times> loopback net" where
  "demo_cts_loop \<equiv> ConnectedTagReadWrite_loop loopback_os demo_eth"

lemma demo_cts_facts: "ses_openable demo_session" "cn_state demo_cn = CnIdle"
  by (simp_all add: ses_openable_def demo_session_def Session_new_def demo_cn_def Connection_new_def)

lemma demo_cts_starts:
  obtains s0 s1 and net1 :: "loopback net" where
    "Sketch_setup loopback_os demo_eth demo_cts (loopback_net 0 []) = (s0, loopback_net 0 [])"
    "sketch_reach demo_cts_loop s0 (loopback_net 0 []) s1 net1" "sk_phase s1 = SkWork" "sk_conn s1 = 0"
    "cts_step s1 = 0" "\<not> cts_stepStarted s1" "cts_out s1 = []" "cts_conn s1 = demo_cn"
    "conn_up (Some 0) net1" "net_os net1 = demo_world demo_opened"
proof -
  obtain s0 s2 ses and net2 net3 :: "loopback net" where d:
    "Sketch_setup loopback_os demo_eth demo_cts (loopback_net 0 []) = (s0, loopback_net 0 [])"
    "sketch_reach demo_cts_loop s0 (loopback_net 0 []) s2 net2"
    "sk_phase s2 = SkOpenSession" "sk_conn s2 = 0" "sketch.more s2 = sketch.more demo_cts"
    "Session_poll loopback_os (sk_session s2) net2 = (Ok, ses, net3)" "conn_up (Some 0) net3"
    by (rule demo_sketch [OF cts.sketch_client_axioms, of demo_cts]) (simp_all add: ConnectedTagReadWrite_new_def)
  obtain s3 net4 where r: "demo_cts_loop s2 net2 = (s3, net4)"
    by fastforce
  have s3: "sk_phase s3 = SkWork" "sk_conn s3 = 0" "cts_step s3 = 0" "\<not> cts_stepStarted s3" "net4 = net3"
    "cts_out s3 = []" "cts_conn s3 = demo_cn"
    using r d(3,4,6) cts_more [OF d(5)]
    by (auto simp: ConnectedTagReadWrite_loop_def Sketch_openSession_def ConnectedTagReadWrite_opened_def
        ConnectedTagReadWrite_new_def Let_def)
  have reach: "sketch_reach demo_cts_loop s0 (loopback_net 0 []) s3 (net4\<lparr>net_os := demo_world demo_opened\<rparr>)"
    using d(2) r by (intro sketch_reach.world) (rule sketch_reach.turn)
  show thesis
    by (rule that [OF d(1) reach]) (use s3 d(7) in \<open>simp_all add: conn_up_def\<close>)
qed

theorem ConnectedTagReadWrite_steps_end_witness:
  "\<exists>s0 s1 s2 net1 net2.
    Sketch_setup loopback_os demo_eth demo_cts (loopback_net 0 []) = (s0, loopback_net 0 []) \<and>
    sketch_reach demo_cts_loop s0 (loopback_net 0 []) s1 net1 \<and> demo_cts_loop s1 net1 = (s2, net2) \<and>
    sk_phase s1 = SkWork \<and> \<not> cts_stepStarted s1 \<and> cts_stepStarted s2 \<and> cn_state (cts_conn s2) = CnOpening"
proof -
  obtain s0 s1 and net1 :: "loopback net" where d:
    "Sketch_setup loopback_os demo_eth demo_cts (loopback_net 0 []) = (s0, loopback_net 0 [])"
    "sketch_reach demo_cts_loop s0 (loopback_net 0 []) s1 net1" "sk_phase s1 = SkWork" "cts_step s1 = 0"
    "\<not> cts_stepStarted s1"
    by (rule demo_cts_starts)
  obtain s2 net2 where r: "demo_cts_loop s1 net1 = (s2, net2)"
    by fastforce
  from ConnectedTagReadWrite_steps_end [OF loopback_socket_contract demo_session_inv demo_cts_facts(1) _ demo_cn_inv
      demo_cts_facts(2) d(1,2) r d(3) loopback_millis] d r
  show ?thesis
    by (auto simp: cts_busy_def)
qed

theorem ConnectedTagReadWrite_prints_answers_witness:
  "\<exists>s0 s1 s2 net1 net2.
    Sketch_setup loopback_os demo_eth demo_cts (loopback_net 0 []) = (s0, loopback_net 0 []) \<and>
    sketch_reach demo_cts_loop s0 (loopback_net 0 []) s1 net1 \<and> demo_cts_loop s1 net1 = (s2, net2) \<and>
    cts_out s2 = [ConnOpened 7 42] \<and> sk_phase s2 = SkWork \<and> \<not> net_fault net2"
proof -
  obtain s0 s1 and net1 :: "loopback net" where d:
    "Sketch_setup loopback_os demo_eth demo_cts (loopback_net 0 []) = (s0, loopback_net 0 [])"
    "sketch_reach demo_cts_loop s0 (loopback_net 0 []) s1 net1" "sk_phase s1 = SkWork" "sk_conn s1 = 0"
    "cts_step s1 = 0" "\<not> cts_stepStarted s1" "cts_out s1 = []" "cts_conn s1 = demo_cn"
    "conn_up (Some 0) net1" "net_os net1 = demo_world demo_opened"
    by (rule demo_cts_starts)
  obtain s2 net2 where r: "demo_cts_loop s1 net1 = (s2, net2)"
    by fastforce
  have reach: "sketch_reach demo_cts_loop s0 (loopback_net 0 []) s2 net2"
    using d(2) r by (rule sketch_reach.turn)
  obtain st m1 net1' where o: "Connection_open loopback_os 0 (ses_handle (sk_session s1)) (Some cts_name) CONN_TIMEOUT_MS
      demo_cn net1 = (st, m1, net1')"
    by (metis prod_cases3)
  have e: "s2 = s1\<lparr>cts_conn := m1, cts_stepStarted := (st = Pending)\<rparr>" "net2 = net1'"
    using r o d(3-6,8) by (simp_all add: ConnectedTagReadWrite_loop_def ConnectedTagReadWrite_connOps_def
        ConnectedTagReadWrite_startStep_def Let_def cts_name_def split: prod.splits)
  have fresh: "cn_state demo_cn = CnIdle" "cn_fwd demo_cn = demo_message" "em_context demo_message = 1"
    by (simp_all add: demo_cn_def Connection_new_def demo_message_def ExplicitMessage_new_def)
  have rnd: "sys (os_random loopback_os) net1 = (7, net1)"
    using d(10) by (simp add: sys_def demo_world_def)
  have up: "TcpConnection_connected 0 net1"
    using d(9) by (simp add: conn_up_def TcpConnection_connected_def)
  obtain fwd where o': "st = Pending" "net1' = net1"
    "em_started 0 5000 (rr_request (ses_handle (sk_session s1)) 1 0x54 cn_reqPath (forward_open_data 7 cts_name))
       demo_message fwd"
    "m1 = (cn_opening 7 cts_name demo_cn)\<lparr>cn_fwd := fwd, cn_state := CnOpening\<rparr>"
    by (rule Connection_open_spec [OF demo_cn_inv _ o])
      (use up d(10) in \<open>auto simp: fresh rnd cts_name_facts cn_forwarding_def cn_id_def CONN_TIMEOUT_MS_def demo_world_def\<close>)
  have m1: "cn_inv m1" "cn_state m1 = CnOpening" "cn_fwd m1 = fwd" "cn_otConnId m1 = 7"
  proof -
    have "cn_inv (cn_opening 7 cts_name demo_cn)"
      using demo_cn_inv fresh(1) by (intro cn_opening_inv) (simp_all add: cn_forwarding_def)
    moreover have "em_inv fwd" "em_busy fwd"
      using o'(3) by (simp_all add: em_started_def em_busy_def)
    moreover have "cn_state (cn_opening 7 cts_name demo_cn) \<noteq> CnSending"
      using fresh(1) by (simp add: cn_opening_def)
    ultimately show "cn_inv m1"
      using cn_inv_forward(1) [of "cn_opening 7 cts_name demo_cn" fwd CnOpening] o'(4) by simp
  qed (simp_all add: o'(4) cn_opening_def)
  have fwd: "em_conn fwd = Some 0" "em_rxLen fwd = 0" "em_deadline fwd = 5000" "em_sentContext fwd = 1"
    using o'(3) fresh(3) by (simp_all add: em_started_def)
  obtain s3 net3 where r3: "demo_cts_loop s2 net2 = (s3, net3)"
    by fastforce
  obtain st2 m2 n2 where p: "Connection_poll loopback_os m1 net1 = (st2, m2, n2)"
    by (metis prod_cases3)
  let ?d = "leU32 7 @ leU32 42 @ leU16 1 @ leU16 1"
  have rep: "rr_parse 1 demo_opened = Some (0xD4, 0, ?d)" "packet demo_opened" "length demo_opened = 56"
    unfolding demo_opened_def by (simp_all add: rr_parse_reply)
  have q: "st2 = Ok" "cn_otConnId m2 = 7" "cn_toConnId m2 = 42"
    using Connection_poll_opening_live [OF loopback_stream_contract m1(1,2) _ _ _ _ rep(2) _ _ _ _ _ _ _ p,
        where rest = "[]" and service = "0xD4" and d = ?d] m1 fwd rep d(9,10)
    by (simp_all add: expired_def conn_queue_def demo_world_def)
  have "cts_out s3 = [ConnOpened 7 42]" "sk_phase s3 = SkWork"
    using r3 d(3,5,7) p q e o'(1,2)
    by (auto simp: ConnectedTagReadWrite_loop_def ConnectedTagReadWrite_connOps_def ConnectedTagReadWrite_finishStep_def
        ConnectedTagReadWrite_printStep_def Let_def)
  moreover have "\<not> net_fault net3"
    using ConnectedTagReadWrite_prints_answers [OF loopback_socket_contract demo_session_inv demo_cts_facts(1) _
        demo_cn_inv demo_cts_facts(2) d(1) reach r3] by simp
  ultimately show ?thesis
    using d(1) reach r3 by blast
qed

end
