(* ===== verification/PlcSketch.thy ===== *)
theory PlcSketch
  imports PlcCallbacks TagReadWrite
begin

text \<open>
  What the two sketches over the public API share, \<open>PlcClientDemo\<close> and \<open>ReliabilityDemo\<close>: polls of
  a client whose callbacks only tell the outside world, while it connects and while one tag is in
  flight. An operation that ended well leaves the client fit to start the next one, and no operation
  outlasts its deadline.
\<close>

definition version :: string where
  "version = ''0.1.1''"

subsection \<open>Callbacks that only tell the outside world\<close>

definition tells :: "'w callbacks \<Rightarrow> bool" where
  "tells cb \<longleftrightarrow>
     (\<forall>f h st u plc net. fst (cb_tag cb f h st u (plc, net)) = plc \<and> only_os net (snd (cb_tag cb f h st u (plc, net)))) \<and>
     (\<forall>f st u plc net. fst (cb_state cb f st u (plc, net)) = plc \<and> only_os net (snd (cb_state cb f st u (plc, net))))"

definition no_callbacks :: "'w callbacks" where
  "no_callbacks = \<lparr> cb_tag = (\<lambda>f h st u s. s), cb_state = (\<lambda>f st u s. s) \<rparr>"

lemma no_callbacks_tells [simp]: "tells no_callbacks"
  by (simp add: tells_def no_callbacks_def)

lemma tells_tag:
  assumes "tells cb" and "call_tag cb i st (plc, net) = (plc', net')"
  shows "plc' = plc \<and> only_os net net'"
proof (cases "plc_tagCallback plc")
  case (Some f)
  then have "cb_tag cb f (int i) st (plc_tagUserData plc) (plc, net) = (plc', net')"
    using assms(2) by (simp add: call_tag_def)
  with assms(1) show ?thesis
    by (metis fst_conv snd_conv tells_def)
qed (use assms in \<open>simp add: call_tag_def\<close>)

lemma tells_state:
  assumes "tells cb" and "call_state cb st (plc, net) = (plc', net')"
  shows "plc' = plc \<and> only_os net net'"
proof (cases "plc_stateCallback plc")
  case (Some f)
  then have "cb_state cb f st (plc_stateUserData plc) (plc, net) = (plc', net')"
    using assms(2) by (simp add: call_state_def)
  with assms(1) show ?thesis
    by (metis fst_conv snd_conv tells_def)
qed (use assms in \<open>simp add: call_state_def\<close>)

lemma tells_ok:
  assumes "tells cb"
  shows "callbacks_ok os eth cb"
proof -
  have w: "(plc_step os eth)\<^sup>*\<^sup>* (plc, net) s'" if e: "fst s' = plc" "only_os net (snd s')" for plc net s'
  proof -
    have "s' = (plc, net\<lparr>net_os := net_os (snd s')\<rparr>)"
      using e by (cases s') (simp add: only_os_def)
    then show ?thesis
      using plc_step.world [of os eth plc net "net_os (snd s')"] by (metis r_into_rtranclp)
  qed
  show ?thesis
    unfolding callbacks_ok_def using assms w by (metis prod.collapse tells_def)
qed

lemma connected_only_os: "only_os net net' \<Longrightarrow> TcpConnection_connected c net' = TcpConnection_connected c net"
  by (simp add: only_os_def TcpConnection_connected_def)

subsection \<open>What a poll keeps\<close>

definition plc_keeps :: "plc_client \<Rightarrow> plc_client \<Rightarrow> bool" where
  "plc_keeps plc plc' \<longleftrightarrow>
     plc_inUse plc' = plc_inUse plc \<and> plc_tcp plc' = plc_tcp plc \<and> plc_tagNames plc' = plc_tagNames plc \<and>
     plc_tagElemCount plc' = plc_tagElemCount plc \<and> plc_tagCallback plc' = plc_tagCallback plc \<and>
     plc_tagUserData plc' = plc_tagUserData plc \<and> plc_stateCallback plc' = plc_stateCallback plc \<and>
     plc_stateUserData plc' = plc_stateUserData plc"

lemma plc_keeps_handle: "plc_keeps plc plc' \<Longrightarrow> PlcClient_validHandle h plc' = PlcClient_validHandle h plc"
  by (simp add: plc_keeps_def PlcClient_validHandle_def)

text \<open>A client on its way up: the registration waits for its reply over the client's own connection.\<close>

definition plc_rising :: "plc_client \<Rightarrow> bool" where
  "plc_rising plc \<longleftrightarrow>
     plc_state plc \<in> {PlcEthernet, PlcConnecting, PlcRegistering, PlcFailed} \<and>
     (plc_state plc = PlcRegistering \<longrightarrow> ses_state (plc_session plc) = SesRegistering \<longrightarrow>
        ses_conn (plc_session plc) = Some (plc_tcp plc) \<and> ses_awaits (plc_session plc))"

text \<open>A turn of it: still rising, or ready over a connection that is up. The tags and their message stay.\<close>

lemma plc_rising_poll:
  assumes R: "plc_rising plc" and I: "plc_inv plc net" and C: "socket_contract os" and T: "tells cb"
    and run: "PlcClient_poll os eth cb plc net = (st, plc', net')"
  shows "plc_keeps plc plc' \<and> plc_tags plc' = plc_tags plc \<and> plc_msg plc' = plc_msg plc \<and>
    plc_tagPrevStatus plc' = plc_tagPrevStatus plc \<and>
    (plc_rising plc' \<and> \<not> PlcClient_ready plc' \<or>
     st = Ok \<and> PlcClient_ready plc' \<and> TcpConnection_connected (plc_tcp plc') net')"
proof (cases "plc_state plc")
  case PlcEthernet
  obtain st1 cl net1 where p: "Client_poll eth (plc_eth plc) net = (st1, cl, net1)"
    by (metis prod_cases3)
  obtain now net2 where m: "millis os net1 = (now, net2)" by fastforce
  obtain cst net3 where c: "TcpConnection_connect os (plc_tcp plc) (plc_remoteIp plc)
      (plc_remotePort plc) (plc_connectTimeoutMs plc) net2 = (cst, net3)" by fastforce
  from PlcEthernet run p m c show ?thesis
    by (auto simp: PlcClient_poll_def PlcClient_pollEthernet_def Let_def plc_keeps_def plc_rising_def
        PlcClient_ready_def split: if_splits)
next
  case PlcConnecting
  obtain now net0 where m: "millis os net = (now, net0)" by fastforce
  obtain st1 net1 where p: "TcpConnection_poll os (plc_tcp plc) net0 = (st1, net1)" by fastforce
  obtain now2 net2 where m2: "millis os net1 = (now2, net2)" by fastforce
  obtain st3 ses net3 where o: "Session_open os (plc_tcp plc) (plc_deadline plc - now2)
      (plc_session plc) net2 = (st3, ses, net3)"
    by (metis prod_cases3)
  from PlcConnecting run m p m2 o Session_open_awaits [of os "plc_tcp plc" "plc_deadline plc - now2" "plc_session plc"
      net2 ses net3] show ?thesis
    by (auto simp: PlcClient_poll_def PlcClient_pollConnecting_def Let_def plc_keeps_def plc_rising_def
        PlcClient_ready_def split: if_splits)
next
  case PlcRegistering
  obtain now net0 where m: "millis os net = (now, net0)" by fastforce
  obtain st1 ses net1 where p: "Session_poll os (plc_session plc) net0 = (st1, ses, net1)"
    by (metis prod_cases3)
  have ph: "ses_state (plc_session plc) = SesRegistering \<or> ses_state (plc_session plc) = SesFailed"
    using I PlcRegistering by (simp add: plc_inv_def plc_phase_def)
  let ?p = "plc\<lparr>plc_session := ses, plc_state := PlcReady\<rparr>"
  obtain plc2 net2 where t: "call_state cb Ok (?p, net1) = (plc2, net2)" by fastforce
  have t': "plc2 = ?p" "TcpConnection_connected c net2 = TcpConnection_connected c net1" for c
    using tells_state [OF T t] connected_only_os by auto
  have ok: "(st1 = Ok \<longrightarrow> TcpConnection_connected (plc_tcp plc) net1) \<and>
      (ses_state ses = SesRegistering \<longrightarrow> ses_conn ses = Some (plc_tcp plc) \<and> ses_awaits ses)"
  proof (cases "ses_state (plc_session plc) = SesRegistering")
    case True
    then show ?thesis
      using Session_poll_awaits [OF C True _ _ p] R PlcRegistering by (auto simp: plc_rising_def)
  next
    case False
    then have "st1 = Error" "ses = plc_session plc"
      using ph p Session_poll_idle(4) [of "plc_session plc" os net0] by auto
    with False show ?thesis by simp
  qed
  have c: "TcpConnection_connected (plc_tcp plc) net2 = TcpConnection_connected (plc_tcp plc) net1"
    using t'(2) .
  have "PlcClient_poll os eth cb plc net =
      (if expired now (plc_deadline plc) then (Timeout, plc\<lparr>plc_state := PlcFailed\<rparr>, net0)
       else if st1 = Ok then (Ok, ?p, net2)
       else if st1 = Timeout \<or> st1 = Error then (st1, plc\<lparr>plc_session := ses, plc_state := PlcFailed\<rparr>, net1)
       else (Pending, plc\<lparr>plc_session := ses\<rparr>, net1))"
    using PlcRegistering m p t t'(1) by (simp add: PlcClient_poll_def PlcClient_pollRegistering_def Let_def)
  with run ok c PlcRegistering show ?thesis
    by (cases "expired now (plc_deadline plc)"; cases "st1 = Ok"; cases "st1 = Timeout \<or> st1 = Error")
      (auto simp: plc_keeps_def plc_rising_def PlcClient_ready_def)
qed (use run R in \<open>auto simp: PlcClient_poll_def plc_keeps_def plc_rising_def PlcClient_ready_def\<close>)

text \<open>The deadline of a connect.\<close>

lemma plc_rising_expired:
  assumes "plc_state plc = PlcFailed \<or>
      plc_state plc \<in> {PlcConnecting, PlcRegistering} \<and> expired (fst (millis os net)) (plc_deadline plc)"
    and "PlcClient_poll os eth cb plc net = (st, plc', net')"
  shows "(st = Timeout \<or> st = Error) \<and> \<not> PlcClient_ready plc'"
  using assms by (auto simp: PlcClient_poll_def PlcClient_pollConnecting_def PlcClient_pollRegistering_def
      PlcClient_ready_def split: prod.splits)

subsection \<open>One tag in flight\<close>

text \<open>The tag \<open>h\<close> of a ready client waits for a reply over the client's connection.\<close>

definition plc_flying :: "plc_client \<Rightarrow> int \<Rightarrow> bool" where
  "plc_flying plc h \<longleftrightarrow>
     PlcClient_ready plc \<and> PlcClient_validHandle h plc \<and> tag_waiting (plc_tags plc ! nat h) \<and>
     em_awaits (plc_tcp plc) (plc_msg plc)"

text \<open>A client that can start an operation.\<close>

definition plc_startable :: "plc_client \<Rightarrow> 'w net \<Rightarrow> bool" where
  "plc_startable plc net \<longleftrightarrow>
     PlcClient_ready plc \<and> \<not> em_busy (plc_msg plc) \<and> TcpConnection_connected (plc_tcp plc) net"

lemma plc_flying_busy:
  assumes "plc_pool plc" and "plc_flying plc h"
  shows "em_busy (plc_msg plc)"
proof -
  have "nat h < 8"
    using assms plc_handle by (auto simp: plc_flying_def)
  with assms show ?thesis
    using owned_idle [of tag_waiting em_busy "plc_tags plc" "plc_msg plc" "nat h"]
    by (auto simp: plc_flying_def plc_pool_def)
qed

text \<open>The poll of the tag in flight, as the poll of the client sees it.\<close>

lemma plc_flying_tag:
  assumes C: "socket_contract os" and P: "plc_pool plc" and F: "plc_flying plc h"
    and run: "Tag_poll os (plc_tags plc ! nat h) (plc_msg plc) net = (st, t, msg, net1)"
  shows "st = Pending \<and> tag_waiting t \<and> em_awaits (plc_tcp plc) msg \<and> \<not> expired (fst (millis os net)) (em_deadline (plc_msg plc)) \<or>
    st = Ok \<and> tag_state t = TagDone \<and> \<not> em_busy msg \<and> TcpConnection_connected (plc_tcp plc) net1 \<or>
    st \<notin> {Pending, Ok} \<and> tag_state t = TagFailed \<and> \<not> em_busy msg"
proof -
  have h: "nat h < 8" and w: "tag_waiting (plc_tags plc ! nat h)" and A: "em_awaits (plc_tcp plc) (plc_msg plc)"
    using P F plc_handle by (auto simp: plc_flying_def)
  note B = plc_flying_busy [OF P F]
  obtain st0 where e: "ExplicitMessage_poll os (plc_msg plc) net = (st0, msg, net1)"
    and f: "tag_finish st0 msg (plc_tags plc ! nat h) = (st, t)"
    using run by (auto simp: Tag_poll_finish [OF w] split: prod.splits)
  note x = ExplicitMessage_poll_spec [OF C plc_pool_i(3) [OF P h] B e, of "[]" "[]"]
  note a = Tag_poll_awaits [OF C A B w run]
  consider "st0 = Pending" | "st0 = Ok" | "st0 \<noteq> Pending" "st0 \<noteq> Ok" by blast
  then show ?thesis
  proof cases
    case 1
    with x have "\<not> expired (fst (millis os net)) (em_deadline (plc_msg plc))"
      by auto
    with 1 f a w show ?thesis
      by (simp add: tag_finish_def)
  next
    case 2
    with x have "\<not> em_busy msg"
      by (auto simp: em_busy_def)
    with 2 f a show ?thesis
      by (auto simp: tag_finish_def Let_def split: if_splits)
  next
    case 3
    with x have "\<not> em_busy msg"
      by (auto simp: em_busy_def)
    with 3 f show ?thesis
      by (auto simp: tag_finish_def)
  qed
qed

text \<open>The whole poll: it changes the tag in flight and no other.\<close>

lemma plc_flying_turn:
  assumes C: "socket_contract os" and T: "tells cb" and P: "plc_pool plc" and F: "plc_flying plc h"
    and tp: "Tag_poll os (plc_tags plc ! nat h) (plc_msg plc) net = (st1, t, msg, net1)"
    and run: "PlcClient_poll os eth cb plc net = (st, plc', net')"
  obtains "plc_keeps plc plc'" and "plc_tags plc' = (plc_tags plc)[nat h := t]" and "plc_msg plc' = msg"
    and "if st1 = Closed then plc_state plc' = PlcIdle
         else st = Ok \<and> PlcClient_ready plc' \<and> plc_session plc' = plc_session plc \<and> only_os net1 net'"
proof -
  have h: "nat h < 8" and w: "tag_waiting (plc_tags plc ! nat h)" and u: "plc_inUse plc ! nat h"
    and r: "plc_state plc = PlcReady"
    using P F plc_handle by (auto simp: plc_flying_def PlcClient_validHandle_def PlcClient_ready_def)
  obtain prev where f: "fold (PlcClient_pollTag os cb) [0..<8] (False, plc, net) =
      fold (PlcClient_pollTag os cb) [Suc (nat h)..<8]
        (st1 = Closed,
         let plc1 = plc\<lparr>plc_tags := (plc_tags plc)[nat h := t], plc_msg := msg,
                        plc_tagPrevStatus := prev[nat h := st1]\<rparr>
         in if plc_tagPrevStatus plc ! nat h = Pending \<and> st1 \<noteq> Pending
            then call_tag cb (nat h) st1 (plc1, net1) else (plc1, net1))"
    and n: "noted plc [0..<nat h] prev"
    using PlcClient_pollTags_one [OF P h u w tp, of cb] by metis
  let ?p = "plc\<lparr>plc_tags := (plc_tags plc)[nat h := t], plc_msg := msg, plc_tagPrevStatus := prev[nat h := st1]\<rparr>"
  obtain p2 net2 where c: "call_tag cb (nat h) st1 (?p, net1) = (p2, net2)" by fastforce
  have "p2 = ?p" "only_os net1 net2"
    using tells_tag [OF T c] by simp_all
  then obtain net3 where g: "fold (PlcClient_pollTag os cb) [0..<8] (False, plc, net) =
      fold (PlcClient_pollTag os cb) [Suc (nat h)..<8] (st1 = Closed, ?p, net3)" and o3: "only_os net1 net3"
    using f c by (auto simp: Let_def split: if_splits)
  obtain prev2 where q: "fold (PlcClient_pollTag os cb) [Suc (nat h)..<8] (st1 = Closed, ?p, net3) =
      (st1 = Closed, ?p\<lparr>plc_tagPrevStatus := prev2\<rparr>, net3)"
    by (rule PlcClient_pollTags_rest [OF P h w n refl])
  let ?q = "?p\<lparr>plc_tagPrevStatus := prev2, plc_session := Session_abort (plc_session plc), plc_state := PlcIdle\<rparr>"
  obtain p4 net4 where c4: "call_state cb Closed (?q, TcpConnection_close os (plc_tcp plc) net3) = (p4, net4)"
    by fastforce
  have "p4 = ?q"
    using tells_state [OF T c4] by simp
  with run r g q c4 o3 that show thesis
    by (auto simp: PlcClient_poll_def PlcClient_pollReady_def plc_keeps_def PlcClient_ready_def split: if_splits)
qed

text \<open>What a turn leaves of the operation.\<close>

lemma plc_flying_poll:
  assumes C: "socket_contract os" and T: "tells cb" and P: "plc_pool plc" and F: "plc_flying plc h"
    and run: "PlcClient_poll os eth cb plc net = (st, plc', net')"
  shows "plc_keeps plc plc' \<and>
    (PlcClient_tagStatus h plc' = Pending \<and> plc_flying plc' h \<and>
       \<not> expired (fst (millis os net)) (em_deadline (plc_msg plc)) \<or>
     PlcClient_tagStatus h plc' = Ok \<and> plc_startable plc' net' \<or>
     PlcClient_tagStatus h plc' = Error \<and> \<not> em_busy (plc_msg plc') \<and> plc_state plc' \<in> {PlcReady, PlcIdle})"
proof -
  obtain st1 t msg net1 where tp: "Tag_poll os (plc_tags plc ! nat h) (plc_msg plc) net = (st1, t, msg, net1)"
    by (metis prod_cases4)
  have h: "nat h < 8" "PlcClient_validHandle h plc" "nat h < length (plc_tags plc)"
    using P F plc_handle plc_pool_i(1) by (auto simp: plc_flying_def)
  note one = plc_flying_tag [OF C P F tp]
  show ?thesis
  proof (rule plc_flying_turn [OF C T P F tp run])
    assume k: "plc_keeps plc plc'" and t: "plc_tags plc' = (plc_tags plc)[nat h := t]" "plc_msg plc' = msg"
      and s: "if st1 = Closed then plc_state plc' = PlcIdle
         else st = Ok \<and> PlcClient_ready plc' \<and> plc_session plc' = plc_session plc \<and> only_os net1 net'"
    have v: "PlcClient_validHandle h plc'" and c: "plc_tcp plc' = plc_tcp plc"
      using h(2) k plc_keeps_handle [OF k, of h] by (simp_all add: plc_keeps_def)
    have ts: "PlcClient_tagStatus h plc' = Tag_status t" "plc_tags plc' ! nat h = t"
      using v t h(3) by (simp_all add: PlcClient_tagStatus_def)
    have d: "tag_state t = TagDone \<Longrightarrow> Tag_status t = Ok" "tag_state t = TagFailed \<Longrightarrow> Tag_status t = Error"
      by (simp_all add: Tag_status_def)
    have s': "plc_state plc' \<in> {PlcReady, PlcIdle}"
      using s by (auto simp: PlcClient_ready_def split: if_splits)
    from one show ?thesis
      using k s s' v c t ts d connected_only_os [of net1 net' "plc_tcp plc"]
      by (elim disjE conjE) (auto simp: plc_flying_def plc_startable_def)
  qed
qed

text \<open>Nothing in flight: a poll notes the status of the tags.\<close>

lemma plc_idle_poll:
  assumes "plc_pool plc" and "PlcClient_ready plc" and "\<not> em_busy (plc_msg plc)"
    and "PlcClient_poll os eth cb plc net = (st, plc', net')"
  shows "plc_keeps plc plc' \<and> plc_tags plc' = plc_tags plc \<and> plc_msg plc' = plc_msg plc \<and> st = Ok \<and>
    net' = net \<and> plc_state plc' = plc_state plc \<and> plc_session plc' = plc_session plc"
proof (rule PlcClient_pollReady_idle [OF assms(1,3), of os cb net])
  fix prev assume "PlcClient_pollReady os cb plc net = (Ok, plc\<lparr>plc_tagPrevStatus := prev\<rparr>, net)"
  with assms(2,4) show ?thesis
    by (auto simp: PlcClient_poll_def PlcClient_ready_def plc_keeps_def)
qed

text \<open>A read of a client that can start one starts, and is in flight.\<close>

lemma plc_read_flies:
  assumes P: "plc_pool plc" and S: "plc_startable plc net" and V: "PlcClient_validHandle h plc"
    and run: "PlcClient_read os h timeoutMs plc net = (st, plc', net')"
  shows "st = Pending \<and> plc_flying plc' h \<and> plc_keeps plc plc' \<and> only_os net net' \<and>
    em_deadline (plc_msg plc') = fst (millis os net) + timeoutMs"
proof -
  have S': "plc_state plc = PlcReady" "\<not> em_busy (plc_msg plc)" "TcpConnection_connected (plc_tcp plc) net"
    using S by (simp_all add: plc_startable_def PlcClient_ready_def)
  have h: "nat h < 8" and len: "length (plc_tags plc) = 8" "length (plc_tagNames plc) = 8"
      "\<forall>s \<in> set (plc_tagNames plc). length s = 64"
    using P V plc_handle by (auto simp: plc_pool_def)
  obtain st1 t msg net1 where r: "Tag_read os (plc_tcp plc) (ses_handle (plc_session plc))
      (Some (c_string (plc_tagNames plc ! nat h))) (plc_tagElemCount plc ! nat h) timeoutMs
      (plc_tags plc ! nat h) (plc_msg plc) net = (st1, t, msg, net1)"
    by (metis prod_cases4)
  have e: "st = st1" "plc' = plc\<lparr>plc_tags := (plc_tags plc)[nat h := t], plc_msg := msg\<rparr>" "net' = net1"
    using run r S' V plc_idle_free [OF P] by (simp_all add: PlcClient_read_def)
  have "length (c_string (plc_tagNames plc ! nat h)) \<le> 120"
    using length_takeWhile_le [of "\<lambda>b. b \<noteq> 0" "plc_tagNames plc ! nat h"] len h by (simp add: c_string_def)
  moreover have q: "\<not> tag_waiting (plc_tags plc ! nat h)"
    using plc_idle_quiet [OF P S'(2) h] V by (simp add: tag_quiet_def PlcClient_validHandle_def)
  ultimately have st: "st1 = Pending"
    using Tag_read_starts [OF S'(2) _ S'(3) _ r] by blast
  obtain now where m: "millis os net = (now, net1)"
    and g: "em_deadline msg = now + timeoutMs"
    and t: "t = (plc_tags plc ! nat h)\<lparr>tag_dataLen := 0, tag_resultCode := 0, tag_state := TagReading\<rparr>"
    using Tag_read_pending [OF plc_pool_i(3) [OF P h] r [unfolded st]] unfolding em_started_def by blast
  have "em_awaits (plc_tcp plc) msg"
    using Tag_read_awaits [OF r] S'(2) by (simp add: em_awaits_def)
  with e m g t S' V h len st millis_only_os [OF m] show ?thesis
    by (simp add: plc_flying_def plc_keeps_def PlcClient_ready_def PlcClient_validHandle_def tag_waiting_def)
qed

text \<open>A write starts, or is refused and changes nothing.\<close>

lemma plc_write_flies:
  assumes P: "plc_pool plc" and S: "plc_startable plc net" and V: "PlcClient_validHandle h plc"
    and run: "PlcClient_write os h timeoutMs plc net = (st, plc', net')"
  shows "plc_keeps plc plc' \<and> net_tcp net' = net_tcp net \<and>
    (st = Pending \<and> plc_flying plc' h \<or> st \<noteq> Pending \<and> plc_tags plc' = plc_tags plc \<and> plc_startable plc' net')"
proof -
  have S': "plc_state plc = PlcReady" "\<not> em_busy (plc_msg plc)" "TcpConnection_connected (plc_tcp plc) net"
    using S by (simp_all add: plc_startable_def PlcClient_ready_def)
  have h: "nat h < 8" and len: "length (plc_tags plc) = 8"
    using P V plc_handle by (auto simp: plc_pool_def)
  obtain st1 t msg net1 where r: "Tag_write os (plc_tcp plc) (ses_handle (plc_session plc))
      (Some (c_string (plc_tagNames plc ! nat h))) (plc_tagElemCount plc ! nat h) timeoutMs
      (plc_tags plc ! nat h) (plc_msg plc) net = (st1, t, msg, net1)"
    by (metis prod_cases4)
  have e: "st = st1" "plc' = plc\<lparr>plc_tags := (plc_tags plc)[nat h := t], plc_msg := msg\<rparr>" "net' = net1"
    using run r S' V plc_idle_free [OF P] by (simp_all add: PlcClient_write_def)
  have s: "tag_started st1 (plc_tags plc ! nat h) t (plc_msg plc) msg"
    by (rule Tag_write_started [OF plc_pool_i(3,2) [OF P h] r])
  have a: "em_awaits (plc_tcp plc) msg" "net_tcp net1 = net_tcp net"
    using Tag_write_awaits [OF r] S'(2) by (simp_all add: em_awaits_def)
  then have c: "TcpConnection_connected (plc_tcp plc) net1"
    using S'(3) by (simp add: TcpConnection_connected_def)
  show ?thesis
  proof (cases "st1 = Pending")
    case True
    with s have "tag_waiting t"
      by (simp add: tag_started_def)
    with e a True S' V h len show ?thesis
      by (simp add: plc_flying_def plc_keeps_def PlcClient_ready_def PlcClient_validHandle_def)
  next
    case False
    with s have "t = plc_tags plc ! nat h" "\<not> em_busy msg"
      using S'(2) by (simp_all add: tag_started_def)
    with e a c False S' show ?thesis
      by (simp add: plc_startable_def plc_keeps_def PlcClient_ready_def)
  qed
qed

text \<open>Creating a tag: refused when all slots are taken, or one that was free is taken.\<close>

lemma createTag_slot:
  assumes "plc_pool plc" and "nm \<noteq> []" and "length nm < 64" and "PlcClient_createTag (Some nm) n plc = (h, plc')"
  shows "h < 0 \<and> plc' = plc \<and> (\<forall>i < 8. plc_inUse plc ! i) \<or>
    0 \<le> h \<and> h < 8 \<and> \<not> plc_inUse plc ! nat h \<and> plc_inUse plc' = (plc_inUse plc)[nat h := True] \<and>
    PlcClient_validHandle h plc' \<and> plc_msg plc' = plc_msg plc \<and> plc_tcp plc' = plc_tcp plc \<and>
    plc_state plc' = plc_state plc"
proof -
  have len: "length (plc_inUse plc) = 8"
    using assms(1) by (simp add: plc_pool_def)
  note f = findFreeTag_pool [OF len]
  show ?thesis
  proof (cases "pool_free (pool_map plc)")
    case None
    with f assms(2-4) pool_free_None [of "pool_map plc"] show ?thesis
      by (auto simp: PlcClient_createTag_def pool_map_def split: if_splits)
  next
    case (Some i)
    have i: "i < 8" "\<not> plc_inUse plc ! i"
      using pool_free_Some [OF Some] by (auto simp: pool_map_def split: if_splits)
    have "PlcClient_findFreeTag plc = int i"
      using f Some by simp
    then have "h = int i" "plc' = plc\<lparr>plc_tagNames := (plc_tagNames plc)[i := name_slot nm],
        plc_tagElemCount := (plc_tagElemCount plc)[i := n], plc_tagPrevStatus := (plc_tagPrevStatus plc)[i := NotReady],
        plc_inUse := (plc_inUse plc)[i := True]\<rparr>"
      using assms(2-4) by (auto simp: PlcClient_createTag_def Let_def)
    with i len show ?thesis
      by (simp add: PlcClient_validHandle_def)
  qed
qed

lemma plc_keeps_status:
  "plc_keeps plc plc' \<Longrightarrow> plc_tags plc' = plc_tags plc \<Longrightarrow> PlcClient_tagStatus h plc' = PlcClient_tagStatus h plc"
  by (simp add: PlcClient_tagStatus_def plc_keeps_handle)

text \<open>The invariant of the client across the calls the sketches make.\<close>

lemma plc_inv_read: "plc_inv plc net \<Longrightarrow> PlcClient_read os h t plc net = (st, plc', net') \<Longrightarrow> plc_inv plc' net'"
  using PlcClient_read_pool [of plc os h t net st plc' net'] by (simp add: plc_inv_def)

lemma plc_inv_write: "plc_inv plc net \<Longrightarrow> PlcClient_write os h t plc net = (st, plc', net') \<Longrightarrow> plc_inv plc' net'"
  using PlcClient_write_pool [of plc os h t net st plc' net'] by (simp add: plc_inv_def)

lemma plc_inv_destroy: "plc_inv plc net \<Longrightarrow> PlcClient_destroyTag h plc = (st, plc') \<Longrightarrow> plc_inv plc' net"
  using PlcClient_call_inv [of plc net "PcDestroyTag h" undefined undefined plc' net] by simp

lemma PlcClient_tag_status:
  "PlcClient_tagStatus h plc = Ok \<or> PlcClient_tagStatus h plc = Error \<or> PlcClient_tagStatus h plc = Pending \<Longrightarrow>
    PlcClient_validHandle h plc \<and> PlcClient_tag h plc = Some (nat h)"
  by (auto simp: PlcClient_tagStatus_def PlcClient_tag_def split: if_splits)

lemma plc_flying_status: "plc_flying plc h \<Longrightarrow> PlcClient_tagStatus h plc = Pending"
  by (simp add: plc_flying_def PlcClient_tagStatus_def)

lemma PlcClient_connect_rises:
  assumes "PlcClient_connect os ip port t plc net = (st, plc', net')"
  shows "plc_rising plc' \<and> plc_keeps plc plc' \<and> plc_tags plc' = plc_tags plc \<and> plc_msg plc' = plc_msg plc"
  using assms by (auto simp: PlcClient_connect_def plc_rising_def plc_keeps_def Let_def split: if_splits prod.splits)

text \<open>A new client has no message in flight.\<close>

lemma plc_fresh_idle: "plc_fresh plc \<Longrightarrow> \<not> em_busy (plc_msg plc)"
  by (auto simp: plc_fresh_def PlcClient_new_def ExplicitMessage_new_def em_busy_def)

lemma PlcClient_begin_msg: "PlcClient_begin eth cfg plc net = (st, plc', net') \<Longrightarrow> plc_msg plc' = plc_msg plc"
  by (auto simp: PlcClient_begin_def Let_def split: prod.splits)

text \<open>Connecting and closing send nothing.\<close>

lemma tcp_sent:
  "net_sent (TcpConnection_close os c net) = net_sent net"
  "TcpConnection_connect os c ip port t net = (st, net') \<Longrightarrow> net_sent net' = net_sent net"
  by (auto simp: TcpConnection_close_def TcpConnection_connect_def Let_def put_tcp_def
      dest!: millis_only_os only_os_sys simp: only_os_def split: prod.splits if_splits)

lemma PlcClient_connect_sent:
  "PlcClient_connect os ip port t plc net = (st, plc', net') \<Longrightarrow> net_sent net' = net_sent net"
  by (auto simp: PlcClient_connect_def Let_def tcp_sent dest!: tcp_sent(2) millis_only_os simp: only_os_def
      split: prod.splits if_splits)

subsection \<open>The example client, in flight\<close>

lemma demo_reading_flies: "plc_flying demo_reading 0"
proof -
  obtain net1 :: "loopback net" where r: "PlcClient_read loopback_os 0 1000 demo_plc (loopback_net 0 []) =
      (Pending, demo_reading, net1)"
    by (rule demo_reading_starts)
  have P: "plc_pool demo_plc"
    using demo_plc_inv [of 0 "[]"] by (simp add: plc_inv_def)
  have "plc_startable demo_plc (loopback_net 0 [])"
    by (simp add: plc_startable_def PlcClient_ready_def TcpConnection_connected_def loopback_net_def up_tcp_def)
  from plc_read_flies [OF P this demo_plc_facts(9) r] show ?thesis
    by simp
qed

lemma demo_reading_reply:
  assumes "2 \<le> length d" and "length d \<le> 252"
    and p: "PlcClient_poll loopback_os demo_eth cb demo_reading (loopback_net 5 (rr_reply 9 1 0xCC 0 d)) = (st, plc1, net1)"
  shows "PlcClient_tagStatus 0 plc1 = Ok \<and> tag_holds d (plc_tags plc1 ! 0)"
proof -
  obtain net0 :: "loopback net" where r: "PlcClient_read loopback_os 0 1000 demo_plc (loopback_net 0 []) =
      (Pending, demo_reading, net0)"
    by (rule demo_reading_starts)
  have P: "plc_pool demo_plc"
    using demo_plc_inv [of 0 "[]"] by (simp add: plc_inv_def)
  obtain msg t where s: "em_started 0 1000 (rr_request 9 1 0x4C (symbolic_segment demo_name) (leU16 (ucast (1 :: u32))))
      demo_message msg"
    and p1: "demo_reading = demo_plc\<lparr>plc_tags := (plc_tags demo_plc)[nat 0 := t], plc_msg := msg\<rparr>"
    and t: "t = demo_tag\<lparr>tag_dataLen := 0, tag_resultCode := 0, tag_state := TagReading\<rparr>"
    by (rule PlcClient_read_starts [OF P _ _ _ r]) (simp_all add: demo_name_string demo_registered_def)
  have "tag_inv t" "tag_waiting t" "tag_state t = TagReading"
    using demo_tag_inv by (simp_all add: t tag_waiting_def tag_inv_def)
  with PlcClient_started_reply [OF loopback_stream_contract P demo_plc_facts(1,9) _ _ p1 _ _ _ _ assms(2) _ p,
      of 1000 _ 9 "0xCC" 0 "[]"] s assms(1) show ?thesis
    by (simp add: expired_def conn_queue_def)
qed

end
