(* ===== verification/PlcClientDemo.thy ===== *)
theory PlcClientDemo
  imports PlcSketch
begin

text \<open>
  The sketch \<open>src/examples/PlcClientDemo/PlcClientDemo.ino\<close>: through \<open>PlcClient\<close>, without callbacks,
  it connects, reads a DINT, writes it, reads it back, disconnects, waits and begins again. The record
  holds its globals, and as \<open>pd_out\<close> the lines it prints. A call through the
  pointer of \<open>plc.tag(tag)\<close> when that is null is a memory fault.
\<close>

datatype PlcDemoPhase = PdConnect | PdRead | PdWrite | PdVerify | PdDone | PdRetryWait

datatype plc_demo_line =
    PdVersion string
  | PdBegin Status
  | PdConnecting Status
  | PdConnected u32
  | PdConnectFailed Status
  | PdCreateTag int
  | PdValue int
  | PdReadFailed byte
  | PdWrote
  | PdWriteFailed byte
  | PdVerified int
  | PdVerifyFailed byte
  | PdWillRetry

record plc_demo =
  pd_plc :: plc_client
  pd_phase :: PlcDemoPhase
  pd_phaseStarted :: u32
  pd_tag :: int
  pd_out :: "plc_demo_line list"

definition PlcClientDemo_new :: "plc_client \<Rightarrow> plc_demo" where
  "PlcClientDemo_new plc =
     \<lparr> pd_plc = plc, pd_phase = PdConnect, pd_phaseStarted = 0, pd_tag = -1, pd_out = [] \<rparr>"

definition PlcClientDemo_setup ::
  "'w os \<Rightarrow> 'w eth \<Rightarrow> int \<Rightarrow> plc_demo \<Rightarrow> 'w net \<Rightarrow> plc_demo \<times> 'w net" where
  "PlcClientDemo_setup os eth ETH_PHY_W5500 s net =
     (let cfg = (Config_default ETH_PHY_W5500)\<lparr>cfg_ip := LOCAL_IP, cfg_gateway := LOCAL_GATEWAY,
                  cfg_subnet := LOCAL_SUBNET, cfg_dns := LOCAL_DNS\<rparr>
      in case PlcClient_begin eth cfg (pd_plc s) net of (st, plc1, net1) \<Rightarrow>
           (case PlcClient_connect os TARGET_IP TARGET_PORT CONNECT_TIMEOUT_MS plc1 net1 of (st2, plc2, net2) \<Rightarrow>
              (case millis os net2 of (now, net3) \<Rightarrow>
                 (s\<lparr>pd_plc := plc2, pd_phaseStarted := now,
                     pd_out := pd_out s @ [PdVersion version, PdBegin st, PdConnecting st2]\<rparr>, net3))))"

text \<open>The two assignments with which most branches end.\<close>

definition PlcClientDemo_enter ::
  "'w os \<Rightarrow> PlcDemoPhase \<Rightarrow> plc_demo \<Rightarrow> 'w net \<Rightarrow> plc_demo \<times> 'w net" where
  "PlcClientDemo_enter os p s net =
     (case millis os net of (now, net1) \<Rightarrow> (s\<lparr>pd_phase := p, pd_phaseStarted := now\<rparr>, net1))"

definition PlcClientDemo_connect ::
  "'w os \<Rightarrow> 'w eth \<Rightarrow> plc_demo \<Rightarrow> 'w net \<Rightarrow> plc_demo \<times> 'w net" where
  "PlcClientDemo_connect os eth s net =
     (case PlcClient_poll os eth no_callbacks (pd_plc s) net of (st, plc1, net1) \<Rightarrow>
        if PlcClient_ready plc1 then
          (case PlcClient_createTag (Some (chars ''TestDint'')) 1 plc1 of (h, plc2) \<Rightarrow>
             (let s1 = s\<lparr>pd_plc := plc2, pd_tag := h,
                         pd_out := pd_out s @ [PdConnected (PlcClient_sessionHandle plc1), PdCreateTag h]\<rparr> in
              if h < 0 then (s1\<lparr>pd_phase := PdDone\<rparr>, net1)
              else
                (case PlcClient_read os h TAG_TIMEOUT_MS plc2 net1 of (st2, plc3, net2) \<Rightarrow>
                   PlcClientDemo_enter os PdRead (s1\<lparr>pd_plc := plc3\<rparr>) net2)))
        else if st = Timeout \<or> st = Error then
          PlcClientDemo_enter os PdRetryWait
            (s\<lparr>pd_plc := plc1, pd_out := pd_out s @ [PdConnectFailed st]\<rparr>) net1
        else (s\<lparr>pd_plc := plc1\<rparr>, net1))"

text \<open>A failed operation: what it prints is \<open>line\<close> of the result code.\<close>

definition PlcClientDemo_failed ::
  "(byte \<Rightarrow> plc_demo_line) \<Rightarrow> plc_demo \<Rightarrow> 'w net \<Rightarrow> plc_demo \<times> 'w net" where
  "PlcClientDemo_failed line s net =
     (case PlcClient_tag (pd_tag s) (pd_plc s) of
        None \<Rightarrow> (s, net\<lparr>net_fault := True\<rparr>)
      | Some i \<Rightarrow>
          (s\<lparr>pd_out := pd_out s @ [line (tag_resultCode (plc_tags (pd_plc s) ! i))], pd_phase := PdDone\<rparr>, net))"

definition PlcClientDemo_read ::
  "'w os \<Rightarrow> 'w eth \<Rightarrow> plc_demo \<Rightarrow> 'w net \<Rightarrow> plc_demo \<times> 'w net" where
  "PlcClientDemo_read os eth s net =
     (case PlcClient_poll os eth no_callbacks (pd_plc s) net of (st0, plc1, net1) \<Rightarrow>
        (let st = PlcClient_tagStatus (pd_tag s) plc1; s1 = s\<lparr>pd_plc := plc1\<rparr> in
         if st = Ok then
           (case PlcClient_tag (pd_tag s) plc1 of
              None \<Rightarrow> (s1, net1\<lparr>net_fault := True\<rparr>)
            | Some i \<Rightarrow>
                (let t = plc_tags plc1 ! i;
                     plc2 = plc1\<lparr>plc_tags := (plc_tags plc1)[i := Tag_setInt32 0 2026 t]\<rparr>
                 in case PlcClient_write os (pd_tag s) TAG_TIMEOUT_MS plc2 net1 of (st2, plc3, net2) \<Rightarrow>
                      PlcClientDemo_enter os PdWrite
                        (s\<lparr>pd_plc := plc3, pd_out := pd_out s @ [PdValue (Tag_getInt32 0 t)]\<rparr>) net2))
         else if st = Error then PlcClientDemo_failed PdReadFailed s1 net1
         else (s1, net1)))"

definition PlcClientDemo_write ::
  "'w os \<Rightarrow> 'w eth \<Rightarrow> plc_demo \<Rightarrow> 'w net \<Rightarrow> plc_demo \<times> 'w net" where
  "PlcClientDemo_write os eth s net =
     (case PlcClient_poll os eth no_callbacks (pd_plc s) net of (st0, plc1, net1) \<Rightarrow>
        (let st = PlcClient_tagStatus (pd_tag s) plc1; s1 = s\<lparr>pd_plc := plc1\<rparr> in
         if st = Ok then
           (case PlcClient_read os (pd_tag s) TAG_TIMEOUT_MS plc1 net1 of (st2, plc2, net2) \<Rightarrow>
              PlcClientDemo_enter os PdVerify (s\<lparr>pd_plc := plc2, pd_out := pd_out s @ [PdWrote]\<rparr>) net2)
         else if st = Error then PlcClientDemo_failed PdWriteFailed s1 net1
         else (s1, net1)))"

definition PlcClientDemo_verify ::
  "'w os \<Rightarrow> 'w eth \<Rightarrow> plc_demo \<Rightarrow> 'w net \<Rightarrow> plc_demo \<times> 'w net" where
  "PlcClientDemo_verify os eth s net =
     (case PlcClient_poll os eth no_callbacks (pd_plc s) net of (st0, plc1, net1) \<Rightarrow>
        (let st = PlcClient_tagStatus (pd_tag s) plc1; s1 = s\<lparr>pd_plc := plc1\<rparr> in
         if st = Ok then
           (case PlcClient_tag (pd_tag s) plc1 of
              None \<Rightarrow> (s1, net1\<lparr>net_fault := True\<rparr>)
            | Some i \<Rightarrow>
                (case PlcClient_destroyTag (pd_tag s) plc1 of (st2, plc2) \<Rightarrow>
                   PlcClientDemo_enter os PdDone
                     (s\<lparr>pd_plc := plc2, pd_tag := -1,
                         pd_out := pd_out s @ [PdVerified (Tag_getInt32 0 (plc_tags plc1 ! i))]\<rparr>) net1))
         else if st = Error then PlcClientDemo_failed PdVerifyFailed s1 net1
         else (s1, net1)))"

definition PlcClientDemo_done :: "'w os \<Rightarrow> plc_demo \<Rightarrow> 'w net \<Rightarrow> plc_demo \<times> 'w net" where
  "PlcClientDemo_done os s net =
     (case PlcClient_disconnect os (pd_plc s) net of (st, plc1, net1) \<Rightarrow>
        PlcClientDemo_enter os PdRetryWait (s\<lparr>pd_plc := plc1, pd_out := pd_out s @ [PdWillRetry]\<rparr>) net1)"

definition PlcClientDemo_retryWait :: "'w os \<Rightarrow> plc_demo \<Rightarrow> 'w net \<Rightarrow> plc_demo \<times> 'w net" where
  "PlcClientDemo_retryWait os s net =
     (case millis os net of (now, net1) \<Rightarrow>
        if RETRY_DELAY_MS \<le> now - pd_phaseStarted s then
          (case PlcClient_connect os TARGET_IP TARGET_PORT CONNECT_TIMEOUT_MS (pd_plc s) net1 of (st, plc1, net2) \<Rightarrow>
             PlcClientDemo_enter os PdConnect (s\<lparr>pd_plc := plc1\<rparr>) net2)
        else (s, net1))"

definition PlcClientDemo_loop ::
  "'w os \<Rightarrow> 'w eth \<Rightarrow> plc_demo \<Rightarrow> 'w net \<Rightarrow> plc_demo \<times> 'w net" where
  "PlcClientDemo_loop os eth s net =
     (case pd_phase s of
        PdConnect \<Rightarrow> PlcClientDemo_connect os eth s net
      | PdRead \<Rightarrow> PlcClientDemo_read os eth s net
      | PdWrite \<Rightarrow> PlcClientDemo_write os eth s net
      | PdVerify \<Rightarrow> PlcClientDemo_verify os eth s net
      | PdDone \<Rightarrow> PlcClientDemo_done os s net
      | PdRetryWait \<Rightarrow> PlcClientDemo_retryWait os s net)"

subsection \<open>The invariant\<close>

inductive pd_spec :: "PlcDemoPhase \<Rightarrow> PlcDemoPhase \<Rightarrow> bool" where
  stay: "p \<in> {PdConnect, PdRead, PdWrite, PdVerify, PdRetryWait} \<Longrightarrow> pd_spec p p"
| connected: "pd_spec PdConnect PdRead"
| no_slot: "pd_spec PdConnect PdDone"
| no_connection: "pd_spec PdConnect PdRetryWait"
| has_read: "pd_spec PdRead PdWrite"
| has_written: "pd_spec PdWrite PdVerify"
| ended: "p \<in> {PdRead, PdWrite, PdVerify} \<Longrightarrow> pd_spec p PdDone"
| disconnected: "pd_spec PdDone PdRetryWait"
| again: "pd_spec PdRetryWait PdConnect"

definition pd_good :: "plc_demo \<Rightarrow> 'w net \<Rightarrow> bool" where
  "pd_good s net \<longleftrightarrow>
     plc_inv (pd_plc s) net \<and>
     (case pd_phase s of
        PdConnect \<Rightarrow> plc_rising (pd_plc s) \<and> \<not> em_busy (plc_msg (pd_plc s))
      | PdRead \<Rightarrow> plc_flying (pd_plc s) (pd_tag s)
      | PdWrite \<Rightarrow> plc_flying (pd_plc s) (pd_tag s) \<or>
          plc_startable (pd_plc s) net \<and> PlcClient_tagStatus (pd_tag s) (pd_plc s) = Ok
      | PdVerify \<Rightarrow> plc_flying (pd_plc s) (pd_tag s)
      | PdDone \<Rightarrow> \<not> em_busy (plc_msg (pd_plc s)) \<and> plc_state (pd_plc s) \<in> {PlcReady, PlcIdle}
      | PdRetryWait \<Rightarrow> \<not> em_busy (plc_msg (pd_plc s)))"

lemma PlcClientDemo_enter_simp:
  "PlcClientDemo_enter os p s net = (s', net') \<Longrightarrow>
    \<exists>now. s' = s\<lparr>pd_phase := p, pd_phaseStarted := now\<rparr> \<and> millis os net = (now, net')"
  by (auto simp: PlcClientDemo_enter_def split: prod.splits)

text \<open>The slots a turn takes or gives back.\<close>

definition pd_slots :: "plc_demo \<Rightarrow> plc_demo \<Rightarrow> bool" where
  "pd_slots s s' \<longleftrightarrow>
     (let u = plc_inUse (pd_plc s); u' = plc_inUse (pd_plc s'); h = pd_tag s' in
        u' = u \<and> (h = pd_tag s \<or> h < 0) \<and> (pd_phase s = PdConnect \<longrightarrow> pd_phase s' \<noteq> PdRead) \<or>
        pd_phase s = PdConnect \<and> pd_phase s' = PdRead \<and> 0 \<le> h \<and> h < 8 \<and> \<not> u ! nat h \<and> u' = u[nat h := True] \<or>
        pd_phase s = PdVerify \<and> pd_phase s' = PdDone \<and> h = -1 \<and> u' = u[nat (pd_tag s) := False])"

lemma pd_name: "chars ''TestDint'' \<noteq> []" "length (chars ''TestDint'') < 64"
  by (simp_all add: chars_def)

text \<open>A connected client: the tag is created and its read started, or there is no slot for it.\<close>

lemma pd_connect_ready:
  assumes k: "pd_phase s = PdConnect" "plc_inUse plc1 = plc_inUse (pd_plc s)" "\<not> em_busy (plc_msg plc1)"
    and I1: "plc_inv plc1 net1" and ready: "PlcClient_ready plc1" and up: "TcpConnection_connected (plc_tcp plc1) net1"
    and q: "PlcClient_poll os eth no_callbacks (pd_plc s) net = (st, plc1, net1)"
    and run: "PlcClientDemo_loop os eth s net = (s', net')"
  shows "pd_good s' net' \<and> pd_phase s' \<in> {PdRead, PdDone} \<and> pd_slots s s'"
proof -
  obtain h plc2 where c: "PlcClient_createTag (Some (chars ''TestDint'')) 1 plc1 = (h, plc2)" by fastforce
  obtain st2 plc3 net2 where rd: "PlcClient_read os h TAG_TIMEOUT_MS plc2 net1 = (st2, plc3, net2)"
    by (metis prod_cases3)
  have P1: "plc_pool plc1"
    using I1 by (simp add: plc_inv_def)
  have I2: "plc_inv plc2 net1"
    using PlcClient_createTag_pool [OF P1 c] I1 by (simp add: plc_inv_def)
  let ?s1 = "s\<lparr>pd_plc := plc2, pd_tag := h,
      pd_out := pd_out s @ [PdConnected (PlcClient_sessionHandle plc1), PdCreateTag h]\<rparr>"
  have "PlcClientDemo_loop os eth s net = (if h < 0 then (?s1\<lparr>pd_phase := PdDone\<rparr>, net1)
      else PlcClientDemo_enter os PdRead (?s1\<lparr>pd_plc := plc3\<rparr>) net2)"
    using k(1) q ready c rd by (simp add: PlcClientDemo_loop_def PlcClientDemo_connect_def Let_def)
  then have r: "(if h < 0 then (?s1\<lparr>pd_phase := PdDone\<rparr>, net1)
      else PlcClientDemo_enter os PdRead (?s1\<lparr>pd_plc := plc3\<rparr>) net2) = (s', net')"
    using run by simp
  from createTag_slot [OF P1 pd_name c] show ?thesis
  proof (cases rule: disjE)
    assume n: "h < 0 \<and> plc2 = plc1 \<and> (\<forall>i < 8. plc_inUse plc1 ! i)"
    then have "s' = ?s1\<lparr>pd_phase := PdDone\<rparr>" "net' = net1"
      using r by auto
    with n k I1 ready show ?thesis
      by (simp add: pd_good_def pd_slots_def Let_def PlcClient_ready_def)
  next
    assume n: "0 \<le> h \<and> h < 8 \<and> \<not> plc_inUse plc1 ! nat h \<and> plc_inUse plc2 = (plc_inUse plc1)[nat h := True] \<and>
        PlcClient_validHandle h plc2 \<and> plc_msg plc2 = plc_msg plc1 \<and> plc_tcp plc2 = plc_tcp plc1 \<and>
        plc_state plc2 = plc_state plc1"
    then have S: "plc_startable plc2 net1" and V: "PlcClient_validHandle h plc2" and P2: "plc_pool plc2"
      using ready up k(3) I2 by (simp_all add: plc_startable_def PlcClient_ready_def plc_inv_def)
    note f = plc_read_flies [OF P2 S V rd]
    have e: "PlcClientDemo_enter os PdRead (?s1\<lparr>pd_plc := plc3\<rparr>) net2 = (s', net')"
      using r n by auto
    from PlcClientDemo_enter_simp [OF e] obtain now where
      s': "s' = ?s1\<lparr>pd_plc := plc3, pd_phase := PdRead, pd_phaseStarted := now\<rparr>" and m: "millis os net2 = (now, net')"
      by auto
    have "plc_inv plc3 net'"
      using plc_inv_read [OF I2 rd] millis_fault [OF m] by (rule plc_inv_net)
    moreover have "plc_inUse plc3 = (plc_inUse (pd_plc s))[nat h := True]"
      using f n k by (simp add: plc_keeps_def)
    ultimately show ?thesis
      using s' f n k by (simp add: pd_good_def pd_slots_def Let_def)
  qed
qed

text \<open>A client that is not connected yet: the sketch goes on polling, or waits to retry.\<close>

lemma pd_connect_waiting:
  assumes k: "pd_phase s = PdConnect" "plc_inUse plc1 = plc_inUse (pd_plc s)" "\<not> em_busy (plc_msg plc1)"
    and I1: "plc_inv plc1 net1" and wait: "\<not> PlcClient_ready plc1" "plc_rising plc1"
    and q: "PlcClient_poll os eth no_callbacks (pd_plc s) net = (st, plc1, net1)"
    and run: "PlcClientDemo_loop os eth s net = (s', net')"
  shows "pd_good s' net' \<and> pd_phase s' = (if st = Timeout \<or> st = Error then PdRetryWait else PdConnect) \<and> pd_slots s s'"
proof (cases "st = Timeout \<or> st = Error")
  case True
  let ?s1 = "s\<lparr>pd_plc := plc1, pd_out := pd_out s @ [PdConnectFailed st]\<rparr>"
  have "PlcClientDemo_enter os PdRetryWait ?s1 net1 = (s', net')"
    using run k(1) q wait(1) True by (auto simp: PlcClientDemo_loop_def PlcClientDemo_connect_def)
  from PlcClientDemo_enter_simp [OF this] obtain now where
    s': "s' = ?s1\<lparr>pd_phase := PdRetryWait, pd_phaseStarted := now\<rparr>" and m: "millis os net1 = (now, net')"
    by auto
  have "plc_inv plc1 net'"
    using I1 millis_fault [OF m] by (rule plc_inv_net)
  with s' k True show ?thesis
    by (simp add: pd_good_def pd_slots_def Let_def)
next
  case False
  then have "s' = s\<lparr>pd_plc := plc1\<rparr>" "net' = net1"
    using run k(1) q wait(1) by (simp_all add: PlcClientDemo_loop_def PlcClientDemo_connect_def)
  with k I1 wait(2) False show ?thesis
    by (simp add: pd_good_def pd_slots_def Let_def)
qed

lemma pd_connect_turn:
  assumes C: "socket_contract os" and G: "pd_good s net" and p: "pd_phase s = PdConnect"
    and run: "PlcClientDemo_loop os eth s net = (s', net')"
  shows "pd_good s' net' \<and> pd_spec (pd_phase s) (pd_phase s') \<and> pd_slots s s' \<and>
    (pd_phase s' = PdConnect \<longrightarrow> plc_state (pd_plc s) \<noteq> PlcFailed \<and>
       (plc_state (pd_plc s) \<in> {PlcConnecting, PlcRegistering} \<longrightarrow>
          \<not> expired (fst (millis os net)) (plc_deadline (pd_plc s))))"
proof -
  have R: "plc_rising (pd_plc s)" "\<not> em_busy (plc_msg (pd_plc s))" and I: "plc_inv (pd_plc s) net"
    using G p by (simp_all add: pd_good_def)
  obtain st plc1 net1 where q: "PlcClient_poll os eth no_callbacks (pd_plc s) net = (st, plc1, net1)"
    by (metis prod_cases3)
  have I1: "plc_inv plc1 net1"
    using PlcClient_poll_inv [OF tells_ok [OF no_callbacks_tells] C I q] .
  note t = plc_rising_poll [OF R(1) I C no_callbacks_tells q]
  have k: "plc_inUse plc1 = plc_inUse (pd_plc s)" "\<not> em_busy (plc_msg plc1)"
    using t R(2) by (simp_all add: plc_keeps_def)
  show ?thesis
  proof (cases "PlcClient_ready plc1")
    case True
    with t have "TcpConnection_connected (plc_tcp plc1) net1"
      by blast
    from pd_connect_ready [OF p k I1 True this q run] show ?thesis
      unfolding p by (auto intro: pd_spec.connected pd_spec.no_slot)
  next
    case False
    with t have "plc_rising plc1"
      by blast
    note w = pd_connect_waiting [OF p k I1 False this q run]
    have "plc_state (pd_plc s) \<noteq> PlcFailed \<and> (plc_state (pd_plc s) \<in> {PlcConnecting, PlcRegistering} \<longrightarrow>
        \<not> expired (fst (millis os net)) (plc_deadline (pd_plc s)))" if "st \<noteq> Timeout" "st \<noteq> Error"
      using plc_rising_expired [OF _ q] that by blast
    with w show ?thesis
      unfolding p by (auto intro: pd_spec.stay pd_spec.no_connection split: if_splits)
  qed
qed

text \<open>The poll of a working phase.\<close>

lemma pd_work_poll:
  assumes C: "socket_contract os" and I: "plc_inv plc net" and F: "plc_flying plc h"
    and q: "PlcClient_poll os eth no_callbacks plc net = (st, plc1, net1)"
  shows "plc_inv plc1 net1" and "plc_inUse plc1 = plc_inUse plc" and
    "PlcClient_tagStatus h plc1 = Pending \<and> plc_flying plc1 h \<and>
       \<not> expired (fst (millis os net)) (em_deadline (plc_msg plc)) \<or>
     PlcClient_tagStatus h plc1 = Ok \<and> plc_startable plc1 net1 \<or>
     PlcClient_tagStatus h plc1 = Error \<and> \<not> em_busy (plc_msg plc1) \<and> plc_state plc1 \<in> {PlcReady, PlcIdle}"
proof -
  show "plc_inv plc1 net1"
    using PlcClient_poll_inv [OF tells_ok [OF no_callbacks_tells] C I q] .
  have P: "plc_pool plc"
    using I by (simp add: plc_inv_def)
  note f = plc_flying_poll [OF C no_callbacks_tells P F q]
  then show "plc_inUse plc1 = plc_inUse plc"
    by (simp add: plc_keeps_def)
  from f show "PlcClient_tagStatus h plc1 = Pending \<and> plc_flying plc1 h \<and>
       \<not> expired (fst (millis os net)) (em_deadline (plc_msg plc)) \<or>
     PlcClient_tagStatus h plc1 = Ok \<and> plc_startable plc1 net1 \<or>
     PlcClient_tagStatus h plc1 = Error \<and> \<not> em_busy (plc_msg plc1) \<and> plc_state plc1 \<in> {PlcReady, PlcIdle}"
    by blast
qed

lemma PlcClientDemo_failed_simp:
  assumes "PlcClient_tagStatus (pd_tag s) (pd_plc s) = Error"
  shows "PlcClientDemo_failed line s net =
    (s\<lparr>pd_out := pd_out s @ [line (tag_resultCode (plc_tags (pd_plc s) ! nat (pd_tag s)))], pd_phase := PdDone\<rparr>, net)"
  using assms PlcClient_tag_status [of "pd_tag s" "pd_plc s"] by (simp add: PlcClientDemo_failed_def)

text \<open>What a turn of a working phase keeps.\<close>

definition pd_turn :: "'w os \<Rightarrow> plc_demo \<Rightarrow> 'w net \<Rightarrow> plc_demo \<Rightarrow> 'w net \<Rightarrow> bool" where
  "pd_turn os s net s' net' \<longleftrightarrow>
     pd_good s' net' \<and> pd_spec (pd_phase s) (pd_phase s') \<and> pd_slots s s' \<and>
     (pd_phase s' = pd_phase s \<longrightarrow> pd_phase s \<in> {PdRead, PdWrite, PdVerify} \<longrightarrow>
        PlcClient_tagStatus (pd_tag s) (pd_plc s) = Pending \<and>
        \<not> expired (fst (millis os net)) (em_deadline (plc_msg (pd_plc s))))"

lemma pd_wait:
  assumes "pd_phase s \<in> {PdRead, PdWrite, PdVerify}" and "plc_flying (pd_plc s) (pd_tag s)"
    and "plc_inv plc1 net1" and "plc_inUse plc1 = plc_inUse (pd_plc s)" and "plc_flying plc1 (pd_tag s)"
    and "\<not> expired (fst (millis os net)) (em_deadline (plc_msg (pd_plc s)))"
  shows "pd_turn os s net (s\<lparr>pd_plc := plc1\<rparr>) net1"
  using assms plc_flying_status [OF assms(2)]
  by (auto simp: pd_turn_def pd_good_def pd_slots_def intro: pd_spec.stay)

lemma pd_fail:
  assumes "pd_phase s \<in> {PdRead, PdWrite, PdVerify}" and "plc_inv plc1 net1" and "plc_inUse plc1 = plc_inUse (pd_plc s)"
    and "PlcClient_tagStatus (pd_tag s) plc1 = Error" and "\<not> em_busy (plc_msg plc1)"
    and "plc_state plc1 \<in> {PlcReady, PlcIdle}"
    and "PlcClientDemo_failed line (s\<lparr>pd_plc := plc1\<rparr>) net1 = (s', net')"
  shows "pd_turn os s net s' net'"
proof -
  have e: "s' = s\<lparr>pd_plc := plc1, pd_out := pd_out s @ [line (tag_resultCode (plc_tags plc1 ! nat (pd_tag s)))],
      pd_phase := PdDone\<rparr>" "net' = net1"
    using assms(7) PlcClientDemo_failed_simp [of "s\<lparr>pd_plc := plc1\<rparr>" line net1] assms(4) by auto
  have "pd_spec (pd_phase s) PdDone"
    using assms(1) by (rule pd_spec.ended)
  with e assms(1-6) show ?thesis
    by (auto simp: pd_turn_def pd_good_def pd_slots_def)
qed

text \<open>The value is edited between the read and the write.\<close>

lemma pd_edited:
  assumes P: "plc_pool plc" and S: "plc_startable plc net" and ok: "PlcClient_tagStatus h plc = Ok"
  shows "let plc' = plc\<lparr>plc_tags := (plc_tags plc)[nat h := Tag_setInt32 0 2026 (plc_tags plc ! nat h)]\<rparr> in
    plc_pool plc' \<and> plc_startable plc' net \<and> PlcClient_validHandle h plc' \<and> PlcClient_tagStatus h plc' = Ok"
proof -
  note v = PlcClient_tag_status [OF disjI1 [OF ok]]
  have i: "nat h < 8" "nat h < length (plc_tags plc)"
    using v plc_handle [OF P] plc_pool_i(1) [OF P] by blast+
  have "tag_edit (Tag_setInt32 0 2026)"
    by (simp add: tag_edit_def trw_setInt32_inv)
  from PlcClient_edit_pool [OF P this i(1)] show ?thesis
    using S v ok i(2)
    by (simp add: plc_startable_def PlcClient_ready_def PlcClient_validHandle_def PlcClient_tagStatus_def Tag_status_def)
qed

lemma pd_read_turn:
  assumes C: "socket_contract os" and G: "pd_good s net" and p: "pd_phase s = PdRead"
    and run: "PlcClientDemo_loop os eth s net = (s', net')"
  shows "pd_turn os s net s' net'"
proof -
  have F: "plc_flying (pd_plc s) (pd_tag s)" and I: "plc_inv (pd_plc s) net"
    using G p by (simp_all add: pd_good_def)
  obtain st0 plc1 net1 where q: "PlcClient_poll os eth no_callbacks (pd_plc s) net = (st0, plc1, net1)"
    by (metis prod_cases3)
  note w = pd_work_poll [OF C I F q]
  let ?h = "pd_tag s"
  have P1: "plc_pool plc1"
    using w(1) by (simp add: plc_inv_def)
  from w(3) show ?thesis
  proof (elim disjE conjE)
    assume "PlcClient_tagStatus ?h plc1 = Pending" "plc_flying plc1 ?h"
      "\<not> expired (fst (millis os net)) (em_deadline (plc_msg (pd_plc s)))"
    with pd_wait [of s plc1 net1 os net] run p q F w(1,2) show ?thesis
      by (simp add: PlcClientDemo_loop_def PlcClientDemo_read_def Let_def)
  next
    assume "PlcClient_tagStatus ?h plc1 = Error" "\<not> em_busy (plc_msg plc1)" "plc_state plc1 \<in> {PlcReady, PlcIdle}"
    with pd_fail [of s plc1 net1 PdReadFailed s' net' os net] run p q w(1,2) show ?thesis
      by (simp add: PlcClientDemo_loop_def PlcClientDemo_read_def Let_def)
  next
    assume ok: "PlcClient_tagStatus ?h plc1 = Ok" and S: "plc_startable plc1 net1"
    note v = PlcClient_tag_status [OF disjI1 [OF ok]]
    let ?i = "nat ?h" and ?t = "plc_tags plc1 ! nat ?h"
    let ?p2 = "plc1\<lparr>plc_tags := (plc_tags plc1)[?i := Tag_setInt32 0 2026 ?t]\<rparr>"
    have i: "?i < 8" "?i < length (plc_tags plc1)"
      using v plc_handle [OF P1] plc_pool_i(1) [OF P1] by blast+
    note ed = pd_edited [OF P1 S ok]
    have P2: "plc_pool ?p2" and S2: "plc_startable ?p2 net1" and V2: "PlcClient_validHandle ?h ?p2"
      and ok2: "PlcClient_tagStatus ?h ?p2 = Ok"
      using ed by (simp_all add: Let_def)
    have I2: "plc_inv ?p2 net1"
      using w(1) P2 by (simp add: plc_inv_def)
    obtain st2 plc3 net2 where wr: "PlcClient_write os ?h TAG_TIMEOUT_MS ?p2 net1 = (st2, plc3, net2)"
      by (metis prod_cases3)
    note f = plc_write_flies [OF P2 S2 V2 wr]
    note I3 = plc_inv_write [OF I2 wr]
    have e: "PlcClientDemo_enter os PdWrite (s\<lparr>pd_plc := plc3, pd_out := pd_out s @ [PdValue (Tag_getInt32 0 ?t)]\<rparr>) net2 =
        (s', net')"
      using run p q ok v wr by (simp add: PlcClientDemo_loop_def PlcClientDemo_read_def Let_def)
    from PlcClientDemo_enter_simp [OF e] obtain now where
      s': "s' = s\<lparr>pd_plc := plc3, pd_out := pd_out s @ [PdValue (Tag_getInt32 0 ?t)], pd_phase := PdWrite, pd_phaseStarted := now\<rparr>"
      and m: "millis os net2 = (now, net')"
      by auto
    have I': "plc_inv plc3 net'"
      using I3 millis_fault [OF m] by (rule plc_inv_net)
    have u: "plc_inUse plc3 = plc_inUse (pd_plc s)"
      using f w(2) by (simp add: plc_keeps_def)
    have "plc_flying plc3 ?h \<or> plc_startable plc3 net' \<and> PlcClient_tagStatus ?h plc3 = Ok"
    proof (cases "st2 = Pending")
      case False
      then have "plc_tags plc3 = plc_tags ?p2" "plc_startable plc3 net2" "plc_keeps ?p2 plc3"
        using f by blast+
      with ok2 connected_only_os [OF millis_only_os [OF m], of "plc_tcp plc3"] plc_keeps_status show ?thesis
        by (simp add: plc_startable_def)
    qed (use f in blast)
    with s' I' u p show ?thesis
      by (auto simp: pd_turn_def pd_good_def pd_slots_def intro: pd_spec.has_read)
  qed
qed

lemma pd_write_turn:
  assumes C: "socket_contract os" and G: "pd_good s net" and p: "pd_phase s = PdWrite"
    and run: "PlcClientDemo_loop os eth s net = (s', net')"
  shows "pd_turn os s net s' net'"
proof -
  have I: "plc_inv (pd_plc s) net"
    using G by (simp add: pd_good_def)
  obtain st0 plc1 net1 where q: "PlcClient_poll os eth no_callbacks (pd_plc s) net = (st0, plc1, net1)"
    by (metis prod_cases3)
  let ?h = "pd_tag s"
  have I1: "plc_inv plc1 net1"
    using PlcClient_poll_inv [OF tells_ok [OF no_callbacks_tells] C I q] .
  then have P1: "plc_pool plc1"
    by (simp add: plc_inv_def)
  have again: ?thesis if ok: "PlcClient_tagStatus ?h plc1 = Ok" and S: "plc_startable plc1 net1"
    and u: "plc_inUse plc1 = plc_inUse (pd_plc s)"
  proof -
    have v: "PlcClient_validHandle ?h plc1"
      using PlcClient_tag_status [OF disjI1 [OF ok]] by blast
    obtain st2 plc2 net2 where rd: "PlcClient_read os ?h TAG_TIMEOUT_MS plc1 net1 = (st2, plc2, net2)"
      by (metis prod_cases3)
    note f = plc_read_flies [OF P1 S v rd]
    note I2 = plc_inv_read [OF I1 rd]
    have e: "PlcClientDemo_enter os PdVerify (s\<lparr>pd_plc := plc2, pd_out := pd_out s @ [PdWrote]\<rparr>) net2 = (s', net')"
      using run p q ok rd by (simp add: PlcClientDemo_loop_def PlcClientDemo_write_def Let_def)
    from PlcClientDemo_enter_simp [OF e] obtain now where
      s': "s' = s\<lparr>pd_plc := plc2, pd_out := pd_out s @ [PdWrote], pd_phase := PdVerify, pd_phaseStarted := now\<rparr>"
      and m: "millis os net2 = (now, net')"
      by auto
    have "plc_inv plc2 net'"
      using I2 millis_fault [OF m] by (rule plc_inv_net)
    moreover have "plc_inUse plc2 = plc_inUse (pd_plc s)"
      using f u by (simp add: plc_keeps_def)
    ultimately show ?thesis
      using s' f p by (auto simp: pd_turn_def pd_good_def pd_slots_def intro: pd_spec.has_written)
  qed
  show ?thesis
  proof (cases "plc_flying (pd_plc s) ?h")
    case True
    note w = pd_work_poll [OF C I True q]
    from w(3) show ?thesis
    proof (elim disjE conjE)
      assume "PlcClient_tagStatus ?h plc1 = Pending" "plc_flying plc1 ?h"
        "\<not> expired (fst (millis os net)) (em_deadline (plc_msg (pd_plc s)))"
      with pd_wait [of s plc1 net1 os net] run p q True w(1,2) show ?thesis
        by (simp add: PlcClientDemo_loop_def PlcClientDemo_write_def Let_def)
    next
      assume "PlcClient_tagStatus ?h plc1 = Error" "\<not> em_busy (plc_msg plc1)" "plc_state plc1 \<in> {PlcReady, PlcIdle}"
      with pd_fail [of s plc1 net1 PdWriteFailed s' net' os net] run p q w(1,2) show ?thesis
        by (simp add: PlcClientDemo_loop_def PlcClientDemo_write_def Let_def)
    qed (use again w(2) in blast)
  next
    case False
    with G p have S: "plc_startable (pd_plc s) net" "PlcClient_tagStatus ?h (pd_plc s) = Ok"
      by (simp_all add: pd_good_def)
    have P: "plc_pool (pd_plc s)"
      using I by (simp add: plc_inv_def)
    note i = plc_idle_poll [OF P _ _ q]
    have k: "plc_keeps (pd_plc s) plc1" "plc_tags plc1 = plc_tags (pd_plc s)" "plc_startable plc1 net1"
      using i S(1) by (auto simp: plc_startable_def plc_keeps_def PlcClient_ready_def)
    show ?thesis
      using k(1) plc_keeps_status [OF k(1,2)] S(2) by (intro again k(3)) (simp_all add: plc_keeps_def)
  qed
qed

lemma pd_verify_turn:
  assumes C: "socket_contract os" and G: "pd_good s net" and p: "pd_phase s = PdVerify"
    and run: "PlcClientDemo_loop os eth s net = (s', net')"
  shows "pd_turn os s net s' net'"
proof -
  have F: "plc_flying (pd_plc s) (pd_tag s)" and I: "plc_inv (pd_plc s) net"
    using G p by (simp_all add: pd_good_def)
  obtain st0 plc1 net1 where q: "PlcClient_poll os eth no_callbacks (pd_plc s) net = (st0, plc1, net1)"
    by (metis prod_cases3)
  note w = pd_work_poll [OF C I F q]
  let ?h = "pd_tag s"
  from w(3) show ?thesis
  proof (elim disjE conjE)
    assume "PlcClient_tagStatus ?h plc1 = Pending" "plc_flying plc1 ?h"
      "\<not> expired (fst (millis os net)) (em_deadline (plc_msg (pd_plc s)))"
    with pd_wait [of s plc1 net1 os net] run p q F w(1,2) show ?thesis
      by (simp add: PlcClientDemo_loop_def PlcClientDemo_verify_def Let_def)
  next
    assume "PlcClient_tagStatus ?h plc1 = Error" "\<not> em_busy (plc_msg plc1)" "plc_state plc1 \<in> {PlcReady, PlcIdle}"
    with pd_fail [of s plc1 net1 PdVerifyFailed s' net' os net] run p q w(1,2) show ?thesis
      by (simp add: PlcClientDemo_loop_def PlcClientDemo_verify_def Let_def)
  next
    assume ok: "PlcClient_tagStatus ?h plc1 = Ok" and S: "plc_startable plc1 net1"
    note v = PlcClient_tag_status [OF disjI1 [OF ok]]
    let ?l = "pd_out s @ [PdVerified (Tag_getInt32 0 (plc_tags plc1 ! nat ?h))]"
      and ?p2 = "plc1\<lparr>plc_inUse := (plc_inUse plc1)[nat ?h := False]\<rparr>"
    have e: "PlcClientDemo_enter os PdDone (s\<lparr>pd_plc := ?p2, pd_tag := -1, pd_out := ?l\<rparr>) net1 = (s', net')"
      using run p q ok v by (simp add: PlcClientDemo_loop_def PlcClientDemo_verify_def PlcClient_destroyTag_def Let_def)
    from PlcClientDemo_enter_simp [OF e] obtain now where
      s': "s' = s\<lparr>pd_plc := ?p2, pd_tag := -1, pd_out := ?l, pd_phase := PdDone, pd_phaseStarted := now\<rparr>"
      and m: "millis os net1 = (now, net')"
      by auto
    have d: "PlcClient_destroyTag ?h plc1 = (Ok, ?p2)"
      using v by (simp add: PlcClient_destroyTag_def)
    have "plc_inv ?p2 net'"
      using plc_inv_destroy [OF w(1) d] millis_fault [OF m] by (rule plc_inv_net)
    with s' p S w(2) show ?thesis
      by (auto simp: pd_turn_def pd_good_def pd_slots_def plc_startable_def PlcClient_ready_def
          intro: pd_spec.ended)
  qed
qed

text \<open>Done and the wait.\<close>

lemma pd_done_turn:
  assumes C: "socket_contract os" and G: "pd_good s net" and p: "pd_phase s = PdDone"
    and run: "PlcClientDemo_loop os eth s net = (s', net')"
  shows "pd_turn os s net s' net'"
proof -
  have I: "plc_inv (pd_plc s) net" and B: "\<not> em_busy (plc_msg (pd_plc s))"
    using G p by (auto simp: pd_good_def)
  obtain st plc1 net1 where d: "PlcClient_disconnect os (pd_plc s) net = (st, plc1, net1)"
    by (metis prod_cases3)
  have "PlcClientDemo_enter os PdRetryWait (s\<lparr>pd_plc := plc1, pd_out := pd_out s @ [PdWillRetry]\<rparr>) net1 = (s', net')"
    using run p d by (simp add: PlcClientDemo_loop_def PlcClientDemo_done_def)
  from PlcClientDemo_enter_simp [OF this] obtain now where
    s': "s' = s\<lparr>pd_plc := plc1, pd_out := pd_out s @ [PdWillRetry], pd_phase := PdRetryWait, pd_phaseStarted := now\<rparr>"
    and m: "millis os net1 = (now, net')"
    by auto
  have "plc_inv plc1 net'"
    using PlcClient_disconnect_inv [OF I d] millis_fault [OF m] by (rule plc_inv_net)
  moreover have "plc_inUse plc1 = plc_inUse (pd_plc s)" "plc_msg plc1 = plc_msg (pd_plc s)"
    using d by (auto simp: PlcClient_disconnect_def split: if_splits prod.splits)
  ultimately show ?thesis
    using s' p B by (auto simp: pd_turn_def pd_good_def pd_slots_def intro: pd_spec.disconnected)
qed

lemma pd_retryWait_turn:
  assumes C: "socket_contract os" and G: "pd_good s net" and p: "pd_phase s = PdRetryWait"
    and run: "PlcClientDemo_loop os eth s net = (s', net')"
  shows "pd_turn os s net s' net' \<and>
    (pd_phase s' = PdConnect \<longleftrightarrow> RETRY_DELAY_MS \<le> fst (millis os net) - pd_phaseStarted s)"
proof -
  have I: "plc_inv (pd_plc s) net" and B: "\<not> em_busy (plc_msg (pd_plc s))"
    using G p by (simp_all add: pd_good_def)
  obtain now net1 where m: "millis os net = (now, net1)" by fastforce
  have I1: "plc_inv (pd_plc s) net1"
    using I millis_fault [OF m] by (rule plc_inv_net)
  obtain st plc1 net2 where c: "PlcClient_connect os TARGET_IP TARGET_PORT CONNECT_TIMEOUT_MS (pd_plc s) net1 =
      (st, plc1, net2)"
    by (metis prod_cases3)
  note r = PlcClient_connect_rises [OF c]
  show ?thesis
  proof (cases "RETRY_DELAY_MS \<le> now - pd_phaseStarted s")
    case False
    with run p m I1 B show ?thesis
      by (auto simp: PlcClientDemo_loop_def PlcClientDemo_retryWait_def pd_turn_def pd_good_def pd_slots_def
          intro: pd_spec.stay)
  next
    case True
    then have "PlcClientDemo_enter os PdConnect (s\<lparr>pd_plc := plc1\<rparr>) net2 = (s', net')"
      using run p m c by (simp add: PlcClientDemo_loop_def PlcClientDemo_retryWait_def)
    from PlcClientDemo_enter_simp [OF this] obtain now2 where
      s': "s' = s\<lparr>pd_plc := plc1, pd_phase := PdConnect, pd_phaseStarted := now2\<rparr>" and m2: "millis os net2 = (now2, net')"
      by auto
    have "plc_inv plc1 net'"
      using PlcClient_connect_inv [OF I1 c] millis_fault [OF m2] by (rule plc_inv_net)
    with s' r p B True m show ?thesis
      by (auto simp: pd_turn_def pd_good_def pd_slots_def plc_keeps_def intro: pd_spec.again)
  qed
qed

end
