(* ===== verification/PlcDemoProperties.thy ===== *)
theory PlcDemoProperties
  imports PlcClientDemo
begin

text \<open>
  What \<open>PlcClientDemo\<close> does: it is safe and never stuck past a deadline, and where it goes wrong.
\<close>

subsection \<open>Every turn\<close>

lemma pd_loop_turn:
  assumes "socket_contract os" and "pd_good s net" and "PlcClientDemo_loop os eth s net = (s', net')"
  shows "pd_turn os s net s' net'"
proof (cases "pd_phase s")
  case PdConnect
  with pd_connect_turn [OF assms(1,2) PdConnect assms(3)] show ?thesis
    by (simp add: pd_turn_def)
next
  case PdRetryWait
  with pd_retryWait_turn [OF assms(1,2) PdRetryWait assms(3)] show ?thesis
    by blast
qed (rule pd_read_turn [OF assms(1,2) _ assms(3)] pd_write_turn [OF assms(1,2) _ assms(3)]
      pd_verify_turn [OF assms(1,2) _ assms(3)] pd_done_turn [OF assms(1,2) _ assms(3)], assumption)+

lemma pd_good_world: "pd_good s (net\<lparr>net_os := w\<rparr>) = pd_good s net"
proof -
  have "plc_inv (pd_plc s) (net\<lparr>net_os := w\<rparr>) = plc_inv (pd_plc s) net"
    and "plc_startable (pd_plc s) (net\<lparr>net_os := w\<rparr>) = plc_startable (pd_plc s) net"
    by (simp_all add: plc_inv_def plc_startable_def TcpConnection_connected_def)
  then show ?thesis
    by (simp add: pd_good_def split: PlcDemoPhase.split)
qed

lemma pd_reach_good:
  assumes "socket_contract os" and "pd_good s0 net0" and "sketch_reach (PlcClientDemo_loop os eth) s0 net0 s net"
  shows "pd_good s net"
  using assms(3)
proof (induction rule: sketch_reach.induct)
  case (turn s net s' net')
  with pd_loop_turn [OF assms(1)] show ?case
    by (auto simp: pd_turn_def)
next
  case (world s net w)
  then show ?case
    by (simp add: pd_good_world)
qed (rule assms(2))

lemma PlcClientDemo_setup_good:
  assumes "plc_fresh plc" and "\<not> net_fault net"
    and run: "PlcClientDemo_setup os eth phy (PlcClientDemo_new plc) net = (s, net')"
  shows "pd_good s net'"
proof -
  let ?cfg = "(Config_default phy)\<lparr>cfg_ip := LOCAL_IP, cfg_gateway := LOCAL_GATEWAY,
      cfg_subnet := LOCAL_SUBNET, cfg_dns := LOCAL_DNS\<rparr>"
  obtain st plc1 net1 where b: "PlcClient_begin eth ?cfg plc net = (st, plc1, net1)"
    by (metis prod_cases3)
  obtain st2 plc2 net2 where c: "PlcClient_connect os TARGET_IP TARGET_PORT CONNECT_TIMEOUT_MS plc1 net1 =
      (st2, plc2, net2)"
    by (metis prod_cases3)
  obtain now net3 where m: "millis os net2 = (now, net3)" by fastforce
  have "plc_inv plc2 net3"
    using PlcClient_connect_inv [OF PlcClient_begin_inv [OF plc_fresh_inv [OF assms(1,2)] b] c] millis_fault [OF m]
    by (rule plc_inv_net)
  with run b c m PlcClient_connect_rises [OF c] plc_fresh_idle [OF assms(1)] PlcClient_begin_msg [OF b] show ?thesis
    by (auto simp: PlcClientDemo_setup_def PlcClientDemo_new_def pd_good_def Let_def)
qed

text \<open>
  C18. The sketch over the public API is safe, and its phases follow their state machine. From a
  client just constructed, after \<open>setup()\<close>, any number of turns, and anything the network does: the
  invariant of the client holds, no access leaves its buffer, the pointer of the tag is not null in
  the phases that use it, no operation is in flight in the others, and a turn is a step of the
  machine.
\<close>

theorem PlcClientDemo_runs:
  assumes "socket_contract os" and "plc_fresh plc" and "\<not> net_fault net"
    and "PlcClientDemo_setup os eth phy (PlcClientDemo_new plc) net = (s0, net0)"
    and "sketch_reach (PlcClientDemo_loop os eth) s0 net0 s net1" and "PlcClientDemo_loop os eth s net1 = (s', net2)"
  shows "plc_inv (pd_plc s) net1 \<and> \<not> net_fault net2 \<and>
    (if pd_phase s \<in> {PdRead, PdWrite, PdVerify} then PlcClient_tag (pd_tag s) (pd_plc s) \<noteq> None
     else \<not> PlcClient_anyTagBusy (pd_plc s)) \<and>
    pd_spec (pd_phase s) (pd_phase s')"
proof -
  have G: "pd_good s net1"
    using pd_reach_good [OF assms(1) PlcClientDemo_setup_good [OF assms(2-4)] assms(5)] .
  then have P: "plc_pool (pd_plc s)" "plc_inv (pd_plc s) net1"
    by (simp_all add: pd_good_def plc_inv_def)
  have t: "pd_turn os s net1 s' net2"
    by (rule pd_loop_turn [OF assms(1) G assms(6)])
  have "PlcClient_tag (pd_tag s) (pd_plc s) \<noteq> None" if "pd_phase s \<in> {PdRead, PdWrite, PdVerify}"
    using that G PlcClient_tag_status [of "pd_tag s" "pd_plc s"] plc_flying_status [of "pd_plc s" "pd_tag s"]
    by (auto simp: pd_good_def)
  moreover have "\<not> PlcClient_anyTagBusy (pd_plc s)" if "pd_phase s \<notin> {PdRead, PdWrite, PdVerify}"
    using that G plc_idle_free [OF P(1)] by (cases "pd_phase s") (auto simp: pd_good_def)
  ultimately show ?thesis
    using t P(2) by (auto simp: pd_turn_def pd_good_def plc_inv_def)
qed

text \<open>
  C31. No phase of the sketch waits past a deadline. A turn leaves the connect phase once the
  connect has failed or its deadline has passed, the phases of an operation once the deadline of the
  request has passed, the wait exactly when five seconds have passed, and \<open>Done\<close> at once.
\<close>

theorem PlcClientDemo_deadlines:
  assumes "socket_contract os" and "plc_fresh plc" and "\<not> net_fault net"
    and "PlcClientDemo_setup os eth phy (PlcClientDemo_new plc) net = (s0, net0)"
    and "sketch_reach (PlcClientDemo_loop os eth) s0 net0 s net1" and "PlcClientDemo_loop os eth s net1 = (s', net2)"
    and "millis os net1 = (now, net3)"
    and "case pd_phase s of
        PdConnect \<Rightarrow> plc_state (pd_plc s) = PlcFailed \<or>
          plc_state (pd_plc s) \<in> {PlcConnecting, PlcRegistering} \<and> expired now (plc_deadline (pd_plc s))
      | PdRetryWait \<Rightarrow> 5000 \<le> now - pd_phaseStarted s
      | PdDone \<Rightarrow> True
      | _ \<Rightarrow> expired now (em_deadline (plc_msg (pd_plc s)))"
  shows "pd_phase s' \<noteq> pd_phase s"
proof -
  have G: "pd_good s net1"
    using pd_reach_good [OF assms(1) PlcClientDemo_setup_good [OF assms(2-4)] assms(5)] .
  have t: "pd_turn os s net1 s' net2"
    by (rule pd_loop_turn [OF assms(1) G assms(6)])
  have m: "fst (millis os net1) = now"
    using assms(7) by simp
  show ?thesis
  proof (cases "pd_phase s")
    case PdConnect
    with pd_connect_turn [OF assms(1) G PdConnect assms(6)] assms(8) m show ?thesis
      by auto
  next
    case PdRetryWait
    with pd_retryWait_turn [OF assms(1) G PdRetryWait assms(6)] assms(8) m show ?thesis
      by (auto simp: RETRY_DELAY_MS_def)
  next
    case PdDone
    then have "pd_spec PdDone (pd_phase s')"
      using t by (simp add: pd_turn_def)
    with PdDone show ?thesis
      by (auto elim: pd_spec.cases)
  qed (use t assms(8) m in \<open>auto simp: pd_turn_def\<close>)
qed

subsection \<open>What goes wrong\<close>

text \<open>A slot that has been lost, and a pool that is full.\<close>

definition pd_lost :: "nat \<Rightarrow> plc_demo \<Rightarrow> bool" where
  "pd_lost i s \<longleftrightarrow>
     i < 8 \<and> plc_inUse (pd_plc s) ! i \<and> (pd_phase s \<in> {PdRead, PdWrite, PdVerify} \<longrightarrow> pd_tag s \<noteq> int i)"

definition pd_full :: "plc_demo \<Rightarrow> bool" where
  "pd_full s \<longleftrightarrow> (\<forall>i < 8. plc_inUse (pd_plc s) ! i) \<and> pd_phase s \<in> {PdConnect, PdDone, PdRetryWait}"

inductive_cases pd_spec_to: "pd_spec p q"

lemma pd_lost_turn:
  assumes G: "pd_good s net" and t: "pd_turn os s net s' net'"
  shows "pd_lost i s \<Longrightarrow> pd_lost i s'" and "pd_full s \<Longrightarrow> pd_full s'"
proof -
  have len: "length (plc_inUse (pd_plc s)) = 8"
    using G by (simp add: pd_good_def plc_inv_def plc_pool_def)
  have sp: "pd_spec (pd_phase s) (pd_phase s')" and sl: "pd_slots s s'"
    using t by (simp_all add: pd_turn_def)
  have v: "0 \<le> pd_tag s" if "pd_phase s = PdVerify"
    using G that by (simp add: pd_good_def plc_flying_def PlcClient_validHandle_def)
  from sl consider
      (same) "plc_inUse (pd_plc s') = plc_inUse (pd_plc s)" "pd_tag s' = pd_tag s \<or> pd_tag s' < 0"
        "pd_phase s = PdConnect \<longrightarrow> pd_phase s' \<noteq> PdRead"
    | (new) "pd_phase s = PdConnect" "pd_phase s' = PdRead" "0 \<le> pd_tag s'" "pd_tag s' < 8"
        "\<not> plc_inUse (pd_plc s) ! nat (pd_tag s')"
        "plc_inUse (pd_plc s') = (plc_inUse (pd_plc s))[nat (pd_tag s') := True]"
    | (free) "pd_phase s = PdVerify" "pd_phase s' = PdDone"
        "plc_inUse (pd_plc s') = (plc_inUse (pd_plc s))[nat (pd_tag s) := False]"
    unfolding pd_slots_def Let_def by blast
  note cs = this
  show "pd_lost i s'" if l: "pd_lost i s"
    using cs
  proof cases
    case same
    with l sp show ?thesis
      by (auto simp: pd_lost_def elim: pd_spec.cases)
  next
    case new
    with l len show ?thesis
      by (auto simp: pd_lost_def nth_update_if)
  next
    case free
    with l len v show ?thesis
      by (auto simp: pd_lost_def nth_update_if)
  qed
  show "pd_full s'" if f: "pd_full s"
    using cs
  proof cases
    case same
    with f sp show ?thesis
      by (auto simp: pd_full_def elim: pd_spec.cases)
  next
    case new
    with f show ?thesis
      by (auto simp: pd_full_def)
  next
    case free
    with f show ?thesis
      by (simp add: pd_full_def)
  qed
qed

lemma pd_lost_reach:
  assumes "socket_contract os" and "pd_good s0 net0" and "sketch_reach (PlcClientDemo_loop os eth) s0 net0 s net"
  shows "(pd_lost i s0 \<longrightarrow> pd_lost i s) \<and> (pd_full s0 \<longrightarrow> pd_full s)"
  using assms(3)
proof (induction rule: sketch_reach.induct)
  case (turn s net s' net')
  then have G: "pd_good s net"
    using pd_reach_good [OF assms(1,2)] by blast
  with turn pd_lost_turn [OF G pd_loop_turn [OF assms(1) G turn.hyps(2)]] show ?case
    by blast
qed simp_all

text \<open>
  C37. A failed operation leaks its slot. When a read, a write or a verification fails, the sketch
  drops the handle without destroying the tag: the slot is in use for ever, and never used again.
  Once that has happened to all eight, no later turn reads or writes a tag: the sketch connects,
  finds no slot, disconnects and waits, for ever.
\<close>

theorem PlcClientDemo_leaks:
  assumes "socket_contract os" and "pd_good s net" and "pd_phase s \<in> {PdRead, PdWrite, PdVerify}"
    and "PlcClientDemo_loop os eth s net = (s1, net1)" and "pd_phase s1 = PdDone" and "pd_tag s1 = pd_tag s"
    and "sketch_reach (PlcClientDemo_loop os eth) s1 net1 s' net'"
  shows "plc_inUse (pd_plc s') ! nat (pd_tag s) \<and>
    (pd_phase s' \<in> {PdRead, PdWrite, PdVerify} \<longrightarrow> pd_tag s' \<noteq> pd_tag s) \<and>
    ((\<forall>i < 8. plc_inUse (pd_plc s1) ! i) \<longrightarrow> pd_phase s' \<in> {PdConnect, PdDone, PdRetryWait})"
proof -
  have t: "pd_turn os s net s1 net1"
    by (rule pd_loop_turn [OF assms(1,2,4)])
  then have G1: "pd_good s1 net1"
    by (simp add: pd_turn_def)
  have v: "PlcClient_validHandle (pd_tag s) (pd_plc s)"
    using assms(2,3) PlcClient_tag_status [of "pd_tag s" "pd_plc s"] plc_flying_status [of "pd_plc s" "pd_tag s"]
    by (auto simp: pd_good_def)
  have "pd_tag s1 \<noteq> -1"
    using v assms(6) by (simp add: PlcClient_validHandle_def)
  then have u: "plc_inUse (pd_plc s1) = plc_inUse (pd_plc s)"
    using t assms(5) by (auto simp: pd_turn_def pd_slots_def Let_def)
  have l: "pd_lost (nat (pd_tag s)) s1"
    using v u assms(5) by (auto simp: pd_lost_def PlcClient_validHandle_def)
  note r = pd_lost_reach [OF assms(1) G1 assms(7)]
  have "pd_lost (nat (pd_tag s)) s'"
    using r l by blast
  moreover have "pd_full s'" if "\<forall>i < 8. plc_inUse (pd_plc s1) ! i"
    using r that assms(5) by (simp add: pd_full_def)
  ultimately show ?thesis
    using v by (auto simp: pd_lost_def pd_full_def PlcClient_validHandle_def)
qed

text \<open>A write that \<open>Tag\<close> refuses changes nothing.\<close>

lemma pd_write_refused:
  assumes S: "plc_startable plc net" and V: "PlcClient_validHandle h plc" and P: "plc_pool plc"
    and r: "tag_dataType (plc_tags plc ! nat h) = 0 \<or>
      Tag_writeLength (plc_tagElemCount plc ! nat h) (plc_tags plc ! nat h) = None"
  obtains st where "PlcClient_write os h TAG_TIMEOUT_MS plc net = (st, plc, net)"
proof -
  have ready: "plc_state plc = PlcReady" "\<not> PlcClient_anyTagBusy plc"
    using S plc_idle_free [OF P] by (simp_all add: plc_startable_def PlcClient_ready_def)
  obtain st t3 msg3 net3 where w: "Tag_write os (plc_tcp plc) (ses_handle (plc_session plc))
      (Some (c_string (plc_tagNames plc ! nat h))) (plc_tagElemCount plc ! nat h) TAG_TIMEOUT_MS
      (plc_tags plc ! nat h) (plc_msg plc) net = (st, t3, msg3, net3)"
    by (metis prod_cases4)
  then have "t3 = plc_tags plc ! nat h \<and> msg3 = plc_msg plc \<and> net3 = net"
    using r by (auto simp: Tag_write_def Tag_startWrite_def split: if_splits option.splits)
  then show thesis
    using that [of st] ready V w by (simp add: PlcClient_write_def)
qed

text \<open>The turn after a write that was not started takes it for done, and starts the next read.\<close>

lemma pd_write_unsent:
  assumes "socket_contract os" and p: "pd_phase s = PdWrite" and I: "plc_inv (pd_plc s) net"
    and S: "plc_startable (pd_plc s) net" and ok: "PlcClient_tagStatus (pd_tag s) (pd_plc s) = Ok"
    and run: "PlcClientDemo_loop os eth s net = (s', net')"
  shows "pd_phase s' = PdVerify \<and> pd_out s' = pd_out s @ [PdWrote] \<and> net_sent net' = net_sent net"
proof -
  obtain st3 p3 n3 where q: "PlcClient_poll os eth no_callbacks (pd_plc s) net = (st3, p3, n3)"
    by (metis prod_cases3)
  have P: "plc_pool (pd_plc s)"
    using I by (simp add: plc_inv_def)
  have idle: "plc_keeps (pd_plc s) p3" "plc_tags p3 = plc_tags (pd_plc s)" "n3 = net" "plc_startable p3 net"
    using plc_idle_poll [OF P _ _ q] S by (auto simp: plc_startable_def PlcClient_ready_def plc_keeps_def)
  have ok3: "PlcClient_tagStatus (pd_tag s) p3 = Ok"
    using plc_keeps_status [OF idle(1,2)] ok by simp
  have P3: "plc_pool p3"
    using PlcClient_poll_inv [OF tells_ok [OF no_callbacks_tells] assms(1) I q] by (simp add: plc_inv_def)
  obtain st4 p4 n4 where rd: "PlcClient_read os (pd_tag s) TAG_TIMEOUT_MS p3 net = (st4, p4, n4)"
    by (metis prod_cases3)
  have V3: "PlcClient_validHandle (pd_tag s) p3"
    using PlcClient_tag_status [OF disjI1 [OF ok3]] by blast
  note f = plc_read_flies [OF P3 idle(4) V3 rd]
  have "PlcClientDemo_enter os PdVerify (s\<lparr>pd_plc := p4, pd_out := pd_out s @ [PdWrote]\<rparr>) n4 = (s', net')"
    using run p q ok3 rd idle(3) by (simp add: PlcClientDemo_loop_def PlcClientDemo_write_def Let_def)
  from PlcClientDemo_enter_simp [OF this] obtain now where
    s': "s' = s\<lparr>pd_plc := p4, pd_out := pd_out s @ [PdWrote], pd_phase := PdVerify, pd_phaseStarted := now\<rparr>"
    and m: "millis os n4 = (now, net')"
    by auto
  with f millis_only_os [OF m] show ?thesis
    by (simp add: only_os_def)
qed

text \<open>
  C38. A write that is never sent is reported as done. When the tag that was read has a type the
  library cannot write, \<open>plc.write()\<close> refuses; the sketch ignores that, finds the tag still
  \<open>Ok\<close>, and prints \<open>wrote TestDint = 2026\<close>, with nothing sent since the read.
\<close>

theorem PlcClientDemo_false_write:
  assumes "socket_contract os" and "pd_good s net" and "pd_phase s = PdRead"
    and "PlcClient_poll os eth no_callbacks (pd_plc s) net = (st, plc1, net1)"
    and "PlcClient_tagStatus (pd_tag s) plc1 = Ok" and "t = plc_tags plc1 ! nat (pd_tag s)"
    and "tag_dataType t = 0 \<or>
      Tag_writeLength (plc_tagElemCount plc1 ! nat (pd_tag s)) (Tag_setInt32 0 2026 t) = None"
    and "PlcClientDemo_loop os eth s net = (s1, net2)"
    and "PlcClientDemo_loop os eth s1 (net2\<lparr>net_os := w\<rparr>) = (s2, net3)"
  shows "pd_phase s1 = PdWrite \<and> pd_phase s2 = PdVerify \<and>
    pd_out s2 = pd_out s @ [PdValue (Tag_getInt32 0 t), PdWrote] \<and> net_sent net3 = net_sent net1"
proof -
  let ?h = "pd_tag s"
  let ?p2 = "plc1\<lparr>plc_tags := (plc_tags plc1)[nat ?h := Tag_setInt32 0 2026 t]\<rparr>" and ?n = "net2\<lparr>net_os := w\<rparr>"
  have F: "plc_flying (pd_plc s) ?h" and I: "plc_inv (pd_plc s) net"
    using assms(2,3) by (simp_all add: pd_good_def)
  note w1 = pd_work_poll [OF assms(1) I F assms(4)]
  note v = PlcClient_tag_status [OF disjI1 [OF assms(5)]]
  have P1: "plc_pool plc1" and S: "plc_startable plc1 net1"
    using w1 assms(5) by (auto simp: plc_inv_def)
  have ed: "plc_pool ?p2" "plc_startable ?p2 net1" "PlcClient_validHandle ?h ?p2" "PlcClient_tagStatus ?h ?p2 = Ok"
    using pd_edited [OF P1 S assms(5)] by (simp_all add: assms(6) Let_def)
  have i: "nat ?h < length (plc_tags plc1)"
    using v plc_handle [OF P1] plc_pool_i(1) [OF P1] by blast
  have "tag_dataType (plc_tags ?p2 ! nat ?h) = 0 \<or>
      Tag_writeLength (plc_tagElemCount ?p2 ! nat ?h) (plc_tags ?p2 ! nat ?h) = None"
    using assms(7) i by (auto simp: Tag_setInt32_def)
  then obtain st2 where wr: "PlcClient_write os ?h TAG_TIMEOUT_MS ?p2 net1 = (st2, ?p2, net1)"
    using pd_write_refused [OF ed(2,3,1)] by blast
  have "PlcClientDemo_enter os PdWrite (s\<lparr>pd_plc := ?p2, pd_out := pd_out s @ [PdValue (Tag_getInt32 0 t)]\<rparr>) net1 =
      (s1, net2)"
    using assms(3,8) assms(4-6) v wr by (simp add: PlcClientDemo_loop_def PlcClientDemo_read_def Let_def)
  from PlcClientDemo_enter_simp [OF this] obtain now where
    s1: "s1 = s\<lparr>pd_plc := ?p2, pd_out := pd_out s @ [PdValue (Tag_getInt32 0 t)], pd_phase := PdWrite, pd_phaseStarted := now\<rparr>"
    and m: "millis os net1 = (now, net2)"
    by auto
  have n: "net_sent ?n = net_sent net1" "plc_startable ?p2 ?n" "plc_inv ?p2 ?n"
    using millis_only_os [OF m] ed(1,2) w1(1)
    by (simp_all add: only_os_def plc_startable_def PlcClient_ready_def TcpConnection_connected_def plc_inv_def)
  have "pd_phase s2 = PdVerify \<and> pd_out s2 = pd_out s1 @ [PdWrote] \<and> net_sent net3 = net_sent ?n"
    by (rule pd_write_unsent [OF assms(1) _ _ _ _ assms(9)]) (use n ed s1 in simp_all)
  with s1 n(1) show ?thesis
    by simp
qed

text \<open>
  The session is never closed. The client is only \<open>Disconnecting\<close> while the sketch waits, and
  there it is not polled, so no \<open>UnregisterSession\<close> is sent: a turn sends nothing, and leaves the
  client as it is or starts the next connect, which drops the connection. (The sketch prints
  \<open>done; will retry.\<close>; \<open>PlcClient.h\<close> says \<open>disconnect()\<close> begins a graceful disconnect.)
\<close>

theorem PlcClientDemo_never_unregisters:
  assumes "pd_good s net" and "plc_state (pd_plc s) = PlcDisconnecting" and "PlcClientDemo_loop os eth s net = (s', net')"
  shows "pd_phase s = PdRetryWait \<and> net_sent net' = net_sent net \<and>
    (pd_plc s' = pd_plc s \<or> pd_phase s' = PdConnect \<and> plc_state (pd_plc s') \<noteq> PlcDisconnecting)"
proof -
  have p: "pd_phase s = PdRetryWait"
    using assms(1,2) by (cases "pd_phase s")
      (auto simp: pd_good_def plc_rising_def plc_flying_def plc_startable_def PlcClient_ready_def)
  obtain now net3 where m: "millis os net = (now, net3)" by fastforce
  obtain st plc1 net4 where c: "PlcClient_connect os TARGET_IP TARGET_PORT CONNECT_TIMEOUT_MS (pd_plc s) net3 =
      (st, plc1, net4)"
    by (metis prod_cases3)
  have sent: "net_sent net3 = net_sent net" "net_sent net4 = net_sent net3"
    using millis_only_os [OF m] PlcClient_connect_sent [OF c] by (simp_all add: only_os_def)
  have "plc_state plc1 \<noteq> PlcDisconnecting"
    using PlcClient_connect_rises [OF c] by (auto simp: plc_rising_def)
  with assms(3) p m c sent show ?thesis
    by (auto simp: PlcClientDemo_loop_def PlcClientDemo_retryWait_def only_os_def
        dest!: PlcClientDemo_enter_simp millis_only_os split: if_splits)
qed

text \<open>
  Ethernet is started once. The sketch ignores the result of \<open>plc.begin()\<close>, and nothing but
  \<open>begin()\<close> clears the failure: after it, every turn is one of the connect or of the wait.
\<close>

definition pd_no_ethernet :: "plc_demo \<Rightarrow> bool" where
  "pd_no_ethernet s \<longleftrightarrow>
     cl_failed (plc_eth (pd_plc s)) \<and> client_inv (plc_eth (pd_plc s)) \<and>
     plc_state (pd_plc s) \<in> {PlcEthernet, PlcFailed} \<and> pd_phase s \<in> {PdConnect, PdRetryWait}"

lemma PlcClientDemo_no_ethernet:
  assumes "pd_no_ethernet s0" and "sketch_reach (PlcClientDemo_loop os eth) s0 net0 s net"
  shows "pd_no_ethernet s"
  using assms(2)
proof (induction rule: sketch_reach.induct)
  case (turn s net s' net')
  have f: "cl_failed (plc_eth (pd_plc s))" "\<not> Client_ready (plc_eth (pd_plc s))"
    "client_inv (plc_eth (pd_plc s))"
    using turn.IH by (auto simp: pd_no_ethernet_def client_inv_def Client_ready_def)
  from turn.IH consider "pd_phase s = PdConnect" "plc_state (pd_plc s) = PlcEthernet"
    | "pd_phase s = PdConnect" "plc_state (pd_plc s) = PlcFailed"
    | "pd_phase s = PdRetryWait" "plc_state (pd_plc s) \<in> {PlcEthernet, PlcFailed}"
    by (auto simp: pd_no_ethernet_def)
  then show ?case
  proof cases
    case 1
    then have "PlcClient_poll os eth no_callbacks (pd_plc s) net = (Error, (pd_plc s)\<lparr>plc_state := PlcFailed\<rparr>, net)"
      using f by (simp add: PlcClient_poll_def PlcClient_pollEthernet_def Client_poll_def Let_def)
    with turn.hyps(2) 1 f show ?thesis
      by (auto simp: PlcClientDemo_loop_def PlcClientDemo_connect_def PlcClient_ready_def pd_no_ethernet_def
          dest!: PlcClientDemo_enter_simp)
  next
    case 2
    then have "PlcClient_poll os eth no_callbacks (pd_plc s) net = (Error, pd_plc s, net)"
      by (simp add: PlcClient_poll_def)
    with turn.hyps(2) 2 f show ?thesis
      by (auto simp: PlcClientDemo_loop_def PlcClientDemo_connect_def PlcClient_ready_def pd_no_ethernet_def
          dest!: PlcClientDemo_enter_simp)
  next
    case 3
    with turn.hyps(2) f show ?thesis
      by (auto simp: PlcClientDemo_loop_def PlcClientDemo_retryWait_def PlcClient_connect_def pd_no_ethernet_def Let_def
          dest!: PlcClientDemo_enter_simp split: if_splits prod.splits)
  qed
qed (rule assms(1))

subsection \<open>Examples\<close>

definition demo_pd :: plc_demo where
  "demo_pd = (PlcClientDemo_new demo_reading)\<lparr>pd_phase := PdRead, pd_tag := 0\<rparr>"

lemma demo_pd_facts [simp]:
  "pd_plc demo_pd = demo_reading" "pd_phase demo_pd = PdRead" "pd_tag demo_pd = 0" "pd_out demo_pd = []"
  by (simp_all add: demo_pd_def PlcClientDemo_new_def)

lemma demo_pd_good: "pd_good demo_pd (loopback_net now q)"
  by (simp add: pd_good_def demo_reading_flies)

lemma demo_pd_fails:
  obtains s1 and net1 :: "loopback net" where "PlcClientDemo_loop loopback_os demo_eth demo_pd (loopback_net 5000 []) = (s1, net1)"
    and "pd_phase s1 = PdDone" and "pd_tag s1 = 0"
proof -
  obtain st plc1 and net1 :: "loopback net" where q: "PlcClient_poll loopback_os demo_eth no_callbacks demo_reading
      (loopback_net 5000 []) = (st, plc1, net1)"
    by (metis prod_cases3)
  have P: "plc_pool demo_reading"
    using demo_reading_facts(1) [of 0 "[]"] by (simp add: plc_inv_def)
  have late: "Tag_poll loopback_os (plc_tags demo_reading ! nat 0) (plc_msg demo_reading) (loopback_net 5000 []) =
    (Timeout, (plc_tags demo_reading ! 0)\<lparr>tag_state := TagFailed\<rparr>,
     (plc_msg demo_reading)\<lparr>em_state := EmFailed\<rparr>, loopback_net 5000 [])"
    using demo_reading_late by simp
  have e: "PlcClient_tagStatus 0 plc1 = Error"
  proof (rule plc_flying_turn [OF loopback_socket_contract no_callbacks_tells P demo_reading_flies late q])
    assume k: "plc_keeps demo_reading plc1"
      and t: "plc_tags plc1 = (plc_tags demo_reading)[nat 0 := (plc_tags demo_reading ! 0)\<lparr>tag_state := TagFailed\<rparr>]"
    with P plc_keeps_handle [OF k, of 0] show ?thesis
      by (simp add: PlcClient_tagStatus_def Tag_status_def plc_pool_def)
  qed
  have "PlcClientDemo_loop loopback_os demo_eth demo_pd (loopback_net 5000 []) =
      PlcClientDemo_failed PdReadFailed (demo_pd\<lparr>pd_plc := plc1\<rparr>) net1"
    using q e by (simp add: PlcClientDemo_loop_def PlcClientDemo_read_def Let_def)
  also have "\<dots> = ((demo_pd\<lparr>pd_plc := plc1\<rparr>)\<lparr>pd_out := [PdReadFailed (tag_resultCode (plc_tags plc1 ! 0))],
      pd_phase := PdDone\<rparr>, net1)"
    using PlcClientDemo_failed_simp [of "demo_pd\<lparr>pd_plc := plc1\<rparr>" PdReadFailed net1] e by simp
  finally show thesis
    by (rule that) simp_all
qed

theorem PlcClientDemo_leaks_witness:
  "\<exists>s1 s2 net1 net2. PlcClientDemo_loop loopback_os demo_eth demo_pd (loopback_net 5000 []) = (s1, net1) \<and>
     PlcClientDemo_loop loopback_os demo_eth s1 net1 = (s2, net2) \<and> plc_inUse (pd_plc s2) ! 0"
proof -
  obtain s1 and net1 :: "loopback net" where r: "PlcClientDemo_loop loopback_os demo_eth demo_pd (loopback_net 5000 []) =
      (s1, net1)" "pd_phase s1 = PdDone" "pd_tag s1 = 0"
    by (rule demo_pd_fails)
  obtain s2 net2 where r2: "PlcClientDemo_loop loopback_os demo_eth s1 net1 = (s2, net2)" by fastforce
  have "sketch_reach (PlcClientDemo_loop loopback_os demo_eth) s1 net1 s2 net2"
    using sketch_reach.start r2 by (rule sketch_reach.turn)
  from PlcClientDemo_leaks [OF loopback_socket_contract demo_pd_good _ r(1,2) _ this] r r2 show ?thesis
    by simp
qed

theorem PlcClientDemo_false_write_witness:
  "\<exists>s1 s2 net2 net3. PlcClientDemo_loop loopback_os demo_eth demo_pd
       (loopback_net 5 (rr_reply 9 1 0xCC 0 [0xD1, 0, 7])) = (s1, net2) \<and>
     PlcClientDemo_loop loopback_os demo_eth s1 (net2\<lparr>net_os := demo_world []\<rparr>) = (s2, net3) \<and>
     last (pd_out s2) = PdWrote"
proof -
  let ?n = "loopback_net 5 (rr_reply 9 1 0xCC 0 [0xD1, 0, 7])"
  obtain st plc1 and net1 :: "loopback net" where q: "PlcClient_poll loopback_os demo_eth no_callbacks demo_reading ?n =
      (st, plc1, net1)"
    by (metis prod_cases3)
  have ok: "PlcClient_tagStatus 0 plc1 = Ok" and t: "tag_holds [0xD1, 0, 7] (plc_tags plc1 ! 0)"
    using demo_reading_reply [OF _ _ q] by simp_all
  obtain s1 net2 where r1: "PlcClientDemo_loop loopback_os demo_eth demo_pd ?n = (s1, net2)" by fastforce
  obtain s2 net3 where r2: "PlcClientDemo_loop loopback_os demo_eth s1 (net2\<lparr>net_os := demo_world []\<rparr>) = (s2, net3)"
    by fastforce
  have "Tag_writeLength (plc_tagElemCount plc1 ! nat 0) (Tag_setInt32 0 2026 (plc_tags plc1 ! nat 0)) = None"
    using t by (simp add: tag_holds_def Tag_writeLength_def getU16_def DataType_cast_def Let_def)
  with PlcClientDemo_false_write [OF loopback_socket_contract demo_pd_good demo_pd_facts(2) _ _ refl _ r1 r2] q ok r1 r2
  show ?thesis
    by simp
qed

text \<open>From \<open>setup()\<close>: the client connects, and its connect times out.\<close>

lemma demo_pd_setup:
  obtains s0 where "PlcClientDemo_setup loopback_os demo_eth 0 (PlcClientDemo_new demo_new) (loopback_net 0 []) =
      (s0, loopback_net 0 [])"
    and "pd_phase s0 = PdConnect" and "plc_state (pd_plc s0) = PlcEthernet" and "plc_wantConnect (pd_plc s0)"
    and "cl_started (plc_eth (pd_plc s0))" and "\<not> cl_failed (plc_eth (pd_plc s0))"
    and "plc_connectTimeoutMs (pd_plc s0) = 5000" and "plc_tcp (pd_plc s0) = 0"
    and "plc_remoteIp (pd_plc s0) = TARGET_IP" and "plc_remotePort (pd_plc s0) = TARGET_PORT"
  by (simp add: PlcClientDemo_setup_def PlcClientDemo_new_def PlcClient_begin_def PlcClient_connect_def Client_begin_def
      demo_eth_def demo_new_def PlcClient_new_def Client_new_def Client_ready_def sys_def eth_act_def millis_def Let_def
      CONNECT_TIMEOUT_MS_def)

lemma demo_pd_connecting:
  obtains s0 s1 net1 where
    "PlcClientDemo_setup loopback_os demo_eth 0 (PlcClientDemo_new demo_new) (loopback_net 0 []) = (s0, loopback_net 0 [])"
    and "sketch_reach (PlcClientDemo_loop loopback_os demo_eth) s0 (loopback_net 0 []) s1 net1"
    and "pd_phase s1 = PdConnect" and "plc_state (pd_plc s1) = PlcConnecting" and "plc_deadline (pd_plc s1) = 5000"
proof -
  obtain s0 where s0: "PlcClientDemo_setup loopback_os demo_eth 0 (PlcClientDemo_new demo_new) (loopback_net 0 []) =
      (s0, loopback_net 0 [])"
    "pd_phase s0 = PdConnect" "plc_state (pd_plc s0) = PlcEthernet" "plc_wantConnect (pd_plc s0)"
    "cl_started (plc_eth (pd_plc s0))" "\<not> cl_failed (plc_eth (pd_plc s0))"
    "plc_connectTimeoutMs (pd_plc s0) = 5000" "plc_tcp (pd_plc s0) = 0"
    "plc_remoteIp (pd_plc s0) = TARGET_IP" "plc_remotePort (pd_plc s0) = TARGET_PORT"
    by (rule demo_pd_setup)
  obtain st plc1 net1 where q: "PlcClient_poll loopback_os demo_eth no_callbacks (pd_plc s0) (loopback_net 0 []) =
      (st, plc1, net1)"
    by (metis prod_cases3)
  have p1: "st = Pending" "plc_state plc1 = PlcConnecting" "plc_deadline plc1 = 5000"
    using q s0 by (auto simp: PlcClient_poll_def PlcClient_pollEthernet_def Client_poll_def demo_eth_def sys_def
        TcpConnection_connect_def TcpConnection_close_def TARGET_IP_def TARGET_PORT_def IPAddress_any_def millis_def
        Let_def put_tcp_def loopback_os_def loopback_net_def split: if_splits)
  have r: "PlcClientDemo_loop loopback_os demo_eth s0 (loopback_net 0 []) = (s0\<lparr>pd_plc := plc1\<rparr>, net1)"
    using s0(2) q p1 by (simp add: PlcClientDemo_loop_def PlcClientDemo_connect_def PlcClient_ready_def)
  have "sketch_reach (PlcClientDemo_loop loopback_os demo_eth) s0 (loopback_net 0 []) (s0\<lparr>pd_plc := plc1\<rparr>) net1"
    using sketch_reach.start r by (rule sketch_reach.turn)
  from that [OF s0(1) this] s0(2) p1 show thesis
    by simp
qed

theorem PlcClientDemo_deadlines_witness:
  "\<exists>s net s' net'. pd_phase s = PdConnect \<and> plc_state (pd_plc s) = PlcConnecting \<and>
     PlcClientDemo_loop loopback_os demo_eth s net = (s', net') \<and> pd_phase s' \<noteq> PdConnect"
proof -
  obtain s0 s1 net1 where s:
    "PlcClientDemo_setup loopback_os demo_eth 0 (PlcClientDemo_new demo_new) (loopback_net 0 []) = (s0, loopback_net 0 [])"
    "sketch_reach (PlcClientDemo_loop loopback_os demo_eth) s0 (loopback_net 0 []) s1 net1"
    "pd_phase s1 = PdConnect" "plc_state (pd_plc s1) = PlcConnecting" "plc_deadline (pd_plc s1) = 5000"
    by (rule demo_pd_connecting)
  let ?n = "net1\<lparr>net_os := \<lparr>lb_now = 6000, lb_random = 7, lb_queue = []\<rparr>\<rparr>"
  have r: "sketch_reach (PlcClientDemo_loop loopback_os demo_eth) s0 (loopback_net 0 []) s1 ?n"
    using s(2) by (rule sketch_reach.world)
  obtain s2 net2 where l: "PlcClientDemo_loop loopback_os demo_eth s1 ?n = (s2, net2)" by fastforce
  have m: "millis loopback_os ?n = (6000, ?n)"
    by (simp add: millis_def sys_def loopback_os_def)
  have "pd_phase s2 \<noteq> pd_phase s1"
    by (rule PlcClientDemo_deadlines [OF loopback_socket_contract demo_new_fresh _ s(1) r l m])
      (use s(3-5) in \<open>simp_all add: expired_def\<close>)
  with s(3,4) l show ?thesis
    by metis
qed

theorem PlcClientDemo_runs_witness:
  "\<exists>s0. PlcClientDemo_setup loopback_os demo_eth 0 (PlcClientDemo_new demo_new) (loopback_net 0 []) =
       (s0, loopback_net 0 []) \<and>
     \<not> net_fault (snd (PlcClientDemo_loop loopback_os demo_eth s0 (loopback_net 0 [])))"
proof -
  obtain s0 s1 net1 where s:
    "PlcClientDemo_setup loopback_os demo_eth 0 (PlcClientDemo_new demo_new) (loopback_net 0 []) = (s0, loopback_net 0 [])"
    "sketch_reach (PlcClientDemo_loop loopback_os demo_eth) s0 (loopback_net 0 []) s1 net1"
    by (rule demo_pd_connecting)
  obtain s2 net2 where l: "PlcClientDemo_loop loopback_os demo_eth s0 (loopback_net 0 []) = (s2, net2)" by fastforce
  from PlcClientDemo_runs [OF loopback_socket_contract demo_new_fresh _ s(1) sketch_reach.start l] s(1) l show ?thesis
    by auto
qed

theorem PlcClientDemo_never_unregisters_witness:
  "\<exists>s net s' net'. plc_state (pd_plc s) = PlcDisconnecting \<and>
     PlcClientDemo_loop loopback_os demo_eth s net = (s', net') \<and> net_sent net' = net_sent net"
proof -
  let ?s = "(PlcClientDemo_new demo_plc)\<lparr>pd_phase := PdDone\<rparr>" and ?n = "loopback_net 0 []"
  obtain s1 net1 where r: "PlcClientDemo_loop loopback_os demo_eth ?s ?n = (s1, net1)" by fastforce
  have "pd_good ?s ?n"
    by (simp add: pd_good_def PlcClientDemo_new_def demo_plc_inv)
  from pd_loop_turn [OF loopback_socket_contract this r] have G: "pd_good s1 net1"
    by (simp add: pd_turn_def)
  have d: "plc_state (pd_plc s1) = PlcDisconnecting"
    using r by (auto simp: PlcClientDemo_loop_def PlcClientDemo_new_def PlcClientDemo_done_def PlcClient_disconnect_def
        dest!: PlcClientDemo_enter_simp split: prod.splits)
  obtain s2 net2 where r2: "PlcClientDemo_loop loopback_os demo_eth s1 net1 = (s2, net2)" by fastforce
  from PlcClientDemo_never_unregisters [OF G d r2] d r2 show ?thesis
    by blast
qed

end
