(* ===== verification/ReliabilityDemo.thy ===== *)
theory ReliabilityDemo
  imports PlcSketch
begin

text \<open>
  The sketch \<open>src/examples/ReliabilityDemo/ReliabilityDemo.ino\<close>: it connects, creates tags until the
  pool is full, reads one, aborts a second read, destroys the tags, disconnects, waits and begins
  again. Its two callbacks print. What a line does to the outside world is \<open>serial\<close>. A call through the null pointer is a memory fault.
\<close>

datatype reliability_line =
    RlVersion string
  | RlTagCallback int Status
  | RlStateCallback Status
  | RlConnected u32
  | RlConnectFailed Status
  | RlCreated int nat
  | RlExhausted int nat
  | RlReadDone int
  | RlReadFailed byte
  | RlAborted
  | RlDisconnected

type_synonym 'w serial = "reliability_line \<Rightarrow> 'w \<Rightarrow> 'w"

definition prints :: "'w serial \<Rightarrow> reliability_line \<Rightarrow> 'w net \<Rightarrow> 'w net" where
  "prints serial l net = net\<lparr>net_os := serial l (net_os net)\<rparr>"

text \<open>The two callbacks, at the addresses 1 and 2.\<close>

definition rd_callbacks :: "'w serial \<Rightarrow> 'w callbacks" where
  "rd_callbacks serial =
     \<lparr> cb_tag = (\<lambda>f h st u (plc, net). (plc, if f = 1 then prints serial (RlTagCallback h st) net else net)),
       cb_state = (\<lambda>f st u (plc, net). (plc, if f = 2 then prints serial (RlStateCallback st) net else net)) \<rparr>"

datatype ReliabilityPhase = RdConnect | RdExhaust | RdRead | RdAbort | RdDisconnect | RdRetryWait

record reliability =
  rd_plc :: plc_client
  rd_phase :: ReliabilityPhase
  rd_phaseStarted :: u32
  rd_tag :: int

definition ReliabilityDemo_new :: "plc_client \<Rightarrow> reliability" where
  "ReliabilityDemo_new plc = \<lparr> rd_plc = plc, rd_phase = RdConnect, rd_phaseStarted = 0, rd_tag = -1 \<rparr>"

definition ReliabilityDemo_setup ::
  "'w os \<Rightarrow> 'w eth \<Rightarrow> 'w serial \<Rightarrow> int \<Rightarrow> reliability \<Rightarrow> 'w net \<Rightarrow> reliability \<times> 'w net" where
  "ReliabilityDemo_setup os eth serial ETH_PHY_W5500 s net =
     (let plc0 = PlcClient_setStateCallback (Some 2) 0 (PlcClient_setTagCallback (Some 1) 0 (rd_plc s));
          cfg = (Config_default ETH_PHY_W5500)\<lparr>cfg_ip := LOCAL_IP, cfg_gateway := LOCAL_GATEWAY,
                  cfg_subnet := LOCAL_SUBNET, cfg_dns := LOCAL_DNS\<rparr>
      in case PlcClient_begin eth cfg plc0 (prints serial (RlVersion version) net) of (st, plc1, net1) \<Rightarrow>
           (case PlcClient_connect os TARGET_IP TARGET_PORT CONNECT_TIMEOUT_MS plc1 net1 of (st2, plc2, net2) \<Rightarrow>
              (case millis os net2 of (now, net3) \<Rightarrow> (s\<lparr>rd_plc := plc2, rd_phaseStarted := now\<rparr>, net3))))"

text \<open>The two assignments with which the branches end.\<close>

definition ReliabilityDemo_enter ::
  "'w os \<Rightarrow> ReliabilityPhase \<Rightarrow> reliability \<Rightarrow> 'w net \<Rightarrow> reliability \<times> 'w net" where
  "ReliabilityDemo_enter os p s net =
     (case millis os net of (now, net1) \<Rightarrow> (s\<lparr>rd_phase := p, rd_phaseStarted := now\<rparr>, net1))"

definition ReliabilityDemo_connect ::
  "'w os \<Rightarrow> 'w eth \<Rightarrow> 'w serial \<Rightarrow> reliability \<Rightarrow> 'w net \<Rightarrow> reliability \<times> 'w net" where
  "ReliabilityDemo_connect os eth serial s net =
     (case PlcClient_poll os eth (rd_callbacks serial) (rd_plc s) net of (st, plc1, net1) \<Rightarrow>
        (let s1 = s\<lparr>rd_plc := plc1\<rparr> in
         if PlcClient_ready plc1 then
           ReliabilityDemo_enter os RdExhaust s1 (prints serial (RlConnected (PlcClient_sessionHandle plc1)) net1)
         else if st = Timeout \<or> st = Error \<or> st = Closed then
           ReliabilityDemo_enter os RdRetryWait s1 (prints serial (RlConnectFailed st) net1)
         else (s1, net1)))"

definition ReliabilityDemo_exhaust ::
  "'w os \<Rightarrow> 'w serial \<Rightarrow> reliability \<Rightarrow> 'w net \<Rightarrow> reliability \<times> 'w net" where
  "ReliabilityDemo_exhaust os serial s net =
     (case PlcClient_createTag (Some (chars ''TestDint'')) 1 (rd_plc s) of (h, plc1) \<Rightarrow>
        if 0 \<le> h then
          (s\<lparr>rd_plc := plc1\<rparr>, prints serial (RlCreated h (PlcClient_tagCount plc1)) net)
        else
          (let net1 = prints serial (RlExhausted h (PlcClient_tagCount plc1)) net in
           case PlcClient_read os 0 TAG_TIMEOUT_MS plc1 net1 of (st, plc2, net2) \<Rightarrow>
             ReliabilityDemo_enter os RdRead (s\<lparr>rd_plc := plc2, rd_tag := 0\<rparr>) net2))"

definition ReliabilityDemo_read ::
  "'w os \<Rightarrow> 'w eth \<Rightarrow> 'w serial \<Rightarrow> reliability \<Rightarrow> 'w net \<Rightarrow> reliability \<times> 'w net" where
  "ReliabilityDemo_read os eth serial s net =
     (case PlcClient_poll os eth (rd_callbacks serial) (rd_plc s) net of (st0, plc1, net1) \<Rightarrow>
        (let st = PlcClient_tagStatus (rd_tag s) plc1; s1 = s\<lparr>rd_plc := plc1\<rparr> in
         if st = Ok then
           (case PlcClient_tag (rd_tag s) plc1 of
              None \<Rightarrow> (s1, net1\<lparr>net_fault := True\<rparr>)
            | Some i \<Rightarrow>
                (case PlcClient_read os (rd_tag s) TAG_TIMEOUT_MS plc1
                        (prints serial (RlReadDone (Tag_getInt32 0 (plc_tags plc1 ! i))) net1) of (st2, plc2, net2) \<Rightarrow>
                   ReliabilityDemo_enter os RdAbort (s\<lparr>rd_plc := plc2\<rparr>) net2))
         else if st = Error then
           (case PlcClient_tag (rd_tag s) plc1 of
              None \<Rightarrow> (s1, net1\<lparr>net_fault := True\<rparr>)
            | Some i \<Rightarrow>
                ReliabilityDemo_enter os RdDisconnect s1
                  (prints serial (RlReadFailed (tag_resultCode (plc_tags plc1 ! i))) net1))
         else (s1, net1)))"

definition ReliabilityDemo_abort ::
  "'w os \<Rightarrow> 'w eth \<Rightarrow> 'w serial \<Rightarrow> reliability \<Rightarrow> 'w net \<Rightarrow> reliability \<times> 'w net" where
  "ReliabilityDemo_abort os eth serial s net =
     (case PlcClient_poll os eth (rd_callbacks serial) (rd_plc s) net of (st, plc1, net1) \<Rightarrow>
        (case PlcClient_abortTag (rd_tag s) plc1 of (st2, plc2) \<Rightarrow>
           ReliabilityDemo_enter os RdDisconnect (s\<lparr>rd_plc := plc2\<rparr>) (prints serial RlAborted net1)))"

definition ReliabilityDemo_disconnect ::
  "'w os \<Rightarrow> 'w serial \<Rightarrow> reliability \<Rightarrow> 'w net \<Rightarrow> reliability \<times> 'w net" where
  "ReliabilityDemo_disconnect os serial s net =
     (let plc1 = fold (\<lambda>i plc. snd (PlcClient_destroyTag (int i) plc)) [0..<plc_kMaxTags] (rd_plc s) in
      case PlcClient_disconnect os plc1 net of (st, plc2, net1) \<Rightarrow>
        ReliabilityDemo_enter os RdRetryWait (s\<lparr>rd_plc := plc2\<rparr>) (prints serial RlDisconnected net1))"

definition ReliabilityDemo_retryWait :: "'w os \<Rightarrow> reliability \<Rightarrow> 'w net \<Rightarrow> reliability \<times> 'w net" where
  "ReliabilityDemo_retryWait os s net =
     (case millis os net of (now, net1) \<Rightarrow>
        if RETRY_DELAY_MS \<le> now - rd_phaseStarted s then
          (case PlcClient_connect os TARGET_IP TARGET_PORT CONNECT_TIMEOUT_MS (rd_plc s) net1 of (st, plc1, net2) \<Rightarrow>
             ReliabilityDemo_enter os RdConnect (s\<lparr>rd_plc := plc1\<rparr>) net2)
        else (s, net1))"

definition ReliabilityDemo_loop ::
  "'w os \<Rightarrow> 'w eth \<Rightarrow> 'w serial \<Rightarrow> reliability \<Rightarrow> 'w net \<Rightarrow> reliability \<times> 'w net" where
  "ReliabilityDemo_loop os eth serial s net =
     (case rd_phase s of
        RdConnect \<Rightarrow> ReliabilityDemo_connect os eth serial s net
      | RdExhaust \<Rightarrow> ReliabilityDemo_exhaust os serial s net
      | RdRead \<Rightarrow> ReliabilityDemo_read os eth serial s net
      | RdAbort \<Rightarrow> ReliabilityDemo_abort os eth serial s net
      | RdDisconnect \<Rightarrow> ReliabilityDemo_disconnect os serial s net
      | RdRetryWait \<Rightarrow> ReliabilityDemo_retryWait os s net)"

subsection \<open>The invariant\<close>

inductive rd_spec :: "ReliabilityPhase \<Rightarrow> ReliabilityPhase \<Rightarrow> bool" where
  stay: "p \<in> {RdConnect, RdExhaust, RdRead, RdRetryWait} \<Longrightarrow> rd_spec p p"
| connected: "rd_spec RdConnect RdExhaust"
| no_connection: "rd_spec RdConnect RdRetryWait"
| exhausted: "rd_spec RdExhaust RdRead"
| has_read: "rd_spec RdRead RdAbort"
| read_failed: "rd_spec RdRead RdDisconnect"
| aborted: "rd_spec RdAbort RdDisconnect"
| disconnected: "rd_spec RdDisconnect RdRetryWait"
| again: "rd_spec RdRetryWait RdConnect"

text \<open>The first \<open>k\<close> slots are taken.\<close>

definition rd_taken :: "nat \<Rightarrow> plc_client \<Rightarrow> bool" where
  "rd_taken k plc \<longleftrightarrow> k \<le> 8 \<and> plc_inUse plc = replicate k True @ replicate (8 - k) False"

definition rd_good :: "reliability \<Rightarrow> 'w net \<Rightarrow> bool" where
  "rd_good s net \<longleftrightarrow>
     plc_inv (rd_plc s) net \<and>
     (case rd_phase s of
        RdConnect \<Rightarrow> plc_rising (rd_plc s) \<and> \<not> em_busy (plc_msg (rd_plc s)) \<and> rd_taken 0 (rd_plc s)
      | RdExhaust \<Rightarrow> plc_startable (rd_plc s) net \<and> (\<exists>k. rd_taken k (rd_plc s))
      | RdRead \<Rightarrow> plc_flying (rd_plc s) (rd_tag s)
      | RdAbort \<Rightarrow> plc_flying (rd_plc s) (rd_tag s)
      | RdDisconnect \<Rightarrow> \<not> em_busy (plc_msg (rd_plc s)) \<and> plc_state (rd_plc s) \<in> {PlcReady, PlcIdle}
      | RdRetryWait \<Rightarrow> \<not> em_busy (plc_msg (rd_plc s)) \<and> rd_taken 0 (rd_plc s))"

lemma ReliabilityDemo_enter_simp:
  "ReliabilityDemo_enter os p s net = (s', net') \<Longrightarrow>
    \<exists>now. s' = s\<lparr>rd_phase := p, rd_phaseStarted := now\<rparr> \<and> millis os net = (now, net')"
  by (auto simp: ReliabilityDemo_enter_def split: prod.splits)

lemma prints_only_os [simp]: "only_os net (prints serial l net)"
  by (simp add: prints_def only_os_def)

lemma rd_callbacks_tells [simp]: "tells (rd_callbacks serial)"
  by (simp add: tells_def rd_callbacks_def)

lemma plc_inv_only_os: "only_os net net' \<Longrightarrow> plc_inv plc net' = plc_inv plc net"
  by (simp add: plc_inv_def only_os_def)

lemma plc_startable_only_os: "only_os net net' \<Longrightarrow> plc_startable plc net' = plc_startable plc net"
  by (simp add: plc_startable_def connected_only_os)

text \<open>What a turn ends with: prints and the clock.\<close>

lemma rd_enter:
  assumes "ReliabilityDemo_enter os p s net = (s', net')"
  shows "rd_plc s' = rd_plc s \<and> rd_tag s' = rd_tag s \<and> rd_phase s' = p \<and> only_os net net'"
  using ReliabilityDemo_enter_simp [OF assms] millis_only_os by auto

text \<open>The pool fills from the bottom.\<close>

lemma find_free_taken: "find_free (replicate k True @ replicate n False) i = (if n = 0 then -1 else int (i + k))"
proof (induction k arbitrary: i)
  case 0
  show ?case by (cases n) simp_all
qed simp

lemma rd_taken_create:
  assumes "rd_taken k plc" and "PlcClient_createTag (Some (chars ''TestDint'')) 1 plc = (h, plc')"
  shows "if k < 8
    then h = int k \<and> rd_taken (Suc k) plc' \<and> PlcClient_tagCount plc' = Suc k \<and> plc_msg plc' = plc_msg plc \<and>
      plc_tcp plc' = plc_tcp plc \<and> plc_state plc' = plc_state plc
    else h = Status_code NoMemory \<and> plc' = plc \<and> PlcClient_tagCount plc = 8"
proof -
  have u: "plc_inUse plc = replicate k True @ replicate (8 - k) False" and k: "k \<le> 8"
    using assms(1) by (simp_all add: rd_taken_def)
  have f: "PlcClient_findFreeTag plc = (if k < 8 then int k else -1)"
    using k by (simp add: PlcClient_findFreeTag_def u find_free_taken)
  have n: "chars ''TestDint'' \<noteq> []" "length (chars ''TestDint'') < 64"
    by (simp_all add: chars_def)
  show ?thesis
  proof (cases "k < 8")
    case True
    then have "8 - k = Suc (7 - k)" by simp
    then have "(plc_inUse plc)[k := True] = replicate (Suc k) True @ replicate (8 - Suc k) False"
      by (simp add: u list_update_append replicate_app_Cons_same)
    moreover have "h = int k" "plc' = plc\<lparr>plc_tagNames := (plc_tagNames plc)[k := name_slot (chars ''TestDint'')],
        plc_tagElemCount := (plc_tagElemCount plc)[k := 1], plc_tagPrevStatus := (plc_tagPrevStatus plc)[k := NotReady],
        plc_inUse := (plc_inUse plc)[k := True]\<rparr>"
      using assms(2) n f True by (auto simp: PlcClient_createTag_def Let_def)
    ultimately show ?thesis
      using True by (simp add: rd_taken_def PlcClient_tagCount_def foldl_count)
  next
    case False
    with k u have "k = 8" "plc_inUse plc = replicate 8 True"
      by simp_all
    with assms(2) n f show ?thesis
      by (auto simp: PlcClient_createTag_def PlcClient_tagCount_def foldl_count)
  qed
qed

definition rd_turn :: "reliability \<Rightarrow> 'w net \<Rightarrow> reliability \<Rightarrow> 'w net \<Rightarrow> bool" where
  "rd_turn s net s' net' \<longleftrightarrow> rd_good s' net' \<and> rd_spec (rd_phase s) (rd_phase s')"

lemma rd_taken_keeps: "plc_keeps plc plc' \<Longrightarrow> rd_taken k plc' = rd_taken k plc"
  by (simp add: plc_keeps_def rd_taken_def)

lemma rd_connect_turn:
  assumes C: "socket_contract os" and G: "rd_good s net" and p: "rd_phase s = RdConnect"
    and run: "ReliabilityDemo_loop os eth serial s net = (s', net')"
  shows "rd_turn s net s' net'"
proof -
  have R: "plc_rising (rd_plc s)" "\<not> em_busy (plc_msg (rd_plc s))" "rd_taken 0 (rd_plc s)" and I: "plc_inv (rd_plc s) net"
    using G p by (simp_all add: rd_good_def)
  obtain st plc1 net1 where q: "PlcClient_poll os eth (rd_callbacks serial) (rd_plc s) net = (st, plc1, net1)"
    by (metis prod_cases3)
  have I1: "plc_inv plc1 net1"
    using PlcClient_poll_inv [OF tells_ok [OF rd_callbacks_tells] C I q] .
  note t = plc_rising_poll [OF R(1) I C rd_callbacks_tells q]
  have k: "\<not> em_busy (plc_msg plc1)" "rd_taken 0 plc1"
    using t R(2,3) rd_taken_keeps by auto
  let ?s1 = "s\<lparr>rd_plc := plc1\<rparr>"
  have l: "ReliabilityDemo_loop os eth serial s net =
      (if PlcClient_ready plc1
       then ReliabilityDemo_enter os RdExhaust ?s1 (prints serial (RlConnected (PlcClient_sessionHandle plc1)) net1)
       else if st = Timeout \<or> st = Error \<or> st = Closed
       then ReliabilityDemo_enter os RdRetryWait ?s1 (prints serial (RlConnectFailed st) net1)
       else (?s1, net1))"
    using p q by (simp add: ReliabilityDemo_loop_def ReliabilityDemo_connect_def Let_def)
  consider (up) "PlcClient_ready plc1"
      "ReliabilityDemo_enter os RdExhaust ?s1 (prints serial (RlConnected (PlcClient_sessionHandle plc1)) net1) = (s', net')"
    | (fail) "\<not> PlcClient_ready plc1"
      "ReliabilityDemo_enter os RdRetryWait ?s1 (prints serial (RlConnectFailed st) net1) = (s', net')"
    | (wait) "\<not> PlcClient_ready plc1" "s' = ?s1" "net' = net1"
    using run unfolding l by (metis prod.inject)
  then show ?thesis
  proof cases
    case up
    note e = rd_enter [OF up(2)]
    then have o: "only_os net1 net'"
      using only_os_trans [OF prints_only_os] by blast
    have "plc_startable plc1 net1"
      using t up(1) k(1) by (auto simp: plc_startable_def)
    with I1 have "plc_inv plc1 net'" "plc_startable plc1 net'"
      using plc_inv_only_os [OF o] plc_startable_only_os [OF o] by simp_all
    with e p k show ?thesis
      by (auto simp: rd_turn_def rd_good_def rd_spec.connected)
  next
    case fail
    note e = rd_enter [OF fail(2)]
    then have o: "only_os net1 net'"
      using only_os_trans [OF prints_only_os] by blast
    with I1 have "plc_inv plc1 net'"
      using plc_inv_only_os [OF o] by simp
    with e p k show ?thesis
      by (simp add: rd_turn_def rd_good_def rd_spec.no_connection)
  next
    case wait
    then have "plc_rising plc1"
      using t by blast
    with wait I1 k p show ?thesis
      by (simp add: rd_turn_def rd_good_def rd_spec.stay)
  qed
qed

lemma rd_exhaust_turn:
  assumes G: "rd_good s net" and p: "rd_phase s = RdExhaust"
    and run: "ReliabilityDemo_loop os eth serial s net = (s', net')"
  shows "rd_turn s net s' net'"
proof -
  obtain k where S: "plc_startable (rd_plc s) net" and K: "rd_taken k (rd_plc s)" and I: "plc_inv (rd_plc s) net"
    using G p by (auto simp: rd_good_def)
  obtain h plc1 where c: "PlcClient_createTag (Some (chars ''TestDint'')) 1 (rd_plc s) = (h, plc1)" by fastforce
  note cr = rd_taken_create [OF K c]
  have I1: "plc_inv plc1 net"
    using PlcClient_createTag_pool [OF _ c] I by (simp add: plc_inv_def)
  show ?thesis
  proof (cases "k < 8")
    case True
    with cr have h: "h = int k" "rd_taken (Suc k) plc1" "plc_startable plc1 net"
      using S by (simp_all add: plc_startable_def PlcClient_ready_def)
    let ?n = "prints serial (RlCreated h (PlcClient_tagCount plc1)) net"
    have e: "s' = s\<lparr>rd_plc := plc1\<rparr>" "net' = ?n"
      using run p c h(1) by (auto simp: ReliabilityDemo_loop_def ReliabilityDemo_exhaust_def)
    have "plc_inv plc1 ?n" "plc_startable plc1 ?n"
      using I1 h(3) plc_inv_only_os [OF prints_only_os] plc_startable_only_os [OF prints_only_os] by blast+
    with e p h(2) show ?thesis
      by (auto simp: rd_turn_def rd_good_def intro: rd_spec.stay)
  next
    case False
    with cr have h: "h = -4" "plc1 = rd_plc s" "k = 8"
      using K by (simp_all add: rd_taken_def)
    let ?n = "prints serial (RlExhausted h (PlcClient_tagCount plc1)) net"
    have I2: "plc_inv plc1 ?n" and S2: "plc_startable plc1 ?n"
      using I1 S h(2) plc_inv_only_os [OF prints_only_os] plc_startable_only_os [OF prints_only_os] by blast+
    obtain st plc2 net2 where r: "PlcClient_read os 0 TAG_TIMEOUT_MS plc1 ?n = (st, plc2, net2)"
      by (metis prod_cases3)
    have P: "plc_pool plc1"
      using I1 by (simp add: plc_inv_def)
    have "PlcClient_validHandle 0 plc1"
      using K h(2,3) by (simp add: PlcClient_validHandle_def rd_taken_def)
    note f = plc_read_flies [OF P S2 this r]
    have e: "ReliabilityDemo_enter os RdRead (s\<lparr>rd_plc := plc2, rd_tag := 0\<rparr>) net2 = (s', net')"
      using run p c h(1) r by (simp add: ReliabilityDemo_loop_def ReliabilityDemo_exhaust_def Let_def)
    have "plc_inv plc2 net'"
      using plc_inv_read [OF I2 r] plc_inv_only_os rd_enter [OF e] by blast
    with rd_enter [OF e] f p show ?thesis
      by (simp add: rd_turn_def rd_good_def rd_spec.exhausted)
  qed
qed

text \<open>The poll of the two phases with a read in flight.\<close>

lemma rd_work_poll:
  assumes C: "socket_contract os" and I: "plc_inv plc net" and F: "plc_flying plc h"
    and q: "PlcClient_poll os eth (rd_callbacks serial) plc net = (st, plc1, net1)"
  shows "plc_inv plc1 net1" and "PlcClient_validHandle h plc1" and
    "PlcClient_tagStatus h plc1 = Pending \<and> plc_flying plc1 h \<or>
     PlcClient_tagStatus h plc1 = Ok \<and> plc_startable plc1 net1 \<or>
     PlcClient_tagStatus h plc1 = Error \<and> \<not> em_busy (plc_msg plc1) \<and> plc_state plc1 \<in> {PlcReady, PlcIdle}"
proof -
  show "plc_inv plc1 net1"
    using PlcClient_poll_inv [OF tells_ok [OF rd_callbacks_tells] C I q] .
  have P: "plc_pool plc"
    using I by (simp add: plc_inv_def)
  note f = plc_flying_poll [OF C rd_callbacks_tells P F q]
  from f show "PlcClient_tagStatus h plc1 = Pending \<and> plc_flying plc1 h \<or>
     PlcClient_tagStatus h plc1 = Ok \<and> plc_startable plc1 net1 \<or>
     PlcClient_tagStatus h plc1 = Error \<and> \<not> em_busy (plc_msg plc1) \<and> plc_state plc1 \<in> {PlcReady, PlcIdle}"
    by blast
  from f show "PlcClient_validHandle h plc1"
    using F plc_keeps_handle by (auto simp: plc_flying_def)
qed

lemma rd_read_turn:
  assumes C: "socket_contract os" and G: "rd_good s net" and p: "rd_phase s = RdRead"
    and run: "ReliabilityDemo_loop os eth serial s net = (s', net')"
  shows "rd_turn s net s' net'"
proof -
  have F: "plc_flying (rd_plc s) (rd_tag s)" and I: "plc_inv (rd_plc s) net"
    using G p by (simp_all add: rd_good_def)
  let ?h = "rd_tag s"
  obtain st0 plc1 net1 where q: "PlcClient_poll os eth (rd_callbacks serial) (rd_plc s) net = (st0, plc1, net1)"
    by (metis prod_cases3)
  note w = rd_work_poll [OF C I F q]
  have tag: "PlcClient_tag ?h plc1 = Some (nat ?h)"
    using w(2) by (simp add: PlcClient_tag_def)
  have P1: "plc_pool plc1"
    using w(1) by (simp add: plc_inv_def)
  from w(3) show ?thesis
  proof (elim disjE conjE)
    assume "PlcClient_tagStatus ?h plc1 = Pending" "plc_flying plc1 ?h"
    with run p q w(1) show ?thesis
      by (auto simp: ReliabilityDemo_loop_def ReliabilityDemo_read_def rd_turn_def rd_good_def Let_def intro: rd_spec.stay)
  next
    assume ok: "PlcClient_tagStatus ?h plc1 = Ok" and S: "plc_startable plc1 net1"
    let ?n = "prints serial (RlReadDone (Tag_getInt32 0 (plc_tags plc1 ! nat ?h))) net1"
    have I2: "plc_inv plc1 ?n" and S2: "plc_startable plc1 ?n"
      using w(1) S plc_inv_only_os [OF prints_only_os] plc_startable_only_os [OF prints_only_os] by blast+
    obtain st plc2 net2 where r: "PlcClient_read os ?h TAG_TIMEOUT_MS plc1 ?n = (st, plc2, net2)"
      by (metis prod_cases3)
    note f = plc_read_flies [OF P1 S2 w(2) r]
    have e: "ReliabilityDemo_enter os RdAbort (s\<lparr>rd_plc := plc2\<rparr>) net2 = (s', net')"
      using run p q ok tag r by (simp add: ReliabilityDemo_loop_def ReliabilityDemo_read_def Let_def)
    have "plc_inv plc2 net'"
      using plc_inv_read [OF I2 r] plc_inv_only_os rd_enter [OF e] by blast
    with rd_enter [OF e] f p show ?thesis
      by (simp add: rd_turn_def rd_good_def rd_spec.has_read)
  next
    assume er: "PlcClient_tagStatus ?h plc1 = Error" and b: "\<not> em_busy (plc_msg plc1)" "plc_state plc1 \<in> {PlcReady, PlcIdle}"
    have e: "ReliabilityDemo_enter os RdDisconnect (s\<lparr>rd_plc := plc1\<rparr>)
        (prints serial (RlReadFailed (tag_resultCode (plc_tags plc1 ! nat ?h))) net1) = (s', net')"
      using run p q er tag by (simp add: ReliabilityDemo_loop_def ReliabilityDemo_read_def Let_def)
    have "only_os net1 net'"
      using rd_enter [OF e] only_os_trans [OF prints_only_os] by blast
    with w(1) have "plc_inv plc1 net'"
      using plc_inv_only_os by blast
    with rd_enter [OF e] b p show ?thesis
      by (simp add: rd_turn_def rd_good_def rd_spec.read_failed)
  qed
qed

lemma PlcClient_abort_idle:
  assumes "PlcClient_validHandle h plc" and "plc_flying plc h \<or> \<not> em_busy (plc_msg plc)"
    and "PlcClient_abortTag h plc = (st, plc')"
  shows "\<not> em_busy (plc_msg plc')"
  using assms
  by (auto simp: PlcClient_abortTag_def Tag_abort_def plc_flying_def tag_waiting_def ExplicitMessage_abort_def em_busy_def
      Let_def split: if_splits)

lemma rd_abort_turn:
  assumes C: "socket_contract os" and G: "rd_good s net" and p: "rd_phase s = RdAbort"
    and run: "ReliabilityDemo_loop os eth serial s net = (s', net')"
  shows "rd_turn s net s' net'"
proof -
  have F: "plc_flying (rd_plc s) (rd_tag s)" and I: "plc_inv (rd_plc s) net"
    using G p by (simp_all add: rd_good_def)
  let ?h = "rd_tag s"
  obtain st0 plc1 net1 where q: "PlcClient_poll os eth (rd_callbacks serial) (rd_plc s) net = (st0, plc1, net1)"
    by (metis prod_cases3)
  note w = rd_work_poll [OF C I F q]
  have P1: "plc_pool plc1"
    using w(1) by (simp add: plc_inv_def)
  obtain st2 plc2 where a: "PlcClient_abortTag ?h plc1 = (st2, plc2)" by fastforce
  note ap = PlcClient_abortTag_pool [OF P1 a]
  have b: "\<not> em_busy (plc_msg plc2)"
    using PlcClient_abort_idle [OF w(2) _ a] w(3) by (auto simp: plc_startable_def)
  have st: "plc_state plc2 \<in> {PlcReady, PlcIdle}"
    using w(3) ap(3) by (auto simp: plc_startable_def plc_flying_def PlcClient_ready_def)
  have e: "ReliabilityDemo_enter os RdDisconnect (s\<lparr>rd_plc := plc2\<rparr>) (prints serial RlAborted net1) = (s', net')"
    using run p q a by (simp add: ReliabilityDemo_loop_def ReliabilityDemo_abort_def)
  have o: "only_os net1 net'"
    using rd_enter [OF e] only_os_trans [OF prints_only_os] by blast
  have "plc_inv plc2 net1"
    using w(1) ap by (simp add: plc_inv_def)
  then have "plc_inv plc2 net'"
    using plc_inv_only_os [OF o] by blast
  with rd_enter [OF e] b st p show ?thesis
    by (simp add: rd_turn_def rd_good_def rd_spec.aborted)
qed

text \<open>Destroying all handles empties the pool.\<close>

lemma plc_pool_free: "plc_pool plc \<Longrightarrow> plc_pool (plc\<lparr>plc_inUse := (plc_inUse plc)[i := False]\<rparr>)"
  by (simp add: plc_pool_def plc_prev_def nth_update_if)

lemma destroy_one:
  assumes "i < 8"
  shows "snd (PlcClient_destroyTag (int i) plc) = plc\<lparr>plc_inUse := (plc_inUse plc)[i := False]\<rparr>"
proof (cases "plc_inUse plc ! i")
  case True
  with assms show ?thesis
    by (simp add: PlcClient_destroyTag_def PlcClient_validHandle_def)
next
  case False
  then have "(plc_inUse plc)[i := False] = plc_inUse plc"
    by (simp add: list_update_same_nth)
  with False show ?thesis
    by (simp add: PlcClient_destroyTag_def PlcClient_validHandle_def)
qed

lemma destroy_all:
  assumes "plc_pool plc" and "set is \<subseteq> {0..<8}"
  shows "plc_pool (plc\<lparr>plc_inUse := fold (\<lambda>i u. u[i := False]) is (plc_inUse plc)\<rparr>) \<and>
    fold (\<lambda>i plc. snd (PlcClient_destroyTag (int i) plc)) is plc =
      plc\<lparr>plc_inUse := fold (\<lambda>i u. u[i := False]) is (plc_inUse plc)\<rparr>"
  using assms
proof (induction "is" arbitrary: plc)
  case (Cons i rest)
  with Cons.IH [OF plc_pool_free [OF Cons.prems(1), of i]] destroy_one [of i plc] show ?case
    by simp
qed simp

lemma fold_clear:
  "length u = n \<Longrightarrow> k \<le> n \<Longrightarrow> fold (\<lambda>i u. u[i := False]) [0..<k] u = replicate k False @ drop k u"
proof (induction k)
  case (Suc k)
  then have "drop k u = u ! k # drop (Suc k) u"
    by (simp add: Cons_nth_drop_Suc)
  with Suc show ?case
    by (simp add: list_update_append replicate_app_Cons_same)
qed simp

lemma rd_disconnect_turn:
  assumes G: "rd_good s net" and p: "rd_phase s = RdDisconnect"
    and run: "ReliabilityDemo_loop os eth serial s net = (s', net')"
  shows "rd_turn s net s' net'"
proof -
  have I: "plc_inv (rd_plc s) net" and B: "\<not> em_busy (plc_msg (rd_plc s))"
    using G p by (simp_all add: rd_good_def)
  have P: "plc_pool (rd_plc s)"
    using I by (simp add: plc_inv_def)
  let ?f = "fold (\<lambda>i plc. snd (PlcClient_destroyTag (int i) plc)) [0..<8] (rd_plc s)"
  have len: "length (plc_inUse (rd_plc s)) = 8"
    using P by (simp add: plc_pool_def)
  have f: "plc_pool ?f" "?f = (rd_plc s)\<lparr>plc_inUse := replicate 8 False\<rparr>"
    using destroy_all [OF P, of "[0..<8]"] fold_clear [OF len, of 8] len by (simp_all del: upt_rec_numeral)
  have I1: "plc_inv ?f net"
    using I f by (simp add: plc_inv_def)
  obtain st plc2 net1 where d: "PlcClient_disconnect os ?f net = (st, plc2, net1)"
    by (metis prod_cases3)
  have e: "ReliabilityDemo_enter os RdRetryWait (s\<lparr>rd_plc := plc2\<rparr>) (prints serial RlDisconnected net1) = (s', net')"
    using run p d by (simp add: ReliabilityDemo_loop_def ReliabilityDemo_disconnect_def Let_def)
  have o: "only_os net1 net'"
    using rd_enter [OF e] only_os_trans [OF prints_only_os] by blast
  have "plc_inv plc2 net1"
    by (rule PlcClient_disconnect_inv [OF I1 d])
  then have "plc_inv plc2 net'"
    using plc_inv_only_os [OF o] by blast
  moreover have "plc_inUse plc2 = plc_inUse ?f" "plc_msg plc2 = plc_msg ?f"
    using d by (auto simp: PlcClient_disconnect_def split: if_splits prod.splits)
  ultimately show ?thesis
    using rd_enter [OF e] f(2) B p by (simp add: rd_turn_def rd_good_def rd_taken_def rd_spec.disconnected)
qed

lemma rd_retryWait_turn:
  assumes G: "rd_good s net" and p: "rd_phase s = RdRetryWait"
    and run: "ReliabilityDemo_loop os eth serial s net = (s', net')"
  shows "rd_turn s net s' net'"
proof -
  have I: "plc_inv (rd_plc s) net" and B: "\<not> em_busy (plc_msg (rd_plc s))" "rd_taken 0 (rd_plc s)"
    using G p by (simp_all add: rd_good_def)
  obtain now net1 where m: "millis os net = (now, net1)" by fastforce
  have I1: "plc_inv (rd_plc s) net1"
    using I millis_fault [OF m] by (rule plc_inv_net)
  obtain st plc1 net2 where c: "PlcClient_connect os TARGET_IP TARGET_PORT CONNECT_TIMEOUT_MS (rd_plc s) net1 =
      (st, plc1, net2)"
    by (metis prod_cases3)
  note r = PlcClient_connect_rises [OF c]
  show ?thesis
  proof (cases "RETRY_DELAY_MS \<le> now - rd_phaseStarted s")
    case False
    with run p m I1 B show ?thesis
      by (auto simp: ReliabilityDemo_loop_def ReliabilityDemo_retryWait_def rd_turn_def rd_good_def intro: rd_spec.stay)
  next
    case True
    then have e: "ReliabilityDemo_enter os RdConnect (s\<lparr>rd_plc := plc1\<rparr>) net2 = (s', net')"
      using run p m c by (simp add: ReliabilityDemo_loop_def ReliabilityDemo_retryWait_def)
    have "plc_inv plc1 net'"
      using PlcClient_connect_inv [OF I1 c] plc_inv_only_os rd_enter [OF e] by blast
    with rd_enter [OF e] r B p show ?thesis
      by (simp add: rd_turn_def rd_good_def rd_taken_def plc_keeps_def rd_spec.again)
  qed
qed

end
