(* ===== verification/ReliabilityProperties.thy ===== *)
theory ReliabilityProperties
  imports ReliabilityDemo
begin

text \<open>
  What \<open>ReliabilityDemo\<close> does: it is safe, it exhausts the pool and gives it back in every cycle, and
  the disconnect it announces is never told.
\<close>

lemma rd_loop_turn:
  assumes "socket_contract os" and "rd_good s net" and "ReliabilityDemo_loop os eth serial s net = (s', net')"
  shows "rd_turn s net s' net'"
proof (cases "rd_phase s")
  case RdExhaust
  then show ?thesis by (rule rd_exhaust_turn [OF assms(2) _ assms(3)])
next
  case RdDisconnect
  then show ?thesis by (rule rd_disconnect_turn [OF assms(2) _ assms(3)])
next
  case RdRetryWait
  then show ?thesis by (rule rd_retryWait_turn [OF assms(2) _ assms(3)])
qed (rule rd_connect_turn [OF assms(1,2) _ assms(3)] rd_read_turn [OF assms(1,2) _ assms(3)]
      rd_abort_turn [OF assms(1,2) _ assms(3)], assumption)+

lemma rd_good_world: "rd_good s (net\<lparr>net_os := w\<rparr>) = rd_good s net"
proof -
  have o: "only_os net (net\<lparr>net_os := w\<rparr>)"
    by (simp add: only_os_def)
  show ?thesis
    using plc_inv_only_os [OF o] plc_startable_only_os [OF o] by (simp add: rd_good_def split: ReliabilityPhase.split)
qed

lemma rd_reach_good:
  assumes "socket_contract os" and "rd_good s0 net0"
    and "sketch_reach (ReliabilityDemo_loop os eth serial) s0 net0 s net"
  shows "rd_good s net"
  using assms(3)
proof (induction rule: sketch_reach.induct)
  case (turn s net s' net')
  with rd_loop_turn [OF assms(1)] show ?case
    by (auto simp: rd_turn_def)
next
  case (world s net w)
  then show ?case
    by (simp add: rd_good_world)
qed (rule assms(2))

lemma ReliabilityDemo_setup_good:
  assumes "plc_fresh plc" and "\<not> net_fault net"
    and run: "ReliabilityDemo_setup os eth serial phy (ReliabilityDemo_new plc) net = (s, net')"
  shows "rd_good s net'"
proof -
  let ?cfg = "(Config_default phy)\<lparr>cfg_ip := LOCAL_IP, cfg_gateway := LOCAL_GATEWAY,
      cfg_subnet := LOCAL_SUBNET, cfg_dns := LOCAL_DNS\<rparr>"
    and ?net = "prints serial (RlVersion version) net"
    and ?plc = "PlcClient_setStateCallback (Some 2) 0 (PlcClient_setTagCallback (Some 1) 0 plc)"
  obtain st plc1 net1 where b: "PlcClient_begin eth ?cfg ?plc ?net = (st, plc1, net1)"
    by (metis prod_cases3)
  obtain st2 plc2 net2 where c: "PlcClient_connect os TARGET_IP TARGET_PORT CONNECT_TIMEOUT_MS plc1 net1 =
      (st2, plc2, net2)"
    by (metis prod_cases3)
  obtain now net3 where m: "millis os net2 = (now, net3)" by fastforce
  have "plc_pool ?plc = plc_pool plc"
    by (rule plc_pool_cong) (simp_all add: PlcClient_setStateCallback_def PlcClient_setTagCallback_def)
  then have "plc_inv ?plc ?net"
    using plc_fresh_inv [OF assms(1,2)]
    by (simp add: prints_def plc_inv_def PlcClient_setStateCallback_def PlcClient_setTagCallback_def)
  then have "plc_inv plc2 net3"
    using PlcClient_connect_inv [OF PlcClient_begin_inv [OF _ b] c] millis_fault [OF m]
    by (blast intro: plc_inv_net)
  moreover have "plc_inUse plc2 = plc_inUse plc" "plc_msg plc2 = plc_msg plc"
    using PlcClient_connect_rises [OF c] b
    by (auto simp: plc_keeps_def PlcClient_begin_def PlcClient_setStateCallback_def PlcClient_setTagCallback_def Let_def
        split: prod.splits)
  moreover have "plc_inUse plc = replicate 8 False"
    using assms(1) by (auto simp: plc_fresh_def PlcClient_new_def)
  ultimately show ?thesis
    using run b c m PlcClient_connect_rises [OF c] plc_fresh_idle [OF assms(1)]
    by (auto simp: ReliabilityDemo_setup_def ReliabilityDemo_new_def rd_good_def rd_taken_def Let_def)
qed

subsection \<open>Safety\<close>

text \<open>
  C19. The reliability sketch is safe. From a client just constructed, after \<open>setup()\<close>, any number of
  turns with its callbacks printing from within the polls, and anything the network does: the
  invariant of the client holds, no access leaves its buffer, the pointer of the tag is not null when
  it is used, and a turn is a step of the state machine. Whatever went wrong in a cycle, the next one
  starts with an empty pool.
\<close>

theorem ReliabilityDemo_runs:
  assumes "socket_contract os" and "plc_fresh plc" and "\<not> net_fault net"
    and "ReliabilityDemo_setup os eth serial phy (ReliabilityDemo_new plc) net = (s0, net0)"
    and "sketch_reach (ReliabilityDemo_loop os eth serial) s0 net0 s net1"
    and "ReliabilityDemo_loop os eth serial s net1 = (s', net2)"
  shows "plc_inv (rd_plc s) net1 \<and> \<not> net_fault net2 \<and>
    (if rd_phase s \<in> {RdRead, RdAbort} then PlcClient_tag (rd_tag s) (rd_plc s) \<noteq> None
     else \<not> PlcClient_anyTagBusy (rd_plc s)) \<and>
    (rd_phase s \<in> {RdConnect, RdRetryWait} \<longrightarrow> PlcClient_tagCount (rd_plc s) = 0) \<and>
    rd_spec (rd_phase s) (rd_phase s')"
proof -
  have G: "rd_good s net1"
    using rd_reach_good [OF assms(1) ReliabilityDemo_setup_good [OF assms(2-4)] assms(5)] .
  then have P: "plc_pool (rd_plc s)" "plc_inv (rd_plc s) net1"
    by (simp_all add: rd_good_def plc_inv_def)
  have t: "rd_turn s net1 s' net2"
    by (rule rd_loop_turn [OF assms(1) G assms(6)])
  have "PlcClient_tag (rd_tag s) (rd_plc s) \<noteq> None" if "rd_phase s \<in> {RdRead, RdAbort}"
    using that G by (auto simp: rd_good_def plc_flying_def PlcClient_tag_def)
  moreover have "\<not> PlcClient_anyTagBusy (rd_plc s)" if "rd_phase s \<notin> {RdRead, RdAbort}"
    using that G plc_idle_free [OF P(1)] by (cases "rd_phase s") (auto simp: rd_good_def plc_startable_def)
  moreover have "PlcClient_tagCount (rd_plc s) = 0" if "rd_phase s \<in> {RdConnect, RdRetryWait}"
    using that G by (auto simp: rd_good_def rd_taken_def PlcClient_tagCount_def foldl_count)
  ultimately show ?thesis
    using t P(2) by (auto simp: rd_turn_def rd_good_def plc_inv_def)
qed

theorem ReliabilityDemo_runs_witness:
  "\<exists>s0 net0. ReliabilityDemo_setup loopback_os demo_eth (\<lambda>l w. w) 0 (ReliabilityDemo_new demo_new) (loopback_net 0 []) =
       (s0, net0) \<and>
     \<not> net_fault (snd (ReliabilityDemo_loop loopback_os demo_eth (\<lambda>l w. w) s0 net0))"
proof -
  obtain s0 and net0 :: "loopback net" where s:
    "ReliabilityDemo_setup loopback_os demo_eth (\<lambda>l w. w) 0 (ReliabilityDemo_new demo_new) (loopback_net 0 []) = (s0, net0)"
    by fastforce
  obtain s2 net2 where l: "ReliabilityDemo_loop loopback_os demo_eth (\<lambda>l w. w) s0 net0 = (s2, net2)" by fastforce
  from ReliabilityDemo_runs [OF loopback_socket_contract demo_new_fresh _ s sketch_reach.start l] s l show ?thesis
    by auto
qed

subsection \<open>Exhausting the pool\<close>

lemma rd_exhaust_step:
  assumes "rd_phase s = RdExhaust" and "rd_taken k (rd_plc s)" and "k < 8" and "plc_pool (rd_plc s)"
  obtains plc1 where "ReliabilityDemo_loop os eth serial s net = (s\<lparr>rd_plc := plc1\<rparr>, prints serial (RlCreated (int k) (Suc k)) net)"
    and "rd_taken (Suc k) plc1" and "plc_pool plc1"
    and "pool_map plc1 = (pool_map (rd_plc s))(k \<mapsto> (chars ''TestDint'', 1))"
proof -
  obtain h plc1 where c: "PlcClient_createTag (Some (chars ''TestDint'')) 1 (rd_plc s) = (h, plc1)" by fastforce
  note cr = rd_taken_create [OF assms(2) c]
  have n: "chars ''TestDint'' \<noteq> []" "length (chars ''TestDint'') < 64" "0 \<notin> set (chars ''TestDint'')"
    by (simp_all add: chars_def)
  note pm = createTag_pool_map [OF assms(4) n c]
  have "pool_free (pool_map (rd_plc s)) = Some k"
    using pm cr assms(3) by (auto split: option.splits)
  with pm n have "pool_map plc1 = (pool_map (rd_plc s))(k \<mapsto> (chars ''TestDint'', 1))"
    by simp
  moreover have "plc_pool plc1"
    using PlcClient_createTag_pool [OF assms(4) c] by blast
  ultimately show thesis
    using that [of plc1] cr c assms(1,3) by (simp add: ReliabilityDemo_loop_def ReliabilityDemo_exhaust_def)
qed

lemma rd_exhaust_steps:
  assumes "rd_good s net" and "rd_phase s = RdExhaust" and "rd_taken 0 (rd_plc s)" and "k \<le> 8"
  shows "\<exists>plc1. ((\<lambda>(s, net). ReliabilityDemo_loop os eth serial s net) ^^ k) (s, net) =
      (s\<lparr>rd_plc := plc1\<rparr>, net\<lparr>net_os := fold serial (map (\<lambda>i. RlCreated (int i) (Suc i)) [0..<k]) (net_os net)\<rparr>) \<and>
    rd_good (s\<lparr>rd_plc := plc1\<rparr>)
      (net\<lparr>net_os := fold serial (map (\<lambda>i. RlCreated (int i) (Suc i)) [0..<k]) (net_os net)\<rparr>) \<and>
    rd_taken k plc1 \<and> (\<forall>i < k. pool_map plc1 i = Some (chars ''TestDint'', 1))"
  using assms(4)
proof (induction k)
  case 0
  have "s\<lparr>rd_plc := rd_plc s\<rparr> = s" "net\<lparr>net_os := net_os net\<rparr> = net"
    by simp_all
  with assms show ?case
    by (intro exI [of _ "rd_plc s"]) simp
next
  case (Suc k)
  let ?n = "\<lambda>k. net\<lparr>net_os := fold serial (map (\<lambda>i. RlCreated (int i) (Suc i)) [0..<k]) (net_os net)\<rparr>"
  obtain plc1 where r: "((\<lambda>(s, net). ReliabilityDemo_loop os eth serial s net) ^^ k) (s, net) = (s\<lparr>rd_plc := plc1\<rparr>, ?n k)"
    and G: "rd_good (s\<lparr>rd_plc := plc1\<rparr>) (?n k)"
    and t: "rd_taken k plc1" "\<forall>i < k. pool_map plc1 i = Some (chars ''TestDint'', 1)"
    using Suc by auto
  have P: "plc_pool plc1"
    using G by (simp add: rd_good_def plc_inv_def)
  obtain plc2 where l: "ReliabilityDemo_loop os eth serial (s\<lparr>rd_plc := plc1\<rparr>) (?n k) =
      ((s\<lparr>rd_plc := plc1\<rparr>)\<lparr>rd_plc := plc2\<rparr>, prints serial (RlCreated (int k) (Suc k)) (?n k))"
    and t2: "rd_taken (Suc k) plc2" "pool_map plc2 = (pool_map plc1)(k \<mapsto> (chars ''TestDint'', 1))"
    by (rule rd_exhaust_step [of "s\<lparr>rd_plc := plc1\<rparr>" k]) (use assms(2) t P Suc.prems in simp_all)
  have e: "prints serial (RlCreated (int k) (Suc k)) (?n k) = ?n (Suc k)"
    by (simp add: prints_def)
  have "rd_good (s\<lparr>rd_plc := plc2\<rparr>) (?n (Suc k))"
    using rd_exhaust_turn [OF G _ l [unfolded e]] assms(2) by (simp add: rd_turn_def)
  then show ?case
    using r l t t2 e by (intro exI [of _ plc2]) (auto simp: less_Suc_eq)
qed

text \<open>
  C32. The pool holds exactly eight tags. Once connected, the sketch creates the handles 0 to 7 in
  order, one a turn, and prints each with the count so far; all hold the name and the count asked
  for. The ninth turn gets \<open>NoMemory\<close>, which changes nothing, and starts the read of handle 0.
\<close>

theorem ReliabilityDemo_exhausts:
  assumes "rd_good s net" and "rd_phase s = RdExhaust" and "PlcClient_tagCount (rd_plc s) = 0"
    and "((\<lambda>(s, net). ReliabilityDemo_loop os eth serial s net) ^^ 8) (s, net) = (s8, net8)"
    and "ReliabilityDemo_loop os eth serial s8 net8 = (s9, net9)"
  shows "net8 = net\<lparr>net_os := fold serial (map (\<lambda>i. RlCreated (int i) (Suc i)) [0..<8]) (net_os net)\<rparr> \<and>
    rd_phase s8 = RdExhaust \<and> (\<forall>i < 8. pool_map (rd_plc s8) i = Some (chars ''TestDint'', 1)) \<and>
    PlcClient_createTag (Some (chars ''TestDint'')) 1 (rd_plc s8) = (Status_code NoMemory, rd_plc s8) \<and>
    rd_phase s9 = RdRead \<and> rd_tag s9 = 0 \<and> PlcClient_tagStatus 0 (rd_plc s9) = Pending \<and>
    PlcClient_tagCount (rd_plc s9) = 8"
proof -
  obtain k where S: "plc_startable (rd_plc s) net" and K: "rd_taken k (rd_plc s)" and I: "plc_inv (rd_plc s) net"
    using assms(1,2) by (auto simp: rd_good_def)
  have "k = 0"
    using K assms(3) by (simp add: rd_taken_def PlcClient_tagCount_def foldl_count)
  then have K0: "rd_taken 0 (rd_plc s)"
    using K by simp
  obtain plc1 where s8: "s8 = s\<lparr>rd_plc := plc1\<rparr>"
      "net8 = net\<lparr>net_os := fold serial (map (\<lambda>i. RlCreated (int i) (Suc i)) [0..<8]) (net_os net)\<rparr>"
    and G8: "rd_good s8 net8"
    and t: "rd_taken 8 plc1" "\<forall>i < 8. pool_map plc1 i = Some (chars ''TestDint'', 1)"
    using rd_exhaust_steps [OF assms(1,2) K0, of 8 os eth serial] assms(4) by auto
  obtain h plc2 where c: "PlcClient_createTag (Some (chars ''TestDint'')) 1 plc1 = (h, plc2)" by fastforce
  have cr: "h = Status_code NoMemory" "plc2 = plc1" "PlcClient_tagCount plc1 = 8"
    using rd_taken_create [OF t(1) c] by simp_all
  let ?n = "prints serial (RlExhausted h (PlcClient_tagCount plc1)) net8"
  obtain st plc3 net3 where r: "PlcClient_read os 0 TAG_TIMEOUT_MS plc1 ?n = (st, plc3, net3)"
    by (metis prod_cases3)
  have e: "ReliabilityDemo_enter os RdRead (s8\<lparr>rd_plc := plc3, rd_tag := 0\<rparr>) net3 = (s9, net9)"
    using assms(2,5) s8(1) c cr r by (simp add: ReliabilityDemo_loop_def ReliabilityDemo_exhaust_def Let_def)
  have "rd_good s9 net9"
    using rd_exhaust_turn [OF G8 _ assms(5)] s8(1) assms(2) by (simp add: rd_turn_def)
  with rd_enter [OF e] have "PlcClient_tagStatus 0 (rd_plc s9) = Pending"
    using plc_flying_status by (simp add: rd_good_def)
  moreover have "plc_inUse plc3 = plc_inUse plc1"
    using r by (auto simp: PlcClient_read_def Let_def split: if_splits prod.splits)
  ultimately show ?thesis
    using rd_enter [OF e] s8 t cr c assms(2) by (simp add: PlcClient_tagCount_def del: upt_rec_numeral)
qed

definition demo_rd :: reliability where
  "demo_rd = (ReliabilityDemo_new (demo_plc\<lparr>plc_inUse := replicate 8 False\<rparr>))\<lparr>rd_phase := RdExhaust\<rparr>"

theorem ReliabilityDemo_exhausts_witness:
  "\<exists>s8 net8 s9 net9.
     ((\<lambda>(s, net). ReliabilityDemo_loop loopback_os demo_eth (\<lambda>l w. w) s net) ^^ 8) (demo_rd, loopback_net 0 []) = (s8, net8) \<and>
     ReliabilityDemo_loop loopback_os demo_eth (\<lambda>l w. w) s8 net8 = (s9, net9) \<and>
     rd_tag s9 = 0 \<and> PlcClient_tagCount (rd_plc s9) = 8 \<and> PlcClient_tagStatus 0 (rd_plc s9) = Pending"
proof -
  let ?l = "\<lambda>(s, net). ReliabilityDemo_loop loopback_os demo_eth (\<lambda>l w. w) s net"
  obtain s8 net8 where r8: "(?l ^^ 8) (demo_rd, loopback_net 0 []) = (s8, net8)" by fastforce
  obtain s9 net9 where r9: "ReliabilityDemo_loop loopback_os demo_eth (\<lambda>l w. w) s8 net8 = (s9, net9)" by fastforce
  have "plc_inv (demo_plc\<lparr>plc_inUse := replicate 8 False\<rparr>) (loopback_net 0 [])"
    using demo_plc_inv [of 0 "[]"] by (simp add: plc_inv_def plc_pool_def plc_prev_def)
  then have G: "rd_good demo_rd (loopback_net 0 [])"
    by (auto simp: rd_good_def demo_rd_def ReliabilityDemo_new_def plc_startable_def PlcClient_ready_def
        TcpConnection_connected_def loopback_net_def up_tcp_def rd_taken_def)
  have f: "rd_phase demo_rd = RdExhaust" "PlcClient_tagCount (rd_plc demo_rd) = 0"
    by (simp_all add: demo_rd_def ReliabilityDemo_new_def PlcClient_tagCount_def foldl_count)
  from ReliabilityDemo_exhausts [OF G f r8 r9] r8 r9 show ?thesis
    by blast
qed

text \<open>
  C39. The disconnect is never told. The header of the sketch announces a connection-state callback
  on connect and disconnect, and \<open>PlcClient.h\<close> calls it on disconnect (\<open>Closed\<close>); but the client is
  only \<open>Disconnecting\<close> while the sketch waits, and there it is not polled: a turn prints nothing,
  whatever printing does, sends nothing, and leaves the client as it is or starts the next connect,
  which drops the connection.
\<close>

theorem ReliabilityDemo_disconnect_untold:
  assumes "rd_good s net" and "plc_state (rd_plc s) = PlcDisconnecting"
    and "ReliabilityDemo_loop os eth serial s net = (s', net')"
  shows "rd_phase s = RdRetryWait \<and> ReliabilityDemo_loop os eth serial' s net = (s', net') \<and>
    net_sent net' = net_sent net \<and>
    (rd_plc s' = rd_plc s \<or> rd_phase s' = RdConnect \<and> plc_state (rd_plc s') \<noteq> PlcDisconnecting)"
proof -
  have p: "rd_phase s = RdRetryWait"
    using assms(1,2) by (cases "rd_phase s")
      (auto simp: rd_good_def plc_rising_def plc_flying_def plc_startable_def PlcClient_ready_def)
  obtain now net3 where m: "millis os net = (now, net3)" by fastforce
  obtain st plc1 net4 where c: "PlcClient_connect os TARGET_IP TARGET_PORT CONNECT_TIMEOUT_MS (rd_plc s) net3 =
      (st, plc1, net4)"
    by (metis prod_cases3)
  have sent: "net_sent net3 = net_sent net" "net_sent net4 = net_sent net3"
    using millis_only_os [OF m] PlcClient_connect_sent [OF c] by (simp_all add: only_os_def)
  have "plc_state plc1 \<noteq> PlcDisconnecting"
    using PlcClient_connect_rises [OF c] by (auto simp: plc_rising_def)
  with assms(3) p m c sent show ?thesis
    by (auto simp: ReliabilityDemo_loop_def ReliabilityDemo_retryWait_def only_os_def
        dest!: ReliabilityDemo_enter_simp millis_only_os split: if_splits)
qed

theorem ReliabilityDemo_disconnect_untold_witness:
  "\<exists>s net s' net'. plc_state (rd_plc s) = PlcDisconnecting \<and>
     (\<forall>serial. ReliabilityDemo_loop loopback_os demo_eth serial s net = (s', net')) \<and> net_sent net' = net_sent net"
proof -
  let ?s = "(ReliabilityDemo_new demo_plc)\<lparr>rd_phase := RdDisconnect\<rparr>" and ?n = "loopback_net 0 []"
  obtain s1 net1 where r: "ReliabilityDemo_loop loopback_os demo_eth (\<lambda>l w. w) ?s ?n = (s1, net1)" by fastforce
  have G0: "rd_good ?s ?n"
    by (simp add: rd_good_def ReliabilityDemo_new_def demo_plc_inv)
  from rd_loop_turn [OF loopback_socket_contract G0 r] have G: "rd_good s1 net1"
    by (simp add: rd_turn_def)
  have P: "plc_pool demo_plc"
    using demo_plc_inv [of 0 "[]"] by (simp add: plc_inv_def)
  let ?f = "fold (\<lambda>i plc. snd (PlcClient_destroyTag (int i) plc)) [0..<8] demo_plc"
  have "plc_state ?f = PlcReady"
    using destroy_all [OF P, of "[0..<8]"] by simp
  then have d: "plc_state (rd_plc s1) = PlcDisconnecting"
    using r by (auto simp: ReliabilityDemo_loop_def ReliabilityDemo_new_def ReliabilityDemo_disconnect_def
        PlcClient_disconnect_def Let_def dest!: rd_enter simp del: upt_rec_numeral split: prod.splits)
  obtain s2 net2 where r2: "ReliabilityDemo_loop loopback_os demo_eth (\<lambda>l w. w) s1 net1 = (s2, net2)" by fastforce
  have "ReliabilityDemo_loop loopback_os demo_eth serial s1 net1 = (s2, net2) \<and> net_sent net2 = net_sent net1" for serial
    using ReliabilityDemo_disconnect_untold [OF G d r2, of serial] by blast
  with d show ?thesis
    by blast
qed

end
