(* ===== verification/Layers.thy ===== *)
theory Layers
  imports ConnectionProperties TagProperties EthClient
begin

text \<open>
  Properties of single layers under the client: the parsers of the two kinds of reply against their
  reference, the well-formedness of a tag across all its operations, and a corner of the TCP
  connection.
\<close>

subsection \<open>The parsers\<close>

text \<open>
  C12. The two parsers that walk the receive buffer in place, of \<open>ExplicitMessage\<close> and of
  \<open>Connection\<close>, compute the same as the reference parsers, which decode the packet into its list of
  items: they fail on the same packets, and then change nothing; otherwise the service, the status
  and the data behind the pointer and the length they leave are those of the reference.
\<close>

theorem parsers_equivalent:
  assumes "em_buffers m" and "24 \<le> em_rxLen m" and "ExplicitMessage_parseResponse m = (st, m')"
    and "cn_buffers n" and "24 \<le> cn_rxLen n" and "Connection_parseConnectedResponse n = (st2, n')"
  shows "(case rr_parse (em_sentContext m) (take (em_rxLen m) (em_rx m)) of
      None \<Rightarrow> st = Error \<and> m' = m
    | Some r \<Rightarrow> st = Ok \<and>
        r = (em_replyService m', em_resultCode m', take (em_dataLen m') (ExplicitMessage_data m'))) \<and>
   (case ud_parse (cn_sentContext n) (cn_toConnId n) (cn_sentSequence n) (take (cn_rxLen n) (cn_rx n)) of
      None \<Rightarrow> st2 = Error \<and> n' = n
    | Some r \<Rightarrow> st2 = Ok \<and>
        r = (cn_replyService n', cn_resultCode n', take (cn_dataLen n') (Connection_data n')))"
proof (intro conjI)
  show "case rr_parse (em_sentContext m) (take (em_rxLen m) (em_rx m)) of
      None \<Rightarrow> st = Error \<and> m' = m
    | Some r \<Rightarrow> st = Ok \<and>
        r = (em_replyService m', em_resultCode m', take (em_dataLen m') (ExplicitMessage_data m'))"
    using ExplicitMessage_parseResponse_spec [OF assms(1,2)] assms(3)
    by (auto simp: ExplicitMessage_data_def subbuf_def split: option.splits)
  show "case ud_parse (cn_sentContext n) (cn_toConnId n) (cn_sentSequence n) (take (cn_rxLen n) (cn_rx n)) of
      None \<Rightarrow> st2 = Error \<and> n' = n
    | Some r \<Rightarrow> st2 = Ok \<and>
        r = (cn_replyService n', cn_resultCode n', take (cn_dataLen n') (Connection_data n'))"
    using Connection_parseConnectedResponse_spec [OF assms(4,5)] assms(6)
    by (auto simp: Connection_data_def subbuf_def split: option.splits)
qed

definition demo_received :: explicit_message where
  "demo_received = demo_message\<lparr>em_rx := demo_result @ replicate (296 - length demo_result) 0,
     em_rxLen := length demo_result, em_rxExpected := length demo_result, em_sentContext := 1\<rparr>"

theorem parsers_equivalent_witness:
  "fst (ExplicitMessage_parseResponse demo_received) = Ok \<and>
   em_resultCode (snd (ExplicitMessage_parseResponse demo_received)) = 0 \<and>
   fst (Connection_parseConnectedResponse (demo_cn\<lparr>cn_rxLen := 24, cn_rxExpected := 24\<rparr>)) = Error"
proof -
  let ?n = "demo_cn\<lparr>cn_rxLen := 24, cn_rxExpected := 24\<rparr>"
  obtain st m' where p: "ExplicitMessage_parseResponse demo_received = (st, m')" by fastforce
  obtain st2 n' where q: "Connection_parseConnectedResponse ?n = (st2, n')" by fastforce
  have len: "length demo_result = 50" "24 \<le> length demo_result"
    by (simp_all add: demo_result_def rr_reply_def rr_packet_def cpf_bytes_def)
  have B: "em_buffers demo_received"
    using demo_message_inv len
    by (auto simp: demo_received_def em_inv_def em_buffers_def rx_wf_def)
  have B2: "cn_buffers ?n"
    by (simp add: cn_buffers_def demo_cn_def Connection_new_def rx_wf_def)
  have r: "rr_parse (em_sentContext demo_received) (take (em_rxLen demo_received) (em_rx demo_received)) =
      Some (0xCC, 0, [0xC3, 0, 1, 2, 3, 4])"
    using demo_result_facts(1) by (simp add: demo_received_def)
  have u: "ud_parse (cn_sentContext ?n) (cn_toConnId ?n) (cn_sentSequence ?n) (take 24 (cn_rx ?n)) = None"
    by (simp add: ud_parse_def demo_cn_def Connection_new_def Let_def)
  from parsers_equivalent [OF B _ p B2 _ q] r u len p q show ?thesis
    by (auto simp: demo_received_def)
qed

subsection \<open>The tag\<close>

text \<open>
  C25. A tag is well formed for good: 256 bytes of data of which at most 256 are in use, whatever is
  called, with any offset and any string, and whatever the network delivers to its polls.
\<close>

theorem Tag_well_formed:
  assumes "tag_inv t" and "em_inv msg" and "socket_contract os" and "sint_range 8 i8" and "sint_range 16 i16"
    and "sint_range 32 i32" and "sint_range 64 i64" and "length f32 = 4" and "length f64 = 8"
    and "Tag_read os c h name n timeoutMs t msg net = (st1, t1, msg1, net1)"
    and "Tag_write os c h name n timeoutMs t msg net = (st2, t2, msg2, net2)"
    and "Tag_poll os t msg net = (st3, t3, msg3, net3)" and "Tag_abort t msg = (t4, msg4)"
    and "u \<in> {Tag_setBool off b t, Tag_setInt8 off i8 t, Tag_setInt16 off i16 t, Tag_setInt32 off i32 t,
      Tag_setInt64 off i64 t, Tag_setUint8 off v8 t, Tag_setUint16 off v16 t, Tag_setUint32 off v32 t,
      Tag_setUint64 off v64 t, Tag_setFloat32 off f32 t, Tag_setFloat64 off f64 t, Tag_setDataType ty t,
      Tag_setString s t, t1, t2, t3, t4}"
  shows "length (tag_data u) = 256 \<and> tag_dataLen u \<le> 256"
proof -
  have str: "tag_inv (Tag_setString s t)" "tag_inv (Tag_setDataType ty t)"
    using assms(1) by (auto simp: Tag_setString_def Tag_setDataType_def tag_inv_def Let_def split: option.splits)
  have ops: "tag_inv t1" "tag_inv t2" "tag_inv t3" "tag_inv t4"
    using Tag_read_started [OF assms(2,10)] Tag_write_started [OF assms(2,1,11)] Tag_poll_inv [OF assms(3,2,1,12)]
      Tag_abort_inv [OF assms(2,1,13)] assms(1) by (simp_all add: tag_started_def)
  have "tag_inv u"
    using assms(14) str ops acc_bool.set_inv [OF assms(1)] acc_int8.set_inv [OF assms(1) assms(4)]
      acc_int16.set_inv [OF assms(1) assms(5)] acc_int32.set_inv [OF assms(1) assms(6)]
      acc_int64.set_inv [OF assms(1) assms(7)] acc_uint8.set_inv [OF assms(1)]
      acc_uint16.set_inv [OF assms(1)] acc_uint32.set_inv [OF assms(1)]
      acc_uint64.set_inv [OF assms(1)] acc_float32.set_inv [OF assms(1) assms(8)]
      acc_float64.set_inv [OF assms(1) assms(9)]
    by (elim insertE emptyE) simp_all
  then show ?thesis
    by (simp add: tag_inv_def)
qed

theorem Tag_well_formed_witness:
  "length (tag_data (Tag_setString (Some (replicate 300 1)) demo_tag)) = 256 \<and>
   tag_dataLen (Tag_setString (Some (replicate 300 1)) demo_tag) \<le> 256"
proof -
  let ?n = "loopback_net 0 []"
  obtain st1 t1 msg1 net1 where r: "Tag_read loopback_os 0 9 None 1 0 demo_tag demo_message ?n = (st1, t1, msg1, net1)"
    by (metis prod_cases4)
  obtain st2 t2 msg2 net2 where w: "Tag_write loopback_os 0 9 None 1 0 demo_tag demo_message ?n = (st2, t2, msg2, net2)"
    by (metis prod_cases4)
  obtain st3 t3 msg3 net3 where p: "Tag_poll loopback_os demo_tag demo_message ?n = (st3, t3, msg3, net3)"
    by (metis prod_cases4)
  obtain t4 msg4 where a: "Tag_abort demo_tag demo_message = (t4, msg4)" by fastforce
  have s: "sint_range 8 0" "sint_range 16 0" "sint_range 32 0" "sint_range 64 0" "length (replicate 4 (0::byte)) = 4"
    "length (replicate 8 (0::byte)) = 8"
    by (simp_all add: sint_range_def)
  show ?thesis
    by (rule Tag_well_formed [OF demo_tag_inv demo_message_inv loopback_socket_contract s r w p a,
          where s = "Some (replicate 300 1)" and off = 0 and b = True and ?v8.0 = 0 and ?v16.0 = 0 and ?v32.0 = 0
            and ?v64.0 = 0 and ty = 0]) simp
qed

subsection \<open>The TCP connection\<close>

text \<open>
  C36. A connection that the peer has closed comes back to life. A read that finds the end of the
  stream reports \<open>Closed\<close> and the connection is no longer connected, but the socket stays open: the
  next \<open>poll()\<close> takes it for one whose connect has just finished, since a socket closed by the peer
  is writable and has no error, and reports \<open>Ok\<close> on a connected connection again.
\<close>

theorem TcpConnection_poll_revives:
  assumes "TcpConnection_connected c net" and "0 \<le> tcp_fd (net_tcp net c)" and "0 < len"
    and "TcpConnection_read os c False len net = ((Status_code Closed, bs), net1)"
    and "sys (os_select_writable os (tcp_fd (net_tcp net c))) (net1\<lparr>net_os := w\<rparr>) = (rc, net2)" and "0 < rc"
    and "sys (os_so_error os (tcp_fd (net_tcp net c))) net2 = ((rc2, 0), net3)" and "0 \<le> rc2"
    and "TcpConnection_poll os c (net1\<lparr>net_os := w\<rparr>) = (st, net4)"
  shows "\<not> TcpConnection_connected c net1 \<and> st = Ok \<and> TcpConnection_connected c net4"
proof -
  have r: "tcp_state (net_tcp net1 c) = Closed" "tcp_fd (net_tcp net1 c) = tcp_fd (net_tcp net c)"
    using assms(1-4)
    by (auto simp: TcpConnection_read_def TcpConnection_connected_def put_tcp_def Let_def dest: sys_net
        split: recv_result.splits if_splits prod.splits)
  with assms(2,5-9) show ?thesis
    by (auto simp: TcpConnection_poll_def TcpConnection_connected_def put_tcp_def Let_def)
qed

text \<open>A world in which the peer has closed.\<close>

definition closing_os :: "loopback os" where
  "closing_os = loopback_os\<lparr>os_recv := (\<lambda>fd len w. (Received [], w))\<rparr>"

theorem TcpConnection_poll_revives_witness:
  "\<exists>net1 net2. TcpConnection_read closing_os 0 False 10 (loopback_net 0 []) = ((-1, []), net1) \<and>
     \<not> TcpConnection_connected 0 net1 \<and> TcpConnection_poll closing_os 0 net1 = (Ok, net2) \<and>
     TcpConnection_connected 0 net2"
proof -
  obtain net1 where r: "TcpConnection_read closing_os 0 False 10 (loopback_net 0 []) = ((Status_code Closed, []), net1)"
    by (simp add: TcpConnection_read_def closing_os_def sys_def)
  let ?n = "net1\<lparr>net_os := net_os net1\<rparr>"
  obtain st net2 where p: "TcpConnection_poll closing_os 0 ?n = (st, net2)" by fastforce
  have s: "sys (os_select_writable closing_os (tcp_fd (net_tcp (loopback_net 0 []) 0))) ?n = (1, ?n)"
    "sys (os_so_error closing_os (tcp_fd (net_tcp (loopback_net 0 []) 0))) ?n = ((0, 0), ?n)"
    by (simp_all add: sys_def closing_os_def)
  from TcpConnection_poll_revives [OF loopback_connected _ _ r s(1) _ s(2) _ p] r p show ?thesis
    by simp
qed

end
