(* ===== verification/Spec2Isabelle.thy ===== *)
theory Spec2Isabelle
  imports PlcCallbacks ConnectionProperties LanEnds LateReply EipSession IdentityQuery TagReadWrite ConnectedTagReadWrite
    PlcDemoProperties ReliabilityProperties Layers
begin

text \<open>
  A verification development for ESP32-ControlLogix, a non-blocking EtherNet/IP and CIP client for
  the ESP32. All of the library under \<open>src/src\<close> is modelled, and all the sketches that use it; each
  definition has the name of the C++ function it translates, with the class or the sketch as a prefix.

  \<^bold>\<open>The program and its parts.\<close> A sketch drives everything from its loop: a call starts an
  operation and returns \<open>Pending\<close>, and \<open>poll()\<close> advances it; no call waits. From the
  bottom: \<open>transport/TcpConnection\<close> is one non-blocking socket; \<open>eip/Encapsulation\<close> reads
  and writes little-endian fields and the 24-byte header; \<open>eip/Session\<close> registers and
  unregisters a session; \<open>cip/ExplicitMessage\<close> carries one unconnected CIP request
  (SendRRData); \<open>cip/Connection\<close> opens a connection with a Forward Open through an explicit
  message of its own, carries connected requests (SendUnitData), and closes it with a Forward Close;
  \<open>tag/Tag\<close> reads and writes one symbolic tag through an explicit message it is given;
  \<open>transport/Client\<close> brings the Ethernet interface up; \<open>PlcClient\<close> puts an Ethernet client,
  a socket, a session, one message and a pool of eight tags behind one interface and calls the
  sketch back. The sketches under \<open>examples\<close> are programs on top of them: \<open>LanInventory\<close> scans the
  subnet and reports every device that answers; \<open>EipSession\<close>, \<open>IdentityQuery\<close>, \<open>TagReadWrite\<close> and
  \<open>ConnectedTagReadWrite\<close> connect, open a session, do their work and close it, over and over;
  \<open>PlcClientDemo\<close> reads, writes and verifies a tag through \<open>PlcClient\<close>, and \<open>ReliabilityDemo\<close> fills
  its pool of tags, aborts a read and disconnects, with both callbacks set.

  \<^bold>\<open>Theories.\<close>
  \<^item> \<open>Prelude\<close>: bytes and buffers (\<open>poke\<close>, \<open>subbuf\<close>), C strings, and the wrap-around
    deadline test \<open>expired\<close> that every \<open>poll()\<close> uses.
  \<^item> \<open>Status\<close> (\<open>transport/Status.h\<close>), \<open>Encapsulation\<close> (\<open>eip/Encapsulation.*\<close>),
    \<open>Cip\<close> (\<open>cip/Cip.h\<close>): the codes, the codecs and the path segments, with their round trips.
  \<^item> \<open>Framing\<close>: the write and read loops that \<open>Session\<close>, \<open>ExplicitMessage\<close> and
    \<open>Connection\<close> each hold a copy of, with their rules over any byte channel (locales
    \<open>channel_invariant\<close>, \<open>channel\<close>, \<open>delivering_channel\<close>).
  \<^item> \<open>TcpConnection\<close> (\<open>transport/TcpConnection.*\<close>): the socket state machine, and the
    interpretations of those locales on it. \<open>Loopback\<close>: a concrete world for the examples.
  \<^item> \<open>Session\<close> (\<open>eip/Session.*\<close>): operations, invariant, abstract machine, properties.
  \<^item> \<open>Cpf\<close>: the packet format as a specification (\<open>cpf_decode\<close>, \<open>rr_parse\<close>, \<open>ud_parse\<close>)
    and the lemmas that tie an offset loop over a buffer to it.
  \<^item> \<open>ExplicitMessage\<close>, \<open>LateReply\<close> (\<open>cip/ExplicitMessage.*\<close>): operations, invariant and exchanges;
    exchanges after one whose reply came too late.
  \<^item> \<open>Connection\<close>, \<open>ConnectionSteps\<close>, \<open>ConnectionProperties\<close> (\<open>cip/Connection.*\<close>):
    operations and parsing; what each call does and the invariant; the properties.
  \<^item> \<open>Carrier\<close>: the contract between a message and the clients that share it (locales
    \<open>carrier\<close>, \<open>carrier_client\<close>). \<open>Tag\<close>, \<open>TagProperties\<close> (\<open>tag/Tag.*\<close>), which interprets
    them for the message and the tag.
  \<^item> \<open>EthClient\<close> (\<open>transport/Client.*\<close>).
  \<^item> \<open>PlcClient\<close>, \<open>PlcInv\<close>, \<open>PlcReady\<close>, \<open>PlcProperties\<close>, \<open>PlcLife\<close>, \<open>PlcCallbacks\<close>
    (\<open>PlcClient.*\<close>): operations; the invariant of the pool and of the phases; polls of a quiet
    pool; reads, writes and the pool as a finite map; the lifecycle; flight and callbacks.
  \<^item> \<open>LanInventory\<close>, \<open>LanProperties\<close>, \<open>LanEnds\<close> (\<open>examples/LanInventory/LanInventory.ino\<close>): the globals
    of the sketch as a record, \<open>setup()\<close> and each phase of \<open>loop()\<close>; the abstract scanner and what
    is reported; that a scan ends, by a rank that every turn due lowers.
  \<^item> \<open>Alive\<close>: what an \<open>Ok\<close> says of the connection under it, for every object that reads from one
    (locale \<open>live_channel\<close>).
  \<^item> \<open>Sketch\<close>: the globals and phases that four of the sketches share, their invariant and life cycle,
    proved once for any working phase (locale \<open>sketch_client\<close>). \<open>EipSession\<close>, \<open>IdentityQuery\<close>,
    \<open>TagReadWrite\<close>, \<open>ConnectedTagReadWrite\<close> (the \<open>.ino\<close> of that name) interpret it, each with its
    own globals, working phase and properties.
  \<^item> \<open>PlcSketch\<close> (and \<open>ESP32ControlLogix.cpp\<close>, the version): what the sketches over \<open>PlcClient\<close> rely on, for callbacks that only tell the world
    something (\<open>tells\<close>): a client that is connecting (\<open>plc_rising\<close>), one with an operation in flight
    (\<open>plc_flying\<close>), one on which an operation starts (\<open>plc_startable\<close>), and what a poll, a read, a
    write make of each. \<open>PlcClientDemo\<close> with \<open>PlcDemoProperties\<close>, and \<open>ReliabilityDemo\<close> with
    \<open>ReliabilityProperties\<close> (the \<open>.ino\<close> of that name): globals, phases and invariant; properties.
  \<^item> \<open>Layers\<close>: the parsers against their references, the type invariant of a tag, a corner of the
    TCP connection.

  \<^bold>\<open>State and operations.\<close> A class is a record with a field per member, an operation takes the
  record and the outside world and returns the status with the new ones. Sockets live in a store,
  \<open>net\<close>, at addresses (\<open>conn_ref\<close>), as several objects point at one \<open>TcpConnection\<close>; the store
  also has two ghost fields, the bytes each socket has sent and received, and a flag that a null
  pointer was dereferenced. A pointer into a buffer of the object is an offset, a pointer argument is
  \<open>None\<close> when null. Machine integers are words of their width; \<open>size_t\<close> has 32 bits. A buffer
  is a list, and a write outside it makes it longer, so a theorem that a buffer has its length says
  that no write left it. Loops are recursive functions over the items left or the bytes left, which
  terminate; there is no fuel.

  \<^bold>\<open>Parameters and contracts.\<close> The operating system (clock, random generator, sockets) and the
  Ethernet driver are records of functions on an arbitrary world. \<open>socket_contract\<close> says that
  \<open>send\<close> accepts at most what it is given and \<open>recv\<close> stores at most what it is asked for;
  \<open>stream_contract\<close> adds that a healthy socket accepts some bytes and delivers its queue in order,
  and is used for what must happen, never for safety. Between calls the world may change freely: the
  inductive predicates of reachable objects and of runs have a step for it. The callbacks of a
  sketch are functions that may call the client again (\<open>callbacks_ok\<close>).

  \<^bold>\<open>What the theorems show.\<close> Safety: in every reachable state no buffer is overrun, no cursor
  leaves its buffer and no null pointer is used, for any input. Exchanges: an operation that ends
  well has put exactly one packet on the wire, the one the caller's arguments determine, and has
  taken exactly one packet off it, of which the results are a function. Decisions: once the packet is
  there, one poll settles the exchange. Refinement: sessions, connections and clients move as abstract
  state machines do, the inventory is the scanner it means to be, the sketches follow their life
  cycle, and the tag pool is a finite map. Equivalence: the parsers that walk a buffer in place compute
  what those that decode its list of items do. Sketches: what each prints is what the packets it
  received say (with the stale bytes it adds to a value that is too short), each of its steps ends, a scan ends, and from a fresh client each stays safe in every run. Round
  trips and bounds: the typed accessors and strings of a tag. Errors: the statuses and states of
  failures, among them behaviours that the code does not mean to have (a close under an old deadline,
  a late reply, a tag destroyed in flight, a callback that is missed, a connection that cannot be
  closed or that revives, a scan that leaves its subnet, a write or a connect that a sketch tries for
  ever, tags that a sketch leaks, a write it reports and never sent, a disconnect nobody is told of).

  \<^bold>\<open>Not modelled.\<close> The test server under \<open>src/tools\<close>, which is Python. Within the classes: the
  bodies of lwIP, the ETH and SPI drivers, \<open>millis\<close> and \<open>esp_random\<close>, which are parameters. Of the
  sketches: their delays and, but for the two over \<open>PlcClient\<close>, their serial output other than the
  results they report.
\<close>

end
